(* ===== verification/Prelude.thy ===== *)
theory Prelude
  imports Main "HOL-Library.Sublist"
begin

text \<open>
  Shared vocabulary of the development.

  The Go conventions used everywhere: a string is its list of bytes (\<open>string\<close>), a
  \<open>time.Time\<close> is its number of nanoseconds (\<open>int\<close>), an \<open>int64\<close> is an \<open>int\<close> whose
  arithmetic goes through \<open>wrap64\<close> wherever the source could overflow, and an operation
  that returns \<open>(value, error)\<close> returns \<open>err + 'a\<close>.  The byte-string functions of the
  package \<open>strings\<close>, \<open>strconv.ParseInt\<close> and \<open>encoding/hex\<close> that the program calls are
  defined here, with the lemmas the component theories share.
\<close>

section \<open>Collections\<close>

named_theorems guard_defs \<open>definitions of guards and small predicates\<close>
named_theorems op_defs \<open>definitions of state-changing operations\<close>

section \<open>Errors as values\<close>

text \<open>
  The sentinel errors callers compare with \<open>errors.Is\<close>, and one value for each group of
  errors no caller distinguishes.
\<close>

datatype err =
    DbNotFound      \<comment> \<open>\<open>db.ErrNotFound\<close>\<close>
  | DbConflict      \<comment> \<open>\<open>db.ErrConflict\<close>\<close>
  | DbOther         \<comment> \<open>any other database failure\<close>
  | Invalid         \<comment> \<open>rejected argument\<close>
  | NotExist        \<comment> \<open>\<open>fs.ErrNotExist\<close>\<close>
  | IoError         \<comment> \<open>any other file-system failure\<close>
  | Closed          \<comment> \<open>\<open>os.ErrClosed\<close>\<close>
  | Cancelled       \<comment> \<open>\<open>ctx.Err()\<close>\<close>
  | OffsetConflict  \<comment> \<open>\<open>upload.ErrOffset\<close>\<close>
  | TooLarge        \<comment> \<open>\<open>upload.ErrTooLarge\<close>\<close>
  | Incomplete      \<comment> \<open>\<open>upload.ErrIncomplete\<close>\<close>
  | ChecksumBad     \<comment> \<open>\<open>upload.ErrChecksum\<close>\<close>
  | Limited         \<comment> \<open>\<open>limits.ErrLimited\<close>\<close>
  | Forbidden       \<comment> \<open>\<open>archive.ErrForbidden\<close>\<close>

text \<open>What an operation returned, and whether it succeeded.\<close>

fun is_ok :: "'e + 'a \<Rightarrow> bool" where
  "is_ok (Inl _) = False"
| "is_ok (Inr _) = True"

lemma is_ok_iff: "is_ok r \<longleftrightarrow> (\<exists>x. r = Inr x)"
  by (cases r) auto

lemma case_unit_eq [simp]: "(case u of () \<Rightarrow> x) = x"
  by (induct u) (rule unit.case)

text \<open>A chain of early returns fails with the first guard that holds.\<close>

lemma guard_None_iff: "(if b then Some e else r) = None \<longleftrightarrow> \<not> b \<and> r = None"
  by simp

lemma guard_Inr_iff: "(if b then Inl e else r) = Inr x \<longleftrightarrow> \<not> b \<and> r = Inr x"
  by simp

lemma sum_case_Inr_iff:
  "(case r of Inl e \<Rightarrow> Inl (f e) | Inr a \<Rightarrow> g a) = Inr x \<longleftrightarrow> (\<exists>a. r = Inr a \<and> g a = Inr x)"
  by (cases r) auto

lemma option_case_Inr_iff:
  "(case r of None \<Rightarrow> Inl e | Some a \<Rightarrow> g a) = Inr x \<longleftrightarrow> (\<exists>a. r = Some a \<and> g a = Inr x)"
  by (cases r) auto

lemmas early_return = guard_None_iff guard_Inr_iff sum_case_Inr_iff option_case_Inr_iff

section \<open>64-bit arithmetic\<close>

definition wrap64 :: "int \<Rightarrow> int" where
  "wrap64 x = (x + 2 ^ 63) mod 2 ^ 64 - 2 ^ 63"

definition int64 :: "int \<Rightarrow> bool" where
  "int64 x \<longleftrightarrow> - (2 ^ 63) \<le> x \<and> x < 2 ^ 63"

definition max_int64 :: int where
  "max_int64 = 2 ^ 63 - 1"

lemma wrap64_id [simp]: "int64 x \<Longrightarrow> wrap64 x = x"
  by (simp add: wrap64_def int64_def)

lemma int64_wrap64 [simp]: "int64 (wrap64 x)"
  unfolding wrap64_def int64_def
  using pos_mod_bound [of "2 ^ 64" "x + 2 ^ 63"] pos_mod_sign [of "2 ^ 64" "x + 2 ^ 63"]
  by simp

lemma int64_between: "0 \<le> x \<Longrightarrow> x \<le> y \<Longrightarrow> int64 y \<Longrightarrow> int64 x"
  by (simp add: int64_def)

section \<open>Package strings on byte strings\<close>

definition has_prefix :: "string \<Rightarrow> string \<Rightarrow> bool" where
  "has_prefix s p = prefix p s"

definition has_suffix :: "string \<Rightarrow> string \<Rightarrow> bool" where
  "has_suffix s p = suffix p s"

definition trim_prefix :: "string \<Rightarrow> string \<Rightarrow> string" where
  "trim_prefix s p = (if prefix p s then drop (length p) s else s)"

definition trim_suffix :: "string \<Rightarrow> string \<Rightarrow> string" where
  "trim_suffix s p = (if suffix p s then take (length s - length p) s else s)"

text \<open>\<open>strings.Split\<close> and \<open>strings.Join\<close> with a one-byte separator.\<close>

fun split_on :: "char \<Rightarrow> string \<Rightarrow> string list" where
  "split_on c [] = [[]]"
| "split_on c (x # xs) =
     (if x = c then [] # split_on c xs
      else (case split_on c xs of [] \<Rightarrow> [[x]] | w # ws \<Rightarrow> (x # w) # ws))"

fun join :: "char \<Rightarrow> string list \<Rightarrow> string" where
  "join c [] = []"
| "join c [w] = w"
| "join c (w # v # ws) = w @ c # join c (v # ws)"

lemma split_on_not_Nil [simp]: "split_on c s \<noteq> []"
  by (induction s) (auto split: list.splits)

lemma join_split_on [simp]: "join c (split_on c s) = s"
proof (induction s)
  case Nil
  show ?case by simp
next
  case (Cons x xs)
  obtain w ws where w: "split_on c xs = w # ws"
    by (cases "split_on c xs") auto
  with Cons show ?case by (cases ws) auto
qed

lemma split_on_free: "w \<in> set (split_on c s) \<Longrightarrow> c \<notin> set w"
proof (induction s arbitrary: w)
  case Nil
  then show ?case by simp
next
  case (Cons x xs)
  obtain v vs where v: "split_on c xs = v # vs"
    by (cases "split_on c xs") auto
  from Cons.prems v Cons.IH show ?case
    by (auto split: if_splits)
qed

lemma split_on_word: "c \<notin> set w \<Longrightarrow> split_on c w = [w]"
  by (induction w) auto

lemma split_on_append: "c \<notin> set w \<Longrightarrow> split_on c (w @ c # s) = w # split_on c s"
  by (induction w) (auto split: list.splits)

lemma split_on_append_sep: "split_on c (u @ c # v) = split_on c u @ split_on c v"
proof (induction u)
  case Nil
  show ?case by simp
next
  case (Cons x u)
  obtain w ws where "split_on c u = w # ws"
    by (cases "split_on c u") auto
  with Cons show ?case by simp
qed

lemma split_on_join:
  "ws \<noteq> [] \<Longrightarrow> (\<And>w. w \<in> set ws \<Longrightarrow> c \<notin> set w) \<Longrightarrow> split_on c (join c ws) = ws"
  by (induction c ws rule: join.induct) (auto simp: split_on_word split_on_append)

lemma set_split_on: "w \<in> set (split_on c s) \<Longrightarrow> set w \<subseteq> set s"
proof (induction s arbitrary: w)
  case Nil
  then show ?case by simp
next
  case (Cons x xs)
  obtain v vs where v: "split_on c xs = v # vs"
    by (cases "split_on c xs") auto
  from Cons.prems v Cons.IH show ?case
    by (fastforce split: if_splits)
qed

lemma set_join: "set (join c ws) \<subseteq> insert c (\<Union> (set ` set ws))"
  by (induction c ws rule: join.induct) auto

lemma join_Cons: "ws \<noteq> [] \<Longrightarrow> join c (w # ws) = w @ c # join c ws"
  by (cases ws) auto

lemma join_append:
  assumes "us \<noteq> []" and "vs \<noteq> []"
  shows "join c (us @ vs) = join c us @ c # join c vs"
  using assms
proof (induction us rule: list_nonempty_induct)
  case (single u)
  then show ?case by (simp add: join_Cons)
next
  case (cons u us)
  then show ?case by (simp add: join_Cons)
qed

section \<open>Hexadecimal\<close>

definition is_lower_hex_char :: "char \<Rightarrow> bool" where
  "is_lower_hex_char c \<longleftrightarrow> c \<in> set ''0123456789abcdef''"

fun hex_value :: "char \<Rightarrow> nat option" where
  "hex_value c =
     (let n = of_char c :: nat in
      if 48 \<le> n \<and> n \<le> 57 then Some (n - 48)
      else if 97 \<le> n \<and> n \<le> 102 then Some (n - 87)
      else if 65 \<le> n \<and> n \<le> 70 then Some (n - 55)
      else None)"

text \<open>\<open>hex.DecodeString\<close>: an odd length or a non-hex byte is an error.\<close>

fun hex_decode :: "string \<Rightarrow> string option" where
  "hex_decode [] = Some []"
| "hex_decode [_] = None"
| "hex_decode (a # b # s) =
     (case (hex_value a, hex_value b, hex_decode s) of
        (Some x, Some y, Some t) \<Rightarrow> Some (char_of (16 * x + y) # t)
      | _ \<Rightarrow> None)"

definition hex_digit :: "nat \<Rightarrow> char" where
  "hex_digit n = ''0123456789abcdef'' ! n"

fun hex_encode :: "string \<Rightarrow> string" where
  "hex_encode [] = []"
| "hex_encode (c # s) =
     hex_digit (of_char c div 16) # hex_digit (of_char c mod 16) # hex_encode s"

lemma less_16_cases:
  "(n::nat) < 16 \<Longrightarrow> n \<in> {0, 1, 2, 3, 4, 5, 6, 7, 8, 9, 10, 11, 12, 13, 14, 15}"
  by (simp; arith)

lemma hex_value_digit: "n < 16 \<Longrightarrow> hex_value (hex_digit n) = Some n"
  by (drule less_16_cases) (auto simp: hex_digit_def)

lemma hex_digit_lower: "n < 16 \<Longrightarrow> is_lower_hex_char (hex_digit n)"
  by (drule less_16_cases) (auto simp: hex_digit_def is_lower_hex_char_def)

lemma of_char_less_256 [simp]: "of_char c < (256 :: nat)"
  by (cases c) (simp add: of_char_def horner_sum_simps split: if_splits)

lemma hex_decode_encode [simp]: "hex_decode (hex_encode s) = Some s"
proof (induction s)
  case Nil
  show ?case by simp
next
  case (Cons c s)
  have "of_char c div 16 < (16 :: nat)"
    using of_char_less_256 [of c] by linarith
  moreover have "of_char c mod 16 < (16 :: nat)" by simp
  ultimately have "hex_value (hex_digit (of_char c div 16)) = Some (of_char c div 16)"
    and "hex_value (hex_digit (of_char c mod 16)) = Some (of_char c mod 16)"
    by (simp_all only: hex_value_digit)
  with Cons show ?case
    by (simp del: hex_value.simps)
qed

lemma length_hex_encode [simp]: "length (hex_encode s) = 2 * length s"
  by (induction s) auto

lemma hex_encode_lower: "c \<in> set (hex_encode s) \<Longrightarrow> is_lower_hex_char c"
proof (induction s)
  case (Cons d s)
  have "of_char d div 16 < (16 :: nat)"
    using of_char_less_256 [of d] by linarith
  with Cons show ?case by (auto intro: hex_digit_lower)
qed simp

section \<open>Decimal integers\<close>

definition is_digit :: "char \<Rightarrow> bool" where
  "is_digit c \<longleftrightarrow> c \<in> set ''0123456789''"

definition digit_value :: "char \<Rightarrow> nat" where
  "digit_value c = of_char c - 48"

fun digits_value :: "nat \<Rightarrow> string \<Rightarrow> nat option" where
  "digits_value acc [] = Some acc"
| "digits_value acc (c # s) =
     (if is_digit c then digits_value (10 * acc + digit_value c) s else None)"

text \<open>
  \<open>strconv.ParseInt(s, 10, 64)\<close>: an optional sign, then at least one decimal digit, and
  the value must fit in 64 bits.  (Underscores are accepted for base 0 only.)
\<close>

definition parse_unsigned :: "string \<Rightarrow> nat option" where
  "parse_unsigned s = (if s = [] then None else digits_value 0 s)"

definition parse_int64 :: "string \<Rightarrow> int option" where
  "parse_int64 s =
     (case s of
        [] \<Rightarrow> None
      | c # t \<Rightarrow>
          (if c = CHR ''-'' then
             (case parse_unsigned t of
                None \<Rightarrow> None
              | Some n \<Rightarrow> if n \<le> 2 ^ 63 then Some (- int n) else None)
           else
             (case parse_unsigned (if c = CHR ''+'' then t else s) of
                None \<Rightarrow> None
              | Some n \<Rightarrow> if n < 2 ^ 63 then Some (int n) else None)))"

lemma parse_int64_range: "parse_int64 s = Some n \<Longrightarrow> int64 n"
  by (auto simp: parse_int64_def int64_def split: list.splits option.splits if_splits)

lemma parse_int64_nonneg:
  "parse_int64 s = Some n \<Longrightarrow> CHR ''-'' \<notin> set s \<Longrightarrow> 0 \<le> n"
  by (auto simp: parse_int64_def split: list.splits option.splits if_splits)

text \<open>\<open>strconv.Itoa\<close> and \<open>strconv.FormatInt(n, 10)\<close>.\<close>

definition digit_char :: "nat \<Rightarrow> char" where
  "digit_char n = char_of (48 + n)"

fun decimal :: "nat \<Rightarrow> string" where
  "decimal n = (if n < 10 then [digit_char n] else decimal (n div 10) @ [digit_char (n mod 10)])"

declare decimal.simps [simp del]

definition itoa :: "int \<Rightarrow> string" where
  "itoa n = (if n < 0 then CHR ''-'' # decimal (nat (- n)) else decimal (nat n))"

lemma digit_char_value:
  assumes "n < 10"
  shows "is_digit (digit_char n)" and "digit_value (digit_char n) = n"
proof -
  have n: "n \<in> {0, 1, 2, 3, 4, 5, 6, 7, 8, 9}" using assms by auto
  then show "digit_value (digit_char n) = n"
    by (auto simp: digit_value_def digit_char_def)
  from n show "is_digit (digit_char n)"
    unfolding is_digit_def digit_char_def by (elim insertE emptyE) (simp_all add: char_of_def bit_0)
qed

lemma digits_value_append:
  "digits_value a (s @ t) = (case digits_value a s of None \<Rightarrow> None | Some n \<Rightarrow> digits_value n t)"
  by (induction a s rule: digits_value.induct) auto

lemma digits_value_decimal: "digits_value 0 (decimal n) = Some n"
proof (induction n rule: decimal.induct)
  case (1 n)
  then show ?case
    by (cases "n < 10") (simp_all add: decimal.simps [of n] digits_value_append digit_char_value)
qed

lemma decimal_ne [simp]: "decimal n \<noteq> []"
  by (simp add: decimal.simps [of n])

lemma decimal_digits: "c \<in> set (decimal n) \<Longrightarrow> is_digit c"
proof (induction n rule: decimal.induct)
  case (1 n)
  then show ?case
    by (cases "n < 10") (auto simp: decimal.simps [of n] digit_char_value)
qed

lemma parse_itoa:
  assumes "int64 n"
  shows "parse_int64 (itoa n) = Some n"
proof -
  have first: "\<exists>c s. decimal m = c # s \<and> c \<noteq> CHR ''-'' \<and> c \<noteq> CHR ''+''" for m
  proof -
    obtain c s where cs: "decimal m = c # s" using decimal_ne by (cases "decimal m") auto
    then have "is_digit c" using decimal_digits [of c m] by simp
    then have "c \<noteq> CHR ''-'' \<and> c \<noteq> CHR ''+''" by (auto simp: is_digit_def)
    with cs show ?thesis by blast
  qed
  show ?thesis
  proof (cases "n < 0")
    case True
    with assms show ?thesis
      by (simp add: itoa_def parse_int64_def parse_unsigned_def digits_value_decimal int64_def)
  next
    case False
    obtain c s where cs: "decimal (nat n) = c # s" "c \<noteq> CHR ''-''" "c \<noteq> CHR ''+''"
      using first by blast
    moreover have "digits_value 0 (c # s) = Some (nat n)" using digits_value_decimal [of "nat n"] cs(1) by simp
    ultimately show ?thesis using False assms
      by (simp add: itoa_def parse_int64_def parse_unsigned_def int64_def del: digits_value.simps)
  qed
qed

section \<open>Transition systems\<close>

text \<open>
  The contract every state machine of the program shares: an invariant that holds
  initially and is kept by each step holds in every state a run reaches.
\<close>

inductive run :: "('s \<Rightarrow> 's \<Rightarrow> bool) \<Rightarrow> 's \<Rightarrow> 's \<Rightarrow> bool" for step where
  run_refl: "run step s s"
| run_step: "run step s t \<Longrightarrow> step t u \<Longrightarrow> run step s u"

lemma run_trans: "run step t u \<Longrightarrow> run step s t \<Longrightarrow> run step s u"
  by (induction rule: run.induct) (auto intro: run.intros)

locale invariant_system =
  fixes step :: "'s \<Rightarrow> 's \<Rightarrow> bool"
    and inv :: "'s \<Rightarrow> bool"
  assumes step_inv: "inv s \<Longrightarrow> step s t \<Longrightarrow> inv t"
begin

lemma run_inv:
  assumes "run step s t" and "inv s"
  shows "inv t"
  using assms
proof (induction rule: run.induct)
  case (run_refl s)
  then show ?case .
next
  case (run_step s t u)
  then show ?case by (blast intro: step_inv)
qed

end

end
