(* ===== verification/GoText.thy ===== *)
theory GoText
  imports Prelude
begin

text \<open>
  The Unicode side of Go strings: \<open>utf8.DecodeRune\<close> and what the program builds on it
  (\<open>utf8.ValidString\<close>, \<open>range\<close> over a string, \<open>unicode.IsControl\<close>, \<open>strings.TrimSpace\<close>,
  \<open>strings.ToLower\<close>, \<open>strings.EqualFold\<close>).  Bytes are numbers below 256 here.
\<close>

section \<open>UTF-8 decoding\<close>

type_synonym rune = nat

definition rune_error :: rune where
  "rune_error = 65533"

definition cont_byte :: "nat \<Rightarrow> bool" where
  "cont_byte b \<longleftrightarrow> 128 \<le> b \<and> b \<le> 191"

text \<open>The accept ranges of the second byte, by first byte (\<open>acceptRanges\<close> of package utf8).\<close>

definition second_ok :: "nat \<Rightarrow> nat \<Rightarrow> bool" where
  "second_ok b0 b1 \<longleftrightarrow>
     (if b0 = 224 then 160 \<le> b1 \<and> b1 \<le> 191
      else if b0 = 237 then 128 \<le> b1 \<and> b1 \<le> 159
      else if b0 = 240 then 144 \<le> b1 \<and> b1 \<le> 191
      else if b0 = 244 then 128 \<le> b1 \<and> b1 \<le> 143
      else cont_byte b1)"

text \<open>The first rune of a string and its width; \<open>(rune_error, 1)\<close> on an invalid sequence.\<close>

fun decode_rune :: "nat list \<Rightarrow> rune \<times> nat" where
  "decode_rune [] = (rune_error, 0)"
| "decode_rune (b0 # bs) =
     (if b0 < 128 then (b0, 1)
      else if 194 \<le> b0 \<and> b0 \<le> 223 then
        (case bs of
           b1 # _ \<Rightarrow> if second_ok b0 b1 then ((b0 - 192) * 64 + (b1 - 128), 2) else (rune_error, 1)
         | [] \<Rightarrow> (rune_error, 1))
      else if 224 \<le> b0 \<and> b0 \<le> 239 then
        (case bs of
           b1 # b2 # _ \<Rightarrow>
             if second_ok b0 b1 \<and> cont_byte b2
             then ((b0 - 224) * 4096 + (b1 - 128) * 64 + (b2 - 128), 3) else (rune_error, 1)
         | _ \<Rightarrow> (rune_error, 1))
      else if 240 \<le> b0 \<and> b0 \<le> 244 then
        (case bs of
           b1 # b2 # b3 # _ \<Rightarrow>
             if second_ok b0 b1 \<and> cont_byte b2 \<and> cont_byte b3
             then ((b0 - 240) * 262144 + (b1 - 128) * 4096 + (b2 - 128) * 64 + (b3 - 128), 4)
             else (rune_error, 1)
         | _ \<Rightarrow> (rune_error, 1))
      else (rune_error, 1))"

lemma decode_rune_width: "bs \<noteq> [] \<Longrightarrow> 1 \<le> snd (decode_rune bs)"
  by (cases bs) (auto split: list.splits)

function decode :: "nat list \<Rightarrow> (rune \<times> nat) list" where
  "decode bs = (if bs = [] then [] else decode_rune bs # decode (drop (snd (decode_rune bs)) bs))"
  by pat_completeness auto
termination
proof (relation "measure length")
  fix bs :: "nat list"
  assume ne: "bs \<noteq> []"
  then have "0 < length bs" and "1 \<le> snd (decode_rune bs)"
    by (simp, rule decode_rune_width)
  then show "(drop (snd (decode_rune bs)) bs, bs) \<in> measure length"
    by simp
qed simp

declare decode.simps [simp del]

lemma decode_code [code]:
  "decode [] = []"
  "decode (b # bs) = decode_rune (b # bs) # decode (drop (snd (decode_rune (b # bs))) (b # bs))"
  by (simp_all add: decode.simps)

definition bytes_of :: "string \<Rightarrow> nat list" where
  "bytes_of s = map of_char s"

definition runes :: "string \<Rightarrow> rune list" where
  "runes s = map fst (decode (bytes_of s))"

definition valid_utf8 :: "string \<Rightarrow> bool" where
  "valid_utf8 s \<longleftrightarrow> (rune_error, 1) \<notin> set (decode (bytes_of s))"

text \<open>
  An ASCII byte is never swallowed by a multi-byte sequence: it shows up as its own rune.
  This is what makes byte tests (separators, control characters) and rune tests agree.
\<close>

lemma decode_rune_ascii_tail:
  assumes "b < 128" and "b \<in> set bs" and "decode_rune bs = (r, w)"
  shows "r = b \<or> b \<in> set (drop w bs)"
proof (cases bs)
  case Nil
  with assms show ?thesis by simp
next
  case (Cons b0 cs)
  with assms show ?thesis
    by (auto simp: second_ok_def cont_byte_def drop_Cons' split: list.splits if_splits)
qed

lemma decode_ascii: "b < 128 \<Longrightarrow> b \<in> set bs \<Longrightarrow> b \<in> fst ` set (decode bs)"
proof (induction bs rule: decode.induct)
  case (1 bs)
  obtain r w where rw: "decode_rune bs = (r, w)" by fastforce
  show ?case
  proof (cases "bs = []")
    case True
    with 1 show ?thesis by simp
  next
    case False
    with decode_rune_ascii_tail [OF "1.prems" rw] 1 rw show ?thesis
      by (subst decode.simps) auto
  qed
qed

lemma ascii_in_runes:
  assumes "c \<in> set s" and "of_char c < (128 :: nat)"
  shows "of_char c \<in> set (runes s)"
  using assms decode_ascii [of "of_char c" "bytes_of s"]
  by (simp add: runes_def bytes_of_def)

section \<open>Character classes and case\<close>

text \<open>\<open>unicode.IsControl\<close>: category Cc.\<close>

definition is_control :: "rune \<Rightarrow> bool" where
  "is_control r \<longleftrightarrow> r < 32 \<or> (127 \<le> r \<and> r < 160)"

definition ascii_lower :: "nat \<Rightarrow> nat" where
  "ascii_lower n = (if 65 \<le> n \<and> n \<le> 90 then n + 32 else n)"

text \<open>
  \<open>strings.EqualFold(s, t)\<close> for an ASCII \<open>t\<close>.  Outside ASCII, simple folding relates only
  U+212A (Kelvin sign) to \<open>k\<close> and U+017F (long s) to \<open>s\<close>.
\<close>

definition fold_eq :: "rune \<Rightarrow> char \<Rightarrow> bool" where
  "fold_eq r c \<longleftrightarrow>
     ascii_lower r = ascii_lower (of_char c)
     \<or> (r = 8490 \<and> c \<in> set ''kK'') \<or> (r = 383 \<and> c \<in> set ''sS'')"

definition equal_fold_ascii :: "string \<Rightarrow> string \<Rightarrow> bool" where
  "equal_fold_ascii s t \<longleftrightarrow> list_all2 fold_eq (runes s) t"

text \<open>
  \<open>strings.ToLower\<close>.  The runes whose lower case is ASCII are the ASCII capitals, U+0130
  (bytes C4 B0, to \<open>i\<close>) and the Kelvin sign (bytes E2 84 AA, to \<open>k\<close>).  The other non-ASCII
  runes stay as they are here: their lower case is not ASCII, and every caller compares the
  result with ASCII text.
\<close>

fun to_lower :: "string \<Rightarrow> string" where
  "to_lower [] = []"
| "to_lower (c # s) =
     (if c = char_of (196 :: nat) \<and> take 1 s = [char_of (176 :: nat)]
      then CHR ''i'' # to_lower (drop 1 s)
      else if c = char_of (226 :: nat) \<and> take 2 s = [char_of (132 :: nat), char_of (170 :: nat)]
      then CHR ''k'' # to_lower (drop 2 s)
      else char_of (ascii_lower (of_char c)) # to_lower s)"

text \<open>\<open>strings.TrimSpace\<close>: the encodings of the runes with \<open>unicode.IsSpace\<close>, off both ends.\<close>

definition space_encodings :: "nat list list" where
  "space_encodings =
     [[9], [10], [11], [12], [13], [32], [194, 133], [194, 160], [225, 154, 128],
      [226, 128, 128], [226, 128, 129], [226, 128, 130], [226, 128, 131], [226, 128, 132],
      [226, 128, 133], [226, 128, 134], [226, 128, 135], [226, 128, 136], [226, 128, 137],
      [226, 128, 138], [226, 128, 168], [226, 128, 169], [226, 128, 175], [226, 129, 159],
      [227, 128, 128]]"

function strip :: "nat list list \<Rightarrow> string \<Rightarrow> string" where
  "strip encs s =
     (case find (\<lambda>e. e \<noteq> [] \<and> prefix e (bytes_of (take (length e) s))) encs of
        None \<Rightarrow> s
      | Some e \<Rightarrow> strip encs (drop (length e) s))"
  by pat_completeness auto
termination
  by (relation "measure (\<lambda>(_, s). length s)")
    (auto simp: find_Some_iff bytes_of_def simp flip: length_greater_0_conv dest: prefix_length_le)

declare strip.simps [simp del]

definition trim_space :: "string \<Rightarrow> string" where
  "trim_space s = rev (strip (map rev space_encodings) (rev (strip space_encodings s)))"

lemma set_strip: "set (strip encs s) \<subseteq> set s"
proof (induction encs s rule: strip.induct)
  case (1 encs s)
  then show ?case
    by (subst strip.simps) (auto split: option.splits dest: set_mp [OF set_drop_subset])
qed

lemma set_trim_space: "set (trim_space s) \<subseteq> set s"
  unfolding trim_space_def using set_strip [of "map rev space_encodings"] set_strip [of space_encodings s]
  by fastforce

text \<open>
  \<open>strings.Fields\<close>: the maximal runs without white space.  The encodings of white space
  start with a byte that is never a continuation byte, so they are found by bytes.
\<close>

definition space_at :: "string \<Rightarrow> nat list option" where
  "space_at s = find (\<lambda>e. e \<noteq> [] \<and> prefix e (bytes_of (take (length e) s))) space_encodings"

function split_fields_from :: "string \<Rightarrow> string \<Rightarrow> string list" where
  "split_fields_from cur [] = (if cur = [] then [] else [cur])"
| "split_fields_from cur (c # s) =
     (case space_at (c # s) of
        None \<Rightarrow> split_fields_from (cur @ [c]) s
      | Some e \<Rightarrow>
          (if cur = [] then split_fields_from [] (drop (length e) (c # s))
           else cur # split_fields_from [] (drop (length e) (c # s))))"
  by pat_completeness auto
termination
  by (relation "measure (\<lambda>(_, s). length s)")
    (auto simp: space_at_def find_Some_iff neq_Nil_conv)

definition split_fields :: "string \<Rightarrow> string list" where
  "split_fields s = split_fields_from [] s"

lemma fields_from_not_Nil: "w \<in> set (split_fields_from cur s) \<Longrightarrow> w \<noteq> []"
  by (induction cur s rule: split_fields_from.induct) (auto split: if_splits option.splits)

lemma fields_not_Nil: "w \<in> set (split_fields s) \<Longrightarrow> w \<noteq> []"
  unfolding split_fields_def by (rule fields_from_not_Nil)

text \<open>A field holds no white space, and fields joined by blanks split into themselves.\<close>

definition clean_before :: "string \<Rightarrow> string \<Rightarrow> bool" where
  "clean_before w rest \<longleftrightarrow>
     (\<forall>k < length w. \<forall>e \<in> set space_encodings. \<not> prefix e (bytes_of (drop k w @ rest)))"

lemma prefix_iff_take: "prefix e s \<longleftrightarrow> take (length e) s = e"
  by (metis append_eq_conv_conj prefixE prefixI take_is_prefix)

lemma space_at_None: "space_at s = None \<longleftrightarrow> (\<forall>e \<in> set space_encodings. \<not> prefix e (bytes_of s))"
proof -
  have "prefix e (bytes_of (take (length e) s)) \<longleftrightarrow> prefix e (bytes_of s)" for e
    by (simp add: bytes_of_def prefix_iff_take flip: take_map)
  moreover have "[] \<notin> set space_encodings" by (simp add: space_encodings_def)
  ultimately show ?thesis by (auto simp: space_at_def find_None_iff)
qed

lemma space_first: "e \<in> set space_encodings \<Longrightarrow> \<exists>b bs. e = b # bs \<and> \<not> (32 < b \<and> b < 128)"
  by (auto simp: space_encodings_def)

text \<open>For evaluation: a printing ASCII character starts no space.\<close>

lemma space_at_code [code]:
  "space_at s = (if s \<noteq> [] \<and> 32 < (of_char (hd s) :: nat) \<and> (of_char (hd s) :: nat) < 128 then None
     else find (\<lambda>e. e \<noteq> [] \<and> prefix e (bytes_of (take (length e) s))) space_encodings)"
proof (cases "s \<noteq> [] \<and> 32 < (of_char (hd s) :: nat) \<and> (of_char (hd s) :: nat) < 128")
  case True
  then have "\<not> prefix e (bytes_of s)" if "e \<in> set space_encodings" for e
    using space_first [OF that] by (cases s) (auto simp: bytes_of_def)
  with True show ?thesis by (simp add: space_at_None)
next
  case False
  then show ?thesis by (simp only: space_at_def if_False)
qed

lemma clean_snoc:
  assumes "clean_before cur (c # s)" and "space_at (c # s) = None"
  shows "clean_before (cur @ [c]) s"
  unfolding clean_before_def
proof (intro allI impI ballI)
  fix k e
  assume k: "k < length (cur @ [c])" and e: "e \<in> set space_encodings"
  show "\<not> prefix e (bytes_of (drop k (cur @ [c]) @ s))"
  proof (cases "k < length cur")
    case True
    with assms(1) e show ?thesis by (simp add: clean_before_def)
  next
    case False
    with k have "k = length cur" by simp
    with assms(2) e show ?thesis by (simp add: space_at_None)
  qed
qed

lemma clean_end: "clean_before w s \<Longrightarrow> clean_before w []"
  unfolding clean_before_def bytes_of_def by (metis append_Nil2 map_append prefix_prefix)

lemma split_fields_clean:
  "clean_before cur s \<Longrightarrow> w \<in> set (split_fields_from cur s) \<Longrightarrow> clean_before w []"
proof (induction cur s rule: split_fields_from.induct)
  case (1 cur)
  then show ?case by (auto split: if_splits)
next
  case (2 cur c s)
  show ?case
  proof (cases "space_at (c # s)")
    case None
    with 2 clean_snoc show ?thesis by simp
  next
    case (Some e)
    have "clean_before [] t" for t by (simp add: clean_before_def)
    with 2 Some clean_end [OF 2(4)] show ?thesis by (auto split: if_splits)
  qed
qed

lemma clean_blank: "clean_before w [] \<Longrightarrow> clean_before w (CHR '' '' # t)"
  unfolding clean_before_def
proof (intro allI impI ballI)
  fix k e
  assume clean: "\<forall>k < length w. \<forall>e \<in> set space_encodings. \<not> prefix e (bytes_of (drop k w @ []))"
    and k: "k < length w" and e: "e \<in> set space_encodings"
  show "\<not> prefix e (bytes_of (drop k w @ CHR '' '' # t))"
  proof
    assume "prefix e (bytes_of (drop k w @ CHR '' '' # t))"
    then have "prefix e (bytes_of (drop k w) @ 32 # bytes_of t)" by (simp add: bytes_of_def)
    then consider "prefix e (bytes_of (drop k w))" | us where "e = bytes_of (drop k w) @ 32 # us"
      by (auto simp: prefix_append prefix_Cons)
    then show False
    proof cases
      case 1
      with clean k e show False by simp
    next
      case 2
      moreover have "bytes_of (drop k w) \<noteq> []" using k by (simp add: bytes_of_def)
      ultimately have "32 \<in> set (tl e)" by (cases "bytes_of (drop k w)") auto
      with e show False by (auto simp: space_encodings_def)
    qed
  qed
qed

lemma split_fields_word:
  "clean_before w rest \<Longrightarrow> split_fields_from cur (w @ rest) = split_fields_from (cur @ w) rest"
proof (induction w arbitrary: cur)
  case (Cons c w)
  have "space_at (c # w @ rest) = None"
    using Cons.prems by (auto simp: clean_before_def space_at_None dest: spec [of _ 0])
  moreover have "clean_before w rest"
    using Cons.prems by (auto simp: clean_before_def dest: spec [of _ "Suc _"])
  ultimately show ?case using Cons.IH [of "cur @ [c]"] by simp
qed simp

lemma split_fields_blank: "cur \<noteq> [] \<Longrightarrow> split_fields_from cur (CHR '' '' # t) = cur # split_fields t"
proof -
  assume "cur \<noteq> []"
  moreover have "space_at (CHR '' '' # t) = Some [32]"
    by (simp add: space_at_def space_encodings_def bytes_of_def)
  ultimately show ?thesis by (simp add: split_fields_def)
qed

lemma split_fields_join:
  "(\<And>w. w \<in> set ws \<Longrightarrow> w \<noteq> [] \<and> clean_before w []) \<Longrightarrow> split_fields (join (CHR '' '') ws) = ws"
proof (induction ws)
  case Nil
  then show ?case by (simp add: split_fields_def)
next
  case (Cons w ws)
  show ?case
  proof (cases "ws = []")
    case True
    with Cons.prems split_fields_word [of w "[]" "[]"] show ?thesis
      by (simp add: split_fields_def)
  next
    case False
    have "split_fields (w @ CHR '' '' # join (CHR '' '') ws) = w # split_fields (join (CHR '' '') ws)"
      using Cons.prems [of w] split_fields_word [OF clean_blank, of w "[]" "join (CHR '' '') ws"]
      by (simp add: split_fields_def split_fields_blank [unfolded split_fields_def]
          del: split_fields_from.simps)
    with Cons False show ?thesis by (simp add: join_Cons)
  qed
qed

lemma split_fields_filter:
  "split_fields (join (CHR '' '') (filter P (split_fields s))) = filter P (split_fields s)"
proof (rule split_fields_join)
  fix w
  assume "w \<in> set (filter P (split_fields s))"
  then have w: "w \<in> set (split_fields s)" by simp
  have "clean_before [] s" by (simp add: clean_before_def)
  from split_fields_clean [OF this] w fields_not_Nil [OF w] show "w \<noteq> [] \<and> clean_before w []"
    by (simp add: split_fields_def)
qed

end
