(* ===== verification/DbTypes.thy ===== *)
theory DbTypes
  imports Prelude
begin

text \<open>
  The row types of \<open>internal/db/repository.go\<close>.  Field names carry the table as a prefix, as
  several Go structs share names.  A nullable column is an \<open>option\<close>; the columns the Go
  struct does not show (\<open>files.delete_state\<close>) are fields of the row.
\<close>

record user_row =
  user_ID :: int
  user_Username :: string
  user_PasswordHash :: string
  user_Disabled :: bool
  user_CreatedAt :: int
  user_UpdatedAt :: int

record root_row =
  root_ID :: int
  root_Name :: string
  root_Path :: string
  root_CreatedAt :: int
  root_UpdatedAt :: int

text \<open>The statuses of \<open>files.md5_status\<close>, as the strings the code compares.\<close>

definition MD5Disabled :: string where "MD5Disabled = ''disabled''"

definition MD5Pending :: string where "MD5Pending = ''pending''"

definition MD5Computing :: string where "MD5Computing = ''computing''"

definition MD5Ready :: string where "MD5Ready = ''ready''"

definition MD5Failed :: string where "MD5Failed = ''failed''"

datatype delete_state = FileActive | FileDeleting

record file_row =
  file_ID :: int
  file_RootID :: int
  file_LogicalPath :: string
  file_ObjectKey :: string
  file_Size :: int
  file_CreatedByUserID :: int
  file_CreatedAt :: int
  file_UpdatedAt :: int
  file_DeleteState :: delete_state
  file_MD5Status :: string
  file_MD5Digest :: string
  file_MD5Error :: string

record dir_row =
  dir_ID :: int
  dir_RootID :: int
  dir_LogicalPath :: string
  dir_CreatedByUserID :: int
  dir_CreatedAt :: int
  dir_UpdatedAt :: int

record permission =
  perm_ID :: int
  perm_UserID :: int
  perm_RootID :: int
  perm_PathPrefix :: string
  perm_Action :: string
  perm_Allow :: bool
  perm_CreatedAt :: int
  perm_UpdatedAt :: int

datatype session_status = Active | SCancelled | CleanupPending | SComplete

record upload_row =
  up_ID :: string
  up_UserID :: int
  up_RootID :: int
  up_LogicalPath :: string
  up_StagingPath :: string
  up_Offset :: int
  up_Length :: int
  up_Status :: session_status
  up_ExpiresAt :: int
  up_CreatedAt :: int
  up_UpdatedAt :: int

record cleanup_job =
  job_ObjectKey :: string
  job_Reason :: string
  job_CreatedAt :: int
  job_UpdatedAt :: int

record audit_row =
  audit_ID :: int
  audit_UserID :: int
  audit_RootID :: "int option"
  audit_Action :: string
  audit_LogicalPath :: string
  audit_Detail :: string
  audit_Status :: int
  audit_CreatedAt :: int

text \<open>The event as the code builds it; a zero root is stored as \<open>NULL\<close>.\<close>

record audit_event =
  ae_ID :: int
  ae_UserID :: int
  ae_RootID :: int
  ae_Action :: string
  ae_LogicalPath :: string
  ae_Detail :: string
  ae_Status :: int
  ae_CreatedAt :: int

record asset_row =
  asset_ID :: int
  asset_Kind :: string
  asset_OpaqueKey :: string
  asset_ContentType :: string
  asset_Size :: int
  asset_Width :: int
  asset_Height :: int
  asset_CreatedAt :: int
  asset_UpdatedAt :: int

datatype task_status = TaskPending | TaskComputing | TaskFailed | TaskComplete

record md5_task =
  task_FileID :: int
  task_Status :: task_status
  task_Attempts :: int
  task_MaxAttempts :: int
  task_AvailableAt :: int
  task_ClaimedAt :: "int option"
  task_CreatedAt :: int
  task_UpdatedAt :: int

end
