(* ===== verification/Storage.thy ===== *)
theory Storage
  imports GoText DbTypes
begin

text \<open>
  Package \<open>internal/storage\<close> (\<open>objects_unix.go\<close>): opaque objects and staging files below
  one root.  The state is what the two directories hold: \<open>staging/\<close> as the list of its
  entries in directory order (\<open>None\<close> while it does not exist), \<open>objects/\<close> as a map from
  keys.  An entry is a regular file with its bytes, a directory or a symbolic link.

  System calls can fail.  An operation takes an \<open>io_fault\<close>: \<open>FaultBefore\<close> when a call
  before its effect fails, \<open>FaultAfter\<close> when the effect took place and a later call of the
  same operation (an \<open>fsync\<close>, a \<open>close\<close>) fails.  Random bytes are arguments; SHA-256 is
  the parameter \<open>sha256\<close>.
\<close>

datatype node = Regular string | Directory | Symlink

datatype io_fault = NoFault | FaultBefore | FaultAfter

record object_store =
  st_open :: bool
  st_staging :: "(string \<times> node) list option"
  st_objects :: "string \<rightharpoonup> node"

section \<open>Names\<close>

definition isLowerHex :: "string \<Rightarrow> bool" where
  "isLowerHex s \<longleftrightarrow> (\<forall>c \<in> set s. is_lower_hex_char c)"

definition parseObjectKey :: "string \<Rightarrow> err + (string \<times> string)" where
  "parseObjectKey key =
     (case split_on (CHR ''/'') key of
        [a, b, c] \<Rightarrow>
          (if a \<noteq> ''objects'' \<or> length b \<noteq> 2 \<or> length c \<noteq> 64 \<or> b \<noteq> take 2 c
              \<or> \<not> isLowerHex b \<or> \<not> isLowerHex c
           then Inl Invalid else Inr (b, c))
      | _ \<Rightarrow> Inl Invalid)"

definition staging_base :: "string \<Rightarrow> string" where
  "staging_base name = trim_prefix name ''staging/''"

definition validStagingName :: "string \<Rightarrow> bool" where
  "validStagingName name \<longleftrightarrow>
     has_prefix name ''staging/'' \<and> length (staging_base name) = 37
     \<and> has_suffix name ''.part'' \<and> CHR ''/'' \<notin> set (staging_base name)"

text \<open>The key \<open>Create\<close> and \<open>PublishStaging\<close> build from 32 random bytes.\<close>

definition object_key :: "string \<Rightarrow> string" where
  "object_key random =
     (let name = hex_encode random in ''objects/'' @ take 2 name @ ''/'' @ name)"

section \<open>The two name spaces\<close>

definition entries :: "object_store \<Rightarrow> (string \<times> node) list" where
  "entries s = (case st_staging s of None \<Rightarrow> [] | Some es \<Rightarrow> es)"

definition staging_lookup :: "object_store \<Rightarrow> string \<Rightarrow> node option" where
  "staging_lookup s name = map_of (entries s) (staging_base name)"

fun put_entry :: "string \<Rightarrow> node \<Rightarrow> (string \<times> node) list \<Rightarrow> (string \<times> node) list" where
  "put_entry k v [] = [(k, v)]"
| "put_entry k v ((j, w) # es) = (if j = k then (k, v) # es else (j, w) # put_entry k v es)"

definition del_entry :: "string \<Rightarrow> (string \<times> node) list \<Rightarrow> (string \<times> node) list" where
  "del_entry k es = filter (\<lambda>e. fst e \<noteq> k) es"

definition set_entries :: "(string \<times> node) list \<Rightarrow> object_store \<Rightarrow> object_store" where
  "set_entries es s = s\<lparr>st_staging := Some es\<rparr>"

definition put_staging :: "string \<Rightarrow> node \<Rightarrow> object_store \<Rightarrow> object_store" where
  "put_staging name v s = set_entries (put_entry (staging_base name) v (entries s)) s"

definition del_staging :: "string \<Rightarrow> object_store \<Rightarrow> object_store" where
  "del_staging name s = set_entries (del_entry (staging_base name) (entries s)) s"

definition put_object :: "string \<Rightarrow> node \<Rightarrow> object_store \<Rightarrow> object_store" where
  "put_object key v s = s\<lparr>st_objects := (st_objects s)(key \<mapsto> v)\<rparr>"

definition del_object :: "string \<Rightarrow> object_store \<Rightarrow> object_store" where
  "del_object key s = s\<lparr>st_objects := (st_objects s)(key := None)\<rparr>"

section \<open>Operations\<close>

definition store_Close :: "io_fault \<Rightarrow> object_store \<Rightarrow> object_store \<times> (err + unit)" where
  "store_Close f s =
     (if \<not> st_open s then (s, Inr ())
      else (s\<lparr>st_open := False\<rparr>, if f = NoFault then Inr () else Inl IoError))"

definition store_Check :: "io_fault \<Rightarrow> object_store \<Rightarrow> err + unit" where
  "store_Check f s =
     (if \<not> st_open s then Inl Closed else if f \<noteq> NoFault then Inl IoError else Inr ())"

text \<open>\<open>Create\<close> makes the object file, empty; the caller writes it.\<close>

definition store_Create ::
    "io_fault \<Rightarrow> string \<Rightarrow> object_store \<Rightarrow> object_store \<times> (err + string)" where
  "store_Create f random s =
     (if \<not> st_open s then (s, Inl Closed)
      else if f \<noteq> NoFault then (s, Inl IoError)
      else
        (let key = object_key random in
         if st_objects s key \<noteq> None then (s, Inl IoError)
         else (put_object key (Regular []) s, Inr key)))"

definition store_Remove ::
    "io_fault \<Rightarrow> string \<Rightarrow> object_store \<Rightarrow> object_store \<times> (err + unit)" where
  "store_Remove f key s =
     (if \<not> st_open s then (s, Inl Closed)
      else
        (case parseObjectKey key of
           Inl e \<Rightarrow> (s, Inl e)
         | Inr _ \<Rightarrow>
             if f = FaultBefore then (s, Inl IoError)
             else
               (case st_objects s key of
                  None \<Rightarrow> (s, Inl NotExist)
                | Some Directory \<Rightarrow> (s, Inl IoError)
                | Some _ \<Rightarrow>
                    (del_object key s, if f = FaultAfter then Inl IoError else Inr ()))))"

text \<open>
  \<open>CreateEmpty\<close> and \<open>CreateContent\<close>: \<open>fc\<close> is the fault of the creation, \<open>wfail\<close> tells
  whether a write, sync or close failed (leaving \<open>partial\<close> bytes written), \<open>fr\<close> is the fault
  of the compensating \<open>Remove\<close>, whose error is discarded.
\<close>

definition store_CreateContent ::
    "io_fault \<Rightarrow> bool \<Rightarrow> string \<Rightarrow> io_fault \<Rightarrow> string \<Rightarrow> string \<Rightarrow> object_store
     \<Rightarrow> object_store \<times> (err + string)" where
  "store_CreateContent fc wfail partial fr random content s =
     (case store_Create fc random s of
        (s1, Inl e) \<Rightarrow> (s1, Inl e)
      | (s1, Inr key) \<Rightarrow>
          if wfail then (fst (store_Remove fr key (put_object key (Regular partial) s1)), Inl IoError)
          else (put_object key (Regular content) s1, Inr key))"

definition store_CreateEmpty ::
    "io_fault \<Rightarrow> bool \<Rightarrow> io_fault \<Rightarrow> string \<Rightarrow> object_store \<Rightarrow> object_store \<times> (err + string)" where
  "store_CreateEmpty fc wfail fr random s = store_CreateContent fc wfail [] fr random [] s"

definition store_Open :: "io_fault \<Rightarrow> string \<Rightarrow> object_store \<Rightarrow> err + string" where
  "store_Open f key s =
     (if \<not> st_open s then Inl Closed
      else
        (case parseObjectKey key of
           Inl e \<Rightarrow> Inl e
         | Inr _ \<Rightarrow>
             if f \<noteq> NoFault then Inl IoError
             else
               (case st_objects s key of
                  None \<Rightarrow> Inl NotExist
                | Some (Regular c) \<Rightarrow> Inr c
                | Some _ \<Rightarrow> Inl IoError)))"

definition store_CreateStaging ::
    "io_fault \<Rightarrow> string \<Rightarrow> object_store \<Rightarrow> object_store \<times> (err + unit)" where
  "store_CreateStaging f name s =
     (if \<not> validStagingName name then (s, Inl Invalid)
      else if \<not> st_open s then (s, Inl Closed)
      else if f = FaultBefore then (s, Inl IoError)
      else if staging_lookup s name \<noteq> None then (set_entries (entries s) s, Inl IoError)
      else (put_staging name (Regular []) s, if f = FaultAfter then Inl IoError else Inr ()))"

text \<open>\<open>openStaging\<close> with \<open>O_RDONLY\<close> and with \<open>O_WRONLY\<close>; links are never followed.\<close>

definition store_OpenStaging :: "io_fault \<Rightarrow> bool \<Rightarrow> string \<Rightarrow> object_store \<Rightarrow> err + node" where
  "store_OpenStaging f for_write name s =
     (if \<not> validStagingName name then Inl Invalid
      else if \<not> st_open s then Inl Closed
      else if f \<noteq> NoFault then Inl IoError
      else
        (case staging_lookup s name of
           None \<Rightarrow> Inl NotExist
         | Some Symlink \<Rightarrow> Inl IoError
         | Some Directory \<Rightarrow> if for_write then Inl IoError else Inr Directory
         | Some (Regular c) \<Rightarrow> Inr (Regular c)))"

text \<open>
  The lifecycle lock: the sidecar entry is created when missing.  The exclusive
  \<open>flock\<close> itself is the atomicity of the critical sections in the upload manager's model.
\<close>

definition lock_base :: "string \<Rightarrow> string" where
  "lock_base name = staging_base name @ ''.lock''"

definition store_LockStaging ::
    "io_fault \<Rightarrow> string \<Rightarrow> object_store \<Rightarrow> object_store \<times> (err + unit)" where
  "store_LockStaging f name s =
     (if \<not> validStagingName name then (s, Inl Invalid)
      else if \<not> st_open s then (s, Inl Closed)
      else if f = FaultBefore then (s, Inl IoError)
      else
        (case map_of (entries s) (lock_base name) of
           None \<Rightarrow>
             (set_entries (put_entry (lock_base name) (Regular []) (entries s)) s,
              if f = FaultAfter then Inl IoError else Inr ())
         | Some (Regular c) \<Rightarrow> (s, if f = FaultAfter then Inl IoError else Inr ())
         | Some _ \<Rightarrow> (s, Inl IoError)))"

definition store_RemoveStaging ::
    "io_fault \<Rightarrow> string \<Rightarrow> object_store \<Rightarrow> object_store \<times> (err + unit)" where
  "store_RemoveStaging f name s =
     (if \<not> validStagingName name then (s, Inl Invalid)
      else if \<not> st_open s then (s, Inl Closed)
      else if f \<noteq> NoFault then (s, Inl IoError)
      else
        (case st_staging s of
           None \<Rightarrow> (s, Inl NotExist)
         | Some _ \<Rightarrow>
             (case staging_lookup s name of
                None \<Rightarrow> (s, Inr ())
              | Some Directory \<Rightarrow> (s, Inl IoError)
              | Some _ \<Rightarrow> (del_staging name s, Inr ()))))"

definition store_HashAndSync ::
    "(string \<Rightarrow> string) \<Rightarrow> io_fault \<Rightarrow> string \<Rightarrow> object_store \<Rightarrow> err + (int \<times> string)" where
  "store_HashAndSync sha256 f name s =
     (case store_OpenStaging NoFault False name s of
        Inl e \<Rightarrow> Inl e
      | Inr (Regular c) \<Rightarrow>
          if f \<noteq> NoFault then Inl IoError else Inr (int (length c), sha256 c)
      | Inr _ \<Rightarrow> Inl IoError)"

definition store_Publish ::
    "io_fault \<Rightarrow> string \<Rightarrow> string \<Rightarrow> object_store \<Rightarrow> object_store \<times> (err + string)" where
  "store_Publish f random name s =
     (if \<not> validStagingName name then (s, Inl Invalid)
      else if \<not> st_open s then (s, Inl Closed)
      else if f = FaultBefore then (s, Inl IoError)
      else
        (case staging_lookup s name of
           None \<Rightarrow> (s, Inl NotExist)
         | Some v \<Rightarrow>
             (let key = object_key random in
              (put_object key v (del_staging name s),
               if f = FaultAfter then Inl IoError else Inr key))))"

definition store_Restore ::
    "io_fault \<Rightarrow> string \<Rightarrow> string \<Rightarrow> object_store \<Rightarrow> object_store \<times> (err + unit)" where
  "store_Restore f key name s =
     (if \<not> validStagingName name then (s, Inl Invalid)
      else if \<not> st_open s then (s, Inl Closed)
      else
        (case parseObjectKey key of
           Inl e \<Rightarrow> (s, Inl e)
         | Inr _ \<Rightarrow>
             if f = FaultBefore then (s, Inl IoError)
             else
               (case st_objects s key of
                  None \<Rightarrow> (s, Inl NotExist)
                | Some v \<Rightarrow>
                    (put_staging name v (del_object key s),
                     if f = FaultAfter then Inl IoError else Inr ()))))"

text \<open>
  \<open>StagingNames\<close> reads the first \<open>limit\<close> entries of the directory, lock files included, and
  keeps those that are staging names.
\<close>

definition store_StagingNames :: "io_fault \<Rightarrow> int \<Rightarrow> object_store \<Rightarrow> err + string list" where
  "store_StagingNames f limit s =
     (if limit \<le> 0 then Inr []
      else if \<not> st_open s then Inl Closed
      else
        (case st_staging s of
           None \<Rightarrow> Inl NotExist
         | Some es \<Rightarrow>
             if f \<noteq> NoFault then Inl IoError
             else Inr (filter validStagingName
                    (map (\<lambda>e. ''staging/'' @ fst e) (take (nat limit) es)))))"

section \<open>Name spaces\<close>

text \<open>
  The contract of a directory as the code uses it: a lookup sees the last put, and a removal
  hides the name.  A rename is a \<open>del\<close> and a \<open>put\<close>.
\<close>

locale name_space =
  fixes look :: "'s \<Rightarrow> 'k \<Rightarrow> 'v option"
    and put :: "'k \<Rightarrow> 'v \<Rightarrow> 's \<Rightarrow> 's"
    and del :: "'k \<Rightarrow> 's \<Rightarrow> 's"
  assumes look_put: "look (put k v s) j = (if j = k then Some v else look s j)"
    and look_del: "look (del k s) j = (if j = k then None else look s j)"
begin

lemma put_del_restores:
  "look s k = Some v \<Longrightarrow> look (put k v (del k s)) = look s"
  by (rule ext) (auto simp: look_put look_del)

lemma del_idem: "look (del k (del k s)) = look (del k s)"
  by (rule ext) (auto simp: look_del)

lemma del_put_fresh: "look s k = None \<Longrightarrow> look (del k (put k v s)) = look s"
  by (rule ext) (auto simp: look_put look_del)

end

lemma map_of_put_entry [simp]: "map_of (put_entry k v es) = (map_of es)(k \<mapsto> v)"
  by (induction k v es rule: put_entry.induct) auto

lemma map_of_del_entry [simp]: "map_of (del_entry k es) = (map_of es)(k := None)"
  by (induction es) (auto simp: del_entry_def)

lemma entries_set [simp]: "entries (set_entries es s) = es"
  by (simp add: entries_def set_entries_def)

lemma objects_set_entries [simp]: "st_objects (set_entries es s) = st_objects s"
  by (simp add: set_entries_def)

lemma open_set_entries [simp]: "st_open (set_entries es s) = st_open s"
  by (simp add: set_entries_def)

text \<open>Entries of the staging directory, by base name, and objects, by key.\<close>

interpretation dir_entries: name_space "map_of" put_entry del_entry
  by unfold_locales auto

interpretation object_dir: name_space st_objects put_object del_object
  by unfold_locales (auto simp: put_object_def del_object_def)

lemma staging_name_base: "validStagingName n \<Longrightarrow> n = ''staging/'' @ staging_base n"
  by (auto simp: validStagingName_def has_prefix_def staging_base_def trim_prefix_def prefix_def)

lemma staging_base_eq:
  "validStagingName m \<Longrightarrow> validStagingName n \<Longrightarrow> staging_base m = staging_base n \<longleftrightarrow> m = n"
  by (metis staging_name_base)

lemma staging_base_simps [simp]: "staging_base (''staging/'' @ b) = b"
  by (simp add: staging_base_def trim_prefix_def)

text \<open>How each effect shows in the two lookups; the rest of the development uses only these.\<close>

lemma lookup_put_staging [simp]:
  "staging_lookup (put_staging n v s) m =
     (if staging_base m = staging_base n then Some v else staging_lookup s m)"
  by (simp add: staging_lookup_def put_staging_def)

lemma lookup_del_staging [simp]:
  "staging_lookup (del_staging n s) m =
     (if staging_base m = staging_base n then None else staging_lookup s m)"
  by (simp add: staging_lookup_def del_staging_def)

lemma lookup_staging_object [simp]:
  "staging_lookup (put_object k v s) m = staging_lookup s m"
  "staging_lookup (del_object k s) m = staging_lookup s m"
  by (simp_all add: staging_lookup_def entries_def put_object_def del_object_def)

lemma objects_staging [simp]:
  "st_objects (put_staging n v s) = st_objects s"
  "st_objects (del_staging n s) = st_objects s"
  by (simp_all add: put_staging_def del_staging_def)

lemma objects_put_del [simp]:
  "st_objects (put_object k v s) = (st_objects s)(k \<mapsto> v)"
  "st_objects (del_object k s) = (st_objects s)(k := None)"
  by (simp_all add: put_object_def del_object_def)

lemma open_simps [simp]:
  "st_open (put_staging n v s) = st_open s" "st_open (del_staging n s) = st_open s"
  "st_open (put_object k v s) = st_open s" "st_open (del_object k s) = st_open s"
  by (simp_all add: put_staging_def del_staging_def put_object_def del_object_def)

section \<open>Object keys\<close>

lemma hex_no_slash: "CHR ''/'' \<notin> set (hex_encode r)"
proof
  assume "CHR ''/'' \<in> set (hex_encode r)"
  then have "is_lower_hex_char (CHR ''/'')" by (rule hex_encode_lower)
  then show False by (simp add: is_lower_hex_char_def)
qed

lemma parse_object_key:
  assumes "length random = 32"
  shows "parseObjectKey (object_key random)
    = Inr (take 2 (hex_encode random), hex_encode random)"
proof -
  let ?n = "hex_encode random"
  have "CHR ''/'' \<notin> set (take 2 ?n)"
    using hex_no_slash set_take_subset by fast
  then have "split_on (CHR ''/'') (object_key random) = [''objects'', take 2 ?n, ?n]"
    using split_on_append [of "CHR ''/''" "''objects''" "take 2 ?n @ CHR ''/'' # ?n"]
    by (simp add: object_key_def Let_def split_on_append split_on_word hex_no_slash)
  moreover have "isLowerHex ?n" and "isLowerHex (take 2 ?n)"
    using hex_encode_lower set_take_subset [of 2 ?n] by (auto simp: isLowerHex_def)
  moreover have "length ?n = 64" using assms by simp
  ultimately show ?thesis by (simp add: parseObjectKey_def)
qed

text \<open>What an accepted key is: two directory levels of hexadecimal names, nothing else.\<close>

lemma parseObjectKey_Inr:
  assumes "parseObjectKey key = Inr (b, c)"
  shows "key = ''objects/'' @ b @ ''/'' @ c \<and> b = take 2 c \<and> length c = 64
    \<and> isLowerHex b \<and> isLowerHex c"
proof -
  obtain a where s: "split_on (CHR ''/'') key = [a, b, c]" and a: "a = ''objects''"
    and rest: "b = take 2 c" "length c = 64" "isLowerHex b" "isLowerHex c"
    using assms unfolding parseObjectKey_def
    by (cases "split_on (CHR ''/'') key" rule: remdups_adj.cases)
      (auto split: list.splits if_splits)
  have "key = join (CHR ''/'') [a, b, c]"
    by (metis s join_split_on)
  with a rest show ?thesis by simp
qed

end
