(* ===== verification/Db.thy ===== *)
theory Db
  imports GoText DbTypes "HOL-Library.Char_ord" "HOL-Library.List_Lexorder"
begin

text \<open>
  The metadata database of \<open>internal/db\<close>: files, directories and cleanup jobs, with the
  constraints and triggers of \<open>migrations/*.sql\<close> that guard them.  A table is the list of
  its rows in insertion order, so a query is a filter, \<open>RowsAffected\<close> the length of one, and a
  new \<open>INTEGER PRIMARY KEY\<close> one more than the largest.

  Every operation takes a flag, true when the statement (or any statement of its
  transaction, or the commit) fails for a reason of its own; the transaction is then rolled
  back.  \<open>classifyError\<close> maps every constraint and trigger failure to \<open>DbConflict\<close> and an
  empty result to \<open>DbNotFound\<close>.
\<close>

record settings_row =
  set_SiteName :: string
  set_PrimaryColor :: string
  set_FilingEnabled :: bool
  set_FilingText :: string
  set_MD5Enabled :: bool
  set_LoginLogo :: "int option"
  set_NavLogo :: "int option"
  set_Favicon :: "int option"
  set_CreatedAt :: int
  set_UpdatedAt :: int

record db =
  db_users :: "user_row list"
  db_bootstrap :: "int option"
  db_roots :: "root_row list"
  db_files :: "file_row list"
  db_dirs :: "dir_row list"
  db_perms :: "permission list"
  db_uploads :: "upload_row list"
  db_cleanup :: "cleanup_job list"
  db_audit :: "audit_row list"
  db_tasks :: "md5_task list"
  db_settings :: settings_row
  db_assets :: "asset_row list"
  db_asset_cleanup :: "(string \<times> int) list"

section \<open>Times, keys, queries\<close>

text \<open>Go's zero \<open>time.Time\<close> and \<open>utcOrNow\<close>.\<close>

definition zero_time :: int where
  "zero_time = -62135596800000000000"

definition utcOrNow :: "int \<Rightarrow> int \<Rightarrow> int" where
  "utcOrNow now t = (if t = zero_time then now else t)"

definition updatedOr :: "int \<Rightarrow> int \<Rightarrow> int" where
  "updatedOr created t = (if t = zero_time then created else t)"

definition next_id :: "int list \<Rightarrow> int" where
  "next_id ids = 1 + foldr max ids 0"

lemma foldr_max_ge: "i \<in> set ids \<Longrightarrow> i \<le> foldr max ids (0 :: int)"
  by (induction ids) auto

lemma next_id_fresh: "next_id ids \<notin> set ids"
  using foldr_max_ge [of "next_id ids" ids] by (auto simp: next_id_def)

lemma next_id_pos: "0 < next_id ids"
proof -
  have "0 \<le> foldr max ids (0 :: int)" by (induction ids) auto
  then show ?thesis by (simp add: next_id_def)
qed

definition query_row :: "bool \<Rightarrow> ('a \<Rightarrow> bool) \<Rightarrow> 'a list \<Rightarrow> err + 'a" where
  "query_row flt P rows =
     (if flt then Inl DbOther
      else (case find P rows of None \<Rightarrow> Inl DbNotFound | Some r \<Rightarrow> Inr r))"

text \<open>\<open>UPDATE\<close>/\<open>DELETE\<close> that must touch exactly one row, else \<open>miss\<close>.\<close>

definition affected :: "('a \<Rightarrow> bool) \<Rightarrow> 'a list \<Rightarrow> int" where
  "affected P rows = int (length (filter P rows))"

definition update_rows :: "('a \<Rightarrow> bool) \<Rightarrow> ('a \<Rightarrow> 'a) \<Rightarrow> 'a list \<Rightarrow> 'a list" where
  "update_rows P f rows = map (\<lambda>r. if P r then f r else r) rows"

definition delete_rows :: "('a \<Rightarrow> bool) \<Rightarrow> 'a list \<Rightarrow> 'a list" where
  "delete_rows P rows = filter (\<lambda>r. \<not> P r) rows"

text \<open>\<open>LIMIT n\<close>; a negative limit is none.\<close>

definition sql_limit :: "int \<Rightarrow> 'a list \<Rightarrow> 'a list" where
  "sql_limit n rows = (if n < 0 then rows else take (nat n) rows)"

lemma set_sql_limit: "set (sql_limit n rows) \<subseteq> set rows"
  using set_take_subset by (auto simp: sql_limit_def dest: in_set_takeD)

lemma query_row_Inr:
  "query_row flt P rows = Inr r \<Longrightarrow> r \<in> set rows \<and> P r"
  by (auto simp: query_row_def find_Some_iff split: if_splits option.splits)

lemma query_row_NotFound:
  "query_row flt P rows = Inl DbNotFound \<longleftrightarrow> \<not> flt \<and> (\<forall>r \<in> set rows. \<not> P r)"
  by (auto simp: query_row_def find_None_iff split: option.splits)
    (metis find_None_iff option.distinct(1))

lemma affected_pos: "affected P rows = 1 \<Longrightarrow> \<exists>r \<in> set rows. P r"
  by (auto simp: affected_def length_Suc_conv filter_eq_Cons_iff)

section \<open>LIKE\<close>

text \<open>
  SQLite's \<open>LIKE\<close> on code points: percent matches any run, underscore any one character, and
  ASCII letters match without regard to case.
\<close>

function like :: "nat list \<Rightarrow> nat list \<Rightarrow> bool" where
  "like [] s \<longleftrightarrow> s = []"
| "like (p # ps) s \<longleftrightarrow>
     (if p = 37 then like ps s \<or> (case s of [] \<Rightarrow> False | _ # t \<Rightarrow> like (p # ps) t)
      else
        (case s of
           [] \<Rightarrow> False
         | c # t \<Rightarrow> (p = 95 \<or> ascii_lower p = ascii_lower c) \<and> like ps t))"
  by pat_completeness auto
termination
  by (relation "measure (\<lambda>(p, s). length p + length s)") auto

definition sql_like :: "string \<Rightarrow> string \<Rightarrow> bool" where
  "sql_like s pat = like (runes pat) (runes s)"

section \<open>Constraints\<close>

definition root_exists :: "db \<Rightarrow> int \<Rightarrow> bool" where
  "root_exists d r = list_ex (\<lambda>x. root_ID x = r) (db_roots d)"

definition user_exists :: "db \<Rightarrow> int \<Rightarrow> bool" where
  "user_exists d u = list_ex (\<lambda>x. user_ID x = u) (db_users d)"

definition file_at :: "int \<Rightarrow> string \<Rightarrow> file_row \<Rightarrow> bool" where
  "file_at root p f \<longleftrightarrow> file_RootID f = root \<and> file_LogicalPath f = p"

definition dir_at :: "int \<Rightarrow> string \<Rightarrow> dir_row \<Rightarrow> bool" where
  "dir_at root p x \<longleftrightarrow> dir_RootID x = root \<and> dir_LogicalPath x = p"

text \<open>
  A file row can be inserted: foreign keys, \<open>size >= 0\<close>, the two unique keys, and the trigger
  \<open>files_path_not_directory\<close>.
\<close>

definition file_insertable :: "db \<Rightarrow> file_row \<Rightarrow> bool" where
  "file_insertable d f \<longleftrightarrow>
     root_exists d (file_RootID f) \<and> user_exists d (file_CreatedByUserID f) \<and> file_Size f \<ge> 0
     \<and> \<not> list_ex (\<lambda>g. file_ObjectKey g = file_ObjectKey f) (db_files d)
     \<and> \<not> list_ex (file_at (file_RootID f) (file_LogicalPath f)) (db_files d)
     \<and> \<not> list_ex (dir_at (file_RootID f) (file_LogicalPath f)) (db_dirs d)"

text \<open>
  The triggers on directories: \<open>directories_path_not_file\<close>,
  \<open>directories_parent_directory_exists\<close> and \<open>directories_must_be_empty\<close>.
\<close>

definition parent_trigger_ok :: "db \<Rightarrow> int \<Rightarrow> string \<Rightarrow> bool" where
  "parent_trigger_ok d root p \<longleftrightarrow>
     CHR ''/'' \<notin> set (drop 1 p)
     \<or> list_ex (\<lambda>x. dir_RootID x = root \<and> sql_like p (dir_LogicalPath x @ ''/%'')) (db_dirs d)"

definition dir_insertable :: "db \<Rightarrow> dir_row \<Rightarrow> bool" where
  "dir_insertable d x \<longleftrightarrow>
     root_exists d (dir_RootID x) \<and> user_exists d (dir_CreatedByUserID x)
     \<and> \<not> list_ex (dir_at (dir_RootID x) (dir_LogicalPath x)) (db_dirs d)
     \<and> \<not> list_ex (file_at (dir_RootID x) (dir_LogicalPath x)) (db_files d)
     \<and> parent_trigger_ok d (dir_RootID x) (dir_LogicalPath x)"

definition dir_deletable :: "db \<Rightarrow> dir_row \<Rightarrow> bool" where
  "dir_deletable d x \<longleftrightarrow>
     \<not> list_ex (\<lambda>f. file_RootID f = dir_RootID x
                   \<and> sql_like (file_LogicalPath f) (dir_LogicalPath x @ ''/%'')) (db_files d)
     \<and> \<not> list_ex (\<lambda>y. dir_RootID y = dir_RootID x
                     \<and> sql_like (dir_LogicalPath y) (dir_LogicalPath x @ ''/%'')) (db_dirs d)"

section \<open>Roots and files\<close>

definition StorageRootByID :: "bool \<Rightarrow> db \<Rightarrow> int \<Rightarrow> err + root_row" where
  "StorageRootByID flt d r = query_row flt (\<lambda>x. root_ID x = r) (db_roots d)"

definition insert_file :: "db \<Rightarrow> file_row \<Rightarrow> err + (file_row \<times> db)" where
  "insert_file d f =
     (if \<not> file_insertable d f then Inl DbConflict
      else
        (let f' = f\<lparr>file_ID := next_id (map file_ID (db_files d))\<rparr> in
         Inr (f', d\<lparr>db_files := db_files d @ [f']\<rparr>)))"

definition CreateFile :: "bool \<Rightarrow> int \<Rightarrow> db \<Rightarrow> file_row \<Rightarrow> db \<times> (err + file_row)" where
  "CreateFile flt now d f =
     (let created = utcOrNow now (file_CreatedAt f);
          updated = updatedOr created (file_UpdatedAt f);
          row = f\<lparr>file_CreatedAt := created, file_UpdatedAt := updated,
                  file_DeleteState := FileActive, file_MD5Status := MD5Disabled,
                  file_MD5Digest := [], file_MD5Error := []\<rparr> in
      if flt then (d, Inl DbOther)
      else
        (case insert_file d row of
           Inl e \<Rightarrow> (d, Inl e)
         | Inr (f', d') \<Rightarrow>
             (d', Inr (f\<lparr>file_ID := file_ID f', file_CreatedAt := created,
                         file_UpdatedAt := updated\<rparr>))))"

definition FileByID :: "bool \<Rightarrow> db \<Rightarrow> int \<Rightarrow> err + file_row" where
  "FileByID flt d i =
     query_row flt (\<lambda>f. file_ID f = i \<and> file_DeleteState f = FileActive) (db_files d)"

definition FileForDeletion :: "bool \<Rightarrow> db \<Rightarrow> int \<Rightarrow> err + file_row" where
  "FileForDeletion flt d i = query_row flt (\<lambda>f. file_ID f = i) (db_files d)"

definition FileByRootAndPath :: "bool \<Rightarrow> db \<Rightarrow> int \<Rightarrow> string \<Rightarrow> err + file_row" where
  "FileByRootAndPath flt d root p =
     query_row flt (\<lambda>f. file_at root p f \<and> file_DeleteState f = FileActive) (db_files d)"

text \<open>
  \<open>FilesUnderRoot\<close> has no \<open>delete_state\<close> condition, and it does not select the MD5 columns:
  the struct it returns has them empty.
\<close>

definition FilesUnderRoot :: "bool \<Rightarrow> db \<Rightarrow> int \<Rightarrow> err + file_row list" where
  "FilesUnderRoot flt d root =
     (if flt then Inl DbOther
      else Inr (map (\<lambda>f. f\<lparr>file_MD5Status := [], file_MD5Digest := [], file_MD5Error := []\<rparr>)
             (sort_key file_LogicalPath (filter (\<lambda>f. file_RootID f = root) (db_files d)))))"

definition RenameFile :: "bool \<Rightarrow> int \<Rightarrow> db \<Rightarrow> int \<Rightarrow> string \<Rightarrow> string \<Rightarrow> db \<times> (err + unit)" where
  "RenameFile flt now d i oldPath newPath =
     (let P = (\<lambda>f. file_ID f = i \<and> file_LogicalPath f = oldPath
                   \<and> file_DeleteState f = FileActive) in
      if flt then (d, Inl DbOther)
      else if list_ex (\<lambda>f. P f \<and> list_ex (\<lambda>g. file_ID g \<noteq> file_ID f
                             \<and> file_at (file_RootID f) newPath g) (db_files d)) (db_files d)
      then (d, Inl DbConflict)
      else
        (d\<lparr>db_files := update_rows P
             (\<lambda>f. f\<lparr>file_LogicalPath := newPath, file_UpdatedAt := now\<rparr>) (db_files d)\<rparr>,
         if affected P (db_files d) \<noteq> 1 then Inl DbNotFound else Inr ()))"

definition BeginFileDelete :: "bool \<Rightarrow> int \<Rightarrow> db \<Rightarrow> int \<Rightarrow> string \<Rightarrow> db \<times> (err + unit)" where
  "BeginFileDelete flt now d i key =
     (let P = (\<lambda>f. file_ID f = i \<and> file_ObjectKey f = key \<and> file_DeleteState f = FileActive) in
      if flt then (d, Inl DbOther)
      else
        (d\<lparr>db_files := update_rows P
             (\<lambda>f. f\<lparr>file_DeleteState := FileDeleting, file_UpdatedAt := now\<rparr>) (db_files d)\<rparr>,
         if affected P (db_files d) \<noteq> 1 then Inl DbNotFound else Inr ()))"

text \<open>Deleting a file row cascades to its MD5 task.\<close>

definition delete_files :: "(file_row \<Rightarrow> bool) \<Rightarrow> db \<Rightarrow> db" where
  "delete_files P d =
     d\<lparr>db_files := delete_rows P (db_files d),
       db_tasks := delete_rows
         (\<lambda>t. list_ex (\<lambda>f. P f \<and> file_ID f = task_FileID t) (db_files d)) (db_tasks d)\<rparr>"

definition FinalizeFileDelete :: "bool \<Rightarrow> db \<Rightarrow> int \<Rightarrow> string \<Rightarrow> db \<times> (err + unit)" where
  "FinalizeFileDelete flt d i key =
     (let P = (\<lambda>f. file_ID f = i \<and> file_ObjectKey f = key \<and> file_DeleteState f = FileDeleting) in
      if flt then (d, Inl DbOther)
      else
        (delete_files P d, if affected P (db_files d) \<noteq> 1 then Inl DbNotFound else Inr ()))"

definition DeleteFile :: "bool \<Rightarrow> db \<Rightarrow> int \<Rightarrow> db \<times> (err + unit)" where
  "DeleteFile flt d i =
     (let P = (\<lambda>f. file_ID f = i) in
      if flt then (d, Inl DbOther)
      else
        (delete_files P d, if affected P (db_files d) \<noteq> 1 then Inl DbNotFound else Inr ()))"

definition DeletingFiles :: "bool \<Rightarrow> db \<Rightarrow> int \<Rightarrow> err + file_row list" where
  "DeletingFiles flt d limit =
     (if flt then Inl DbOther
      else Inr (sql_limit limit
             (sort_key file_ID (filter (\<lambda>f. file_DeleteState f = FileDeleting) (db_files d)))))"

section \<open>Cleanup jobs\<close>

definition EnqueueObjectCleanup :: "bool \<Rightarrow> int \<Rightarrow> db \<Rightarrow> string \<Rightarrow> string \<Rightarrow> db \<times> (err + unit)" where
  "EnqueueObjectCleanup flt now d key reason =
     (if flt then (d, Inl DbOther)
      else if list_ex (\<lambda>j. job_ObjectKey j = key) (db_cleanup d)
      then (d\<lparr>db_cleanup := update_rows (\<lambda>j. job_ObjectKey j = key)
                (\<lambda>j. j\<lparr>job_UpdatedAt := now\<rparr>) (db_cleanup d)\<rparr>, Inr ())
      else (d\<lparr>db_cleanup := db_cleanup d @
                [\<lparr>job_ObjectKey = key, job_Reason = reason,
                  job_CreatedAt = now, job_UpdatedAt = now\<rparr>]\<rparr>, Inr ()))"

definition CompleteObjectCleanup :: "bool \<Rightarrow> db \<Rightarrow> string \<Rightarrow> db \<times> (err + unit)" where
  "CompleteObjectCleanup flt d key =
     (if flt then (d, Inl DbOther)
      else (d\<lparr>db_cleanup := delete_rows (\<lambda>j. job_ObjectKey j = key) (db_cleanup d)\<rparr>, Inr ()))"

text \<open>Rows with the same \<open>created_at\<close> come in insertion order here.\<close>

definition ObjectCleanupJobs :: "bool \<Rightarrow> db \<Rightarrow> int \<Rightarrow> err + cleanup_job list" where
  "ObjectCleanupJobs flt d limit =
     (if flt then Inl DbOther
      else Inr (sql_limit limit (sort_key job_CreatedAt (db_cleanup d))))"

section \<open>Directories\<close>

definition CreateDirectory :: "bool \<Rightarrow> int \<Rightarrow> db \<Rightarrow> dir_row \<Rightarrow> db \<times> (err + dir_row)" where
  "CreateDirectory flt now d x =
     (let created = utcOrNow now (dir_CreatedAt x);
          updated = updatedOr created (dir_UpdatedAt x);
          x' = x\<lparr>dir_ID := next_id (map dir_ID (db_dirs d)), dir_CreatedAt := created,
                 dir_UpdatedAt := updated\<rparr> in
      if flt then (d, Inl DbOther)
      else if \<not> dir_insertable d x then (d, Inl DbConflict)
      else (d\<lparr>db_dirs := db_dirs d @ [x']\<rparr>, Inr x'))"

definition DirectoryByID :: "bool \<Rightarrow> db \<Rightarrow> int \<Rightarrow> err + dir_row" where
  "DirectoryByID flt d i = query_row flt (\<lambda>x. dir_ID x = i) (db_dirs d)"

definition DirectoryByRootAndPath :: "bool \<Rightarrow> db \<Rightarrow> int \<Rightarrow> string \<Rightarrow> err + dir_row" where
  "DirectoryByRootAndPath flt d root p = query_row flt (dir_at root p) (db_dirs d)"

definition DirectoriesUnderRoot :: "bool \<Rightarrow> db \<Rightarrow> int \<Rightarrow> err + dir_row list" where
  "DirectoriesUnderRoot flt d root =
     (if flt then Inl DbOther
      else Inr (sort_key dir_LogicalPath (filter (\<lambda>x. dir_RootID x = root) (db_dirs d))))"

definition DirectoryEmpty :: "bool \<Rightarrow> db \<Rightarrow> dir_row \<Rightarrow> err + bool" where
  "DirectoryEmpty flt d x =
     (if flt then Inl DbOther
      else
        (let pfx = dir_LogicalPath x @ ''/'' in
         Inr (\<not> list_ex (\<lambda>f. file_RootID f = dir_RootID x \<and> has_prefix (file_LogicalPath f) pfx)
                 (db_files d)
              \<and> \<not> list_ex (\<lambda>y. dir_RootID y = dir_RootID x \<and> has_prefix (dir_LogicalPath y) pfx)
                 (db_dirs d))))"

definition DeleteDirectory :: "bool \<Rightarrow> db \<Rightarrow> int \<Rightarrow> db \<times> (err + unit)" where
  "DeleteDirectory flt d i =
     (let P = (\<lambda>x. dir_ID x = i) in
      if flt then (d, Inl DbOther)
      else if \<not> list_all (\<lambda>x. P x \<longrightarrow> dir_deletable d x) (db_dirs d) then (d, Inl DbConflict)
      else
        (d\<lparr>db_dirs := delete_rows P (db_dirs d)\<rparr>,
         if affected P (db_dirs d) \<noteq> 1 then Inl DbNotFound else Inr ()))"

end
