(* ===== verification/Tables.thy ===== *)
theory Tables
  imports Db
begin

text \<open>
  Tables with a unique key, read as finite maps.  The conditional updates and deletions of
  the repository (\<open>UPDATE ... WHERE key = ? AND ...\<close>, \<open>DELETE ... WHERE key = ? AND ...\<close>)
  touch one row or none, and \<open>RowsAffected\<close> tells which.
\<close>

definition row_at :: "('r \<Rightarrow> 'k) \<Rightarrow> 'k \<Rightarrow> 'r list \<Rightarrow> 'r option" where
  "row_at g k rows = find (\<lambda>r. g r = k) rows"

lemma find_SomeD: "find P rows = Some r \<Longrightarrow> r \<in> set rows \<and> P r"
  by (auto simp: find_Some_iff)

lemma row_at_None: "row_at g k rows = None \<longleftrightarrow> k \<notin> g ` set rows"
  by (auto simp: row_at_def find_None_iff)

lemma row_at_SomeD: "row_at g k rows = Some r \<Longrightarrow> r \<in> set rows \<and> g r = k"
  by (auto simp: row_at_def find_Some_iff)

lemma row_at_eq:
  "distinct (map g rows) \<Longrightarrow> row_at g k rows = Some r \<longleftrightarrow> r \<in> set rows \<and> g r = k"
  by (induction rows) (auto simp: row_at_def)

lemma row_at_Cons [simp]: "row_at g k (r # rows) = (if g r = k then Some r else row_at g k rows)"
  by (simp add: row_at_def)

lemma row_at_Nil [simp]: "row_at g k [] = None"
  by (simp add: row_at_def)

lemma row_at_append:
  "row_at g k (xs @ ys) = (case row_at g k xs of None \<Rightarrow> row_at g k ys | Some s \<Rightarrow> Some s)"
  by (induction xs) auto

lemma row_at_update_rows:
  "(\<And>r. r \<in> set rows \<Longrightarrow> P r \<Longrightarrow> g (f r) = g r) \<Longrightarrow>
   row_at g k (update_rows P f rows) = map_option (\<lambda>r. if P r then f r else r) (row_at g k rows)"
  by (induction rows) (auto simp: update_rows_def)

lemma query_row_at:
  "query_row flt (\<lambda>r. g r = k) rows =
     (if flt then Inl DbOther
      else case row_at g k rows of None \<Rightarrow> Inl DbNotFound | Some r \<Rightarrow> Inr r)"
  by (simp add: query_row_def row_at_def)

text \<open>Rows that keep a column keep its uniqueness.\<close>

lemma map_update_rows:
  "(\<And>r. P r \<Longrightarrow> g (f r) = g r) \<Longrightarrow> map g (update_rows P f rows) = map g rows"
  by (simp add: update_rows_def)

lemma distinct_delete_rows:
  "distinct (map g rows) \<Longrightarrow> distinct (map g (delete_rows P rows))"
  by (simp add: delete_rows_def distinct_map_filter)

lemma image_update_rows:
  "(\<And>r. P r \<Longrightarrow> g (f r) = g r) \<Longrightarrow> g ` set (update_rows P f rows) = g ` set rows"
  by (metis map_update_rows image_set)

lemma set_delete_rows [simp]: "set (delete_rows P rows) = {r \<in> set rows. \<not> P r}"
  by (auto simp: delete_rows_def)

lemma in_update_rows: "x \<in> set (update_rows P f rows) \<Longrightarrow> \<exists>r \<in> set rows. x = f r \<or> x = r"
  by (auto simp: update_rows_def split: if_splits)

lemma update_rowsD:
  "x \<in> set (update_rows P f rows) \<Longrightarrow> \<exists>r \<in> set rows. x = (if P r then f r else r)"
  by (simp only: update_rows_def set_map image_iff)

lemma update_rowsI: "r \<in> set rows \<Longrightarrow> P r \<Longrightarrow> f r \<in> set (update_rows P f rows)"
  by (force simp: update_rows_def)

lemma affected_nonneg: "0 \<le> affected P rows"
  by (simp add: affected_def)

lemma affected_none: "(\<And>r. r \<in> set rows \<Longrightarrow> \<not> P r) \<Longrightarrow> affected P rows = 0"
  by (simp add: affected_def filter_empty_conv)

section \<open>One row or none\<close>

lemma cas_miss:
  assumes "distinct (map g rows)" and "\<And>r. row_at g k rows = Some r \<Longrightarrow> \<not> Q r"
  shows "affected (\<lambda>r. g r = k \<and> Q r) rows = 0"
    and "update_rows (\<lambda>r. g r = k \<and> Q r) f rows = rows"
    and "delete_rows (\<lambda>r. g r = k \<and> Q r) rows = rows"
    and "\<not> list_ex (\<lambda>r. g r = k \<and> Q r) rows"
proof -
  have none: "\<not> (g r = k \<and> Q r)" if "r \<in> set rows" for r
    using assms that by (auto simp: row_at_eq)
  then show "affected (\<lambda>r. g r = k \<and> Q r) rows = 0"
    by (intro affected_none)
  from none show "update_rows (\<lambda>r. g r = k \<and> Q r) f rows = rows"
    by (auto simp: update_rows_def intro!: map_idI)
  from none show "delete_rows (\<lambda>r. g r = k \<and> Q r) rows = rows"
    by (auto simp: delete_rows_def filter_id_conv)
  from none show "\<not> list_ex (\<lambda>r. g r = k \<and> Q r) rows"
    by (auto simp: list_ex_iff)
qed

text \<open>A hit splits the table around the row.\<close>

lemma hit_split:
  assumes "distinct (map g rows)" and "row_at g k rows = Some r" and "Q r"
  obtains xs ys where "rows = xs @ r # ys"
    "\<And>s. s \<in> set xs \<union> set ys \<Longrightarrow> g s \<noteq> k" "g r = k" "row_at g k xs = None" "row_at g k ys = None"
    "update_rows (\<lambda>r. g r = k \<and> Q r) f rows = xs @ f r # ys"
    "delete_rows (\<lambda>r. g r = k \<and> Q r) rows = xs @ ys"
    "filter (\<lambda>r. g r = k \<and> Q r) rows = [r]"
proof -
  from assms(1,2) have "r \<in> set rows" and k: "g r = k" by (auto simp: row_at_eq)
  then obtain xs ys where rows: "rows = xs @ r # ys" by (meson split_list)
  with assms(1) k have "k \<notin> g ` (set xs \<union> set ys)" by auto
  then have other: "g s \<noteq> k" if "s \<in> set xs \<union> set ys" for s
    using that by (metis imageI)
  have "map (\<lambda>r. if g r = k \<and> Q r then f r else r) zs = zs"
    and "filter (\<lambda>r. \<not> (g r = k \<and> Q r)) zs = zs" and "filter (\<lambda>r. g r = k \<and> Q r) zs = []"
    and "row_at g k zs = None"
    if "set zs \<subseteq> set xs \<union> set ys" for zs
  proof -
    from that other have "\<forall>s \<in> set zs. g s \<noteq> k" by blast
    then show "map (\<lambda>r. if g r = k \<and> Q r then f r else r) zs = zs"
      "filter (\<lambda>r. \<not> (g r = k \<and> Q r)) zs = zs" "filter (\<lambda>r. g r = k \<and> Q r) zs = []"
      "row_at g k zs = None"
      by (induction zs) auto
  qed
  note parts = this [of xs] this [of ys]
  show thesis
    by (rule that [OF rows other k])
      (use parts assms(3) k in \<open>simp_all add: rows update_rows_def delete_rows_def\<close>)
qed

lemma cas_hit:
  assumes "distinct (map g rows)" and "row_at g k rows = Some r" and "Q r"
  shows "affected (\<lambda>r. g r = k \<and> Q r) rows = 1" and "list_ex (\<lambda>r. g r = k \<and> Q r) rows"
proof -
  obtain xs ys where "filter (\<lambda>r. g r = k \<and> Q r) rows = [r]"
    using hit_split [of g rows k r Q] assms by metis
  then show "affected (\<lambda>r. g r = k \<and> Q r) rows = 1" by (simp add: affected_def)
  show "list_ex (\<lambda>r. g r = k \<and> Q r) rows"
    using assms row_at_SomeD by (fastforce simp: list_ex_iff)
qed

lemma cas_iff:
  assumes "distinct (map g rows)"
  shows "affected (\<lambda>r. g r = k \<and> Q r) rows = 1 \<longleftrightarrow> (\<exists>r. row_at g k rows = Some r \<and> Q r)"
  using cas_hit(1) [OF assms] cas_miss(1) [OF assms, of k Q] by fastforce

lemma row_at_update:
  assumes "distinct (map g rows)" and "row_at g k rows = Some r" and "Q r" and "g (f r) = g r"
  shows "row_at g j (update_rows (\<lambda>r. g r = k \<and> Q r) f rows) =
    (if j = k then Some (f r) else row_at g j rows)"
  by (rule hit_split [OF assms(1,2), of Q f]) (auto simp: assms row_at_append split: option.splits)

lemma row_at_delete:
  assumes "distinct (map g rows)" and "row_at g k rows = Some r" and "Q r"
  shows "row_at g j (delete_rows (\<lambda>r. g r = k \<and> Q r) rows) =
    (if j = k then None else row_at g j rows)"
  by (rule hit_split [OF assms(1,2), of Q id]) (auto simp: assms row_at_append split: option.splits)

end
