(* ===== verification/DbInv.thy ===== *)
theory DbInv
  imports Tables
begin

text \<open>
  What the constraints and triggers of the schema keep true: the name-space invariant, its
  preservation by every operation that respects it, and what the \<open>LIKE\<close> triggers imply.
\<close>

section \<open>The name-space invariant\<close>

text \<open>
  Row ids, object keys and paths are unique, and a path of a root is a file or a directory,
  never both.
\<close>

definition file_place :: "file_row \<Rightarrow> int \<times> string" where
  "file_place f = (file_RootID f, file_LogicalPath f)"

definition dir_place :: "dir_row \<Rightarrow> int \<times> string" where
  "dir_place x = (dir_RootID x, dir_LogicalPath x)"

definition names_inv :: "db \<Rightarrow> bool" where
  "names_inv d \<longleftrightarrow>
     distinct (map file_ID (db_files d)) \<and> distinct (map file_ObjectKey (db_files d))
     \<and> distinct (map file_place (db_files d))
     \<and> distinct (map dir_ID (db_dirs d)) \<and> distinct (map dir_place (db_dirs d))
     \<and> file_place ` set (db_files d) \<inter> dir_place ` set (db_dirs d) = {}"

lemma file_at_iff: "file_at r p f \<longleftrightarrow> file_place f = (r, p)"
  by (auto simp: file_at_def file_place_def)

lemma dir_at_iff: "dir_at r p x \<longleftrightarrow> dir_place x = (r, p)"
  by (auto simp: dir_at_def dir_place_def)

lemma names_inv_insert_file:
  assumes inv: "names_inv d" and ins: "insert_file d f = Inr (f', d')"
  shows "names_inv d'" and "file_ID f' \<notin> file_ID ` set (db_files d)"
    and "d' = d\<lparr>db_files := db_files d @ [f']\<rparr>"
    and "f' = f\<lparr>file_ID := file_ID f'\<rparr>"
proof -
  have ok: "file_insertable d f"
    and f': "f' = f\<lparr>file_ID := next_id (map file_ID (db_files d))\<rparr>"
    and d': "d' = d\<lparr>db_files := db_files d @ [f']\<rparr>"
    using ins by (auto simp: insert_file_def Let_def split: if_splits)
  show d'': "d' = d\<lparr>db_files := db_files d @ [f']\<rparr>" by (rule d')
  show "f' = f\<lparr>file_ID := file_ID f'\<rparr>" using f' by simp
  show fresh: "file_ID f' \<notin> file_ID ` set (db_files d)"
    using f' next_id_fresh [of "map file_ID (db_files d)"] by simp
  have "file_ObjectKey f' \<notin> file_ObjectKey ` set (db_files d)"
    and "file_place f' \<notin> file_place ` set (db_files d)"
    and "file_place f' \<notin> dir_place ` set (db_dirs d)"
    using ok f'
    by (auto simp: file_insertable_def list_ex_iff file_at_iff dir_at_iff file_place_def)
  with inv fresh show "names_inv d'"
    by (auto simp: names_inv_def d')
qed

lemma names_inv_CreateFile:
  assumes "names_inv d" and "CreateFile flt now d f = (d', r)"
  shows "names_inv d'"
  using assms names_inv_insert_file(1) [OF assms(1)]
  by (auto simp: CreateFile_def Let_def split: if_splits sum.splits prod.splits)

lemma names_inv_same_files:
  assumes "names_inv d" and "db_files d' = db_files d" and "db_dirs d' = db_dirs d"
  shows "names_inv d'"
  using assms by (simp add: names_inv_def)

lemma names_inv_update_files:
  assumes "names_inv d" and "db_dirs d' = db_dirs d"
    and "db_files d' = update_rows P f (db_files d)"
    and "\<And>r. P r \<Longrightarrow> file_ID (f r) = file_ID r" "\<And>r. P r \<Longrightarrow> file_ObjectKey (f r) = file_ObjectKey r"
    and "\<And>r. P r \<Longrightarrow> file_place (f r) = file_place r"
  shows "names_inv d'"
  using assms by (simp add: names_inv_def map_update_rows image_update_rows)

lemma names_inv_BeginFileDelete:
  assumes "names_inv d" and "BeginFileDelete flt now d i key = (d', r)"
  shows "names_inv d'"
proof (cases flt)
  case True
  with assms show ?thesis by (simp add: BeginFileDelete_def)
next
  case False
  with assms(2) have "db_dirs d' = db_dirs d"
    and "db_files d' = update_rows (\<lambda>f. file_ID f = i \<and> file_ObjectKey f = key
        \<and> file_DeleteState f = FileActive)
      (\<lambda>f. f\<lparr>file_DeleteState := FileDeleting, file_UpdatedAt := now\<rparr>) (db_files d)"
    by (auto simp: BeginFileDelete_def Let_def)
  with assms(1) show ?thesis
    by (rule names_inv_update_files) (simp_all add: file_place_def)
qed

lemma names_inv_delete_files: "names_inv d \<Longrightarrow> names_inv (delete_files P d)"
  by (auto simp: names_inv_def delete_files_def distinct_delete_rows)

lemma names_inv_FinalizeFileDelete:
  "names_inv d \<Longrightarrow> FinalizeFileDelete flt d i key = (d', r) \<Longrightarrow> names_inv d'"
  by (auto simp: FinalizeFileDelete_def Let_def names_inv_delete_files split: if_splits)

lemma names_inv_DeleteFile:
  "names_inv d \<Longrightarrow> DeleteFile flt d i = (d', r) \<Longrightarrow> names_inv d'"
  by (auto simp: DeleteFile_def Let_def names_inv_delete_files split: if_splits)

lemma names_inv_CreateDirectory:
  assumes "names_inv d" and "CreateDirectory flt now d x = (d', r)"
  shows "names_inv d'"
proof (cases "flt \<or> \<not> dir_insertable d x")
  case True
  with assms show ?thesis by (auto simp: CreateDirectory_def Let_def split: if_splits)
next
  case False
  with assms(2) obtain x' where d': "d' = d\<lparr>db_dirs := db_dirs d @ [x']\<rparr>"
    and id: "dir_ID x' = next_id (map dir_ID (db_dirs d))" and pl: "dir_place x' = dir_place x"
    by (auto simp: CreateDirectory_def Let_def dir_place_def)
  have "dir_ID x' \<notin> dir_ID ` set (db_dirs d)"
    using next_id_fresh [of "map dir_ID (db_dirs d)"] id by simp
  moreover have "dir_place x' \<notin> dir_place ` set (db_dirs d)"
    and "dir_place x' \<notin> file_place ` set (db_files d)"
    using False pl
    by (auto simp: dir_insertable_def list_ex_iff file_at_iff dir_at_iff dir_place_def)
  ultimately show ?thesis using assms(1) by (simp add: names_inv_def d')
qed

lemma names_inv_delete_dirs:
  "names_inv d \<Longrightarrow> names_inv (d\<lparr>db_dirs := delete_rows P (db_dirs d)\<rparr>)"
  by (simp add: names_inv_def distinct_delete_rows) blast

lemma names_inv_DeleteDirectory:
  "names_inv d \<Longrightarrow> DeleteDirectory flt d i = (d', r) \<Longrightarrow> names_inv d'"
  by (auto simp: DeleteDirectory_def Let_def names_inv_delete_dirs split: if_splits)

text \<open>
  \<open>RenameFile\<close> is guarded by the unique key on files only: the invariant survives when no
  directory has the new path.
\<close>

lemma names_inv_RenameFile:
  assumes inv: "names_inv d"
    and ren: "RenameFile flt now d i old new = (d', r)"
    and free: "\<And>f. f \<in> set (db_files d) \<Longrightarrow> file_ID f = i \<Longrightarrow>
      (file_RootID f, new) \<notin> dir_place ` set (db_dirs d)"
  shows "names_inv d'"
proof -
  let ?P = "\<lambda>f. file_ID f = i \<and> file_LogicalPath f = old \<and> file_DeleteState f = FileActive"
  let ?u = "\<lambda>f. f\<lparr>file_LogicalPath := new, file_UpdatedAt := now\<rparr>"
  let ?h = "\<lambda>f. if ?P f then ?u f else f"
  show ?thesis
  proof (cases "d' = d")
    case True
    with inv show ?thesis by simp
  next
    case False
    with ren have free_file: "\<And>f g. f \<in> set (db_files d) \<Longrightarrow> ?P f \<Longrightarrow> g \<in> set (db_files d) \<Longrightarrow>
        file_ID g \<noteq> file_ID f \<Longrightarrow> file_place g \<noteq> (file_RootID f, new)"
      and d': "d' = d\<lparr>db_files := map ?h (db_files d)\<rparr>"
      unfolding RenameFile_def Let_def update_rows_def list_ex_iff file_at_iff
      by (auto split: if_splits)
    have ids: "inj_on file_ID (set (db_files d))"
      and places: "inj_on file_place (set (db_files d))" and dl: "distinct (db_files d)"
      using inv by (auto simp: names_inv_def distinct_map)
    have "inj_on (\<lambda>f. file_place (?h f)) (set (db_files d))"
    proof (rule inj_onI)
      fix f g
      assume fg: "f \<in> set (db_files d)" "g \<in> set (db_files d)"
        and eq: "file_place (?h f) = file_place (?h g)"
      show "f = g"
      proof (rule ccontr)
        assume ne: "f \<noteq> g"
        then have idne: "file_ID f \<noteq> file_ID g" using fg ids by (auto dest: inj_onD)
        consider "\<not> ?P f" "\<not> ?P g" | "?P f" "\<not> ?P g" | "\<not> ?P f" "?P g"
          using idne by auto
        then show False
        proof cases
          case 1
          with eq have "file_place f = file_place g"
            by (simp only: 1 if_False)
          with fg places ne show False by (auto dest: inj_onD)
        next
          case 2
          then have "file_place g = (file_RootID f, new)"
            using eq by (auto simp: file_place_def)
          with free_file [OF fg(1) 2(1) fg(2)] idne show False by simp
        next
          case 3
          then have "file_place f = (file_RootID g, new)"
            using eq by (auto simp: file_place_def)
          with free_file [OF fg(2) 3(2) fg(1)] idne show False by simp
        qed
      qed
    qed
    then have "distinct (map file_place (db_files d'))"
      using dl by (simp add: d' distinct_map comp_def)
    moreover have "file_place ` set (db_files d') \<inter> dir_place ` set (db_dirs d') = {}"
    proof -
      have "file_place (?h f) \<notin> dir_place ` set (db_dirs d)" if "f \<in> set (db_files d)" for f
      proof (cases "?P f")
        case True
        with free [OF that] show ?thesis by (simp add: file_place_def)
      next
        case False
        have "file_place f \<notin> dir_place ` set (db_dirs d)"
          using inv that by (auto simp: names_inv_def)
        then show ?thesis by (subst if_not_P [OF False])
      qed
      then have "p \<notin> dir_place ` set (db_dirs d)"
        if "p \<in> (\<lambda>f. file_place (?h f)) ` set (db_files d)" for p
        using that by (elim imageE) (simp only: not_False_eq_True)
      then have "(\<lambda>f. file_place (?h f)) ` set (db_files d) \<inter> dir_place ` set (db_dirs d) = {}"
        unfolding disjoint_iff by (intro allI impI)
      moreover have "db_files d' = map ?h (db_files d)" and "db_dirs d' = db_dirs d"
        by (simp_all add: d')
      ultimately show ?thesis by (simp only: list.set_map image_image)
    qed
    moreover have "map file_ID (db_files d') = map file_ID (db_files d)"
      and "map file_ObjectKey (db_files d') = map file_ObjectKey (db_files d)"
      and "db_dirs d' = db_dirs d"
      by (simp_all add: d')
    ultimately show ?thesis using inv unfolding names_inv_def by (simp only: simp_thms)
  qed
qed

section \<open>What the LIKE triggers imply\<close>

lemma like_literal: "like q s \<Longrightarrow> like (p @ q) (p @ s)"
  by (induction p) auto

lemma like_any: "like [37] s"
  by (induction s) auto

lemma like_slash_any: "like [47, 37] (47 # s)"
  by (subst like.simps(2)) (simp add: like_any del: like.simps)

lemma decode_rune_append_ascii:
  assumes b: "b < 128" and ne: "as \<noteq> []"
  shows "decode_rune (as @ b # bs) = decode_rune as"
proof -
  have no: "\<not> second_ok x b" "\<not> cont_byte b" for x
    using b by (auto simp: second_ok_def cont_byte_def)
  consider a0 where "as = [a0]" | a0 a1 where "as = [a0, a1]"
    | a0 a1 a2 where "as = [a0, a1, a2]" | a0 a1 a2 a3 rest where "as = a0 # a1 # a2 # a3 # rest"
    using ne by (metis neq_Nil_conv)
  then show ?thesis
    by cases (auto simp: no split: list.splits)
qed

lemma decode_rune_width_le: "snd (decode_rune bs) \<le> max 1 (length bs)"
  by (cases bs) (auto split: list.splits)

lemma decode_append_ascii:
  assumes "b < 128"
  shows "decode (as @ b # bs) = decode as @ decode (b # bs)"
proof (induction as rule: decode.induct)
  case (1 as)
  show ?case
  proof (cases as)
    case Nil
    then show ?thesis by (simp add: decode.simps [of "[]"])
  next
    case (Cons a0 cs)
    have same: "decode_rune (as @ b # bs) = decode_rune as"
      and width: "snd (decode_rune as) \<le> length as"
      using decode_rune_append_ascii [OF assms, of as bs] decode_rune_width_le [of as] Cons
      by (simp_all del: decode_rune.simps)
    have drop_w: "drop (snd (decode_rune as)) (as @ b # bs) = drop (snd (decode_rune as)) as @ b # bs"
      using width by simp
    have "decode (as @ b # bs) = decode_rune as # decode (drop (snd (decode_rune as)) as @ b # bs)"
      using same width drop_w by (subst decode.simps) (simp del: decode_rune.simps)
    also have "\<dots> = decode_rune as # decode (drop (snd (decode_rune as)) as) @ decode (b # bs)"
      using 1 Cons by (simp del: decode_rune.simps)
    also have "\<dots> = decode as @ decode (b # bs)"
      using Cons by (subst (2) decode.simps) (simp del: decode_rune.simps)
    finally show ?thesis .
  qed
qed

lemma runes_append_slash: "runes (s @ CHR ''/'' # t) = runes s @ 47 # runes t"
proof -
  have "decode (bytes_of (s @ CHR ''/'' # t))
      = decode (bytes_of s) @ decode (47 # bytes_of t)"
    using decode_append_ascii [of 47 "bytes_of s" "bytes_of t"] by (simp add: bytes_of_def)
  moreover have "decode (47 # bytes_of t) = (47, 1) # decode (bytes_of t)"
    by (subst decode.simps) simp
  ultimately show ?thesis by (simp add: runes_def)
qed

lemma runes_percent: "runes ''%'' = [37]"
  by (simp add: runes_def bytes_of_def decode.simps)

lemma under_sql_like:
  assumes "has_prefix p (dir @ ''/'')"
  shows "sql_like p (dir @ ''/%'')"
proof -
  obtain r where p: "p = dir @ CHR ''/'' # r"
    using assms by (auto simp: has_prefix_def prefix_def)
  have "like (runes dir @ [47, 37]) (runes dir @ 47 # runes r)"
    by (rule like_literal) (rule like_slash_any)
  then show ?thesis
    using runes_append_slash [of dir "''%''"] runes_append_slash [of dir r]
    by (simp add: sql_like_def p runes_percent)
qed

text \<open>The trigger is at least as strict as the handler's check: what is deleted was empty.\<close>

lemma dir_deletable_empty:
  assumes "dir_deletable d x"
  shows "DirectoryEmpty False d x = Inr True"
  using assms under_sql_like [of _ "dir_LogicalPath x"]
  by (auto simp: dir_deletable_def DirectoryEmpty_def list_ex_iff Let_def)

lemma DeleteDirectory_ok:
  assumes "DeleteDirectory flt d i = (d', Inr ())"
  obtains x where "x \<in> set (db_dirs d)" "dir_ID x = i" "dir_deletable d x"
    "db_dirs d' = delete_rows (\<lambda>y. dir_ID y = i) (db_dirs d)" "db_files d' = db_files d"
proof -
  have one: "affected (\<lambda>y. dir_ID y = i) (db_dirs d) = 1"
    and del: "\<forall>x \<in> set (db_dirs d). dir_ID x = i \<longrightarrow> dir_deletable d x"
    and d': "d' = d\<lparr>db_dirs := delete_rows (\<lambda>y. dir_ID y = i) (db_dirs d)\<rparr>"
    using assms by (auto simp: DeleteDirectory_def Let_def list_all_iff split: if_splits)
  from affected_pos [OF one] obtain x where "x \<in> set (db_dirs d)" "dir_ID x = i" by auto
  with del d' that show ?thesis by simp
qed

end
