(* ===== verification/DbUploads.thy ===== *)
theory DbUploads
  imports DbInv
begin

text \<open>
  The upload sessions of \<open>internal/db/repository.go\<close>: creation, the two compare-and-set
  updates (offset and status), the completing transaction and deletion, with the
  constraints of \<open>upload_sessions\<close>.  The status column is the datatype \<open>session_status\<close>;
  the only caller of \<open>CreateUploadSession\<close> passes the status, so the default for an empty
  one does not arise.
\<close>

section \<open>Operations\<close>

definition session_insertable :: "db \<Rightarrow> upload_row \<Rightarrow> bool" where
  "session_insertable d s \<longleftrightarrow>
     \<not> list_ex (\<lambda>t. up_ID t = up_ID s) (db_uploads d)
     \<and> \<not> list_ex (\<lambda>t. up_StagingPath t = up_StagingPath s) (db_uploads d)
     \<and> user_exists d (up_UserID s) \<and> root_exists d (up_RootID s)
     \<and> up_Offset s \<ge> 0 \<and> up_Length s \<ge> 0"

definition CreateUploadSession ::
    "bool \<Rightarrow> int \<Rightarrow> db \<Rightarrow> upload_row \<Rightarrow> db \<times> (err + upload_row)" where
  "CreateUploadSession flt now d s =
     (let created = utcOrNow now (up_CreatedAt s);
          updated = updatedOr created (up_UpdatedAt s);
          expires = utcOrNow now (up_ExpiresAt s);
          s' = s\<lparr>up_CreatedAt := created, up_UpdatedAt := updated, up_ExpiresAt := expires\<rparr> in
      if flt then (d, Inl DbOther)
      else if \<not> session_insertable d s' then (d, Inl DbConflict)
      else (d\<lparr>db_uploads := db_uploads d @ [s']\<rparr>, Inr s'))"

definition UploadSessions :: "bool \<Rightarrow> db \<Rightarrow> int \<Rightarrow> err + upload_row list" where
  "UploadSessions flt d limit =
     (if limit \<le> 0 then Inr []
      else if flt then Inl DbOther
      else Inr (sql_limit limit (sort_key up_ID
             (filter (\<lambda>s. up_Status s \<in> {Active, SCancelled, CleanupPending}) (db_uploads d)))))"

definition UploadSessionByID :: "bool \<Rightarrow> db \<Rightarrow> string \<Rightarrow> err + upload_row" where
  "UploadSessionByID flt d i = query_row flt (\<lambda>s. up_ID s = i) (db_uploads d)"

definition UpdateUploadOffset ::
    "bool \<Rightarrow> int \<Rightarrow> db \<Rightarrow> string \<Rightarrow> int \<Rightarrow> int \<Rightarrow> db \<times> (err + unit)" where
  "UpdateUploadOffset flt now d i expected offset =
     (let P = (\<lambda>s. up_ID s = i \<and> up_Offset s = expected) in
      if flt \<or> (offset < 0 \<and> list_ex P (db_uploads d)) then (d, Inl DbOther)
      else
        (d\<lparr>db_uploads := update_rows P
             (\<lambda>s. s\<lparr>up_Offset := offset, up_UpdatedAt := now\<rparr>) (db_uploads d)\<rparr>,
         if affected P (db_uploads d) \<noteq> 1 then Inl DbConflict else Inr ()))"

definition UpdateUploadStatus ::
    "bool \<Rightarrow> int \<Rightarrow> db \<Rightarrow> string \<Rightarrow> session_status \<Rightarrow> session_status \<Rightarrow> db \<times> (err + unit)" where
  "UpdateUploadStatus flt now d i expected status =
     (let P = (\<lambda>s. up_ID s = i \<and> up_Status s = expected) in
      if flt then (d, Inl DbOther)
      else
        (d\<lparr>db_uploads := update_rows P
             (\<lambda>s. s\<lparr>up_Status := status, up_UpdatedAt := now\<rparr>) (db_uploads d)\<rparr>,
         if affected P (db_uploads d) \<noteq> 1 then Inl DbConflict else Inr ()))"

text \<open>
  \<open>CompleteUpload\<close> is one transaction: it deletes the session if it is active and not
  expired, inserts the file row, and queues an MD5 task when the site computes digests.  Any
  failure leaves the database as it was.
\<close>

definition CompleteUpload ::
    "bool \<Rightarrow> int \<Rightarrow> db \<Rightarrow> file_row \<Rightarrow> string \<Rightarrow> db \<times> (err + unit)" where
  "CompleteUpload flt now d f sid =
     (let P = (\<lambda>s. up_ID s = sid \<and> up_Status s = Active \<and> up_ExpiresAt s > now);
          created = utcOrNow now (file_CreatedAt f);
          updated = updatedOr created (file_UpdatedAt f);
          md5 = set_MD5Enabled (db_settings d);
          row = f\<lparr>file_CreatedAt := created, file_UpdatedAt := updated,
                  file_DeleteState := FileActive,
                  file_MD5Status := (if md5 then MD5Pending else MD5Disabled),
                  file_MD5Digest := [], file_MD5Error := []\<rparr> in
      if flt then (d, Inl DbOther)
      else if affected P (db_uploads d) \<noteq> 1 then (d, Inl DbConflict)
      else
        (case insert_file (d\<lparr>db_uploads := delete_rows P (db_uploads d)\<rparr>) row of
           Inl e \<Rightarrow> (d, Inl e)
         | Inr (f', d') \<Rightarrow>
             if \<not> md5 then (d', Inr ())
             else if list_ex (\<lambda>t. task_FileID t = file_ID f') (db_tasks d') then (d, Inl DbOther)
             else
               (d'\<lparr>db_tasks := db_tasks d' @
                    [\<lparr>task_FileID = file_ID f', task_Status = TaskPending, task_Attempts = 0,
                      task_MaxAttempts = 3, task_AvailableAt = created, task_ClaimedAt = None,
                      task_CreatedAt = created, task_UpdatedAt = updated\<rparr>]\<rparr>, Inr ())))"

definition DeleteUploadSession :: "bool \<Rightarrow> db \<Rightarrow> string \<Rightarrow> db \<times> (err + unit)" where
  "DeleteUploadSession flt d i =
     (let P = (\<lambda>s. up_ID s = i) in
      if flt then (d, Inl DbOther)
      else
        (d\<lparr>db_uploads := delete_rows P (db_uploads d)\<rparr>,
         if affected P (db_uploads d) \<noteq> 1 then Inl DbNotFound else Inr ()))"

section \<open>The table as a map\<close>

text \<open>
  Session ids are unique, so the table is a finite map from ids to rows; the operations are
  insertions, updates and deletions of that map.
\<close>

definition session :: "db \<Rightarrow> string \<Rightarrow> upload_row option" where
  "session d i = row_at up_ID i (db_uploads d)"

definition sessions_ok :: "db \<Rightarrow> bool" where
  "sessions_ok d \<longleftrightarrow>
     distinct (map up_ID (db_uploads d)) \<and> distinct (map up_StagingPath (db_uploads d))
     \<and> (\<forall>s \<in> set (db_uploads d). 0 \<le> up_Offset s \<and> 0 \<le> up_Length s)"

lemma sessions_ok_cong: "db_uploads d' = db_uploads d \<Longrightarrow> sessions_ok d' = sessions_ok d"
  by (simp add: sessions_ok_def)

lemma sessions_okD [dest]: "sessions_ok d \<Longrightarrow> distinct (map up_ID (db_uploads d))"
  by (simp add: sessions_ok_def)

text \<open>Only the session table differs.\<close>

definition uploads_only :: "db \<Rightarrow> db \<Rightarrow> bool" where
  "uploads_only d d' \<longleftrightarrow> (\<exists>us. d' = d\<lparr>db_uploads := us\<rparr>)"

lemma uploads_onlyI [simp]: "uploads_only d (d\<lparr>db_uploads := us\<rparr>)"
  by (auto simp: uploads_only_def)

lemma uploads_only_refl [simp]: "uploads_only d d"
  unfolding uploads_only_def by (rule exI [of _ "db_uploads d"]) simp

lemma uploads_only_trans: "uploads_only c d \<Longrightarrow> uploads_only d e \<Longrightarrow> uploads_only c e"
  by (auto simp: uploads_only_def)

lemma uploads_onlyD:
  assumes "uploads_only d d'"
  shows "db_files d' = db_files d" "db_dirs d' = db_dirs d" "db_tasks d' = db_tasks d"
    "db_settings d' = db_settings d" "names_inv d' = names_inv d"
proof -
  from assms obtain us where "d' = d\<lparr>db_uploads := us\<rparr>" by (auto simp: uploads_only_def)
  then show "db_files d' = db_files d" "db_dirs d' = db_dirs d" "db_tasks d' = db_tasks d"
    "db_settings d' = db_settings d" "names_inv d' = names_inv d"
    by (simp_all add: names_inv_def)
qed

lemma session_iff:
  "sessions_ok d \<Longrightarrow> session d i = Some s \<longleftrightarrow> s \<in> set (db_uploads d) \<and> up_ID s = i"
  by (auto simp: session_def row_at_eq sessions_ok_def)

lemma session_ID: "session d i = Some s \<Longrightarrow> up_ID s = i"
  unfolding session_def by (drule row_at_SomeD) blast

lemma session_in: "session d i = Some s \<Longrightarrow> s \<in> set (db_uploads d)"
  unfolding session_def by (drule row_at_SomeD) blast

lemma session_nonneg:
  "sessions_ok d \<Longrightarrow> session d i = Some s \<Longrightarrow> 0 \<le> up_Offset s \<and> 0 \<le> up_Length s"
  by (simp add: session_iff sessions_ok_def)

lemma UploadSessionByID_eq:
  "UploadSessionByID flt d i =
     (if flt then Inl DbOther else case session d i of None \<Rightarrow> Inl DbNotFound | Some s \<Rightarrow> Inr s)"
  by (simp add: UploadSessionByID_def session_def query_row_at)

lemma session_same_uploads: "db_uploads d' = db_uploads d \<Longrightarrow> session d' = session d"
  by (simp add: session_def fun_eq_iff)

lemma sessions_ok_update:
  assumes "sessions_ok d" and "\<And>s. up_ID (f s) = up_ID s" and "\<And>s. up_StagingPath (f s) = up_StagingPath s"
    and "\<And>s. s \<in> set (db_uploads d) \<Longrightarrow> P s \<Longrightarrow> 0 \<le> up_Offset (f s) \<and> 0 \<le> up_Length (f s)"
  shows "sessions_ok (d\<lparr>db_uploads := update_rows P f (db_uploads d)\<rparr>)"
proof -
  have "map up_ID (update_rows P f (db_uploads d)) = map up_ID (db_uploads d)"
    and "map up_StagingPath (update_rows P f (db_uploads d)) = map up_StagingPath (db_uploads d)"
    using assms(2,3) by (auto intro: map_update_rows)
  moreover have "\<forall>s \<in> set (update_rows P f (db_uploads d)). 0 \<le> up_Offset s \<and> 0 \<le> up_Length s"
    using assms(1,4) by (auto simp: update_rows_def sessions_ok_def)
  ultimately show ?thesis using assms(1) by (simp add: sessions_ok_def)
qed

lemma cas_session:
  assumes ok: "sessions_ok d" and s: "session d i = Some s" "Q s"
    and f: "\<And>s. up_ID (f s) = up_ID s" "\<And>s. up_StagingPath (f s) = up_StagingPath s"
      "\<And>s. 0 \<le> up_Offset s \<Longrightarrow> 0 \<le> up_Length s \<Longrightarrow> 0 \<le> up_Offset (f s) \<and> 0 \<le> up_Length (f s)"
  defines "d' \<equiv> d\<lparr>db_uploads := update_rows (\<lambda>s. up_ID s = i \<and> Q s) f (db_uploads d)\<rparr>"
  shows "affected (\<lambda>s. up_ID s = i \<and> Q s) (db_uploads d) = 1"
    and "sessions_ok d'" and "session d' = (session d)(i \<mapsto> f s)"
proof -
  note dist = sessions_okD [OF ok] and s' = s(1) [unfolded session_def]
  show "affected (\<lambda>s. up_ID s = i \<and> Q s) (db_uploads d) = 1"
    by (rule cas_hit(1) [where Q = Q, OF dist s' s(2)])
  show "sessions_ok d'" unfolding d'_def
    by (rule sessions_ok_update [OF ok f(1,2)]) (use ok f(3) in \<open>auto simp: sessions_ok_def\<close>)
  show "session d' = (session d)(i \<mapsto> f s)"
    using row_at_update [OF dist s', of Q f] s(2) f(1) by (simp add: session_def fun_eq_iff d'_def)
qed

lemma cas_session_miss:
  assumes ok: "sessions_ok d" and miss: "\<And>s. session d i = Some s \<Longrightarrow> \<not> Q s"
  shows "affected (\<lambda>s. up_ID s = i \<and> Q s) (db_uploads d) = 0"
    and "update_rows (\<lambda>s. up_ID s = i \<and> Q s) f (db_uploads d) = db_uploads d"
    and "delete_rows (\<lambda>s. up_ID s = i \<and> Q s) (db_uploads d) = db_uploads d"
    and "\<not> list_ex (\<lambda>s. up_ID s = i \<and> Q s) (db_uploads d)"
  using cas_miss [OF sessions_okD [OF ok], of i Q] miss by (auto simp: session_def)

text \<open>
  What each operation does to the map: it fails and changes nothing, or it makes the one
  change it names.
\<close>

lemma UpdateUploadOffset_cases:
  assumes ok: "sessions_ok d" and op: "UpdateUploadOffset flt now d i expected offset = (d', r)"
  obtains (Ok) s where "r = Inr ()" "session d i = Some s" "up_Offset s = expected" "0 \<le> offset"
      "uploads_only d d'" "sessions_ok d'"
      "session d' = (session d)(i \<mapsto> s\<lparr>up_Offset := offset, up_UpdatedAt := now\<rparr>)"
  | (Fail) e where "r = Inl e" "d' = d"
proof -
  let ?Q = "\<lambda>s. up_Offset s = expected"
  let ?f = "\<lambda>s. s\<lparr>up_Offset := offset, up_UpdatedAt := now\<rparr>"
  show thesis
  proof (cases "\<exists>s. session d i = Some s \<and> ?Q s")
    case False
    then have "d' = d \<and> (\<exists>e. r = Inl e)"
      using op cas_session_miss [OF ok, of i ?Q]
      by (cases flt) (auto simp: UpdateUploadOffset_def Let_def)
    with Fail show ?thesis by auto
  next
    case True
    then obtain s where s: "session d i = Some s" "?Q s" by auto
    have ex: "list_ex (\<lambda>s. up_ID s = i \<and> ?Q s) (db_uploads d)"
      using s session_in session_ID by (fastforce simp: list_ex_iff)
    show ?thesis
    proof (cases "flt \<or> offset < 0")
      case True
      with ex op have "d' = d \<and> (\<exists>e. r = Inl e)" by (auto simp: UpdateUploadOffset_def Let_def)
      with Fail show ?thesis by auto
    next
      case False
      have f: "\<And>s. 0 \<le> up_Offset s \<Longrightarrow> 0 \<le> up_Length s \<Longrightarrow>
          0 \<le> up_Offset (?f s) \<and> 0 \<le> up_Length (?f s)" using False by simp
      note hit = cas_session [of d i s ?Q ?f, OF ok s _ _ f, simplified]
      have d': "d' = d\<lparr>db_uploads := update_rows (\<lambda>s. up_ID s = i \<and> ?Q s) ?f (db_uploads d)\<rparr>"
        and r: "r = Inr ()"
        using op False hit(1) by (auto simp: UpdateUploadOffset_def Let_def)
      with hit(2,3) Ok [OF r s] False show ?thesis by simp
    qed
  qed
qed

lemma UpdateUploadStatus_cases:
  assumes ok: "sessions_ok d" and op: "UpdateUploadStatus flt now d i expected status = (d', r)"
  obtains (Ok) s where "r = Inr ()" "session d i = Some s" "up_Status s = expected" "\<not> flt"
      "uploads_only d d'" "sessions_ok d'"
      "session d' = (session d)(i \<mapsto> s\<lparr>up_Status := status, up_UpdatedAt := now\<rparr>)"
  | (Fail) e where "r = Inl e" "d' = d" "flt \<or> (\<forall>s. session d i = Some s \<longrightarrow> up_Status s \<noteq> expected)"
      "e \<noteq> DbNotFound"
proof -
  let ?Q = "\<lambda>s. up_Status s = expected"
  let ?f = "\<lambda>s. s\<lparr>up_Status := status, up_UpdatedAt := now\<rparr>"
  show thesis
  proof (cases "\<not> flt \<and> (\<exists>s. session d i = Some s \<and> ?Q s)")
    case False
    then have "d' = d \<and> (\<exists>e. r = Inl e \<and> e \<noteq> DbNotFound)"
      using op cas_session_miss [OF ok, of i ?Q]
      by (cases flt) (auto simp: UpdateUploadStatus_def Let_def)
    with Fail False show ?thesis by auto
  next
    case True
    then obtain s where s: "session d i = Some s" "?Q s" by auto
    note hit = cas_session [of d i s ?Q ?f, OF ok s, simplified]
    have d': "d' = d\<lparr>db_uploads := update_rows (\<lambda>s. up_ID s = i \<and> ?Q s) ?f (db_uploads d)\<rparr>"
      and r: "r = Inr ()"
      using op True hit(1) by (auto simp: UpdateUploadStatus_def Let_def)
    with hit(2,3) Ok [OF r s] True show ?thesis by simp
  qed
qed

lemma sessions_ok_delete:
  "sessions_ok d \<Longrightarrow> sessions_ok (d\<lparr>db_uploads := delete_rows P (db_uploads d)\<rparr>)"
  by (auto simp: sessions_ok_def distinct_delete_rows)

lemma DeleteUploadSession_cases:
  assumes ok: "sessions_ok d" and op: "DeleteUploadSession flt d i = (d', r)"
  obtains (Ok) s where "r = Inr ()" "session d i = Some s" "\<not> flt"
      "uploads_only d d'" "sessions_ok d'" "session d' = (session d)(i := None)"
  | (Fail) e where "r = Inl e" "d' = d" "flt \<or> session d i = None" "e = DbNotFound \<Longrightarrow> session d i = None"
proof -
  note dist = sessions_okD [OF ok]
  let ?T = "\<lambda>s :: upload_row. True"
  show thesis
  proof (cases "\<not> flt \<and> (\<exists>s. session d i = Some s)")
    case False
    then have "d' = d \<and> (\<exists>e. r = Inl e \<and> (e = DbNotFound \<longrightarrow> session d i = None))"
      using op cas_session_miss [OF ok, of i ?T]
      by (cases flt) (auto simp: DeleteUploadSession_def Let_def)
    with Fail False show ?thesis by auto
  next
    case True
    then obtain s where s: "session d i = Some s" by auto
    note hit = cas_hit(1) [OF dist s [unfolded session_def], of ?T, simplified]
    have d': "d' = d\<lparr>db_uploads := delete_rows (\<lambda>s. up_ID s = i) (db_uploads d)\<rparr>"
      and r: "r = Inr ()"
      using op True hit by (auto simp: DeleteUploadSession_def Let_def)
    have "session d' = (session d)(i := None)"
      using row_at_delete [OF dist s [unfolded session_def], of ?T]
      by (simp add: session_def fun_eq_iff d')
    with Ok [OF r s] True d' sessions_ok_delete [OF ok] show ?thesis by simp
  qed
qed

lemma CreateUploadSession_cases:
  assumes ok: "sessions_ok d" and op: "CreateUploadSession flt now d s = (d', r)"
  obtains (Ok) t where "r = Inr t" "up_ID t = up_ID s" "up_StagingPath t = up_StagingPath s"
      "up_Offset t = up_Offset s" "up_Length t = up_Length s" "up_Status t = up_Status s"
      "up_LogicalPath t = up_LogicalPath s" "up_RootID t = up_RootID s" "up_UserID t = up_UserID s"
      "0 \<le> up_Offset s" "0 \<le> up_Length s"
      "session d (up_ID s) = None" "up_StagingPath s \<notin> up_StagingPath ` set (db_uploads d)"
      "d' = d\<lparr>db_uploads := db_uploads d @ [t]\<rparr>" "sessions_ok d'"
      "session d' = (session d)(up_ID s \<mapsto> t)"
  | (Fail) e where "r = Inl e" "d' = d"
proof -
  define created where "created = utcOrNow now (up_CreatedAt s)"
  define t where "t = s\<lparr>up_CreatedAt := created, up_UpdatedAt := updatedOr created (up_UpdatedAt s),
    up_ExpiresAt := utcOrNow now (up_ExpiresAt s)\<rparr>"
  show thesis
  proof (cases "\<not> flt \<and> session_insertable d t")
    case False
    then have "d' = d \<and> (\<exists>e. r = Inl e)"
      using op by (auto simp: CreateUploadSession_def Let_def t_def created_def split: if_splits)
    with Fail show ?thesis by auto
  next
    case True
    then have d': "d' = d\<lparr>db_uploads := db_uploads d @ [t]\<rparr>" and r: "r = Inr t"
      using op by (auto simp: CreateUploadSession_def Let_def t_def created_def)
    have new: "up_ID s \<notin> up_ID ` set (db_uploads d)" "0 \<le> up_Offset s" "0 \<le> up_Length s"
      "up_StagingPath s \<notin> up_StagingPath ` set (db_uploads d)"
      using True by (auto simp: session_insertable_def t_def list_ex_iff)
    then have "sessions_ok d'" and none: "session d (up_ID s) = None"
      using ok by (auto simp: sessions_ok_def d' t_def session_def row_at_None)
    moreover have "session d' = (session d)(up_ID s \<mapsto> t)"
      using none by (auto simp: session_def d' row_at_append t_def fun_eq_iff split: option.splits)
    ultimately show ?thesis using Ok [OF r] new d' none by (simp add: t_def)
  qed
qed

lemma insert_file_uploads:
  "insert_file d f = Inr (f', d') \<Longrightarrow> db_uploads d' = db_uploads d \<and> db_tasks d' = db_tasks d
    \<and> db_dirs d' = db_dirs d \<and> db_files d' = db_files d @ [f'] \<and> db_settings d' = db_settings d"
  by (auto simp: insert_file_def Let_def split: if_splits)

lemma CompleteUpload_cases:
  assumes ok: "sessions_ok d" and op: "CompleteUpload flt now d f sid = (d', r)"
  obtains (Ok) s row where "r = Inr ()" "session d sid = Some s" "up_Status s = Active"
      "now < up_ExpiresAt s" "sessions_ok d'" "session d' = (session d)(sid := None)"
      "db_files d' = db_files d @ [row]" "db_dirs d' = db_dirs d"
      "file_ObjectKey row = file_ObjectKey f" "file_Size row = file_Size f"
      "file_RootID row = file_RootID f" "file_LogicalPath row = file_LogicalPath f"
      "file_DeleteState row = FileActive"
      "file_ObjectKey f \<notin> file_ObjectKey ` set (db_files d)"
      "names_inv d \<Longrightarrow> names_inv d'"
  | (Fail) e where "r = Inl e" "d' = d"
proof -
  let ?Q = "\<lambda>s. up_Status s = Active \<and> up_ExpiresAt s > now"
  let ?d1 = "d\<lparr>db_uploads := delete_rows (\<lambda>s. up_ID s = sid \<and> ?Q s) (db_uploads d)\<rparr>"
  define created where "created = utcOrNow now (file_CreatedAt f)"
  define row where "row = f\<lparr>file_CreatedAt := created,
    file_UpdatedAt := updatedOr created (file_UpdatedAt f), file_DeleteState := FileActive,
    file_MD5Status := (if set_MD5Enabled (db_settings d) then MD5Pending else MD5Disabled),
    file_MD5Digest := [], file_MD5Error := []\<rparr>"
  show thesis
  proof (cases "\<exists>e. r = Inl e")
    case True
    with op Fail show ?thesis
      by (auto simp: CompleteUpload_def Let_def split: if_splits sum.splits prod.splits)
  next
    case False
    then have aff: "affected (\<lambda>s. up_ID s = sid \<and> ?Q s) (db_uploads d) = 1"
      and ins: "\<exists>f' d2. insert_file ?d1 row = Inr (f', d2) \<and> db_uploads d' = db_uploads d2
        \<and> db_files d' = db_files d2 \<and> db_dirs d' = db_dirs d2" and r: "r = Inr ()"
      using op unfolding CompleteUpload_def Let_def row_def created_def
      by (auto split: if_splits sum.splits prod.splits)
    from ins obtain f' d2 where ins: "insert_file ?d1 row = Inr (f', d2)"
      and same: "db_uploads d' = db_uploads d2" "db_files d' = db_files d2" "db_dirs d' = db_dirs d2"
      by auto
    note dist = sessions_okD [OF ok]
    obtain s where s: "row_at up_ID sid (db_uploads d) = Some s" "?Q s"
      using cas_iff [OF dist, of sid ?Q] aff by auto
    have up: "db_uploads d' = db_uploads ?d1" and files: "db_files d' = db_files d @ [f']"
      and dirs: "db_dirs d' = db_dirs d"
      using insert_file_uploads [OF ins] same by auto
    have "session d' = (session d)(sid := None)"
      using row_at_delete [OF dist s(1), of ?Q] s(2) by (simp add: session_def fun_eq_iff up)
    moreover have "sessions_ok d'"
      unfolding sessions_ok_cong [OF up] by (rule sessions_ok_delete [OF ok])
    moreover have fields: "file_ObjectKey f' = file_ObjectKey f" "file_Size f' = file_Size f"
      "file_RootID f' = file_RootID f" "file_LogicalPath f' = file_LogicalPath f"
      "file_DeleteState f' = FileActive" and "file_insertable ?d1 row"
      using ins by (auto simp: insert_file_def Let_def row_def split: if_splits)
    moreover have "file_ObjectKey f \<notin> file_ObjectKey ` set (db_files d)"
      using \<open>file_insertable ?d1 row\<close> by (auto simp: file_insertable_def list_ex_iff row_def)
    moreover have "names_inv d'" if "names_inv d"
    proof -
      have "names_inv ?d1" using that by (simp add: names_inv_def)
      with names_inv_insert_file(1) [OF _ ins] have "names_inv d2" by blast
      with same show ?thesis by (simp add: names_inv_def)
    qed
    ultimately show ?thesis
      using Ok [OF r, of s f'] s files dirs by (simp add: session_def)
  qed
qed

end
