(* ===== verification/Upload.thy ===== *)
theory Upload
  imports Storage DbUploads "HOL-Library.Word"
begin

text \<open>
  Package \<open>internal/upload\<close> (\<open>session.go\<close>): resumable uploads over the session table and
  the staging directory.

  The state is the \<open>hub\<close>: the database and the object store.  Every call that can fail has
  a \<open>site\<close>, and an operation takes the function from sites to faults, so one execution is
  one choice of faults.  \<open>now\<close> is the clock when a critical section reads it.  What the body
  reader yields, and how many bytes the disk takes, is the argument \<open>body\<close>.  The mutex and
  the \<open>flock\<close> make the critical section of one session atomic; the parts of an operation
  outside them are separated by the arguments \<open>olds\<close> (the database when the staging
  path was looked up) and \<open>env\<close> (what other processes did between two critical sections).
\<close>

unbundle bit_operations_syntax

record hub =
  hub_db :: db
  hub_store :: object_store

datatype site =
    CtxSite | RandSite | PreLookup | LockSite | RereadSite | UnlockSite
  | CreateSite | CloseSite | InsertSite | RemoveSite
  | OpenSite | StatSite | TruncateSite | SeekSite | SyncSite | RollbackSite | OffsetSite
  | CancelSite | PendingSite | DeleteSite
  | HashSite | PublishSite | CommitSite | RestoreSite

type_synonym faults = "site \<Rightarrow> io_fault"

definition bad :: "io_fault \<Rightarrow> bool" where
  "bad f \<longleftrightarrow> f \<noteq> NoFault"

record upload_session =
  us_ID :: string
  us_Offset :: int
  us_Length :: int
  us_ExpiresAt :: int

definition public :: "upload_row \<Rightarrow> upload_session" where
  "public s = \<lparr>us_ID = up_ID s, us_Offset = up_Offset s, us_Length = up_Length s,
              us_ExpiresAt = up_ExpiresAt s\<rparr>"

definition staging_name :: "string \<Rightarrow> string" where
  "staging_name i = ''staging/'' @ i @ ''.part''"

definition live :: "int \<Rightarrow> upload_row \<Rightarrow> bool" where
  "live now s \<longleftrightarrow> up_Status s = Active \<and> up_ExpiresAt s > now"

section \<open>Create and Get\<close>

definition Create ::
    "faults \<Rightarrow> int \<Rightarrow> int \<Rightarrow> string \<Rightarrow> int \<Rightarrow> int \<Rightarrow> string \<Rightarrow> int \<Rightarrow> hub
     \<Rightarrow> hub \<times> (err + upload_session)" where
  "Create F now ttl random userID rootID path length' h =
     (if length' < 0 then (h, Inl TooLarge)
      else if bad (F RandSite) then (h, Inl IoError)
      else
        (let i = hex_encode random; name = staging_name i in
         case store_CreateStaging (F CreateSite) name (hub_store h) of
           (s1, Inl e) \<Rightarrow> (h\<lparr>hub_store := s1\<rparr>, Inl e)
         | (s1, Inr ()) \<Rightarrow>
             if bad (F CloseSite) then (h\<lparr>hub_store := s1\<rparr>, Inl IoError)
             else
               (case CreateUploadSession (bad (F InsertSite)) now (hub_db h)
                       \<lparr>up_ID = i, up_UserID = userID, up_RootID = rootID, up_LogicalPath = path,
                        up_StagingPath = name, up_Offset = 0, up_Length = length',
                        up_Status = Active, up_ExpiresAt = now + ttl,
                        up_CreatedAt = zero_time, up_UpdatedAt = zero_time\<rparr> of
                  (d, Inl e) \<Rightarrow>
                    (\<lparr>hub_db = d, hub_store = fst (store_RemoveStaging (F RemoveSite) name s1)\<rparr>, Inl e)
                | (d, Inr s) \<Rightarrow> (\<lparr>hub_db = d, hub_store = s1\<rparr>, Inr (public s)))))"

text \<open>
  \<open>withLifecycleLock\<close>: look the session up, take the lock of its staging path, read it
  again, and run \<open>fn\<close> on the fresh row unless the path changed meanwhile.  \<open>olds\<close> are the
  databases the successive first lookups saw, in order; when they are used up the lookup
  sees the current database, whose path is then the one read again.  The variable captured
  by the closure is the second component of the result.
\<close>

definition locked_section ::
    "faults \<Rightarrow> string \<Rightarrow> (upload_row \<Rightarrow> hub \<Rightarrow> hub \<times> 'a \<times> err option) \<Rightarrow> 'a \<Rightarrow> upload_row
     \<Rightarrow> (upload_row \<Rightarrow> bool) \<Rightarrow> hub \<Rightarrow> hub \<times> ('a \<times> err option) option" where
  "locked_section F i fn init before stale h =
     (case store_LockStaging (F LockSite) (up_StagingPath before) (hub_store h) of
        (s1, Inl e) \<Rightarrow> (h\<lparr>hub_store := s1\<rparr>, Some (init, Some e))
      | (s1, Inr ()) \<Rightarrow>
          (let h1 = h\<lparr>hub_store := s1\<rparr> in
           case UploadSessionByID (bad (F RereadSite)) (hub_db h1) i of
             Inl e \<Rightarrow> (h1, Some (init, Some e))
           | Inr s \<Rightarrow>
               if stale s then (h1, None)
               else
                 (case fn s h1 of
                    (h2, x, Some e) \<Rightarrow> (h2, Some (x, Some e))
                  | (h2, x, None) \<Rightarrow>
                      (h2, Some (x, if bad (F UnlockSite) then Some IoError else None)))))"

fun withLifecycleLock ::
    "faults \<Rightarrow> db list \<Rightarrow> string \<Rightarrow> (upload_row \<Rightarrow> hub \<Rightarrow> hub \<times> 'a \<times> err option) \<Rightarrow> 'a
     \<Rightarrow> hub \<Rightarrow> hub \<times> 'a \<times> err option" where
  "withLifecycleLock F [] i fn init h =
     (case UploadSessionByID (bad (F PreLookup)) (hub_db h) i of
        Inl e \<Rightarrow> (h, init, Some e)
      | Inr before \<Rightarrow>
          (case locked_section F i fn init before (\<lambda>_. False) h of
             (h1, Some r) \<Rightarrow> (h1, r)
           | (h1, None) \<Rightarrow> (h1, init, None)))"
| "withLifecycleLock F (old # olds) i fn init h =
     (case UploadSessionByID (bad (F PreLookup)) old i of
        Inl e \<Rightarrow> (h, init, Some e)
      | Inr before \<Rightarrow>
          (case locked_section F i fn init before
                  (\<lambda>s. up_StagingPath s \<noteq> up_StagingPath before) h of
             (h1, Some r) \<Rightarrow> (h1, r)
           | (h1, None) \<Rightarrow> withLifecycleLock F olds i fn init h1))"

section \<open>Cleanup\<close>

text \<open>
  \<open>cleanupLocked\<close>: persist the intent (active, cancelled, cleanup pending), unlink, then
  delete the row.
\<close>

definition cleanupLocked :: "faults \<Rightarrow> int \<Rightarrow> upload_row \<Rightarrow> hub \<Rightarrow> hub \<times> err option" where
  "cleanupLocked F now s h =
     (if up_Status s = SComplete then (h, Some DbNotFound)
      else
        (case (if up_Status s = Active
               then UpdateUploadStatus (bad (F CancelSite)) now (hub_db h) (up_ID s) Active SCancelled
               else (hub_db h, Inr ())) of
           (d, Inl e) \<Rightarrow> (h\<lparr>hub_db := d\<rparr>, Some e)
         | (d, Inr ()) \<Rightarrow>
             (let status = (if up_Status s = Active then SCancelled else up_Status s) in
              case (if status = SCancelled
                    then UpdateUploadStatus (bad (F PendingSite)) now d (up_ID s) SCancelled CleanupPending
                    else (d, Inr ())) of
                (d', Inl e) \<Rightarrow> (h\<lparr>hub_db := d'\<rparr>, Some e)
              | (d', Inr ()) \<Rightarrow>
                  (case store_RemoveStaging (F RemoveSite) (up_StagingPath s) (hub_store h) of
                     (st, Inl e) \<Rightarrow> (\<lparr>hub_db = d', hub_store = st\<rparr>, Some e)
                   | (st, Inr ()) \<Rightarrow>
                       (case DeleteUploadSession (bad (F DeleteSite)) d' (up_ID s) of
                          (d'', Inl e) \<Rightarrow> (\<lparr>hub_db = d'', hub_store = st\<rparr>, Some e)
                        | (d'', Inr ()) \<Rightarrow> (\<lparr>hub_db = d'', hub_store = st\<rparr>, None))))))"

definition cleanup ::
    "faults \<Rightarrow> db list \<Rightarrow> int \<Rightarrow> string \<Rightarrow> bool \<Rightarrow> hub \<Rightarrow> hub \<times> err option" where
  "cleanup F olds now i expiryOnly h =
     (case withLifecycleLock F olds i
             (\<lambda>s h. if expiryOnly \<and> live now s then (h, (), None)
                    else (case cleanupLocked F now s h of (h', e) \<Rightarrow> (h', (), e))) () h of
        (h', _, e) \<Rightarrow> (h', e))"

definition Cancel :: "faults \<Rightarrow> db list \<Rightarrow> int \<Rightarrow> string \<Rightarrow> hub \<Rightarrow> hub \<times> err option" where
  "Cancel F olds now i h = cleanup F olds now i False h"

definition Get :: "bool \<Rightarrow> faults \<Rightarrow> int \<Rightarrow> int \<Rightarrow> string \<Rightarrow> hub \<Rightarrow> hub \<times> (err + upload_row)" where
  "Get flt F now now' i h =
     (case UploadSessionByID flt (hub_db h) i of
        Inl e \<Rightarrow> (h, Inl e)
      | Inr s \<Rightarrow>
          if \<not> live now s then (fst (cleanup F [] now' i True h), Inl DbNotFound)
          else (h, Inr s))"

section \<open>Write\<close>

text \<open>
  A request body: the bytes it yields, whether it then fails instead of ending (this includes
  a cancelled context), and the number of bytes the disk accepts, when fewer.
\<close>

record body =
  body_bytes :: string
  body_fails :: bool
  disk_accepts :: "nat option"

text \<open>\<open>io.Copy\<close> from \<open>io.LimitReader(body, lim)\<close>: the bytes written, and whether it failed.\<close>

definition copy_limited :: "int \<Rightarrow> body \<Rightarrow> string \<times> bool" where
  "copy_limited lim b =
     (let avail = take (nat lim) (body_bytes b);
          failed = (body_fails b \<and> length (body_bytes b) < nat lim) in
      case disk_accepts b of
        None \<Rightarrow> (avail, failed)
      | Some k \<Rightarrow> if k < length avail then (take k avail, True) else (avail, failed))"

text \<open>\<open>File.Truncate\<close> and a write at an offset; gaps are zero bytes.\<close>

definition resize :: "nat \<Rightarrow> string \<Rightarrow> string" where
  "resize n c = take n c @ replicate (n - length c) (CHR 0x00)"

definition overwrite :: "nat \<Rightarrow> string \<Rightarrow> string \<Rightarrow> string" where
  "overwrite n data c = resize n c @ data @ drop (n + length data) c"

definition put_part :: "string \<Rightarrow> string \<Rightarrow> hub \<Rightarrow> hub" where
  "put_part name c h = h\<lparr>hub_store := put_staging name (Regular c) (hub_store h)\<rparr>"

definition write_locked ::
    "faults \<Rightarrow> int \<Rightarrow> int \<Rightarrow> body \<Rightarrow> upload_row \<Rightarrow> hub \<Rightarrow> hub \<times> int \<times> err option" where
  "write_locked F now offset b s h =
     (case store_OpenStaging (F OpenSite) True (up_StagingPath s) (hub_store h) of
        Inl e \<Rightarrow> (h, 0, Some e)
      | Inr (Regular c) \<Rightarrow>
          if \<not> live now s then (fst (cleanupLocked F now s h), 0, Some DbNotFound)
          else if offset \<noteq> up_Offset s then (h, up_Offset s, Some OffsetConflict)
          else if bad (F TruncateSite) \<or> up_Offset s < 0 then (h, 0, Some IoError)
          else
            (let n0 = nat (up_Offset s); name = up_StagingPath s;
                 c1 = resize n0 c; h1 = put_part name c1 h;
                 room = wrap64 (up_Length s - offset) in
             if bad (F SeekSite) then (h1, 0, Some IoError)
             else
               (case copy_limited (wrap64 (room + 1)) b of
                  (data, failed) \<Rightarrow>
                    (let c2 = overwrite n0 data c1; h2 = put_part name c2 h1;
                         back = (if bad (F RollbackSite) then h2 else put_part name (resize n0 c2) h2);
                         next = wrap64 (up_Offset s + int (length data)) in
                     if failed then (back, 0, Some IoError)
                     else if int (length data) > room then (back, 0, Some TooLarge)
                     else if bad (F SyncSite) then (back, 0, Some IoError)
                     else
                       (case UpdateUploadOffset (bad (F OffsetSite)) now (hub_db h2) (up_ID s)
                               (up_Offset s) next of
                          (d, Inl e) \<Rightarrow> (back\<lparr>hub_db := d\<rparr>, 0, Some e)
                        | (d, Inr ()) \<Rightarrow> (h2\<lparr>hub_db := d\<rparr>, next, None)))))
      | Inr _ \<Rightarrow> (h, 0, Some IoError))"

definition Write ::
    "faults \<Rightarrow> db list \<Rightarrow> int \<Rightarrow> string \<Rightarrow> int \<Rightarrow> body \<Rightarrow> hub \<Rightarrow> hub \<times> int \<times> err option" where
  "Write F olds now i offset b h = withLifecycleLock F olds i (write_locked F now offset b) 0 h"

section \<open>Complete\<close>

text \<open>\<open>equalHash\<close> compares without an early exit.\<close>

definition equalHash :: "string \<Rightarrow> string \<Rightarrow> bool" where
  "equalHash a b \<longleftrightarrow>
     (if length a \<noteq> length b then False
      else foldl (\<lambda>v (x, y). v OR (of_char x XOR of_char y)) (0 :: 8 word) (zip a b) = 0)"

definition complete_hash ::
    "(string \<Rightarrow> string) \<Rightarrow> faults \<Rightarrow> int \<Rightarrow> upload_row \<Rightarrow> hub \<Rightarrow> hub \<times> string \<times> err option" where
  "complete_hash sha256 F now s h =
     (let zero = replicate 32 (CHR 0x00) in
      if \<not> live now s then (h, zero, Some DbNotFound)
      else if up_Offset s \<noteq> up_Length s then (h, zero, Some Incomplete)
      else
        (case store_HashAndSync sha256 (F HashSite) (up_StagingPath s) (hub_store h) of
           Inl e \<Rightarrow> (h, zero, Some e)
         | Inr (n, hash) \<Rightarrow>
             if n \<noteq> up_Length s then (h, zero, Some Incomplete) else (h, hash, None)))"

definition checksum_ok :: "string \<Rightarrow> string \<Rightarrow> bool" where
  "checksum_ok digest expected \<longleftrightarrow>
     (if expected = [] then True
      else
        (case hex_decode expected of
           None \<Rightarrow> False
         | Some want \<Rightarrow> length want = 32 \<and> equalHash digest want))"

definition upload_file :: "upload_row \<Rightarrow> string \<Rightarrow> file_row" where
  "upload_file s key =
     \<lparr>file_ID = 0, file_RootID = up_RootID s, file_LogicalPath = up_LogicalPath s,
      file_ObjectKey = key, file_Size = up_Length s, file_CreatedByUserID = up_UserID s,
      file_CreatedAt = zero_time, file_UpdatedAt = zero_time, file_DeleteState = FileActive,
      file_MD5Status = [], file_MD5Digest = [], file_MD5Error = []\<rparr>"

definition complete_publish ::
    "faults \<Rightarrow> string \<Rightarrow> int \<Rightarrow> int \<Rightarrow> upload_row \<Rightarrow> hub \<Rightarrow> hub \<times> unit \<times> err option" where
  "complete_publish F random now txnow s h =
     (if \<not> live now s then (h, (), Some DbNotFound)
      else if up_Offset s \<noteq> up_Length s then (h, (), Some Incomplete)
      else
        (case store_Publish (F PublishSite) random (up_StagingPath s) (hub_store h) of
           (s1, Inl e) \<Rightarrow> (h\<lparr>hub_store := s1\<rparr>, (), Some e)
         | (s1, Inr key) \<Rightarrow>
             (case CompleteUpload (bad (F CommitSite)) txnow (hub_db h) (upload_file s key) (up_ID s) of
                (d, Inl e) \<Rightarrow>
                  (\<lparr>hub_db = d, hub_store = fst (store_Restore (F RestoreSite) key (up_StagingPath s) s1)\<rparr>,
                   (), Some e)
              | (d, Inr ()) \<Rightarrow> (\<lparr>hub_db = d, hub_store = s1\<rparr>, (), None))))"

text \<open>
  \<open>Complete\<close>: hash in one critical section, compare, publish in another.  \<open>env\<close> is what the
  rest of the system did in between, and \<open>F1\<close>, \<open>F2\<close> the faults of the two sections.
\<close>

definition Complete ::
    "(string \<Rightarrow> string) \<Rightarrow> faults \<Rightarrow> faults \<Rightarrow> db list \<Rightarrow> db list \<Rightarrow> int \<Rightarrow> int \<Rightarrow> int \<Rightarrow> string
     \<Rightarrow> (hub \<Rightarrow> hub) \<Rightarrow> string \<Rightarrow> string \<Rightarrow> hub \<Rightarrow> hub \<times> err option" where
  "Complete sha256 F1 F2 olds1 olds2 now1 now2 txnow random env i expected h =
     (case withLifecycleLock F1 olds1 i (complete_hash sha256 F1 now1) (replicate 32 (CHR 0x00)) h of
        (h1, _, Some e) \<Rightarrow> (h1, Some e)
      | (h1, digest, None) \<Rightarrow>
          if \<not> checksum_ok digest expected then (h1, Some ChecksumBad)
          else
            (case withLifecycleLock F2 olds2 i (complete_publish F2 random now2 txnow) () (env h1) of
               (h2, _, e) \<Rightarrow> (h2, e)))"

section \<open>Recover\<close>

definition recoverableStaging :: "faults \<Rightarrow> int \<Rightarrow> upload_row \<Rightarrow> object_store \<Rightarrow> bool" where
  "recoverableStaging F now s st =
     (if \<not> live now s then False
      else
        (case store_OpenStaging (F OpenSite) False (up_StagingPath s) st of
           Inr (Regular c) \<Rightarrow>
             \<not> bad (F StatSite) \<and> \<not> bad (F CloseSite) \<and> int (length c) = up_Offset s
         | _ \<Rightarrow> False))"

record recovery_report =
  Checked :: nat
  Kept :: nat
  CancelledCount :: nat
  Orphans :: nat

fun recover_sessions ::
    "(string \<Rightarrow> faults) \<Rightarrow> int \<Rightarrow> bool \<Rightarrow> upload_row list \<Rightarrow> recovery_report \<Rightarrow> hub
     \<Rightarrow> hub \<times> recovery_report \<times> err option" where
  "recover_sessions Fs now dryRun [] rep h = (h, rep, None)"
| "recover_sessions Fs now dryRun (s # ss) rep h =
     (let F = Fs (up_ID s) in
      if bad (F CtxSite) then (h, rep, Some Cancelled)
      else
        (case (if dryRun then (h, recoverableStaging F now s (hub_store h), None)
               else withLifecycleLock F [] (up_ID s)
                      (\<lambda>locked h. if recoverableStaging F now locked (hub_store h)
                                  then (h, True, None)
                                  else (case cleanupLocked F now locked h of
                                          (h', e) \<Rightarrow> (h', False, e))) False h) of
           (h', kept, err) \<Rightarrow>
             if err = Some DbNotFound
             then recover_sessions Fs now dryRun ss (rep\<lparr>CancelledCount := CancelledCount rep + 1\<rparr>) h'
             else if err \<noteq> None then (h', rep, err)
             else if kept then recover_sessions Fs now dryRun ss (rep\<lparr>Kept := Kept rep + 1\<rparr>) h'
             else recover_sessions Fs now dryRun ss (rep\<lparr>CancelledCount := CancelledCount rep + 1\<rparr>) h'))"

definition orphan_id :: "string \<Rightarrow> string" where
  "orphan_id name = trim_suffix (trim_prefix name ''staging/'') ''.part''"

text \<open>The second look at an orphan, under its lock.\<close>

definition remove_orphan ::
    "faults \<Rightarrow> bool \<Rightarrow> string \<Rightarrow> recovery_report \<Rightarrow> hub \<Rightarrow> hub \<times> recovery_report \<times> err option" where
  "remove_orphan F dryRun name rep h =
     (case UploadSessionByID (bad (F RereadSite)) (hub_db h) (orphan_id name) of
        Inr _ \<Rightarrow> (h, rep, None)
      | Inl DbNotFound \<Rightarrow>
          (let rep' = rep\<lparr>Orphans := Orphans rep + 1\<rparr> in
           if dryRun then (h, rep', None)
           else
             (case store_RemoveStaging (F RemoveSite) name (hub_store h) of
                (st, Inr ()) \<Rightarrow> (h\<lparr>hub_store := st\<rparr>, rep', None)
              | (st, Inl e) \<Rightarrow> (h\<lparr>hub_store := st\<rparr>, rep', Some e)))
      | Inl e \<Rightarrow> (h, rep, Some e))"

fun recover_orphans ::
    "(string \<Rightarrow> faults) \<Rightarrow> bool \<Rightarrow> string list \<Rightarrow> string list \<Rightarrow> recovery_report \<Rightarrow> hub
     \<Rightarrow> hub \<times> recovery_report \<times> err option" where
  "recover_orphans Fs dryRun seen [] rep h = (h, rep, None)"
| "recover_orphans Fs dryRun seen (name # names) rep h =
     (let F = Fs name in
      if name \<in> set seen then recover_orphans Fs dryRun seen names rep h
      else if bad (F CtxSite) then (h, rep, Some Cancelled)
      else
        (case UploadSessionByID (bad (F PreLookup)) (hub_db h) (orphan_id name) of
           Inr _ \<Rightarrow> recover_orphans Fs dryRun seen names rep h
         | Inl DbNotFound \<Rightarrow>
             (let rep' = rep\<lparr>Checked := Checked rep + 1\<rparr> in
              case store_LockStaging (F LockSite) name (hub_store h) of
                (st, Inl e) \<Rightarrow> (h\<lparr>hub_store := st\<rparr>, rep', Some e)
              | (st, Inr ()) \<Rightarrow>
                  (case remove_orphan F dryRun name rep' (h\<lparr>hub_store := st\<rparr>) of
                     (h2, rep2, Some e) \<Rightarrow> (h2, rep2, Some e)
                   | (h2, rep2, None) \<Rightarrow>
                       if bad (F UnlockSite) then (h2, rep2, Some IoError)
                       else recover_orphans Fs dryRun seen names rep2 h2))
         | Inl e \<Rightarrow> (h, rep, Some e)))"

definition Recover ::
    "faults \<Rightarrow> (string \<Rightarrow> faults) \<Rightarrow> int \<Rightarrow> int \<Rightarrow> bool \<Rightarrow> hub
     \<Rightarrow> hub \<times> recovery_report \<times> err option" where
  "Recover F Fs now limit dryRun h =
     (let rep0 = \<lparr>Checked = 0, Kept = 0, CancelledCount = 0, Orphans = 0\<rparr>;
          lim = (if limit \<le> 0 \<or> limit > 64 then 64 else limit) in
      if bad (F CtxSite) then (h, rep0, Some Cancelled)
      else
        (case UploadSessions (bad (F PreLookup)) (hub_db h) lim of
           Inl e \<Rightarrow> (h, rep0, Some e)
         | Inr sessions \<Rightarrow>
             (case store_StagingNames (F OpenSite) (lim - int (length sessions)) (hub_store h) of
                Inl e \<Rightarrow> (h, rep0, Some e)
              | Inr names \<Rightarrow>
                  (case recover_sessions Fs now dryRun sessions
                          (rep0\<lparr>Checked := length sessions\<rparr>) h of
                     (h1, rep, Some e) \<Rightarrow> (h1, rep, Some e)
                   | (h1, rep, None) \<Rightarrow>
                       recover_orphans Fs dryRun (map up_StagingPath sessions) names rep h1))))"

declare withLifecycleLock.simps [simp del]

end
