(* ===== verification/UploadInv.thy ===== *)
theory UploadInv
  imports Upload
begin

text \<open>
  The upload manager's invariant and its preservation by every critical section, whatever
  fails: session rows are consistent, a part holds at least the bytes its row acknowledges,
  and a visible file row points at a regular object.
\<close>

section \<open>Views\<close>

text \<open>
  Taking a lock can create its sidecar entry, which no staging name refers to.
  \<open>same_view\<close> relates two hubs that differ in such entries only.
\<close>

definition same_view :: "hub \<Rightarrow> hub \<Rightarrow> bool" where
  "same_view h h' \<longleftrightarrow>
     hub_db h' = hub_db h \<and> st_objects (hub_store h') = st_objects (hub_store h)
     \<and> st_open (hub_store h') = st_open (hub_store h)
     \<and> (\<forall>n. validStagingName n \<longrightarrow>
            staging_lookup (hub_store h') n = staging_lookup (hub_store h) n)"

lemma same_view_refl [simp]: "same_view h h"
  by (simp add: same_view_def)

lemma same_view_trans: "same_view g h \<Longrightarrow> same_view h k \<Longrightarrow> same_view g k"
  by (simp add: same_view_def)

lemma lock_base_other:
  assumes "validStagingName n" "validStagingName m"
  shows "staging_base m \<noteq> lock_base n"
proof -
  have "length (staging_base m) = 37" "length (lock_base n) = 42"
    using assms by (simp_all add: validStagingName_def lock_base_def)
  then show ?thesis by auto
qed

lemma lock_view:
  assumes "store_LockStaging f n s = (s', r)"
  shows "same_view \<lparr>hub_db = d, hub_store = s\<rparr> \<lparr>hub_db = d, hub_store = s'\<rparr>"
  using assms lock_base_other [of n]
  by (auto simp: store_LockStaging_def same_view_def staging_lookup_def
      split: if_splits option.splits node.splits)

lemma lock_view_hub:
  "store_LockStaging f n (hub_store h) = (s', r) \<Longrightarrow> same_view h (h\<lparr>hub_store := s'\<rparr>)"
  using lock_view [of f n "hub_store h" s' r "hub_db h"] unfolding same_view_def by simp

section \<open>What a locked operation does\<close>

lemma locked_section_cases:
  assumes run: "locked_section F i fn init before stale h = (h', r)"
  obtains (Quiet) e where "same_view h h'" "r = Some (init, Some e)"
  | (Again) s where "same_view h h'" "r = None" "stale s"
  | (Ran) h1 s x e e' where "same_view h h1" "session (hub_db h) i = Some s"
      "fn s h1 = (h', x, e)" "r = Some (x, e')" "e' = e \<or> (e = None \<and> bad (F UnlockSite) \<and> e' = Some IoError)"
proof -
  obtain s1 rl where l: "store_LockStaging (F LockSite) (up_StagingPath before) (hub_store h) = (s1, rl)"
    by fastforce
  let ?h1 = "h\<lparr>hub_store := s1\<rparr>"
  have v: "same_view h ?h1" using lock_view_hub [OF l] .
  consider (lockerr) e where "rl = Inl e"
    | (readerr) e where "rl = Inr ()" "UploadSessionByID (bad (F RereadSite)) (hub_db h) i = Inl e"
    | (row) s where "rl = Inr ()" "UploadSessionByID (bad (F RereadSite)) (hub_db h) i = Inr s"
    by (cases rl; cases "UploadSessionByID (bad (F RereadSite)) (hub_db h) i") auto
  then show thesis
  proof cases
    case lockerr
    with run l have "h' = ?h1" "r = Some (init, Some e)" by (simp_all add: locked_section_def)
    with v Quiet show ?thesis by simp
  next
    case readerr
    with run l have "h' = ?h1" "r = Some (init, Some e)" by (simp_all add: locked_section_def)
    with v Quiet show ?thesis by simp
  next
    case row
    then have s: "session (hub_db h) i = Some s"
      by (auto simp: UploadSessionByID_eq split: if_splits option.splits)
    obtain h2 x e where fn: "fn s ?h1 = (h2, x, e)" by (cases "fn s ?h1") auto
    show ?thesis
    proof (cases "stale s")
      case True
      with run l row have "h' = ?h1" "r = None" by (simp_all add: locked_section_def)
      with v Again True show ?thesis by simp
    next
      case False
      with run l row fn have h2: "h' = h2"
        and "r = Some (x, if e = None \<and> bad (F UnlockSite) then Some IoError else e)"
        by (auto simp: locked_section_def split: option.splits)
      with Ran [OF v s fn [folded h2]] show ?thesis by auto
    qed
  qed
qed

lemma withLifecycleLock_disj:
  assumes "withLifecycleLock F olds i fn init h = (h', x, r)"
  shows "(same_view h h' \<and> x = init \<and> r \<noteq> None)
    \<or> (\<exists>h1 s e. same_view h h1 \<and> session (hub_db h) i = Some s \<and> fn s h1 = (h', x, e)
         \<and> (r = e \<or> (e = None \<and> bad (F UnlockSite) \<and> r = Some IoError)))"
  using assms
proof (induction olds arbitrary: h)
  case Nil
  show ?case
  proof (cases "UploadSessionByID (bad (F PreLookup)) (hub_db h) i")
    case (Inl e)
    with Nil show ?thesis by (auto simp: withLifecycleLock.simps)
  next
    case (Inr before)
    obtain h1 q where q: "locked_section F i fn init before (\<lambda>_. False) h = (h1, q)"
      by fastforce
    from q show ?thesis
      by (cases rule: locked_section_cases) (use Nil Inr q in \<open>auto simp: withLifecycleLock.simps\<close>)
  qed
next
  case (Cons old olds)
  show ?case
  proof (cases "UploadSessionByID (bad (F PreLookup)) old i")
    case (Inl e)
    with Cons.prems show ?thesis by (auto simp: withLifecycleLock.simps)
  next
    case (Inr before)
    obtain h1 q where q: "locked_section F i fn init before
        (\<lambda>s. up_StagingPath s \<noteq> up_StagingPath before) h = (h1, q)" by fastforce
    from q show ?thesis
    proof (cases rule: locked_section_cases)
      case Again
      with Cons.prems q Inr have w: "withLifecycleLock F olds i fn init h1 = (h', x, r)"
        by (simp add: withLifecycleLock.simps)
      have "hub_db h1 = hub_db h" using Again(1) by (simp add: same_view_def)
      with Cons.IH [OF w] same_view_trans [OF Again(1)] show ?thesis by metis
    qed (use Cons.prems Inr q in \<open>auto simp: withLifecycleLock.simps\<close>)
  qed
qed

lemma withLifecycleLock_cases:
  assumes "withLifecycleLock F olds i fn init h = (h', x, r)"
  obtains (Quiet) e where "same_view h h'" "x = init" "r = Some e"
  | (Ran) h1 s e where "same_view h h1" "session (hub_db h) i = Some s"
      "fn s h1 = (h', x, e)" "r = e \<or> (e = None \<and> bad (F UnlockSite) \<and> r = Some IoError)"
  using withLifecycleLock_disj [OF assms] by blast

section \<open>The invariant\<close>

abbreviation part :: "hub \<Rightarrow> string \<Rightarrow> node option" where
  "part h i \<equiv> staging_lookup (hub_store h) (staging_name i)"

abbreviation sess :: "hub \<Rightarrow> string \<Rightarrow> upload_row option" where
  "sess h \<equiv> session (hub_db h)"

text \<open>The ids \<open>newID\<close> makes; their staging names are valid, and different for different ids.\<close>

definition id_ok :: "string \<Rightarrow> bool" where
  "id_ok i \<longleftrightarrow> length i = 32 \<and> CHR ''/'' \<notin> set i"

lemma staging_base_name [simp]: "staging_base (staging_name i) = i @ ''.part''"
  unfolding staging_name_def by (rule staging_base_simps)

lemma staging_name_inj [simp]: "staging_name i = staging_name j \<longleftrightarrow> i = j"
  unfolding staging_name_def by simp

lemma valid_staging_name: "id_ok i \<Longrightarrow> validStagingName (staging_name i)"
  by (auto simp: validStagingName_def has_prefix_def has_suffix_def id_ok_def)
    (auto simp: staging_name_def suffix_def)

lemma id_ok_hex: "length random = 16 \<Longrightarrow> id_ok (hex_encode random)"
  by (simp add: id_ok_def hex_no_slash)

definition row_ok :: "hub \<Rightarrow> string \<Rightarrow> upload_row \<Rightarrow> bool" where
  "row_ok h i s \<longleftrightarrow>
     id_ok i \<and> up_ID s = i \<and> up_StagingPath s = staging_name i
     \<and> 0 \<le> up_Offset s \<and> up_Offset s \<le> up_Length s \<and> int64 (up_Length s)
     \<and> up_Status s \<noteq> SComplete
     \<and> (up_Status s = Active \<longrightarrow>
          (\<forall>v. part h i = Some v \<longrightarrow> (\<exists>c. v = Regular c \<and> up_Offset s \<le> int (length c))))"

definition files_ok :: "hub \<Rightarrow> bool" where
  "files_ok h \<longleftrightarrow>
     (\<forall>f \<in> set (db_files (hub_db h)). file_DeleteState f = FileActive \<longrightarrow>
        (\<exists>c. st_objects (hub_store h) (file_ObjectKey f) = Some (Regular c)))"

definition upload_inv :: "hub \<Rightarrow> bool" where
  "upload_inv h \<longleftrightarrow>
     sessions_ok (hub_db h) \<and> (\<forall>i s. sess h i = Some s \<longrightarrow> row_ok h i s) \<and> files_ok h"

lemma upload_invD:
  assumes "upload_inv h"
  shows "sessions_ok (hub_db h)" "sess h i = Some s \<Longrightarrow> row_ok h i s" "files_ok h"
  using assms by (auto simp: upload_inv_def)

text \<open>An operation on session \<open>i\<close> leaves the other sessions alone.\<close>

definition frame :: "string \<Rightarrow> hub \<Rightarrow> hub \<Rightarrow> bool" where
  "frame i h h' \<longleftrightarrow>
     (\<forall>j. j \<noteq> i \<longrightarrow> sess h' j = sess h j \<and> (id_ok j \<longrightarrow> part h' j = part h j))"

lemma frame_refl [simp]: "frame i h h"
  by (simp add: frame_def)

lemma frame_trans: "frame i g h \<Longrightarrow> frame i h k \<Longrightarrow> frame i g k"
  by (simp add: frame_def)

lemma same_view_part: "same_view h h' \<Longrightarrow> id_ok i \<Longrightarrow> part h' i = part h i"
  by (simp add: same_view_def valid_staging_name)

lemma same_view_frame: "same_view h h' \<Longrightarrow> frame i h h'"
  using same_view_part by (auto simp: frame_def same_view_def)

lemma row_ok_part: "part h' i = part h i \<Longrightarrow> row_ok h' i s = row_ok h i s"
  by (simp add: row_ok_def)

lemma row_ok_id: "row_ok h i s \<Longrightarrow> id_ok i"
  by (simp add: row_ok_def)

lemma files_ok_same:
  "db_files (hub_db h') = db_files (hub_db h) \<Longrightarrow>
   st_objects (hub_store h') = st_objects (hub_store h) \<Longrightarrow> files_ok h' = files_ok h"
  by (simp add: files_ok_def)

lemma upload_inv_frame:
  assumes "upload_inv h" and "frame i h h'" and "sessions_ok (hub_db h')" and "files_ok h'"
    and "\<And>s. sess h' i = Some s \<Longrightarrow> row_ok h' i s"
  shows "upload_inv h'"
  unfolding upload_inv_def
proof (intro conjI allI impI assms)
  fix j s
  assume s: "sess h' j = Some s"
  show "row_ok h' j s"
  proof (cases "j = i")
    case True
    with s assms(5) show ?thesis by simp
  next
    case False
    with s assms(2) have "sess h j = Some s" by (simp add: frame_def)
    then have "row_ok h j s" using assms(1) upload_invD(2) by blast
    moreover from this have "part h' j = part h j"
      using False assms(2) by (simp add: frame_def row_ok_id)
    ultimately show ?thesis using row_ok_part by blast
  qed
qed

lemma upload_inv_view:
  assumes "upload_inv h" and v: "same_view h h'"
  shows "upload_inv h'"
proof (rule upload_inv_frame [OF assms(1), of "[]"])
  show "frame [] h h'" using v by (rule same_view_frame)
  show "sessions_ok (hub_db h')" using assms by (simp add: upload_inv_def same_view_def)
  have "db_files (hub_db h') = db_files (hub_db h)"
    and "st_objects (hub_store h') = st_objects (hub_store h)"
    using v by (simp_all add: same_view_def)
  then show "files_ok h'" using assms(1) files_ok_same upload_invD(3) by blast
  fix s assume "sess h' [] = Some s"
  then have "sess h [] = Some s" using v by (simp add: same_view_def)
  then have "row_ok h [] s" using assms(1) upload_invD(2) by blast
  then show "row_ok h' [] s" by (simp add: row_ok_def id_ok_def)
qed

section \<open>Cleanup\<close>

text \<open>Files, directories and objects are not touched.\<close>

definition outside_same :: "hub \<Rightarrow> hub \<Rightarrow> bool" where
  "outside_same h h' \<longleftrightarrow>
     uploads_only (hub_db h) (hub_db h') \<and> st_objects (hub_store h') = st_objects (hub_store h)
     \<and> st_open (hub_store h') = st_open (hub_store h)"

lemma outside_same_refl [simp]: "outside_same h h"
  by (simp add: outside_same_def)

lemma outside_same_trans: "outside_same g h \<Longrightarrow> outside_same h k \<Longrightarrow> outside_same g k"
  by (auto simp: outside_same_def intro: uploads_only_trans)

lemma outside_same_view: "same_view h h' \<Longrightarrow> outside_same h h'"
  by (simp add: outside_same_def same_view_def)

lemma outside_same_files: "outside_same h h' \<Longrightarrow> files_ok h' = files_ok h"
  by (rule files_ok_same) (auto simp: outside_same_def uploads_onlyD)

text \<open>A row that moved through the cleanup states only.\<close>

definition marked :: "upload_row \<Rightarrow> upload_row \<Rightarrow> bool" where
  "marked s t \<longleftrightarrow> (\<exists>st u. t = s\<lparr>up_Status := st, up_UpdatedAt := u\<rparr>)"

lemma marked_refl [simp]: "marked s s"
  unfolding marked_def by (intro exI [of _ "up_Status s"] exI [of _ "up_UpdatedAt s"]) simp

lemma marked_update [simp]: "marked s (s\<lparr>up_Status := st, up_UpdatedAt := u\<rparr>)"
  by (auto simp: marked_def)

lemma marked_trans: "marked r s \<Longrightarrow> marked s t \<Longrightarrow> marked r t"
  unfolding marked_def by (elim exE) (simp, blast)

lemma markedD:
  "marked s t \<Longrightarrow> up_ID t = up_ID s \<and> up_StagingPath t = up_StagingPath s \<and> up_Offset t = up_Offset s
    \<and> up_Length t = up_Length s \<and> up_ExpiresAt t = up_ExpiresAt s \<and> up_RootID t = up_RootID s
    \<and> up_LogicalPath t = up_LogicalPath s \<and> up_UserID t = up_UserID s"
  by (auto simp: marked_def)

text \<open>One status update, or none.\<close>

lemma mark_cases:
  assumes ok: "sessions_ok d" and s: "session d i = Some s"
    and op: "(if b then UpdateUploadStatus flt now d i old new else (d, Inr ())) = (d', r)"
  obtains (Ok) t where "r = Inr ()" "uploads_only d d'" "sessions_ok d'"
      "session d' = (session d)(i \<mapsto> t)" "t = (if b then s\<lparr>up_Status := new, up_UpdatedAt := now\<rparr> else s)"
      "b \<longrightarrow> up_Status s = old"
  | (Fail) e where "r = Inl e" "d' = d" "b" "flt \<or> up_Status s \<noteq> old" "e \<noteq> DbNotFound"
proof (cases b)
  case False
  with op have "d' = d" "r = Inr ()" by auto
  moreover have "session d = (session d)(i \<mapsto> s)" using s by auto
  ultimately show thesis using Ok [of s] False ok by simp
next
  case True
  with op have "UpdateUploadStatus flt now d i old new = (d', r)" by simp
  then show thesis
    by (cases rule: UpdateUploadStatus_cases [OF ok]) (use s True Ok Fail in auto)
qed

lemma staging_lookup_base:
  "staging_base m = staging_base n \<Longrightarrow> staging_lookup s m = staging_lookup s n"
  by (simp add: staging_lookup_def)

lemma remove_staging_cases:
  assumes op: "store_RemoveStaging f n s = (s', r)" and v: "validStagingName n"
  obtains (Gone) "r = Inr ()" "st_objects s' = st_objects s" "st_open s' = st_open s"
      "\<And>m. staging_lookup s' m = (if staging_base m = staging_base n then None else staging_lookup s m)"
  | (Fail) e where "r = Inl e" "s' = s"
      "f \<noteq> NoFault \<or> \<not> st_open s \<or> st_staging s = None \<or> staging_lookup s n = Some Directory"
      "e \<noteq> DbNotFound"
proof (cases "\<not> st_open s \<or> f \<noteq> NoFault \<or> st_staging s = None \<or> staging_lookup s n = Some Directory")
  case True
  then have "\<exists>e. s' = s \<and> r = Inl e \<and> e \<noteq> DbNotFound"
    using op v by (auto simp: store_RemoveStaging_def split: if_splits option.splits)
  with True Fail show ?thesis by auto
next
  case False
  show ?thesis
  proof (cases "staging_lookup s n")
    case None
    with False op v have "s' = s" "r = Inr ()" by (auto simp: store_RemoveStaging_def)
    moreover have "staging_lookup s m = None" if "staging_base m = staging_base n" for m
      using staging_lookup_base [OF that, of s] None by simp
    ultimately show ?thesis using Gone by simp
  next
    case (Some w)
    with False op v have "s' = del_staging n s" "r = Inr ()"
      by (auto simp: store_RemoveStaging_def split: node.splits)
    with Gone show ?thesis by simp
  qed
qed

lemma remove_part:
  assumes op: "store_RemoveStaging f (staging_name i) s = (st, Inr ())" and i: "id_ok i"
  shows "staging_lookup st (staging_name i) = None"
    and "j \<noteq> i \<Longrightarrow> staging_lookup st (staging_name j) = staging_lookup s (staging_name j)"
    and "st_objects st = st_objects s" and "st_open st = st_open s"
proof -
  have "\<And>m. staging_lookup st m =
      (if staging_base m = staging_base (staging_name i) then None else staging_lookup s m)"
    and "st_objects st = st_objects s" and "st_open st = st_open s"
    using op valid_staging_name [OF i] by (auto elim: remove_staging_cases)
  then show "staging_lookup st (staging_name i) = None"
    "j \<noteq> i \<Longrightarrow> staging_lookup st (staging_name j) = staging_lookup s (staging_name j)"
    "st_objects st = st_objects s" "st_open st = st_open s"
    by simp_all
qed

lemma cleanupLocked_effect:
  assumes inv: "upload_inv h" and s: "sess h i = Some s" and op: "cleanupLocked F now s h = (h', r)"
  shows "frame i h h' \<and> sessions_ok (hub_db h') \<and> outside_same h h'
    \<and> (sess h' i = None \<or> (\<exists>t. sess h' i = Some t \<and> (t = s \<and> part h' i = part h i \<or>
          up_Status t \<in> {SCancelled, CleanupPending} \<and> marked s t)))
    \<and> (part h' i = part h i \<or> part h' i = None) \<and> (r = None \<longrightarrow> sess h' i = None \<and> part h' i = None)
    \<and> r \<noteq> Some DbNotFound"
proof -
  have False: "up_Status s \<noteq> SComplete" using upload_invD(2) [OF inv s] by (simp add: row_ok_def)
  have row: "id_ok i" "up_ID s = i" "up_StagingPath s = staging_name i"
    using upload_invD(2) [OF inv s] by (simp_all add: row_ok_def)
  note ok = upload_invD(1) [OF inv]
  obtain d1 r1 where m1: "(if up_Status s = Active
      then UpdateUploadStatus (bad (F CancelSite)) now (hub_db h) i Active SCancelled
      else (hub_db h, Inr ())) = (d1, r1)" by fastforce
  from ok s m1 show ?thesis
  proof (cases rule: mark_cases)
    case (Fail e)
    with op m1 False row have "h' = h" "r = Some e" by (auto simp: cleanupLocked_def)
    with s ok Fail show ?thesis by simp
  next
    case (Ok t1)
    let ?st = "if up_Status s = Active then SCancelled else up_Status s"
    obtain d2 r2 where m2: "(if ?st = SCancelled
      then UpdateUploadStatus (bad (F PendingSite)) now d1 i SCancelled CleanupPending
      else (d1, Inr ())) = (d2, r2)" by fastforce
    have t1: "session d1 i = Some t1" using Ok by simp
    from Ok(3) t1 m2 show ?thesis
    proof (cases rule: mark_cases)
      case (Fail e)
      with op m1 m2 Ok(1) False row have "h' = h\<lparr>hub_db := d1\<rparr>" "r = Some e"
        by (auto simp: cleanupLocked_def)
      then show ?thesis
        using Ok Fail by (auto simp: frame_def outside_same_def split: if_splits)
    next
      case (Ok t2)
      note ok1 = \<open>uploads_only (hub_db h) d1\<close> \<open>session d1 = _\<close> \<open>t1 = _\<close>
      have only2: "uploads_only (hub_db h) d2" using ok1(1) Ok(2) by (rule uploads_only_trans)
      have t2: "session d2 i = Some t2" using Ok by simp
      have "marked s t1" and "marked t1 t2" using Ok(5) ok1(3) by simp_all
      then have "marked s t2" by (rule marked_trans)
      moreover have "up_Status t2 \<in> {SCancelled, CleanupPending}"
        using Ok(5) ok1(3) False by (cases "up_Status s") simp_all
      ultimately have st2: "up_Status t2 \<in> {SCancelled, CleanupPending}" "marked s t2" by simp_all
      have others: "\<And>j. j \<noteq> i \<Longrightarrow> session d2 j = sess h j" using Ok(4) ok1(2) by simp
      obtain st3 r3 where m3: "store_RemoveStaging (F RemoveSite) (staging_name i) (hub_store h) = (st3, r3)"
        by fastforce
      show ?thesis
      proof (cases r3)
        case (Inl e)
        then have "st3 = hub_store h" "e \<noteq> DbNotFound"
          using remove_staging_cases [OF m3 valid_staging_name [OF row(1)]] by auto
        moreover from op m1 m2 m3 Inl False row \<open>r1 = _\<close> Ok(1)
        have "h' = \<lparr>hub_db = d2, hub_store = st3\<rparr>" "r = Some e" by (auto simp: cleanupLocked_def)
        ultimately show ?thesis
          using t2 st2 others only2 Ok(3) by (auto simp: frame_def outside_same_def)
      next
        case (Inr u)
        with m3 have m3: "store_RemoveStaging (F RemoveSite) (staging_name i) (hub_store h) = (st3, Inr ())"
          by simp
        obtain d4 r4 where m4: "DeleteUploadSession (bad (F DeleteSite)) d2 i = (d4, r4)" by fastforce
        have h': "h' = \<lparr>hub_db = d4, hub_store = st3\<rparr>"
          "r = (case r4 of Inl e \<Rightarrow> Some e | Inr _ \<Rightarrow> None)"
          using op m1 m2 m3 m4 False row \<open>r1 = _\<close> Ok(1) by (auto simp: cleanupLocked_def split: sum.splits)
        note gone = remove_part [OF m3 row(1)]
        from Ok(3) m4 show ?thesis
        proof (cases rule: DeleteUploadSession_cases)
          case (Ok t)
          from only2 Ok(4) have "uploads_only (hub_db h) d4" by (rule uploads_only_trans)
          with Ok h' gone others show ?thesis by (simp add: frame_def outside_same_def)
        next
          case (Fail e)
          then have "e \<noteq> DbNotFound" using t2 by auto
          with Fail h' gone others only2 t2 st2 \<open>sessions_ok d2\<close> show ?thesis
            by (simp add: frame_def outside_same_def)
        qed
      qed
    qed
  qed
qed

section \<open>Write\<close>

lemma length_resize [simp]: "length (resize n c) = n"
  by (simp add: resize_def)

lemma resize_short [simp]: "n \<le> length c \<Longrightarrow> resize n c = take n c"
  by (simp add: resize_def)

lemma overwrite_end [simp]: "length c = n \<Longrightarrow> overwrite n data c = c @ data"
  by (simp add: overwrite_def)

lemma copy_limited_bounds:
  assumes "copy_limited lim b = (data, failed)"
  shows "length data \<le> nat lim" and "prefix data (body_bytes b)"
  using assms by (auto simp: copy_limited_def Let_def take_is_prefix split: option.splits if_splits)

text \<open>A copy that neither failed nor exceeded the room delivered the whole body.\<close>

lemma copy_limited_all:
  assumes "copy_limited (room + 1) b = (data, False)" and "int (length data) \<le> room"
  shows "data = body_bytes b" and "\<not> body_fails b"
proof -
  have data: "data = take (nat (room + 1)) (body_bytes b)"
    and nofail: "\<not> (body_fails b \<and> length (body_bytes b) < nat (room + 1))"
    using assms(1) by (auto simp: copy_limited_def Let_def split: option.splits if_splits)
  have "length (body_bytes b) < nat (room + 1)"
  proof (rule ccontr)
    assume "\<not> ?thesis"
    with data have "length data = nat (room + 1)" by simp
    with assms(2) show False by arith
  qed
  with data nofail show "data = body_bytes b" "\<not> body_fails b" by simp_all
qed

lemma open_write_Inr:
  "store_OpenStaging f True n s = Inr v \<Longrightarrow>
     validStagingName n \<and> st_open s \<and> (\<exists>c. v = Regular c \<and> staging_lookup s n = Some (Regular c))"
  by (auto simp: store_OpenStaging_def split: if_splits option.splits node.splits)

lemma put_part_simps [simp]:
  "hub_db (put_part n c h) = hub_db h"
  "st_objects (hub_store (put_part n c h)) = st_objects (hub_store h)"
  "st_open (hub_store (put_part n c h)) = st_open (hub_store h)"
  "staging_lookup (hub_store (put_part n c h)) m =
     (if staging_base m = staging_base n then Some (Regular c) else staging_lookup (hub_store h) m)"
  by (simp_all add: put_part_def)

lemma put_part_frame: "frame i h (put_part (staging_name i) c h)"
  by (simp add: frame_def)

lemma put_part_outside: "outside_same h (put_part n c h)"
  by (simp add: outside_same_def)

text \<open>What a failed write may leave: the acknowledged bytes, and more only when the rollback failed.\<close>

definition rolled_back :: "faults \<Rightarrow> nat \<Rightarrow> string \<Rightarrow> node option \<Rightarrow> bool" where
  "rolled_back F n c v \<longleftrightarrow>
     (\<exists>c'. v = Some (Regular c') \<and> n \<le> length c' \<and> take n c' = take n c
        \<and> (bad (F RollbackSite) \<or> c' = c \<or> c' = take n c))"

lemma write_locked_cases:
  assumes inv: "upload_inv h" and s: "sess h i = Some s"
    and op: "write_locked F now offset b s h = (h', n, r)"
  obtains (Expired) "\<not> live now s" "r = Some DbNotFound" "h' = fst (cleanupLocked F now s h)"
  | (Written) c data where "r = None" "live now s" "offset = up_Offset s" "n = up_Offset s + int (length data)"
      "n \<le> up_Length s" "part h i = Some (Regular c)"
      "part h' i = Some (Regular (take (nat (up_Offset s)) c @ data))"
      "sess h' = (sess h)(i \<mapsto> s\<lparr>up_Offset := n, up_UpdatedAt := now\<rparr>)"
      "prefix data (body_bytes b)"
      "up_Length s - up_Offset s < max_int64 \<Longrightarrow> data = body_bytes b \<and> \<not> body_fails b"
      "frame i h h'" "outside_same h h'" "sessions_ok (hub_db h')"
  | (Failed) e where "r = Some e" "sess h' = sess h" "frame i h h'" "outside_same h h'"
      "hub_db h' = hub_db h"
      "h' = h \<or> (\<exists>c. live now s \<and> part h i = Some (Regular c) \<and>
          rolled_back F (nat (up_Offset s)) c (part h' i))"
proof -
  have row: "id_ok i" "up_ID s = i" "up_StagingPath s = staging_name i" "0 \<le> up_Offset s"
    "up_Offset s \<le> up_Length s" "int64 (up_Length s)"
    using upload_invD(2) [OF inv s] by (simp_all add: row_ok_def)
  let ?n = "nat (up_Offset s)" and ?name = "staging_name i"
  show thesis
  proof (cases "store_OpenStaging (F OpenSite) True ?name (hub_store h)")
    case (Inl e)
    with op row have "h' = h" "r = Some e" by (simp_all add: write_locked_def)
    with Failed show ?thesis by simp
  next
    case (Inr v)
    obtain c where v: "v = Regular c" and c: "part h i = Some (Regular c)"
      using open_write_Inr [OF Inr] by auto
    consider (dead) "\<not> live now s"
      | (early) "live now s" "offset \<noteq> up_Offset s \<or> bad (F TruncateSite)"
      | (go) "live now s" "offset = up_Offset s" "\<not> bad (F TruncateSite)" by blast
    then show ?thesis
    proof cases
      case dead
      with op row Inr v Expired show ?thesis by (simp add: write_locked_def)
    next
      case early
      with op row Inr v have "h' = h \<and> (\<exists>e. r = Some e)"
        by (auto simp: write_locked_def split: if_splits)
      with Failed show ?thesis by auto
    next
      case go
      have short: "?n \<le> length c"
        using upload_invD(2) [OF inv s] c go(1) by (auto simp: row_ok_def live_def)
      have "int64 (up_Length s - up_Offset s)" by (rule int64_between [OF _ _ row(6)]) (use row in auto)
      then have room: "wrap64 (up_Length s - up_Offset s) = up_Length s - up_Offset s" by simp
      let ?h1 = "put_part ?name (take ?n c) h"
      obtain data failed where copy:
        "copy_limited (wrap64 (up_Length s - up_Offset s + 1)) b = (data, failed)" by fastforce
      let ?h2 = "put_part ?name (take ?n c @ data) ?h1"
      let ?undo = "if bad (F RollbackSite) then ?h2 else put_part ?name (take ?n c) ?h2"
      let ?next = "wrap64 (up_Offset s + int (length data))"
      obtain d ru where upd: "UpdateUploadOffset (bad (F OffsetSite)) now (hub_db h) i (up_Offset s) ?next
        = (d, ru)" by fastforce
      have resize: "resize ?n c = take ?n c" "overwrite ?n data (take ?n c) = take ?n c @ data"
        "resize ?n (take ?n c @ data) = take ?n c" using short by simp_all
      have run: "(if bad (F SeekSite) then (?h1, 0, Some IoError)
          else if failed then (?undo, 0, Some IoError)
          else if int (length data) > up_Length s - up_Offset s then (?undo, 0, Some TooLarge)
          else if bad (F SyncSite) then (?undo, 0, Some IoError)
          else (case ru of Inl e \<Rightarrow> (?undo\<lparr>hub_db := d\<rparr>, 0, Some e)
                | Inr _ \<Rightarrow> (?h2\<lparr>hub_db := d\<rparr>, ?next, None))) = (h', n, r)"
        using op row(4) unfolding write_locked_def
        by (simp add: Let_def row(2,3) Inr v go room copy upd resize del: resize_short overwrite_end
            split: sum.splits if_splits)
      define hb where "hb = ?undo"
      note run = run [folded hb_def]
      have rb: "rolled_back F ?n c (part hb i)"
        using short by (auto simp: rolled_back_def hb_def)
      have hb: "hub_db hb = hub_db h" "frame i h hb" "outside_same h hb"
        by (simp_all add: hb_def frame_def outside_same_def)
      have fail: thesis if "h' = hb" "r = Some e" for e
        by (rule Failed [OF that(2)]) (use that go c rb hb in auto)
      consider (seek) "bad (F SeekSite)" | (stop) "\<not> bad (F SeekSite)"
          "failed \<or> int (length data) > up_Length s - up_Offset s \<or> bad (F SyncSite)"
        | (conflict) e where "\<not> bad (F SeekSite)" "\<not> failed" "\<not> bad (F SyncSite)"
          "int (length data) \<le> up_Length s - up_Offset s" "ru = Inl e"
        | (finish) "\<not> bad (F SeekSite)" "\<not> failed" "\<not> bad (F SyncSite)"
          "int (length data) \<le> up_Length s - up_Offset s" "ru = Inr ()"
        by (cases ru) fastforce+
      then show ?thesis
      proof cases
        case seek
        with run have "h' = ?h1" "r = Some IoError" by (auto simp: Let_def)
        with Failed go c short show ?thesis
          by (auto simp: frame_def outside_same_def rolled_back_def)
      next
        case stop
        with run have "h' = hb \<and> (\<exists>e. r = Some e)"
          by (auto split: if_splits)
        with fail show ?thesis by blast
      next
        case conflict
        from upload_invD(1) [OF inv] upd conflict have "d = hub_db h"
          by (auto elim: UpdateUploadOffset_cases)
        with conflict run hb(1) have "h' = hb" "r = Some e" by auto
        with fail show ?thesis by blast
      next
        case finish
        let ?m = "up_Offset s + int (length data)"
        have "int64 ?m" by (rule int64_between [OF _ _ row(6)]) (use row finish in auto)
        then have next': "?next = ?m" by simp
        from finish run have h': "h' = ?h2\<lparr>hub_db := d\<rparr>" "n = ?m" "r = None"
          by (auto simp: next')
        from finish upd next' have upd: "UpdateUploadOffset (bad (F OffsetSite)) now (hub_db h) i
          (up_Offset s) ?m = (d, Inr ())" by simp
        have pfx: "prefix data (body_bytes b)" by (rule copy_limited_bounds(2) [OF copy])
        have all: "data = body_bytes b \<and> \<not> body_fails b" if "up_Length s - up_Offset s < max_int64"
        proof -
          from that row have "int64 (up_Length s - up_Offset s + 1)"
            by (simp add: int64_def max_int64_def)
          with copy finish have "copy_limited (up_Length s - up_Offset s + 1) b = (data, False)" by simp
          with copy_limited_all finish show ?thesis by blast
        qed
        from upload_invD(1) [OF inv] upd show ?thesis
        proof (cases rule: UpdateUploadOffset_cases)
          case (Ok t)
          with s have "t = s" by simp
          with Ok show ?thesis
            using Written [OF h'(3) go(1,2) h'(2) _ c _ _ pfx] all finish h'(1) short
            by (simp add: frame_def outside_same_def h'(2))
        qed simp
      qed
    qed
  qed
qed

lemma cleanupLocked_inv:
  assumes inv: "upload_inv h" and s: "sess h i = Some s" and op: "cleanupLocked F now s h = (h', r)"
  shows "upload_inv h'"
proof -
  note eff = cleanupLocked_effect [OF inv s op]
  have row: "row_ok h i s" by (rule upload_invD(2) [OF inv s])
  show ?thesis
  proof (rule upload_inv_frame [OF inv])
    show "frame i h h'" "sessions_ok (hub_db h')" using eff by blast+
    show "files_ok h'" using eff upload_invD(3) [OF inv] outside_same_files by blast
    fix t assume "sess h' i = Some t"
    with eff consider "t = s" "part h' i = part h i"
      | "up_Status t \<in> {SCancelled, CleanupPending}" "marked s t" by auto
    then show "row_ok h' i t"
    proof cases
      case 1
      with row row_ok_part show ?thesis by blast
    next
      case 2
      with row markedD [OF 2(2)] show ?thesis by (auto simp: row_ok_def)
    qed
  qed
qed

lemma write_locked_inv:
  assumes inv: "upload_inv h" and s: "sess h i = Some s"
    and op: "write_locked F now offset b s h = (h', n, r)"
  shows "upload_inv h'"
  using inv s op
proof (cases rule: write_locked_cases)
  case Expired
  with cleanupLocked_inv [OF inv s] show ?thesis by (cases "cleanupLocked F now s h") auto
next
  case (Written c data)
  have row: "row_ok h i s" by (rule upload_invD(2) [OF inv s])
  show ?thesis
  proof (rule upload_inv_frame [OF inv Written(11,13)])
    show "files_ok h'" using Written(12) upload_invD(3) [OF inv] outside_same_files by blast
    fix t assume "sess h' i = Some t"
    with Written(8) have t: "t = s\<lparr>up_Offset := n, up_UpdatedAt := now\<rparr>" by simp
    from row Written(2,6) have "up_Offset s \<le> int (length c)" "0 \<le> up_Offset s"
      by (auto simp: row_ok_def live_def)
    then show "row_ok h' i t"
      using row Written(4,5,7) by (simp add: row_ok_def t)
  qed
next
  case (Failed e)
  have row: "row_ok h i s" by (rule upload_invD(2) [OF inv s])
  show ?thesis
  proof (rule upload_inv_frame [OF inv Failed(3)])
    show "sessions_ok (hub_db h')" using upload_invD(1) [OF inv] Failed(5) by simp
    show "files_ok h'" using Failed(4) upload_invD(3) [OF inv] outside_same_files by blast
    fix t assume "sess h' i = Some t"
    with Failed(2) s have t: "t = s" by simp
    from Failed(6) show "row_ok h' i t"
      using row by (auto simp: t row_ok_def rolled_back_def)
  qed
qed

section \<open>Publish\<close>

lemma publish_cases:
  assumes op: "store_Publish f random n s = (s', r)" and v: "validStagingName n"
  obtains (Ok) v where "r = Inr (object_key random)" "st_open s" "staging_lookup s n = Some v"
      "s' = put_object (object_key random) v (del_staging n s)"
  | (Half) v where "r = Inl IoError" "st_open s" "staging_lookup s n = Some v" "f = FaultAfter"
      "s' = put_object (object_key random) v (del_staging n s)"
  | (Fail) e where "r = Inl e" "s' = s"
proof (cases "\<not> st_open s \<or> f = FaultBefore \<or> staging_lookup s n = None")
  case True
  then have "\<exists>e. r = Inl e \<and> s' = s"
    using op v by (auto simp: store_Publish_def split: if_splits)
  with Fail show ?thesis by auto
next
  case False
  then obtain w where "staging_lookup s n = Some w" by auto
  with False op v Ok [of w] Half [of w] show ?thesis
    by (cases "f = FaultAfter") (simp_all add: store_Publish_def Let_def)
qed

text \<open>Restoring undoes the publication, unless it fails before its rename.\<close>

lemma restore_publish:
  assumes v: "validStagingName n" and open': "st_open s" and l: "staging_lookup s n = Some v"
    and fresh: "st_objects s (object_key random) = None" and len: "length random = 32"
    and op: "store_Restore f (object_key random) n (put_object (object_key random) v (del_staging n s)) = (s', r)"
  obtains (Back) "f \<noteq> FaultBefore" "st_objects s' = st_objects s" "st_open s'"
      "\<And>m. staging_lookup s' m = staging_lookup s m"
  | (Stuck) "f = FaultBefore" "s' = put_object (object_key random) v (del_staging n s)"
proof (cases "f = FaultBefore")
  case True
  with Stuck op v open' parse_object_key [OF len] show ?thesis by (simp add: store_Restore_def)
next
  case False
  with op v open' parse_object_key [OF len]
  have s': "s' = put_staging n v (del_object (object_key random)
      (put_object (object_key random) v (del_staging n s)))"
    by (simp add: store_Restore_def)
  have "staging_lookup s' m = staging_lookup s m" for m
    using l staging_lookup_base [of m n s] by (simp add: s')
  moreover have "st_objects s' = st_objects s"
    using fresh by (auto simp: s')
  ultimately show ?thesis using Back False open' by (simp add: s')
qed

lemma put_object_part:
  "\<lbrakk>id_ok i; s1 = put_object key v (del_staging (staging_name i) (hub_store h))\<rbrakk> \<Longrightarrow>
     frame i h (h\<lparr>hub_store := s1\<rparr>) \<and> staging_lookup s1 (staging_name i) = None
     \<and> st_objects s1 = (st_objects (hub_store h))(key \<mapsto> v) \<and> st_open s1 = st_open (hub_store h)"
  by (simp add: frame_def)

lemma complete_publish_cases:
  assumes inv: "upload_inv h" and s: "sess h i = Some s"
    and op: "complete_publish F random now txnow s h = (h', u, r)"
    and len: "length random = 32" and fresh: "st_objects (hub_store h) (object_key random) = None"
  obtains (Published) c row where "r = None" "live now s" "up_Offset s = up_Length s"
      "part h i = Some (Regular c)" "part h' i = None" "sess h' = (sess h)(i := None)"
      "sessions_ok (hub_db h')" "frame i h h'" "up_Length s \<le> int (length c)"
      "st_objects (hub_store h') = (st_objects (hub_store h))(object_key random \<mapsto> Regular c)"
      "db_files (hub_db h') = db_files (hub_db h) @ [row]" "db_dirs (hub_db h') = db_dirs (hub_db h)"
      "file_ObjectKey row = object_key random" "file_Size row = up_Length s"
      "file_RootID row = up_RootID s" "file_LogicalPath row = up_LogicalPath s"
      "file_DeleteState row = FileActive"
      "names_inv (hub_db h) \<Longrightarrow> names_inv (hub_db h')"
  | (Kept) e where "r = Some e" "hub_db h' = hub_db h" "frame i h h'" "part h' i = part h i"
      "st_objects (hub_store h') = st_objects (hub_store h)" "st_open (hub_store h') = st_open (hub_store h)"
  | (Lost) e v where "r = Some e" "hub_db h' = hub_db h" "frame i h h'" "part h' i = None"
      "F PublishSite = FaultAfter \<or> F RestoreSite = FaultBefore" "live now s"
      "part h i = Some v"
      "st_objects (hub_store h') = (st_objects (hub_store h))(object_key random \<mapsto> v)"
proof -
  have row: "row_ok h i s" by (rule upload_invD(2) [OF inv s])
  then have ids: "id_ok i" "up_ID s = i" "up_StagingPath s = staging_name i" by (simp_all add: row_ok_def)
  note vn = valid_staging_name [OF ids(1)]
  let ?key = "object_key random"
  show thesis
  proof (cases "live now s \<and> up_Offset s = up_Length s")
    case False
    with op have "h' = h" "\<exists>e. r = Some e" by (auto simp: complete_publish_def split: if_splits)
    with Kept show ?thesis by auto
  next
    case True
    obtain s1 rp where pub: "store_Publish (F PublishSite) random (staging_name i) (hub_store h) = (s1, rp)"
      by fastforce
    from pub vn show ?thesis
    proof (cases rule: publish_cases)
      case (Fail e)
      with op True pub ids have "h' = h" "r = Some e" by (simp_all add: complete_publish_def)
      with Kept show ?thesis by simp
    next
      case (Half v)
      with op True pub ids have h': "h' = h\<lparr>hub_store := s1\<rparr>" "r = Some IoError"
        by (simp_all add: complete_publish_def)
      note moved = put_object_part [OF ids(1) Half(5)]
      with Lost [OF h'(2), of v] h' Half True show ?thesis by simp
    next
      case (Ok v)
      note moved = put_object_part [OF ids(1) Ok(4)]
      obtain c where c: "v = Regular c" "up_Length s \<le> int (length c)"
        using row Ok(3) True by (auto simp: row_ok_def live_def)
      obtain d rc where tx: "CompleteUpload (bad (F CommitSite)) txnow (hub_db h) (upload_file s ?key) i = (d, rc)"
        by fastforce
      from upload_invD(1) [OF inv] tx show ?thesis
      proof (cases rule: CompleteUpload_cases)
        case (Ok t rw)
        with op True pub \<open>rp = _\<close> tx ids have h': "h' = \<lparr>hub_db = d, hub_store = s1\<rparr>" "r = None"
          by (simp_all add: complete_publish_def)
        show ?thesis
          by (rule Published [OF h'(2), of c rw])
            (use h' moved Ok True c \<open>staging_lookup (hub_store h) (staging_name i) = _\<close> in
              \<open>auto simp: frame_def upload_file_def\<close>)
      next
        case (Fail e)
        obtain s2 rr where res: "store_Restore (F RestoreSite) ?key (staging_name i) s1 = (s2, rr)"
          by fastforce
        with op True pub \<open>rp = _\<close> tx ids Fail have h': "h' = h\<lparr>hub_store := s2\<rparr>" "r = Some e"
          by (auto simp: complete_publish_def)
        from vn \<open>st_open (hub_store h)\<close> \<open>staging_lookup (hub_store h) (staging_name i) = _\<close> fresh len
          res [unfolded \<open>s1 = _\<close>]
        show ?thesis
        proof (cases rule: restore_publish)
          case Back
          with Kept h' \<open>st_open (hub_store h)\<close> show ?thesis by (simp add: frame_def)
        next
          case Stuck
          with h' \<open>s1 = _\<close> have "h' = h\<lparr>hub_store := s1\<rparr>" by simp
          with Lost [OF h'(2), of v] Stuck(1) moved True
            \<open>staging_lookup (hub_store h) (staging_name i) = _\<close>
          show ?thesis by simp
        qed
      qed
    qed
  qed
qed

lemma files_ok_more:
  assumes "files_ok h" and "db_files (hub_db h') = db_files (hub_db h)"
    and "\<And>k. st_objects (hub_store h) k \<noteq> None \<Longrightarrow> st_objects (hub_store h') k = st_objects (hub_store h) k"
  shows "files_ok h'"
  using assms unfolding files_ok_def by (metis option.distinct(1))

lemma complete_publish_inv:
  assumes inv: "upload_inv h" and s: "sess h i = Some s"
    and op: "complete_publish F random now txnow s h = (h', u, r)"
    and len: "length random = 32" and fresh: "st_objects (hub_store h) (object_key random) = None"
  shows "upload_inv h'"
  using assms
proof (cases rule: complete_publish_cases)
  case (Published c row)
  show ?thesis
  proof (rule upload_inv_frame [OF inv Published(8,7)])
    have old: "\<exists>d. st_objects (hub_store h') (file_ObjectKey f) = Some (Regular d)"
      if "f \<in> set (db_files (hub_db h))" "file_DeleteState f = FileActive" for f
      using upload_invD(3) [OF inv] that Published(10) by (auto simp: files_ok_def)
    then show "files_ok h'"
      using Published(10,11,13) by (auto simp: files_ok_def)
  qed (use Published(6) in simp)
next
  case (Kept e)
  show ?thesis
  proof (rule upload_inv_frame [OF inv Kept(3)])
    show "sessions_ok (hub_db h')" using upload_invD(1) [OF inv] Kept(2) by simp
    show "files_ok h'" by (rule files_ok_more [OF upload_invD(3) [OF inv]]) (use Kept in auto)
    fix t assume "sess h' i = Some t"
    with upload_invD(2) [OF inv] have "row_ok h i t" by (simp add: Kept(2))
    with row_ok_part [OF Kept(4)] show "row_ok h' i t" by blast
  qed
next
  case (Lost e v)
  show ?thesis
  proof (rule upload_inv_frame [OF inv Lost(3)])
    show "sessions_ok (hub_db h')" using upload_invD(1) [OF inv] Lost(2) by simp
    show "files_ok h'"
      by (rule files_ok_more [OF upload_invD(3) [OF inv]]) (use Lost fresh in auto)
    fix t assume "sess h' i = Some t"
    with upload_invD(2) [OF inv] have "row_ok h i t" by (simp add: Lost(2))
    with Lost(4) show "row_ok h' i t" by (simp add: row_ok_def)
  qed
qed

section \<open>Create\<close>

lemma create_staging_cases:
  assumes op: "store_CreateStaging f n s = (s', r)" and v: "validStagingName n"
  obtains (Ok) "r = Inr ()" "staging_lookup s n = None" "s' = put_staging n (Regular []) s" "f = NoFault"
      "st_open s"
  | (Half) "r = Inl IoError" "staging_lookup s n = None" "s' = put_staging n (Regular []) s"
  | (Fail) e where "r = Inl e" "st_objects s' = st_objects s" "st_open s' = st_open s"
      "\<And>m. staging_lookup s' m = staging_lookup s m"
proof -
  consider (early) "\<not> st_open s \<or> f = FaultBefore"
    | (exists) "st_open s" "f \<noteq> FaultBefore" "staging_lookup s n \<noteq> None"
    | (new) "st_open s" "f \<noteq> FaultBefore" "staging_lookup s n = None" by blast
  then show thesis
  proof cases
    case early
    then have "\<exists>e. r = Inl e \<and> s' = s"
      using op v by (auto simp: store_CreateStaging_def split: if_splits)
    with Fail show ?thesis by auto
  next
    case exists
    with op v have "r = Inl IoError" "s' = set_entries (entries s) s"
      by (simp_all add: store_CreateStaging_def)
    with Fail show ?thesis by (simp add: staging_lookup_def)
  next
    case new
    with op v have "s' = put_staging n (Regular []) s"
      and r: "r = (if f = FaultAfter then Inl IoError else Inr ())"
      by (simp_all add: store_CreateStaging_def)
    with new Ok Half show ?thesis by (cases f) simp_all
  qed
qed

text \<open>Changing the part of an id no row has is harmless.\<close>

lemma upload_inv_no_row:
  assumes inv: "upload_inv h" and none: "sess h i = None" and db: "hub_db k = hub_db h"
    and others: "\<And>j. id_ok j \<Longrightarrow> j \<noteq> i \<Longrightarrow> part k j = part h j"
    and obj: "st_objects (hub_store k) = st_objects (hub_store h)"
    and op: "st_open (hub_store k) = st_open (hub_store h)"
  shows "upload_inv k \<and> frame i h k \<and> outside_same h k"
proof -
  have fr: "frame i h k" using others by (simp add: frame_def db)
  have "upload_inv k"
  proof (rule upload_inv_frame [OF inv fr])
    show "files_ok k" using obj db upload_invD(3) [OF inv] by (simp add: files_ok_def)
    show "sessions_ok (hub_db k)" using upload_invD(1) [OF inv] by (simp add: db)
  qed (use none db in simp)
  with fr obj op db show ?thesis by (simp add: outside_same_def)
qed

definition new_row :: "int \<Rightarrow> string \<Rightarrow> int \<Rightarrow> int \<Rightarrow> string \<Rightarrow> int \<Rightarrow> upload_row" where
  "new_row expires i userID rootID path len =
     \<lparr>up_ID = i, up_UserID = userID, up_RootID = rootID, up_LogicalPath = path,
      up_StagingPath = staging_name i, up_Offset = 0, up_Length = len, up_Status = Active,
      up_ExpiresAt = expires, up_CreatedAt = zero_time, up_UpdatedAt = zero_time\<rparr>"

lemma Create_cases:
  assumes inv: "upload_inv h" and op: "Create F now ttl random user root path len h = (h', r)"
    and rand: "length random = 16" and none: "sess h (hex_encode random) = None"
  defines "i \<equiv> hex_encode random"
  obtains (Made) t where "r = Inr (public t)" "0 \<le> len" "part h i = None" "part h' i = Some (Regular [])"
      "sess h' = (sess h)(i \<mapsto> t)" "up_ID t = i" "up_StagingPath t = staging_name i" "up_Offset t = 0"
      "up_Length t = len" "up_Status t = Active" "up_LogicalPath t = path" "up_RootID t = root"
      "up_UserID t = user" "sessions_ok (hub_db h')" "frame i h h'" "outside_same h h'"
  | (Fail) e where "r = Inl e" "hub_db h' = hub_db h" "frame i h h'" "outside_same h h'" "upload_inv h'"
proof -
  note id = id_ok_hex [OF rand, folded i_def] and none = none [folded i_def]
  note vn = valid_staging_name [OF id]
  have fail: thesis if "r = Inl e" "hub_db h' = hub_db h"
      "\<And>j. id_ok j \<Longrightarrow> j \<noteq> i \<Longrightarrow> part h' j = part h j"
      "st_objects (hub_store h') = st_objects (hub_store h)" "st_open (hub_store h') = st_open (hub_store h)"
    for e using upload_inv_no_row [OF inv none that(2-5)] Fail [OF that(1,2)] by blast
  show thesis
  proof (cases "len < 0 \<or> bad (F RandSite)")
    case True
    with op have "h' = h" "\<exists>e. r = Inl e" by (auto simp: Create_def split: if_splits)
    with fail show ?thesis by auto
  next
    case False
    obtain s1 rc where mk: "store_CreateStaging (F CreateSite) (staging_name i) (hub_store h) = (s1, rc)"
      by fastforce
    from mk vn show ?thesis
    proof (cases rule: create_staging_cases)
      case (Fail e)
      with op False mk have "h' = h\<lparr>hub_store := s1\<rparr>" "r = Inl e"
        by (auto simp: Create_def Let_def i_def)
      with fail Fail show ?thesis by simp
    next
      case Half
      with op False mk have "h' = h\<lparr>hub_store := s1\<rparr>" "r = Inl IoError"
        by (auto simp: Create_def Let_def i_def)
      with fail Half show ?thesis by simp
    next
      case Ok
      note part1 = Ok(2,3)
      obtain d rs where ins: "CreateUploadSession (bad (F InsertSite)) now (hub_db h)
          (new_row (now + ttl) i user root path len) = (d, rs)" by fastforce
      show ?thesis
      proof (cases "bad (F CloseSite)")
        case True
        with op False mk Ok have "h' = h\<lparr>hub_store := s1\<rparr>" "r = Inl IoError"
          by (auto simp: Create_def Let_def i_def)
        with fail part1 show ?thesis by simp
      next
        case close: False
        from upload_invD(1) [OF inv] ins show ?thesis
        proof (cases rule: CreateUploadSession_cases)
          case (Fail e)
          obtain s2 rr where rm: "store_RemoveStaging (F RemoveSite) (staging_name i) s1 = (s2, rr)"
            by fastforce
          with op False close mk Ok(1) ins Fail
          have h': "h' = \<lparr>hub_db = hub_db h, hub_store = s2\<rparr>" "r = Inl e"
            by (auto simp: Create_def Let_def i_def new_row_def)
          from rm vn show ?thesis
            by (cases rule: remove_staging_cases) (use fail h' part1 in auto)
        next
          case (Ok t)
          with op False close mk \<open>rc = _\<close> ins
          have h': "h' = \<lparr>hub_db = d, hub_store = s1\<rparr>" "r = Inr (public t)"
            by (auto simp: Create_def Let_def i_def new_row_def)
          show ?thesis
            by (rule Made [OF h'(2)])
              (use h' Ok part1 False in \<open>auto simp: new_row_def frame_def outside_same_def\<close>)
        qed
      qed
    qed
  qed
qed

lemma Create_inv:
  assumes inv: "upload_inv h" and op: "Create F now ttl random user root path len h = (h', r)"
    and rand: "length random = 16" and none: "sess h (hex_encode random) = None" and int: "int64 len"
  shows "upload_inv h'"
  using inv op rand none
proof (cases rule: Create_cases)
  case (Made t)
  show ?thesis
  proof (rule upload_inv_frame [OF inv Made(15,14)])
    show "files_ok h'" using Made(16) upload_invD(3) [OF inv] outside_same_files by blast
    fix u assume "sess h' (hex_encode random) = Some u"
    with Made(5) have "u = t" by simp
    with Made int id_ok_hex [OF rand] show "row_ok h' (hex_encode random) u"
      by (simp add: row_ok_def)
  qed
qed

section \<open>Critical sections\<close>

text \<open>
  The contract of a function run under the lifecycle lock: on the fresh row it keeps the
  invariant, given a condition \<open>P\<close> that taking locks cannot break.
\<close>

locale critical_section =
  fixes fn :: "upload_row \<Rightarrow> hub \<Rightarrow> hub \<times> 'a \<times> err option"
    and P :: "hub \<Rightarrow> bool"
  assumes P_view: "P h \<Longrightarrow> same_view h h' \<Longrightarrow> P h'"
    and body_inv: "upload_inv h \<Longrightarrow> P h \<Longrightarrow> sess h i = Some s \<Longrightarrow> fn s h = (h', x, r) \<Longrightarrow> upload_inv h'"
begin

lemma locked_inv:
  assumes "upload_inv h" and "P h" and "withLifecycleLock F olds i fn init h = (h', x, r)"
  shows "upload_inv h'"
  using assms(3)
proof (cases rule: withLifecycleLock_cases)
  case (Quiet e)
  with assms(1) show ?thesis by (blast intro: upload_inv_view)
next
  case (Ran h1 s e)
  have "sess h1 i = Some s" using Ran(1,2) by (simp add: same_view_def)
  with Ran assms show ?thesis by (blast intro: upload_inv_view P_view body_inv)
qed

end

definition cleanup_body :: "faults \<Rightarrow> int \<Rightarrow> bool \<Rightarrow> upload_row \<Rightarrow> hub \<Rightarrow> hub \<times> unit \<times> err option" where
  "cleanup_body F now expiryOnly s h =
     (if expiryOnly \<and> live now s then (h, (), None)
      else (case cleanupLocked F now s h of (h', e) \<Rightarrow> (h', (), e)))"

definition recover_body :: "faults \<Rightarrow> int \<Rightarrow> upload_row \<Rightarrow> hub \<Rightarrow> hub \<times> bool \<times> err option" where
  "recover_body F now s h =
     (if recoverableStaging F now s (hub_store h) then (h, True, None)
      else (case cleanupLocked F now s h of (h', e) \<Rightarrow> (h', False, e)))"

interpretation write_section: critical_section "write_locked F now offset b" "\<lambda>_. True"
  for F now offset b
  by unfold_locales (auto intro: write_locked_inv)

interpretation cleanup_section: critical_section "cleanup_body F now expiryOnly" "\<lambda>_. True"
  for F now expiryOnly
  by unfold_locales (auto simp: cleanup_body_def intro: cleanupLocked_inv split: if_splits prod.splits)

interpretation recover_section: critical_section "recover_body F now" "\<lambda>_. True"
  for F now
  by unfold_locales (auto simp: recover_body_def intro: cleanupLocked_inv split: if_splits prod.splits)

lemma complete_hash_same: "complete_hash sha256 F now s h = (h', x, r) \<Longrightarrow> h' = h"
  by (auto simp: complete_hash_def Let_def split: if_splits sum.splits prod.splits)

interpretation hash_section: critical_section "complete_hash sha256 F now" "\<lambda>_. True"
  for sha256 F now
  by unfold_locales (auto dest: complete_hash_same)

definition fresh_key :: "string \<Rightarrow> hub \<Rightarrow> bool" where
  "fresh_key random h \<longleftrightarrow>
     length random = 32 \<and> st_objects (hub_store h) (object_key random) = None"

interpretation publish_section: critical_section "complete_publish F random now txnow" "fresh_key random"
  for F random now txnow
  by unfold_locales
    (auto simp: fresh_key_def same_view_def intro: complete_publish_inv)

lemma cleanup_inv: "upload_inv h \<Longrightarrow> cleanup F olds now i eo h = (h', r) \<Longrightarrow> upload_inv h'"
  using cleanup_section.locked_inv [of h F olds i F now eo "()"]
  by (cases "withLifecycleLock F olds i (cleanup_body F now eo) () h")
    (auto simp: cleanup_def cleanup_body_def [abs_def])

lemma Get_inv: "upload_inv h \<Longrightarrow> Get flt F now now' i h = (h', r) \<Longrightarrow> upload_inv h'"
  by (cases "cleanup F [] now' i True h")
    (auto simp: Get_def dest: cleanup_inv split: sum.splits if_splits)

section \<open>Recovery\<close>

lemma recover_sessions_inv:
  "upload_inv h \<Longrightarrow> recover_sessions Fs now dry ss rep h = (h', rep', r) \<Longrightarrow> upload_inv h'"
proof (induction ss arbitrary: rep h)
  case Nil
  then show ?case by simp
next
  case (Cons s ss)
  let ?F = "Fs (up_ID s)"
  obtain h1 kept e where one: "(if dry then (h, recoverableStaging ?F now s (hub_store h), None)
      else withLifecycleLock ?F [] (up_ID s) (recover_body ?F now) False h) = (h1, kept, e)"
    by (metis prod_cases3)
  have h1: "upload_inv h1"
    using one Cons.prems(1) recover_section.locked_inv [OF Cons.prems(1) TrueI]
    by (cases dry) auto
  have step: "(let F = ?F in if bad (F CtxSite) then (h, rep, Some Cancelled)
      else if e = Some DbNotFound
        then recover_sessions Fs now dry ss (rep\<lparr>CancelledCount := CancelledCount rep + 1\<rparr>) h1
      else if e \<noteq> None then (h1, rep, e)
      else if kept then recover_sessions Fs now dry ss (rep\<lparr>Kept := Kept rep + 1\<rparr>) h1
      else recover_sessions Fs now dry ss (rep\<lparr>CancelledCount := CancelledCount rep + 1\<rparr>) h1)
      = (h', rep', r)"
    using Cons.prems(2) one [unfolded recover_body_def] by (simp add: Let_def cong: if_cong)
  show ?case
    using step h1 Cons.prems(1) Cons.IH [OF h1] by (auto simp: Let_def split: if_splits)
qed

lemma staging_name_orphan:
  assumes v: "validStagingName n"
  shows "n = staging_name (orphan_id n)" and "id_ok (orphan_id n)"
proof -
  have base: "n = ''staging/'' @ staging_base n" by (rule staging_name_base [OF v])
  have len: "length (staging_base n) = 37" and suf: "suffix ''.part'' n"
    and free: "CHR ''/'' \<notin> set (staging_base n)"
    using v by (auto simp: validStagingName_def has_suffix_def)
  have "suffix (staging_base n) n" using base by (metis suffix_def)
  with suf have sb: "suffix ''.part'' (staging_base n)"
    by (rule suffix_length_suffix) (simp add: len)
  then obtain i where i: "staging_base n = i @ ''.part''" by (auto simp: suffix_def)
  have "orphan_id n = i"
    using sb by (simp add: orphan_id_def staging_base_def [symmetric] trim_suffix_def i)
  with base i show "n = staging_name (orphan_id n)" by (simp add: staging_name_def)
  from len free i \<open>orphan_id n = i\<close> show "id_ok (orphan_id n)" by (auto simp: id_ok_def)
qed

lemma remove_orphan_cases:
  assumes op: "remove_orphan F dry n rep h = (h', rep', r)"
  obtains (Same) "h' = h"
  | (Gone) st rs where "sess h (orphan_id n) = None" "h' = h\<lparr>hub_store := st\<rparr>"
      "store_RemoveStaging (F RemoveSite) n (hub_store h) = (st, rs)"
proof (cases "UploadSessionByID (bad (F RereadSite)) (hub_db h) (orphan_id n)")
  case (Inr x)
  with op Same show thesis by (simp add: remove_orphan_def)
next
  case (Inl e)
  obtain st rs where rm: "store_RemoveStaging (F RemoveSite) n (hub_store h) = (st, rs)" by fastforce
  show thesis
  proof (cases "e = DbNotFound")
    case True
    with Inl have none: "sess h (orphan_id n) = None"
      by (auto simp: UploadSessionByID_eq split: if_splits option.splits)
    from True Inl op rm have "h' = h \<or> h' = h\<lparr>hub_store := st\<rparr>"
      by (cases dry; cases rs) (auto simp: remove_orphan_def Let_def)
    with Same Gone [OF none _ rm] show thesis by auto
  next
    case False
    with Inl op have "h' = h" by (cases e) (auto simp: remove_orphan_def)
    with Same show thesis by simp
  qed
qed

lemma remove_orphan_frame:
  assumes inv: "upload_inv h" and v: "validStagingName n"
    and op: "remove_orphan F dry n rep h = (h', rep', r)"
  shows "h' = h \<or> sess h (orphan_id n) = None \<and> frame (orphan_id n) h h' \<and> hub_db h' = hub_db h
    \<and> upload_inv h' \<and> outside_same h h'"
  using op
proof (cases rule: remove_orphan_cases)
  case (Gone st rs)
  note name = staging_name_orphan [OF v]
  have st: "st_objects st = st_objects (hub_store h)" "st_open st = st_open (hub_store h)"
    "\<And>m. staging_base m \<noteq> staging_base n \<Longrightarrow> staging_lookup st m = staging_lookup (hub_store h) m"
    using Gone(3) v by (auto elim: remove_staging_cases)
  have "part h' j = part h j" if "j \<noteq> orphan_id n" for j
  proof -
    have "staging_base (staging_name j) \<noteq> staging_base n"
      using that by (subst name(1)) simp
    with st(3) Gone(2) show ?thesis by simp
  qed
  with upload_inv_no_row [OF inv Gone(1), of h'] st Gone(1,2) show ?thesis by simp
qed simp

lemma remove_orphan_inv:
  assumes inv: "upload_inv h" and v: "validStagingName n"
    and op: "remove_orphan F dry n rep h = (h', rep', r)"
  shows "upload_inv h' \<and> outside_same h h' \<and> sess h' = sess h"
  using remove_orphan_frame [OF assms] inv by auto

lemma recover_orphans_inv:
  "upload_inv h \<Longrightarrow> \<forall>n \<in> set names. validStagingName n \<Longrightarrow>
   recover_orphans Fs dry seen names rep h = (h', rep', r) \<Longrightarrow> upload_inv h'"
proof (induction names arbitrary: rep h)
  case Nil
  then show ?case by simp
next
  case (Cons n names)
  have IH: "upload_inv k \<Longrightarrow> recover_orphans Fs dry seen names rp k = (h', rep', r) \<Longrightarrow> upload_inv h'"
    for rp k using Cons.IH Cons.prems(2) by simp
  obtain st rl where l: "store_LockStaging (Fs n LockSite) n (hub_store h) = (st, rl)" by fastforce
  have h1: "upload_inv (h\<lparr>hub_store := st\<rparr>)"
    by (rule upload_inv_view [OF Cons.prems(1) lock_view_hub [OF l]])
  obtain h2 rep2 e where ro: "remove_orphan (Fs n) dry n (rep\<lparr>Checked := Checked rep + 1\<rparr>)
      (h\<lparr>hub_store := st\<rparr>) = (h2, rep2, e)" by (metis prod_cases3)
  have h2: "upload_inv h2" using remove_orphan_inv [OF h1 _ ro] Cons.prems(2) by simp
  show ?case
    using Cons.prems(1,3) IH h1 h2
    by (auto simp: Let_def l ro [simplified] split: if_splits sum.splits err.splits option.splits)
qed

lemma Recover_cases:
  assumes op: "Recover F Fs now limit dry h = (h', rep, r)"
  obtains (Early) "h' = h" "rep = \<lparr>Checked = 0, Kept = 0, CancelledCount = 0, Orphans = 0\<rparr>" "r \<noteq> None"
  | (Go) sessions ns h1 rep1 e where
      "UploadSessions (bad (F PreLookup)) (hub_db h) (if limit \<le> 0 \<or> limit > 64 then 64 else limit)
        = Inr sessions"
      "store_StagingNames (F OpenSite)
        ((if limit \<le> 0 \<or> limit > 64 then 64 else limit) - int (length sessions)) (hub_store h) = Inr ns"
      "recover_sessions Fs now dry sessions
        \<lparr>Checked = length sessions, Kept = 0, CancelledCount = 0, Orphans = 0\<rparr> h = (h1, rep1, e)"
      "(h' = h1 \<and> rep = rep1 \<and> r = e \<and> e \<noteq> None) \<or>
        (e = None \<and> recover_orphans Fs dry (map up_StagingPath sessions) ns rep1 h1 = (h', rep, r))"
proof -
  let ?lim = "if limit \<le> 0 \<or> limit > 64 then 64 else limit"
  consider (early) "h' = h" "rep = \<lparr>Checked = 0, Kept = 0, CancelledCount = 0, Orphans = 0\<rparr>" "r \<noteq> None"
    | (go) sessions ns where "UploadSessions (bad (F PreLookup)) (hub_db h) ?lim = Inr sessions"
      "store_StagingNames (F OpenSite) (?lim - int (length sessions)) (hub_store h) = Inr ns"
      "(case recover_sessions Fs now dry sessions
          \<lparr>Checked = length sessions, Kept = 0, CancelledCount = 0, Orphans = 0\<rparr> h of
          (h1, rep, Some e) \<Rightarrow> (h1, rep, Some e)
        | (h1, rep, None) \<Rightarrow> recover_orphans Fs dry (map up_StagingPath sessions) ns rep h1)
       = (h', rep, r)"
    using op unfolding Recover_def Let_def by (auto split: if_splits sum.splits)
  then show thesis
  proof cases
    case early
    with Early show ?thesis by simp
  next
    case go
    obtain h1 rep1 e where rs: "recover_sessions Fs now dry sessions
        \<lparr>Checked = length sessions, Kept = 0, CancelledCount = 0, Orphans = 0\<rparr> h = (h1, rep1, e)"
      by (metis prod_cases3)
    with go(3) Go [OF go(1,2) rs] show ?thesis by (cases e) auto
  qed
qed

lemma Recover_inv:
  assumes inv: "upload_inv h" and op: "Recover F Fs now limit dry h = (h', rep, r)"
  shows "upload_inv h'"
  using op
proof (cases rule: Recover_cases)
  case Early
  with inv show ?thesis by simp
next
  case (Go sessions ns h1 rep1 e)
  have names: "\<forall>n \<in> set ns. validStagingName n"
    using Go(2) by (auto simp: store_StagingNames_def split: if_splits option.splits)
  have h1: "upload_inv h1" by (rule recover_sessions_inv [OF inv Go(3)])
  with Go(4) recover_orphans_inv [OF h1 names] show ?thesis by auto
qed

end
