(* ===== verification/UploadRun.thy ===== *)
theory UploadRun
  imports UploadInv
begin

text \<open>
  The upload manager as a transition system whose steps are its critical sections, in any
  order, for any sessions and with any faults; and what one session sees of the others:
  a complete part cannot change under \<open>Complete\<close> while it hashes without the lock.
\<close>

section \<open>Steps\<close>

text \<open>A label tells which ids a step creates and with which faults it writes.\<close>

datatype label = Creates string | Writes faults | Other

inductive up_step :: "label \<Rightarrow> hub \<Rightarrow> hub \<Rightarrow> bool" where
  step_create: "Create F now ttl random user root path len h = (h', res) \<Longrightarrow> length random = 16 \<Longrightarrow>
    sess h (hex_encode random) = None \<Longrightarrow> int64 len \<Longrightarrow> up_step (Creates (hex_encode random)) h h'"
| step_get: "Get flt F now now' i h = (h', res) \<Longrightarrow> up_step Other h h'"
| step_write: "Write F olds now i offset b h = (h', n, res) \<Longrightarrow> up_step (Writes F) h h'"
| step_cleanup: "cleanup F olds now i eo h = (h', res) \<Longrightarrow> up_step Other h h'"
| step_hash: "withLifecycleLock F olds i (complete_hash sha256 F now) init h = (h', x, res) \<Longrightarrow>
    up_step Other h h'"
| step_publish: "withLifecycleLock F olds i (complete_publish F random now txnow) () h = (h', u, res) \<Longrightarrow>
    fresh_key random h \<Longrightarrow> up_step Other h h'"
| step_recover: "Recover F Fs now limit dry h = (h', rep, res) \<Longrightarrow> up_step Other h h'"

lemma up_step_inv: "up_step l h h' \<Longrightarrow> upload_inv h \<Longrightarrow> upload_inv h'"
proof (induction rule: up_step.induct)
  case step_create
  then show ?case by (blast intro: Create_inv)
next
  case step_get
  then show ?case by (blast intro: Get_inv)
next
  case step_write
  then show ?case unfolding Write_def by (blast intro: write_section.locked_inv)
next
  case step_cleanup
  then show ?case by (blast intro: cleanup_inv)
next
  case step_hash
  then show ?case by (blast intro: hash_section.locked_inv)
next
  case step_publish
  then show ?case by (blast intro: publish_section.locked_inv)
next
  case step_recover
  then show ?case by (blast intro: Recover_inv)
qed

interpretation upload_system: invariant_system "\<lambda>h h'. \<exists>l. up_step l h h'" upload_inv
  by unfold_locales (blast intro: up_step_inv)

section \<open>A sealed part\<close>

text \<open>While session \<open>i\<close> is active, its row says the part is complete and the part is \<open>c\<close>.\<close>

definition intact :: "string \<Rightarrow> string \<Rightarrow> hub \<Rightarrow> bool" where
  "intact i c h \<longleftrightarrow>
     (\<forall>s. sess h i = Some s \<longrightarrow> up_Status s = Active \<longrightarrow>
        up_Offset s = int (length c) \<and> up_Length s = int (length c)
        \<and> (\<forall>v. part h i = Some v \<longrightarrow> v = Regular c))"

lemma intact_frame:
  assumes "upload_inv h" and "intact i c h" and "frame j h h'" and "j \<noteq> i"
  shows "intact i c h'"
proof -
  have "sess h' i = sess h i" and "id_ok i \<Longrightarrow> part h' i = part h i"
    using assms(3,4) by (auto simp: frame_def)
  with assms(1,2) show ?thesis
    unfolding intact_def by (metis upload_invD(2) row_ok_id)
qed

lemma intact_view: "upload_inv h \<Longrightarrow> intact i c h \<Longrightarrow> same_view h h' \<Longrightarrow> intact i c h'"
  using same_view_part [of h h' i] upload_invD(2) row_ok_id
  unfolding intact_def same_view_def by metis

lemma intact_gone: "sess h i = None \<Longrightarrow> intact i c h"
  by (simp add: intact_def)

lemma cleanupLocked_intact:
  assumes inv: "upload_inv h" and "intact i c h" and s: "sess h j = Some s"
    and op: "cleanupLocked F now s h = (h', r)"
  shows "intact i c h'"
proof (cases "j = i")
  case False
  with cleanupLocked_effect [OF inv s op] intact_frame [OF inv assms(2)] show ?thesis by blast
next
  case True
  with cleanupLocked_effect [OF inv s op] assms(2) s show ?thesis
    unfolding intact_def by auto
qed

lemma write_locked_intact:
  assumes inv: "upload_inv h" and sealed: "intact i c h" and rb: "\<not> bad (F RollbackSite)"
    and s: "sess h j = Some s" and op: "write_locked F now offset b s h = (h', n, r)"
  shows "intact i c h'"
  using inv s op
proof (cases rule: write_locked_cases)
  case Expired
  then show ?thesis
    using cleanupLocked_intact [OF inv sealed s] by (cases "cleanupLocked F now s h") auto
next
  case (Written d data)
  show ?thesis
  proof (cases "j = i")
    case False
    with intact_frame [OF inv sealed Written(11)] show ?thesis by blast
  next
    case True
    with sealed s Written(2,6) have o: "up_Offset s = int (length c)" "up_Length s = int (length c)" "d = c"
      by (auto simp: intact_def live_def)
    with Written(4,5) have "data = []" "n = int (length c)" by auto
    with Written(7,8) o True show ?thesis by (simp add: intact_def)
  qed
next
  case (Failed e)
  show ?thesis
  proof (cases "j = i")
    case False
    with intact_frame [OF inv sealed Failed(3)] show ?thesis by blast
  next
    case True
    from Failed(6) show ?thesis
    proof
      assume "h' = h"
      with sealed show ?thesis by simp
    next
      assume "\<exists>d. live now s \<and> part h j = Some (Regular d) \<and>
        rolled_back F (nat (up_Offset s)) d (part h' j)"
      then obtain d where d: "live now s" "part h j = Some (Regular d)"
        "rolled_back F (nat (up_Offset s)) d (part h' j)" by blast
      with sealed s True have "d = c" "up_Offset s = int (length c)" "up_Length s = int (length c)"
        by (auto simp: intact_def live_def)
      with d rb have "part h' i = Some (Regular c)"
        by (auto simp: rolled_back_def True)
      with Failed(2) sealed s True \<open>up_Offset s = _\<close> \<open>up_Length s = _\<close> show ?thesis
        by (simp add: intact_def)
    qed
  qed
qed

lemma complete_publish_intact:
  assumes inv: "upload_inv h" and sealed: "intact i c h" and s: "sess h j = Some s"
    and op: "complete_publish F random now txnow s h = (h', u, r)" and fresh: "fresh_key random h"
  shows "intact i c h'"
proof (cases "j = i")
  case False
  from inv s op fresh [unfolded fresh_key_def, THEN conjunct1] fresh [unfolded fresh_key_def, THEN conjunct2]
  have "frame j h h'" by (cases rule: complete_publish_cases) auto
  with intact_frame [OF inv sealed] False show ?thesis by blast
next
  case True
  from inv s op fresh [unfolded fresh_key_def, THEN conjunct1] fresh [unfolded fresh_key_def, THEN conjunct2]
  show ?thesis
    by (cases rule: complete_publish_cases) (use True sealed in \<open>auto simp: intact_def\<close>)
qed

text \<open>Sections that respect every sealed part.\<close>

locale calm_section = critical_section +
  assumes body_intact: "upload_inv h \<Longrightarrow> P h \<Longrightarrow> intact i c h \<Longrightarrow> sess h j = Some s \<Longrightarrow>
    fn s h = (h', x, r) \<Longrightarrow> intact i c h'"
begin

lemma locked_intact:
  assumes inv: "upload_inv h" and "P h" and sealed: "intact i c h"
    and "withLifecycleLock F olds j fn init h = (h', x, r)"
  shows "intact i c h'"
  using assms(4)
proof (cases rule: withLifecycleLock_cases)
  case (Quiet e)
  with inv sealed show ?thesis by (blast intro: intact_view)
next
  case (Ran h1 s e)
  have "sess h1 j = Some s" using Ran(1,2) by (simp add: same_view_def)
  with Ran assms show ?thesis
    by (blast intro: upload_inv_view intact_view P_view body_intact)
qed

end

interpretation calm_write: calm_section "write_locked F now offset b" "\<lambda>_. \<not> bad (F RollbackSite)"
  for F now offset b
  by unfold_locales (auto intro: write_locked_inv write_locked_intact)

interpretation calm_cleanup: calm_section "cleanup_body F now eo" "\<lambda>_. True"
  for F now eo
  by unfold_locales
    (auto simp: cleanup_body_def intro: cleanupLocked_intact split: if_splits prod.splits)

interpretation calm_recover: calm_section "recover_body F now" "\<lambda>_. True"
  for F now
  by unfold_locales
    (auto simp: recover_body_def intro: cleanupLocked_intact split: if_splits prod.splits)

interpretation calm_hash: calm_section "complete_hash sha256 F now" "\<lambda>_. True"
  for sha256 F now
  by unfold_locales (auto dest: complete_hash_same)

interpretation calm_publish: calm_section "complete_publish F random now txnow" "fresh_key random"
  for F random now txnow
  by unfold_locales (auto intro: complete_publish_intact)

lemma cleanup_intact:
  "upload_inv h \<Longrightarrow> intact i c h \<Longrightarrow> cleanup F olds now j eo h = (h', r) \<Longrightarrow> intact i c h'"
  using calm_cleanup.locked_intact [of h i c F olds j F now eo "()"]
  by (cases "withLifecycleLock F olds j (cleanup_body F now eo) () h")
    (auto simp: cleanup_def cleanup_body_def [abs_def])

lemma Get_intact:
  "upload_inv h \<Longrightarrow> intact i c h \<Longrightarrow> Get flt F now now' j h = (h', r) \<Longrightarrow> intact i c h'"
  by (cases "cleanup F [] now' j True h")
    (auto simp: Get_def dest: cleanup_intact split: sum.splits if_splits)

text \<open>One session of a recovery run.\<close>

lemma recover_sessions_step:
  assumes op: "recover_sessions Fs now dry (s # ss) rep h = (h', rep', r)"
  obtains (Stop) "h' = h"
  | (One) h1 kept e where
      "(if dry then (h, recoverableStaging (Fs (up_ID s)) now s (hub_store h), None)
        else withLifecycleLock (Fs (up_ID s)) [] (up_ID s) (recover_body (Fs (up_ID s)) now) False h)
       = (h1, kept, e)"
      "h' = h1 \<or> (\<exists>rp. recover_sessions Fs now dry ss rp h1 = (h', rep', r))"
proof -
  let ?F = "Fs (up_ID s)"
  obtain h1 kept e where one: "(if dry then (h, recoverableStaging ?F now s (hub_store h), None)
      else withLifecycleLock ?F [] (up_ID s) (recover_body ?F now) False h) = (h1, kept, e)"
    by (metis prod_cases3)
  have "h' = h \<or> h' = h1 \<or> (\<exists>rp. recover_sessions Fs now dry ss rp h1 = (h', rep', r))"
    using op one [unfolded recover_body_def] by (auto simp: Let_def split: if_splits cong: if_cong)
  with Stop One [OF one] show thesis by blast
qed

lemma recover_sessions_intact:
  "upload_inv h \<Longrightarrow> intact i c h \<Longrightarrow> recover_sessions Fs now dry ss rep h = (h', rep', r)
    \<Longrightarrow> intact i c h'"
proof (induction ss arbitrary: rep h)
  case Nil
  then show ?case by simp
next
  case (Cons s ss)
  from Cons.prems(3) show ?case
  proof (cases rule: recover_sessions_step)
    case Stop
    with Cons.prems(2) show ?thesis by simp
  next
    case (One h1 kept e)
    have "upload_inv h1 \<and> intact i c h1"
      using One(1) Cons.prems(1,2) recover_section.locked_inv [OF Cons.prems(1) TrueI]
        calm_recover.locked_intact [OF Cons.prems(1) TrueI Cons.prems(2)]
      by (cases dry) auto
    with One(2) Cons.IH show ?thesis by blast
  qed
qed

lemma remove_orphan_intact:
  assumes inv: "upload_inv h" and sealed: "intact i c h" and v: "validStagingName n"
    and op: "remove_orphan F dry n rep h = (h', rep', r)"
  shows "intact i c h'"
proof (cases "sess h i = None")
  case True
  with remove_orphan_inv [OF inv v op] show ?thesis by (simp add: intact_gone)
next
  case False
  have "h' = h \<or> sess h (orphan_id n) = None \<and> frame (orphan_id n) h h'"
    using remove_orphan_frame [OF inv v op] by auto
  with False intact_frame [OF inv sealed, of "orphan_id n" h'] sealed show ?thesis by (cases "orphan_id n = i") auto
qed

lemma recover_orphans_intact:
  "upload_inv h \<Longrightarrow> intact i c h \<Longrightarrow> \<forall>n \<in> set names. validStagingName n \<Longrightarrow>
   recover_orphans Fs dry seen names rep h = (h', rep', r) \<Longrightarrow> intact i c h'"
proof (induction names arbitrary: rep h)
  case Nil
  then show ?case by simp
next
  case (Cons n names)
  obtain st rl where l: "store_LockStaging (Fs n LockSite) n (hub_store h) = (st, rl)" by fastforce
  let ?h1 = "h\<lparr>hub_store := st\<rparr>"
  have v: "same_view h ?h1" by (rule lock_view_hub [OF l])
  have h1: "upload_inv ?h1" "intact i c ?h1"
    by (rule upload_inv_view [OF Cons.prems(1) v]) (rule intact_view [OF Cons.prems(1,2) v])
  obtain h2 rep2 e where ro: "remove_orphan (Fs n) dry n (rep\<lparr>Checked := Checked rep + 1\<rparr>) ?h1
      = (h2, rep2, e)" by (metis prod_cases3)
  have h2: "upload_inv h2" "intact i c h2"
    using remove_orphan_inv [OF h1(1) _ ro] remove_orphan_intact [OF h1 _ ro] Cons.prems(3) by simp_all
  have IH: "upload_inv k \<Longrightarrow> intact i c k \<Longrightarrow> recover_orphans Fs dry seen names rp k = (h', rep', r)
      \<Longrightarrow> intact i c h'" for rp k
    using Cons.IH Cons.prems(3) by simp
  show ?case
    using Cons.prems(1,2,4) IH h1 h2
    by (auto simp: Let_def l ro [simplified] split: if_splits sum.splits err.splits option.splits)
qed

lemma StagingNames_valid:
  "store_StagingNames f l s = Inr names \<Longrightarrow> \<forall>n \<in> set names. validStagingName n"
  by (auto simp: store_StagingNames_def split: if_splits option.splits)

lemma Recover_intact:
  assumes inv: "upload_inv h" and sealed: "intact i c h"
    and op: "Recover F Fs now limit dry h = (h', rep, r)"
  shows "intact i c h'"
  using op
proof (cases rule: Recover_cases)
  case Early
  with sealed show ?thesis by simp
next
  case (Go sessions ns h1 rep1 e)
  have h1: "upload_inv h1" "intact i c h1"
    by (rule recover_sessions_inv [OF inv Go(3)]) (rule recover_sessions_intact [OF inv sealed Go(3)])
  with Go(4) recover_orphans_intact [OF h1 StagingNames_valid [OF Go(2)]] show ?thesis by auto
qed

fun calm :: "string \<Rightarrow> label \<Rightarrow> bool" where
  "calm i (Creates j) \<longleftrightarrow> j \<noteq> i"
| "calm i (Writes F) \<longleftrightarrow> \<not> bad (F RollbackSite)"
| "calm i Other \<longleftrightarrow> True"

lemma up_step_intact:
  "up_step l h h' \<Longrightarrow> upload_inv h \<Longrightarrow> calm i l \<Longrightarrow> intact i c h \<Longrightarrow> intact i c h'"
proof (induction rule: up_step.induct)
  case (step_create F now ttl random user root path len h h' res)
  then have "frame (hex_encode random) h h'" by (auto elim: Create_cases)
  with intact_frame [OF step_create.prems(1,3)] step_create.prems(2) show ?case by simp
next
  case step_get
  then show ?case by (blast intro: Get_intact)
next
  case step_write
  then show ?case unfolding Write_def by (auto intro: calm_write.locked_intact)
next
  case step_cleanup
  then show ?case by (blast intro: cleanup_intact)
next
  case step_hash
  then show ?case by (blast intro: calm_hash.locked_intact)
next
  case step_publish
  then show ?case by (blast intro: calm_publish.locked_intact)
next
  case step_recover
  then show ?case by (blast intro: Recover_intact)
qed

text \<open>Any number of calm steps of the rest of the system.\<close>

definition sealed :: "string \<Rightarrow> string \<Rightarrow> hub \<Rightarrow> bool" where
  "sealed i c h \<longleftrightarrow> upload_inv h \<and> intact i c h"

interpretation calm_system: invariant_system "\<lambda>h h'. \<exists>l. calm i l \<and> up_step l h h'" "sealed i c"
  for i c
  by unfold_locales (auto simp: sealed_def intro: up_step_inv up_step_intact)

end
