(* ===== verification/UploadSpec.thy ===== *)
theory UploadSpec
  imports UploadRun
begin

text \<open>
  The functional behaviour of the upload manager: what a successful \<open>Complete\<close> publishes,
  that fault-free operations succeed, that chunks concatenate, and that cleanup converges.
\<close>

section \<open>The checksum\<close>

lemma or_word_0: "(a OR b :: 8 word) = 0 \<longleftrightarrow> a = 0 \<and> b = 0"
  by (metis or.left_neutral or.right_neutral word_bw_same(2) word_ao_absorbs(1) and_zero_eq)

lemma xor_word_0: "(a XOR b :: 8 word) = 0 \<longleftrightarrow> a = b"
  by (metis xor.assoc xor.left_neutral xor.right_neutral xor_self_eq)

lemma of_char_word_inj: "(of_char x :: 8 word) = of_char y \<longleftrightarrow> x = y"
proof
  assume eq: "(of_char x :: 8 word) = of_char y"
  have "unat (of_char c :: 8 word) = of_char c" for c :: char
    by (cases c) (simp add: of_char_def)
  with eq have "(of_char x :: nat) = of_char y" by metis
  then show "x = y" by simp
qed simp

lemma fold_xor_0:
  "foldl (\<lambda>v (x, y). v OR (of_char x XOR of_char y)) (acc :: 8 word) zs = 0
    \<longleftrightarrow> acc = 0 \<and> (\<forall>(x, y) \<in> set zs. x = y)"
  by (induction zs arbitrary: acc)
    (auto simp: or_word_0 xor_word_0 of_char_word_inj)

lemma equalHash_iff: "equalHash a b \<longleftrightarrow> a = b"
  by (auto simp: equalHash_def fold_xor_0 list_eq_iff_zip_eq)

lemma checksum_okD:
  "checksum_ok digest expected \<Longrightarrow> expected \<noteq> [] \<Longrightarrow> hex_decode expected = Some digest \<and> length digest = 32"
  by (auto simp: checksum_ok_def equalHash_iff split: option.splits)

lemma checksum_ok_hex: "length digest = 32 \<Longrightarrow> checksum_ok digest (hex_encode digest)"
  by (simp add: checksum_ok_def equalHash_iff hex_decode_encode)

section \<open>What Complete publishes\<close>

lemma hash_ok:
  assumes "store_HashAndSync sha256 f n s = Inr (k, d)"
  obtains c where "staging_lookup s n = Some (Regular c)" "k = int (length c)" "d = sha256 c"
  using assms
  by (auto simp: store_HashAndSync_def store_OpenStaging_def
      split: sum.splits node.splits if_splits option.splits)

lemma complete_hash_ok:
  assumes inv: "upload_inv h" and s: "sess h i = Some s"
    and op: "complete_hash sha256 F now s h = (h', d, None)"
  obtains c where "h' = h" "part h i = Some (Regular c)" "d = sha256 c" "live now s"
    "up_Length s = int (length c)" "up_Offset s = int (length c)" "intact i c h"
proof -
  have row: "row_ok h i s" by (rule upload_invD(2) [OF inv s])
  obtain k where h: "h' = h" "live now s" "up_Offset s = up_Length s" "k = up_Length s"
    "store_HashAndSync sha256 (F HashSite) (up_StagingPath s) (hub_store h) = Inr (k, d)"
    using op by (auto simp: complete_hash_def Let_def split: if_splits sum.splits prod.splits)
  from h(5) obtain c where c: "staging_lookup (hub_store h) (up_StagingPath s) = Some (Regular c)"
    "k = int (length c)" "d = sha256 c" by (rule hash_ok)
  with row have p: "part h i = Some (Regular c)" by (simp add: row_ok_def)
  moreover have "intact i c h" using p s h(3,4) c(2) by (simp add: intact_def)
  ultimately show thesis using that [OF h(1)] h c by simp
qed

text \<open>
  The rest of the system may act between the two critical sections, as long as it keeps the
  part sealed and does not draw the same random key.
\<close>

lemma Complete_publishes:
  assumes inv: "upload_inv h"
    and op: "Complete sha256 F1 F2 olds1 olds2 now1 now2 txnow random env i expected h = (h', None)"
    and env: "\<And>k c. sealed i c k \<Longrightarrow> sealed i c (env k)"
    and key: "fresh_key random h" and fresh: "\<And>k. fresh_key random k \<Longrightarrow> fresh_key random (env k)"
  obtains s c row where "sess h i = Some s" "part h i = Some (Regular c)" "up_Length s = int (length c)"
    "st_objects (hub_store h') (object_key random) = Some (Regular c)"
    "row \<in> set (db_files (hub_db h'))" "file_ObjectKey row = object_key random"
    "file_Size row = int (length c)" "file_DeleteState row = FileActive"
    "sess h' i = None" "part h' i = None"
    "expected \<noteq> [] \<Longrightarrow> hex_decode expected = Some (sha256 c)"
proof -
  obtain h1 d where one: "withLifecycleLock F1 olds1 i (complete_hash sha256 F1 now1)
      (replicate 32 (CHR 0x00)) h = (h1, d, None)" and sum: "checksum_ok d expected"
    and two: "withLifecycleLock F2 olds2 i (complete_publish F2 random now2 txnow) () (env h1) = (h', (), None)"
    using op by (auto simp: Complete_def split: prod.splits option.splits if_splits)
  from one obtain g s where g: "same_view h g" "sess h i = Some s"
    and ran: "complete_hash sha256 F1 now1 s g = (h1, d, None)"
    by (cases rule: withLifecycleLock_cases) auto
  have ginv: "upload_inv g" and gs: "sess g i = Some s"
    using upload_inv_view [OF inv g(1)] g by (auto simp: same_view_def)
  from complete_hash_ok [OF ginv gs ran] obtain c where c: "h1 = g" "part g i = Some (Regular c)"
    "d = sha256 c" "up_Length s = int (length c)" "intact i c g" by metis
  have part: "part h i = Some (Regular c)"
    using c(2) same_view_part [OF g(1)] row_ok_id upload_invD(2) [OF inv g(2)] by metis
  have "sealed i c (env h1)" using env c(1,5) ginv by (simp add: sealed_def)
  then have k: "upload_inv (env h1)" "intact i c (env h1)" by (simp_all add: sealed_def)
  from two obtain k2 t where k2: "same_view (env h1) k2" "sess (env h1) i = Some t"
    and pub: "complete_publish F2 random now2 txnow t k2 = (h', (), None)"
    by (cases rule: withLifecycleLock_cases) auto
  have inv2: "upload_inv k2" and int2: "intact i c k2" and t: "sess k2 i = Some t"
    using upload_inv_view [OF k(1) k2(1)] intact_view [OF k k2(1)] k2 by (auto simp: same_view_def)
  have fr: "length random = 32" "st_objects (hub_store k2) (object_key random) = None"
    using fresh [of h1] key g(1) c(1) k2(1) by (auto simp: fresh_key_def same_view_def)
  from inv2 t pub fr show thesis
  proof (cases rule: complete_publish_cases)
    case (Published e row)
    with int2 t have "e = c" "up_Length t = int (length c)"
      by (auto simp: intact_def live_def)
    with Published show thesis
      using that [OF g(2) part c(4), of row] checksum_okD [OF sum] c(3) by auto
  qed auto
qed

section \<open>A failed write\<close>

lemma Write_failure:
  assumes inv: "upload_inv h" and s: "sess h i = Some s" and live: "live now s"
    and part: "part h i = Some (Regular c)" and unlock: "\<not> bad (F UnlockSite)"
    and op: "Write F olds now i offset b h = (h', n, Some e)"
  shows "sess h' = sess h \<and> frame i h h' \<and> outside_same h h'
    \<and> (\<exists>c'. part h' i = Some (Regular c') \<and> take (nat (up_Offset s)) c' = take (nat (up_Offset s)) c
         \<and> (bad (F RollbackSite) \<or> c' = c \<or> c' = take (nat (up_Offset s)) c))"
  using op [unfolded Write_def]
proof (cases rule: withLifecycleLock_cases)
  case (Quiet e)
  have "part h' i = part h i"
    using same_view_part [OF Quiet(1)] row_ok_id [OF upload_invD(2) [OF inv s]] by blast
  moreover have "sess h' = sess h" using Quiet(1) by (simp add: same_view_def)
  ultimately show ?thesis
    using same_view_frame [OF Quiet(1)] outside_same_view [OF Quiet(1)] part by simp
next
  case (Ran h1 t e1)
  have h1: "upload_inv h1" "sess h1 i = Some s" "sess h1 = sess h" "t = s"
    using upload_inv_view [OF inv Ran(1)] Ran(1,2) s by (auto simp: same_view_def)
  have p1: "part h1 i = Some (Regular c)"
    using same_view_part [OF Ran(1)] row_ok_id [OF upload_invD(2) [OF inv s]] part by metis
  from Ran(4) unlock have e1: "e1 = Some e" by auto
  have op1: "write_locked F now offset b s h1 = (h', n, Some e)" using Ran(3) h1(4) e1 by simp
  from h1(1,2) op1 show ?thesis
  proof (cases rule: write_locked_cases)
    case Expired
    with live show ?thesis by simp
  next
    case Written
    then show ?thesis by simp
  next
    case (Failed e')
    have "\<exists>c'. part h' i = Some (Regular c') \<and> take (nat (up_Offset s)) c' = take (nat (up_Offset s)) c
         \<and> (bad (F RollbackSite) \<or> c' = c \<or> c' = take (nat (up_Offset s)) c)"
      using Failed(6) p1 unfolding rolled_back_def by (elim disjE exE conjE) auto
    then show ?thesis
      using Failed(2-4) h1(3) frame_trans [OF same_view_frame [OF Ran(1)] Failed(3)]
        outside_same_trans [OF outside_same_view [OF Ran(1)] Failed(4)] by simp
  qed
qed

section \<open>Executions without faults\<close>

definition no_faults :: faults where
  "no_faults = (\<lambda>_. NoFault)"

lemma no_faults_simps [simp]: "no_faults x = NoFault" "\<not> bad NoFault"
  by (simp_all add: no_faults_def bad_def)

text \<open>The sidecar of a session is missing or a regular file.\<close>

definition lock_ok :: "hub \<Rightarrow> string \<Rightarrow> bool" where
  "lock_ok h i \<longleftrightarrow>
     (\<forall>v. map_of (entries (hub_store h)) (lock_base (staging_name i)) = Some v \<longrightarrow> (\<exists>c. v = Regular c))"

definition ready :: "hub \<Rightarrow> string \<Rightarrow> bool" where
  "ready h i \<longleftrightarrow> upload_inv h \<and> st_open (hub_store h) \<and> id_ok i \<and> lock_ok h i"

lemma lock_quiet:
  assumes "ready h i"
  obtains st where "store_LockStaging NoFault (staging_name i) (hub_store h) = (st, Inr ())"
    "ready (h\<lparr>hub_store := st\<rparr>) i" "same_view h (h\<lparr>hub_store := st\<rparr>)" "st_staging st \<noteq> None"
proof -
  have v: "validStagingName (staging_name i)" and op: "st_open (hub_store h)"
    using assms valid_staging_name by (simp_all add: ready_def)
  let ?l = "map_of (entries (hub_store h)) (lock_base (staging_name i))"
  obtain st where st: "store_LockStaging NoFault (staging_name i) (hub_store h) = (st, Inr ())"
    and lk: "\<forall>v. map_of (entries st) (lock_base (staging_name i)) = Some v \<longrightarrow> (\<exists>c. v = Regular c)"
    and some: "st_staging st \<noteq> None"
  proof (cases ?l)
    case None
    with v op that show thesis
      by (simp add: store_LockStaging_def set_entries_def entries_def)
  next
    case (Some w)
    with assms obtain c where "w = Regular c" by (auto simp: ready_def lock_ok_def)
    with Some v op that [of "hub_store h"] show thesis
      by (auto simp: store_LockStaging_def entries_def split: option.splits)
  qed
  have view: "same_view h (h\<lparr>hub_store := st\<rparr>)" by (rule lock_view_hub [OF st])
  moreover have "ready (h\<lparr>hub_store := st\<rparr>) i"
    using assms view lk upload_inv_view [OF _ view] by (simp add: ready_def lock_ok_def same_view_def)
  ultimately show thesis using that [OF st] some by blast
qed

lemma withLifecycleLock_quiet:
  assumes r: "ready h i" and s: "sess h i = Some s"
  obtains g where "same_view h g" "ready g i" "sess g i = Some s" "st_staging (hub_store g) \<noteq> None"
    "\<And>(fn :: upload_row \<Rightarrow> hub \<Rightarrow> hub \<times> 'a \<times> err option) init.
       withLifecycleLock no_faults [] i fn init h = fn s g"
proof -
  obtain st where st: "store_LockStaging NoFault (staging_name i) (hub_store h) = (st, Inr ())"
    and g: "ready (h\<lparr>hub_store := st\<rparr>) i" "same_view h (h\<lparr>hub_store := st\<rparr>)" "st_staging st \<noteq> None"
    using lock_quiet [OF r] by blast
  have path: "up_StagingPath s = staging_name i"
    using r upload_invD(2) [OF _ s] by (simp add: ready_def row_ok_def)
  have "withLifecycleLock no_faults [] i fn init h = fn s (h\<lparr>hub_store := st\<rparr>)"
    for fn :: "upload_row \<Rightarrow> hub \<Rightarrow> hub \<times> 'a \<times> err option" and init
    by (cases "fn s (h\<lparr>hub_store := st\<rparr>)")
      (auto simp: withLifecycleLock.simps locked_section_def UploadSessionByID_eq s path st split: option.splits)
  with that [OF g(2,1)] s g(3) show thesis by simp
qed

lemma UpdateUploadOffset_quiet:
  assumes "sessions_ok d" "session d i = Some s" "0 \<le> o'"
  obtains d' where "UpdateUploadOffset False now d i (up_Offset s) o' = (d', Inr ())"
proof -
  have "affected (\<lambda>t. up_ID t = i \<and> up_Offset t = up_Offset s) (db_uploads d) = 1"
    by (rule cas_session(1) [OF assms(1,2), of _ id]) auto
  with that assms(3) show thesis by (simp add: UpdateUploadOffset_def Let_def)
qed

definition whole :: "string \<Rightarrow> body" where
  "whole data = \<lparr>body_bytes = data, body_fails = False, disk_accepts = None\<rparr>"

text \<open>A fault-free write at the right offset appends its data, dropping anything unacknowledged.\<close>

lemma Write_quiet:
  assumes r: "ready h i" and s: "sess h i = Some s" and live: "live now s"
    and p: "part h i = Some (Regular c)"
    and fits: "up_Offset s + int (length data) \<le> up_Length s" and len: "up_Length s < max_int64"
  obtains h' where "Write no_faults [] now i (up_Offset s) (whole data) h
      = (h', up_Offset s + int (length data), None)"
    "part h' i = Some (Regular (take (nat (up_Offset s)) c @ data))"
    "sess h' = (sess h)(i \<mapsto> s\<lparr>up_Offset := up_Offset s + int (length data), up_UpdatedAt := now\<rparr>)"
    "ready h' i" "outside_same h h'" "frame i h h'"
proof -
  obtain g where g: "same_view h g" "ready g i" "sess g i = Some s"
    "\<And>(fn :: upload_row \<Rightarrow> hub \<Rightarrow> hub \<times> int \<times> err option) init.
       withLifecycleLock no_faults [] i fn init h = fn s g"
    using withLifecycleLock_quiet [OF r s] by metis
  have inv: "upload_inv g" and op: "st_open (hub_store g)" and id: "id_ok i"
    using g(2) by (simp_all add: ready_def)
  have row: "up_StagingPath s = staging_name i" "up_ID s = i" "0 \<le> up_Offset s" "int64 (up_Length s)"
    using upload_invD(2) [OF inv g(3)] by (simp_all add: row_ok_def)
  have pg: "part g i = Some (Regular c)" using p same_view_part [OF g(1) id] by simp
  have short: "nat (up_Offset s) \<le> length c"
    using upload_invD(2) [OF inv g(3)] pg live by (auto simp: row_ok_def live_def)
  have open': "store_OpenStaging NoFault True (staging_name i) (hub_store g) = Inr (Regular c)"
    using pg op valid_staging_name [OF id] by (simp add: store_OpenStaging_def)
  have "int64 (up_Length s - up_Offset s)" "int64 (up_Length s - up_Offset s + 1)"
    using row fits len by (simp_all add: int64_def max_int64_def)
  then have room: "wrap64 (up_Length s - up_Offset s) = up_Length s - up_Offset s"
    "wrap64 (up_Length s - up_Offset s + 1) = up_Length s - up_Offset s + 1" by simp_all
  have copy: "copy_limited (up_Length s - up_Offset s + 1) (whole data) = (data, False)"
    using fits by (simp add: copy_limited_def whole_def)
  let ?m = "up_Offset s + int (length data)"
  have next': "wrap64 ?m = ?m"
    by (rule wrap64_id, rule int64_between [OF _ fits row(4)]) (use row in simp)
  obtain d where upd: "UpdateUploadOffset False now (hub_db g) i (up_Offset s) ?m = (d, Inr ())"
    using UpdateUploadOffset_quiet [OF upload_invD(1) [OF inv] g(3)] row(3)
    by (metis add_nonneg_nonneg of_nat_0_le_iff)
  let ?h2 = "put_part (staging_name i) (take (nat (up_Offset s)) c @ data)
    (put_part (staging_name i) (take (nat (up_Offset s)) c) g)"
  have w: "write_locked no_faults now (up_Offset s) (whole data) s g = (?h2\<lparr>hub_db := d\<rparr>, ?m, None)"
    unfolding write_locked_def
    using live short row fits by (simp add: open' room copy upd next' Let_def)
  then have wr: "Write no_faults [] now i (up_Offset s) (whole data) h = (?h2\<lparr>hub_db := d\<rparr>, ?m, None)"
    by (simp add: Write_def g(4))
  from inv g(3) w show thesis
  proof (cases rule: write_locked_cases)
    case (Written c' data')
    have "data' = data"
      using Written(10) row fits len by (simp add: whole_def)
    moreover have "c' = c" using Written(6) pg by simp
    moreover have "lock_base (staging_name i) \<noteq> staging_base (staging_name i)"
      by (simp add: lock_base_def)
    then have "lock_ok (?h2\<lparr>hub_db := d\<rparr>) i"
      using g(2) by (simp add: ready_def lock_ok_def put_part_def put_staging_def)
    moreover have "upload_inv (?h2\<lparr>hub_db := d\<rparr>)"
      by (rule write_locked_inv [OF inv g(3) w])
    ultimately have "ready (?h2\<lparr>hub_db := d\<rparr>) i" by (simp add: ready_def id op)
    moreover have "sess g = sess h" using g(1) by (simp add: same_view_def)
    ultimately show thesis
      using Written that [OF wr] outside_same_trans [OF outside_same_view [OF g(1)]]
        frame_trans [OF same_view_frame [OF g(1)]] by simp
  qed auto
qed

text \<open>A wrong offset is refused, the right one reported, and nothing changes.\<close>

lemma Write_wrong_offset:
  assumes r: "ready h i" and s: "sess h i = Some s" and live: "live now s"
    and p: "part h i = Some (Regular c)" and off: "offset \<noteq> up_Offset s"
  obtains h' where "Write no_faults [] now i offset b h = (h', up_Offset s, Some OffsetConflict)"
    "same_view h h'"
proof -
  obtain g where g: "same_view h g" "ready g i" "sess g i = Some s"
    "\<And>(fn :: upload_row \<Rightarrow> hub \<Rightarrow> hub \<times> int \<times> err option) init.
       withLifecycleLock no_faults [] i fn init h = fn s g"
    using withLifecycleLock_quiet [OF r s] by metis
  have id: "id_ok i" "st_open (hub_store g)" using g(2) by (simp_all add: ready_def)
  have path: "up_StagingPath s = staging_name i"
    using g(2) upload_invD(2) [OF _ g(3)] by (simp add: ready_def row_ok_def)
  have "part g i = Some (Regular c)" using p same_view_part [OF g(1) id(1)] by simp
  then have "store_OpenStaging NoFault True (staging_name i) (hub_store g) = Inr (Regular c)"
    using id valid_staging_name by (simp add: store_OpenStaging_def)
  with live off have "write_locked no_faults now offset b s g = (g, up_Offset s, Some OffsetConflict)"
    by (simp add: write_locked_def path)
  with that g(1,4) show thesis by (simp add: Write_def)
qed

section \<open>Chunks\<close>

text \<open>A client sends its chunks in order, each at the offset the last one returned.\<close>

fun write_chunks :: "int \<Rightarrow> string \<Rightarrow> int \<Rightarrow> string list \<Rightarrow> hub \<Rightarrow> hub \<times> int \<times> err option" where
  "write_chunks now i off [] h = (h, off, None)"
| "write_chunks now i off (d # ds) h =
     (case Write no_faults [] now i off (whole d) h of
        (h', n, None) \<Rightarrow> write_chunks now i n ds h'
      | (h', n, Some e) \<Rightarrow> (h', n, Some e))"

lemma write_chunks_quiet:
  assumes "ready h i" and "sess h i = Some s" and "live now s" and "part h i = Some (Regular c)"
    and "up_Offset s = int (length c)"
    and "up_Offset s + int (length (concat ds)) \<le> up_Length s" and "up_Length s < max_int64"
  shows "\<exists>h' t. write_chunks now i (up_Offset s) ds h = (h', up_Offset s + int (length (concat ds)), None)
    \<and> part h' i = Some (Regular (c @ concat ds)) \<and> sess h' i = Some t \<and> live now t
    \<and> up_Offset t = up_Offset s + int (length (concat ds)) \<and> up_Length t = up_Length s
    \<and> up_LogicalPath t = up_LogicalPath s \<and> up_RootID t = up_RootID s
    \<and> ready h' i \<and> outside_same h h' \<and> frame i h h'"
  using assms
proof (induction ds arbitrary: h s c)
  case Nil
  then show ?case by auto
next
  case (Cons d ds)
  have fits: "up_Offset s + int (length d) \<le> up_Length s" using Cons.prems(6) by simp
  from Write_quiet [OF Cons.prems(1-4) fits Cons.prems(7)] obtain g
    where g: "Write no_faults [] now i (up_Offset s) (whole d) h = (g, up_Offset s + int (length d), None)"
      "part g i = Some (Regular (take (nat (up_Offset s)) c @ d))"
      "sess g = (sess h)(i \<mapsto> s\<lparr>up_Offset := up_Offset s + int (length d), up_UpdatedAt := now\<rparr>)"
      "ready g i" "outside_same h g" "frame i h g" by blast
  define t where "t = s\<lparr>up_Offset := up_Offset s + int (length d), up_UpdatedAt := now\<rparr>"
  have t: "sess g i = Some t" "live now t" "part g i = Some (Regular (c @ d))"
    "up_Offset t = int (length (c @ d))"
    using g(2,3) Cons.prems(3,5) by (simp_all add: t_def live_def)
  have "up_Offset t + int (length (concat ds)) \<le> up_Length t" "up_Length t < max_int64"
    using Cons.prems(6,7) by (simp_all add: t_def)
  from Cons.IH [OF g(4) t(1,2,3,4) this] g show ?case
    by (auto simp: t_def add.assoc intro: outside_same_trans frame_trans)
qed

section \<open>Cleanup converges\<close>

lemma cleanupLocked_quiet:
  assumes inv: "upload_inv g" and s: "sess g i = Some s" and op: "st_open (hub_store g)"
    and dir: "st_staging (hub_store g) \<noteq> None" and nodir: "part g i \<noteq> Some Directory"
  shows "\<exists>h'. cleanupLocked no_faults now s g = (h', None)"
proof -
  have row: "id_ok i" "up_ID s = i" "up_StagingPath s = staging_name i" "up_Status s \<noteq> SComplete"
    using upload_invD(2) [OF inv s] by (simp_all add: row_ok_def)
  obtain d1 r1 where m1: "(if up_Status s = Active
      then UpdateUploadStatus False now (hub_db g) i Active SCancelled else (hub_db g, Inr ())) = (d1, r1)"
    by fastforce
  obtain t where one: "r1 = Inr ()" "sessions_ok d1" and t: "session d1 i = Some t"
    "up_Status t = (if up_Status s = Active then SCancelled else up_Status s)"
    using upload_invD(1) [OF inv] s m1 by (cases rule: mark_cases) auto
  let ?b = "(if up_Status s = Active then SCancelled else up_Status s) = SCancelled"
  obtain d2 r2 where m2: "(if ?b then UpdateUploadStatus False now d1 i SCancelled CleanupPending
      else (d1, Inr ())) = (d2, r2)" by fastforce
  have two: "r2 = Inr () \<and> sessions_ok d2 \<and> (\<exists>t. session d2 i = Some t)"
    using one(2) t(1) m2 by (cases rule: mark_cases) (use t(2) in auto)
  obtain st rr where rm: "store_RemoveStaging NoFault (staging_name i) (hub_store g) = (st, rr)"
    by fastforce
  have rr: "rr = Inr ()"
    using remove_staging_cases [OF rm valid_staging_name [OF row(1)]] op dir nodir by auto
  obtain d3 r3 where del: "DeleteUploadSession False d2 i = (d3, r3)" by fastforce
  have r3: "r3 = Inr ()"
    using two [THEN conjunct2, THEN conjunct1] del
    by (cases rule: DeleteUploadSession_cases) (use two in auto)
  show ?thesis
    using m1 m2 rm del one(1) two rr r3 row
    by (cases "up_Status s") (auto simp: cleanupLocked_def Let_def)
qed

lemma Cancel_quiet:
  assumes r: "ready h i" and s: "sess h i = Some s" and nodir: "part h i \<noteq> Some Directory"
  shows "\<exists>h'. Cancel no_faults [] now i h = (h', None) \<and> sess h' i = None \<and> part h' i = None
    \<and> frame i h h' \<and> outside_same h h'"
proof -
  obtain g where g: "same_view h g" "ready g i" "sess g i = Some s" "st_staging (hub_store g) \<noteq> None"
    "\<And>(fn :: upload_row \<Rightarrow> hub \<Rightarrow> hub \<times> unit \<times> err option) init.
       withLifecycleLock no_faults [] i fn init h = fn s g"
    using withLifecycleLock_quiet [OF r s] by metis
  have inv: "upload_inv g" "st_open (hub_store g)" "id_ok i" using g(2) by (simp_all add: ready_def)
  have "part g i \<noteq> Some Directory" using nodir same_view_part [OF g(1) inv(3)] by simp
  with cleanupLocked_quiet [OF inv(1) g(3) inv(2) g(4)] obtain h'
    where h': "cleanupLocked no_faults now s g = (h', None)" by blast
  from h' have "Cancel no_faults [] now i h = (h', None)"
    by (simp add: Cancel_def cleanup_def g(5))
  with cleanupLocked_effect [OF inv(1) g(3) h'] same_view_frame [OF g(1)] outside_same_view [OF g(1)]
  show ?thesis by (blast intro: frame_trans outside_same_trans)
qed

section \<open>A failing Complete\<close>

text \<open>
  Unless the publication itself fails half way, the restore fails before its rename, or the
  unlock fails after everything was done, an error leaves row, part and objects as they were.
\<close>

lemma Complete_failure:
  assumes inv: "upload_inv h" and key: "fresh_key random h"
    and op: "Complete sha256 F1 F2 olds1 olds2 now1 now2 txnow random (\<lambda>k. k) i expected h = (h', Some e)"
    and faults: "F2 PublishSite \<noteq> FaultAfter" "F2 RestoreSite \<noteq> FaultBefore" "F2 UnlockSite = NoFault"
  shows "hub_db h' = hub_db h \<and> st_objects (hub_store h') = st_objects (hub_store h)
    \<and> (id_ok i \<longrightarrow> part h' i = part h i)"
proof -
  obtain h1 d r1 where one: "withLifecycleLock F1 olds1 i (complete_hash sha256 F1 now1)
      (replicate 32 (CHR 0x00)) h = (h1, d, r1)" by (metis prod_cases3)
  have v1: "same_view h h1"
    using one by (cases rule: withLifecycleLock_cases) (auto dest: complete_hash_same)
  show ?thesis
  proof (cases "h' = h1")
    case True
    with v1 same_view_part [OF v1, of i] show ?thesis by (auto simp: same_view_def)
  next
    case False
    then have two: "withLifecycleLock F2 olds2 i (complete_publish F2 random now2 txnow) () h1 = (h', (), Some e)"
      using op one by (auto simp: Complete_def split: prod.splits option.splits if_splits)
    from two show ?thesis
    proof (cases rule: withLifecycleLock_cases)
      case (Quiet e')
      with v1 have v: "same_view h h'" using same_view_trans by blast
      with same_view_part [OF v, of i] show ?thesis by (auto simp: same_view_def)
    next
      case (Ran k s e')
      have v: "same_view h k" using v1 Ran(1) same_view_trans by blast
      have k: "upload_inv k" "sess k i = Some s" "length random = 32"
        "st_objects (hub_store k) (object_key random) = None"
        using upload_inv_view [OF inv v] key v Ran(1,2) by (auto simp: fresh_key_def same_view_def)
      from k(1,2) Ran(3) k(3,4) show ?thesis
      proof (cases rule: complete_publish_cases)
        case (Published c row)
        with Ran(4) faults(3) show ?thesis by (auto simp: bad_def)
      next
        case (Kept e2)
        with v same_view_part [OF v, of i] show ?thesis by (auto simp: same_view_def)
      next
        case (Lost e2 w)
        with faults show ?thesis by simp
      qed
    qed
  qed
qed

section \<open>What a recovery run leaves\<close>

text \<open>The row is live and the part holds exactly the acknowledged bytes, or there is no row.\<close>

definition consistent :: "int \<Rightarrow> string \<Rightarrow> hub \<Rightarrow> bool" where
  "consistent now i h \<longleftrightarrow>
     (\<forall>s. sess h i = Some s \<longrightarrow> live now s \<and> (\<exists>c. part h i = Some (Regular c) \<and> int (length c) = up_Offset s))"

lemma recoverable_iff:
  assumes "upload_inv h" and "sess h i = Some s" and "recoverableStaging F now s (hub_store h)"
  shows "consistent now i h"
proof -
  have "up_StagingPath s = staging_name i" using upload_invD(2) [OF assms(1,2)] by (simp add: row_ok_def)
  with assms(2,3) show ?thesis
    by (auto simp: consistent_def recoverableStaging_def store_OpenStaging_def
        split: if_splits sum.splits node.splits option.splits)
qed

lemma withLifecycleLock_now:
  assumes op: "withLifecycleLock F [] i fn init h = (h', x, r)"
  shows "(same_view h h' \<and> (r = Some DbNotFound \<longrightarrow> sess h i = None) \<and> r \<noteq> None)
    \<or> (\<exists>g s e. same_view h g \<and> sess h i = Some s \<and> fn s g = (h', x, e) \<and> (r = e \<or> (e = None \<and> r = Some IoError)))"
proof (cases "sess h i = None")
  case True
  with withLifecycleLock_disj [OF op] show ?thesis by auto
next
  case False
  then obtain s where s: "sess h i = Some s" by auto
  show ?thesis
  proof (cases "r = Some DbNotFound")
    case False
    with withLifecycleLock_disj [OF op] show ?thesis by auto
  next
    case True
    obtain st rl where l: "store_LockStaging (F LockSite) (up_StagingPath s) (hub_store h) = (st, rl)"
      by fastforce
    have lerr: "rl \<noteq> Inl DbNotFound"
      using l by (auto simp: store_LockStaging_def split: if_splits option.splits node.splits)
    let ?g = "h\<lparr>hub_store := st\<rparr>"
    obtain h2 y e where fn: "fn s ?g = (h2, y, e)" by (cases "fn s ?g") auto
    have "fn s ?g = (h', x, Some DbNotFound)"
      using op True lerr fn s
      by (cases rl; cases e)
        (auto simp: withLifecycleLock.simps locked_section_def UploadSessionByID_eq l Let_def split: if_splits)
    with lock_view_hub [OF l] s True show ?thesis by blast
  qed
qed

lemma recover_one:
  assumes inv: "upload_inv h"
    and op: "withLifecycleLock F [] i (recover_body F now) False h = (h', kept, r)"
  shows "frame i h h'" and "r = None \<or> r = Some DbNotFound \<Longrightarrow> consistent now i h'"
proof -
  have "frame i h h' \<and> (r = None \<or> r = Some DbNotFound \<longrightarrow> consistent now i h')"
    using withLifecycleLock_now [OF op]
  proof
    assume q: "same_view h h' \<and> (r = Some DbNotFound \<longrightarrow> sess h i = None) \<and> r \<noteq> None"
    then have "sess h' i = sess h i" by (simp add: same_view_def)
    with q same_view_frame show ?thesis by (auto simp: consistent_def)
  next
    assume "\<exists>g s e. same_view h g \<and> sess h i = Some s \<and> recover_body F now s g = (h', kept, e)
      \<and> (r = e \<or> (e = None \<and> r = Some IoError))"
    then obtain g s e where g: "same_view h g" "sess h i = Some s"
      and ran: "recover_body F now s g = (h', kept, e)" and r: "r = e \<or> (e = None \<and> r = Some IoError)"
      by blast
    have inv': "upload_inv g" and s: "sess g i = Some s"
      using upload_inv_view [OF inv g(1)] g by (auto simp: same_view_def)
    show ?thesis
    proof (cases "recoverableStaging F now s (hub_store g)")
      case True
      with ran have "h' = g" by (simp add: recover_body_def)
      with recoverable_iff [OF inv' s True] same_view_frame [OF g(1)] show ?thesis by simp
    next
      case False
      with ran have "cleanupLocked F now s g = (h', e)" by (auto simp: recover_body_def split: prod.splits)
      note eff = cleanupLocked_effect [OF inv' s this]
      have "frame i h h'" using frame_trans [OF same_view_frame [OF g(1)]] eff by blast
      moreover have "consistent now i h'" if "r = None \<or> r = Some DbNotFound"
        using that r eff by (auto simp: consistent_def)
      ultimately show ?thesis by blast
    qed
  qed
  then show "frame i h h'" "r = None \<or> r = Some DbNotFound \<Longrightarrow> consistent now i h'" by blast+
qed

lemma consistent_frame:
  assumes "upload_inv h" and "consistent now i h" and "frame j h h'" and "j \<noteq> i"
  shows "consistent now i h'"
proof -
  have "sess h' i = sess h i" and "id_ok i \<Longrightarrow> part h' i = part h i"
    using assms(3,4) by (auto simp: frame_def)
  with assms(1,2) show ?thesis
    unfolding consistent_def by (metis upload_invD(2) row_ok_id)
qed

lemma recover_sessions_consistent:
  "recover_sessions Fs now False ss rep h = (h', rep', None) \<Longrightarrow> upload_inv h \<Longrightarrow>
   distinct (map up_ID ss) \<Longrightarrow> i \<in> up_ID ` set ss \<or> consistent now i h \<Longrightarrow> consistent now i h'"
proof (induction ss arbitrary: rep h)
  case Nil
  then show ?case by simp
next
  case (Cons s ss)
  obtain h1 kept e where one: "withLifecycleLock (Fs (up_ID s)) [] (up_ID s)
      (recover_body (Fs (up_ID s)) now) False h = (h1, kept, e)" by (metis prod_cases3)
  have "e = None \<or> e = Some DbNotFound" and next': "\<exists>rp. recover_sessions Fs now False ss rp h1 = (h', rep', None)"
    using Cons.prems(1) one [unfolded recover_body_def]
    by (auto simp: Let_def split: if_splits cong: if_cong)
  with recover_one [OF Cons.prems(2) one]
  have fr: "frame (up_ID s) h h1" and here: "consistent now (up_ID s) h1" by blast+
  have inv: "upload_inv h1" by (rule recover_section.locked_inv [OF Cons.prems(2) TrueI one])
  have "i \<in> up_ID ` set ss \<or> consistent now i h1"
    using Cons.prems(2,4) here consistent_frame [OF Cons.prems(2) _ fr, of now i]
    by (cases "i = up_ID s") auto
  with next' inv Cons.prems(3) Cons.IH show ?case by auto
qed

lemma recover_sessions_report:
  "recover_sessions Fs now dry ss rep h = (h', rep', r) \<Longrightarrow>
   Checked rep' = Checked rep \<and> Orphans rep' = Orphans rep
   \<and> Kept rep' + CancelledCount rep' \<le> Kept rep + CancelledCount rep + length ss
   \<and> (r = None \<longrightarrow> Kept rep' + CancelledCount rep' = Kept rep + CancelledCount rep + length ss)"
proof (induction ss arbitrary: rep h)
  case Nil
  then show ?case by simp
next
  case (Cons s ss)
  obtain h1 kept e where one: "(if dry then (h, recoverableStaging (Fs (up_ID s)) now s (hub_store h), None)
      else withLifecycleLock (Fs (up_ID s)) [] (up_ID s) (recover_body (Fs (up_ID s)) now) False h)
      = (h1, kept, e)" by (metis prod_cases3)
  consider (stop) "rep' = rep" "r \<noteq> None"
    | (cancelled) "recover_sessions Fs now dry ss (rep\<lparr>CancelledCount := CancelledCount rep + 1\<rparr>) h1 = (h', rep', r)"
    | (kept) "recover_sessions Fs now dry ss (rep\<lparr>Kept := Kept rep + 1\<rparr>) h1 = (h', rep', r)"
    using Cons.prems one [unfolded recover_body_def] by (auto simp: Let_def split: if_splits cong: if_cong)
  then show ?case
    by cases (use Cons.IH in \<open>fastforce+\<close>)
qed

lemma recover_orphans_report:
  "recover_orphans Fs dry seen names rep h = (h', rep', r) \<Longrightarrow>
   Checked rep \<le> Checked rep' \<and> Checked rep' \<le> Checked rep + length names \<and> Kept rep' = Kept rep
   \<and> CancelledCount rep' = CancelledCount rep"
proof (induction names arbitrary: rep h)
  case Nil
  then show ?case by simp
next
  case (Cons n names)
  obtain st rl where l: "store_LockStaging (Fs n LockSite) n (hub_store h) = (st, rl)" by fastforce
  let ?rep1 = "rep\<lparr>Checked := Checked rep + 1\<rparr>"
  obtain h2 rep2 e where ro: "remove_orphan (Fs n) dry n ?rep1 (h\<lparr>hub_store := st\<rparr>) = (h2, rep2, e)"
    by (metis prod_cases3)
  then have rep2: "Checked rep2 = Checked rep + 1 \<and> Kept rep2 = Kept rep \<and> CancelledCount rep2 = CancelledCount rep"
    by (auto simp: remove_orphan_def Let_def split: sum.splits err.splits if_splits prod.splits)
  consider (same) "rep' = rep \<or> rep' = ?rep1 \<or> rep' = rep2"
    | (skip) "recover_orphans Fs dry seen names rep h = (h', rep', r)"
    | (on) "recover_orphans Fs dry seen names rep2 h2 = (h', rep', r)"
    using Cons.prems
    by (auto simp: Let_def l ro [simplified] split: if_splits sum.splits err.splits option.splits)
  then show ?case
  proof cases
    case same
    with rep2 show ?thesis by auto
  next
    case skip
    from Cons.IH [OF skip] show ?thesis by simp
  next
    case on
    from Cons.IH [OF on] rep2 show ?thesis by simp
  qed
qed

lemma length_sql_limit: "0 \<le> n \<Longrightarrow> length (sql_limit n xs) \<le> nat n"
  by (simp add: sql_limit_def)

lemma UploadSessions_page:
  assumes "sessions_ok d" and "UploadSessions flt d lim = Inr ss"
  shows "distinct (map up_ID ss)" and "set ss \<subseteq> set (db_uploads d)" and "length ss \<le> nat lim"
proof -
  let ?all = "sort_key up_ID (filter (\<lambda>s. up_Status s \<in> {Active, SCancelled, CleanupPending}) (db_uploads d))"
  have ss: "ss = [] \<or> 0 < lim \<and> ss = sql_limit lim ?all"
    using assms(2) by (auto simp: UploadSessions_def split: if_splits)
  have "distinct (map up_ID ?all)"
    using assms(1) by (auto simp: sessions_ok_def distinct_map intro: inj_on_subset)
  with ss show "distinct (map up_ID ss)"
    by (auto simp: sql_limit_def take_map [symmetric])
  show "set ss \<subseteq> set (db_uploads d)" using ss set_sql_limit [of lim ?all] by auto
  show "length ss \<le> nat lim" using ss length_sql_limit [of lim ?all] by auto
qed

text \<open>A recovery run is bounded by 64 sessions and staging names together.\<close>

lemma Recover_report:
  assumes inv: "upload_inv h" and op: "Recover F Fs now limit dry h = (h', rep, r)"
  shows "Checked rep \<le> 64 \<and> (0 < limit \<longrightarrow> limit \<le> 64 \<longrightarrow> int (Checked rep) \<le> limit)
    \<and> Kept rep + CancelledCount rep \<le> Checked rep"
proof -
  let ?lim = "if limit \<le> 0 \<or> limit > 64 then 64 else limit"
  from op show ?thesis
  proof (cases rule: Recover_cases)
    case Early
    then show ?thesis by simp
  next
    case (Go sessions ns h1 rep1 e)
    have page: "length sessions \<le> nat ?lim"
      using UploadSessions_page(3) [OF upload_invD(1) [OF inv] Go(1)] .
    have "length ns \<le> nat (?lim - int (length sessions))"
      using length_filter_le [of validStagingName] Go(2)
      by (auto simp: store_StagingNames_def split: if_splits option.splits)
        (metis (no_types, lifting) length_filter_le length_map length_take min.bounded_iff)+
    moreover have "0 < ?lim" by simp
    ultimately have total: "int (length sessions + length ns) \<le> ?lim"
      using page by (simp only: le_nat_iff nat_le_iff of_nat_add)
    note one = recover_sessions_report [OF Go(3), simplified]
    have "Checked rep \<le> length sessions + length ns
      \<and> Kept rep + CancelledCount rep \<le> length sessions \<and> length sessions \<le> Checked rep"
      using Go(4)
    proof
      assume "h' = h1 \<and> rep = rep1 \<and> r = e \<and> e \<noteq> None"
      with one show ?thesis by auto
    next
      assume "e = None \<and> recover_orphans Fs dry (map up_StagingPath sessions) ns rep1 h1 = (h', rep, r)"
      with recover_orphans_report one show ?thesis by fastforce
    qed
    with total show ?thesis by (auto split: if_splits)
  qed
qed

lemma consistent_view: "upload_inv h \<Longrightarrow> consistent now i h \<Longrightarrow> same_view h h' \<Longrightarrow> consistent now i h'"
  using same_view_part [of h h' i] upload_invD(2) row_ok_id
  unfolding consistent_def same_view_def by metis

lemma recover_orphans_consistent:
  "upload_inv h \<Longrightarrow> consistent now i h \<Longrightarrow> \<forall>n \<in> set names. validStagingName n \<Longrightarrow>
   recover_orphans Fs dry seen names rep h = (h', rep', r) \<Longrightarrow> consistent now i h'"
proof (induction names arbitrary: rep h)
  case Nil
  then show ?case by simp
next
  case (Cons n names)
  obtain st rl where l: "store_LockStaging (Fs n LockSite) n (hub_store h) = (st, rl)" by fastforce
  let ?h1 = "h\<lparr>hub_store := st\<rparr>"
  have v: "same_view h ?h1" by (rule lock_view_hub [OF l])
  have h1: "upload_inv ?h1" "consistent now i ?h1"
    by (rule upload_inv_view [OF Cons.prems(1) v]) (rule consistent_view [OF Cons.prems(1,2) v])
  obtain h2 rep2 e where ro: "remove_orphan (Fs n) dry n (rep\<lparr>Checked := Checked rep + 1\<rparr>) ?h1
      = (h2, rep2, e)" by (metis prod_cases3)
  have vn: "validStagingName n" using Cons.prems(3) by simp
  have h2: "upload_inv h2" using remove_orphan_inv [OF h1(1) vn ro] by simp
  have c2: "consistent now i h2"
    using remove_orphan_frame [OF h1(1) vn ro] consistent_frame [OF h1, of "orphan_id n" h2] h1(2)
    by (cases "orphan_id n = i") (auto simp: consistent_def)
  have IH: "upload_inv k \<Longrightarrow> consistent now i k \<Longrightarrow> recover_orphans Fs dry seen names rp k = (h', rep', r)
      \<Longrightarrow> consistent now i h'" for rp k
    using Cons.IH Cons.prems(3) by simp
  show ?case
    using Cons.prems(1,2,4) IH h1 h2 c2
    by (auto simp: Let_def l ro [simplified] split: if_splits sum.splits err.splits option.splits)
qed

text \<open>A run that ends without an error leaves every session of its page consistent or gone.\<close>

lemma Recover_consistent:
  assumes inv: "upload_inv h" and op: "Recover F Fs now limit False h = (h', rep, None)"
    and page: "UploadSessions False (hub_db h) (if limit \<le> 0 \<or> limit > 64 then 64 else limit) = Inr ss"
    and s: "s \<in> set ss"
  shows "consistent now (up_ID s) h'"
  using op
proof (cases rule: Recover_cases)
  case Early
  then show ?thesis by simp
next
  case (Go sessions ns h1 rep1 e)
  have same: "sessions = ss" using Go(1) page by (auto simp: UploadSessions_def split: if_splits)
  from Go(4) have e: "e = None"
    and orphans: "recover_orphans Fs False (map up_StagingPath sessions) ns rep1 h1 = (h', rep, None)"
    by auto
  have h1: "upload_inv h1" by (rule recover_sessions_inv [OF inv Go(3)])
  have "consistent now (up_ID s) h1"
    using recover_sessions_consistent [OF Go(3) [unfolded e] inv] s same
      UploadSessions_page(1) [OF upload_invD(1) [OF inv] Go(1)] by auto
  with recover_orphans_consistent [OF h1 _ StagingNames_valid [OF Go(2)] orphans] show ?thesis by blast
qed

end
