(* ===== verification/Config.thy ===== *)
theory Config
  imports Prelude
begin

text \<open>
  Package \<open>internal/config\<close>: the runtime configuration, its defaults and \<open>Validate\<close>.  A
  \<open>time.Duration\<close> is a number of nanoseconds.  \<open>Validate\<close> returns the message of the first
  failed check, \<open>None\<close> when all pass.
\<close>

record name_policy =
  RejectLeadingDot :: bool
  RejectLeadingTilde :: bool
  RejectLeadingDollar :: bool
  RejectLeadingHash :: bool

record config =
  StorageRoot :: string
  SQLitePath :: string
  ListenAddr :: string
  UploadConcurrency :: int
  DownloadConcurrency :: int
  PerUserUploadConcurrency :: int
  PerIPUploadConcurrency :: int
  ChunkSize :: int
  UploadIdleTimeout :: int
  UploadSessionTTL :: int
  UploadRecoveryLimit :: int
  MaxRequestBodyBytes :: int
  RequestTimeout :: int
  ReadHeaderTimeout :: int
  ReadTimeout :: int
  WriteTimeout :: int
  IdleTimeout :: int
  ShutdownTimeout :: int
  RequestIdleTimeout :: int
  NamePolicy :: name_policy
  AdminUsernames :: "string list"
  TrustedProxyCIDRs :: "string list"
  LogPath :: string
  LogFormat :: string
  LogRetentionDays :: int

definition second :: int where
  "second = 1000000000"

definition minute :: int where
  "minute = 60 * second"

definition hour :: int where
  "hour = 60 * minute"

definition Default :: config where
  "Default =
     \<lparr>StorageRoot = ''data'', SQLitePath = ''data/safefilehub.db'', ListenAddr = '':8080'',
      UploadConcurrency = 16, DownloadConcurrency = 16, PerUserUploadConcurrency = 4,
      PerIPUploadConcurrency = 8, ChunkSize = 8 * 2 ^ 20, UploadIdleTimeout = 30 * minute,
      UploadSessionTTL = 24 * hour, UploadRecoveryLimit = 64,
      MaxRequestBodyBytes = 64 * 2 ^ 20, RequestTimeout = 0, ReadHeaderTimeout = 10 * second,
      ReadTimeout = 0, WriteTimeout = 0, IdleTimeout = 30 * minute,
      ShutdownTimeout = 15 * second, RequestIdleTimeout = 30 * minute,
      NamePolicy = \<lparr>RejectLeadingDot = True, RejectLeadingTilde = True,
                    RejectLeadingDollar = True, RejectLeadingHash = True\<rparr>,
      AdminUsernames = [], TrustedProxyCIDRs = [], LogPath = '''', LogFormat = '''',
      LogRetentionDays = 0\<rparr>"

definition Validate :: "config \<Rightarrow> string option" where
  "Validate c =
     (if StorageRoot c = '''' then Some ''storage root must not be empty''
      else if SQLitePath c = '''' then Some ''SQLite path must not be empty''
      else if ListenAddr c = '''' then Some ''listen address must not be empty''
      else if UploadConcurrency c \<le> 0 then Some ''upload concurrency must be positive''
      else if DownloadConcurrency c \<le> 0 then Some ''download concurrency must be positive''
      else if PerUserUploadConcurrency c \<le> 0
        then Some ''per-user upload concurrency must be positive''
      else if PerIPUploadConcurrency c \<le> 0
        then Some ''per-IP upload concurrency must be positive''
      else if ChunkSize c \<le> 0 then Some ''chunk size must be positive''
      else if UploadIdleTimeout c \<le> 0 then Some ''upload idle timeout must be positive''
      else if UploadSessionTTL c \<le> 0 then Some ''upload session TTL must be positive''
      else if UploadRecoveryLimit c \<le> 0 \<or> UploadRecoveryLimit c > 64
        then Some ''upload recovery limit must be between 1 and 64''
      else if MaxRequestBodyBytes c \<le> 0 then Some ''max request body bytes must be positive''
      else if RequestTimeout c < 0 then Some ''request timeout must not be negative''
      else if ReadHeaderTimeout c \<le> 0 then Some ''read header timeout must be positive''
      else if ReadTimeout c < 0 \<or> WriteTimeout c < 0
        then Some ''read and write timeouts must not be negative''
      else if IdleTimeout c \<le> 0 then Some ''idle timeout must be positive''
      else if ShutdownTimeout c \<le> 0 then Some ''shutdown timeout must be positive''
      else if RequestIdleTimeout c \<le> 0 then Some ''request idle timeout must be positive''
      else if LogFormat c \<noteq> '''' \<and> LogFormat c \<noteq> ''json'' \<and> LogFormat c \<noteq> ''text''
        then Some ''log format must be json or text''
      else if LogRetentionDays c < 0 then Some ''log retention days must not be negative''
      else None)"

text \<open>What the components constructed from a validated configuration rely on.\<close>

definition config_ok :: "config \<Rightarrow> bool" where
  "config_ok c \<longleftrightarrow>
     StorageRoot c \<noteq> [] \<and> SQLitePath c \<noteq> [] \<and> ListenAddr c \<noteq> []
     \<and> (\<forall>n \<in> {UploadConcurrency c, DownloadConcurrency c, PerUserUploadConcurrency c,
              PerIPUploadConcurrency c, ChunkSize c, UploadIdleTimeout c, UploadSessionTTL c,
              MaxRequestBodyBytes c, ReadHeaderTimeout c, IdleTimeout c, ShutdownTimeout c,
              RequestIdleTimeout c}. 0 < n)
     \<and> (\<forall>n \<in> {RequestTimeout c, ReadTimeout c, WriteTimeout c, LogRetentionDays c}. 0 \<le> n)
     \<and> UploadRecoveryLimit c \<in> {1..64}
     \<and> LogFormat c \<in> {[], ''json'', ''text''}"

lemma Validate_None_iff: "Validate c = None \<longleftrightarrow> config_ok c"
  unfolding Validate_def config_ok_def by (simp add: not_le)

lemma Validate_Default: "Validate Default = None"
  by (simp add: Validate_def Default_def second_def minute_def hour_def)

end
