(* ===== verification/Pathpolicy.thy ===== *)
theory Pathpolicy
  imports GoText Config
begin

text \<open>
  Package \<open>internal/pathpolicy\<close>: validation of user-facing logical paths.  Unicode
  normalisation (\<open>golang.org/x/text/unicode/norm\<close>) is not part of the repository: it is the
  parameter \<open>nfc\<close> of the parsers, and \<open>nfc_laws\<close> states the two documented facts the code
  relies on.  An error is its message.
\<close>

record path =
  Canonical :: string
  Segments :: "string list"

text \<open>What \<open>norm.NFC.String\<close> is documented to do: it is idempotent and keeps text valid.\<close>

definition nfc_laws :: "(string \<Rightarrow> string) \<Rightarrow> bool" where
  "nfc_laws nfc \<longleftrightarrow>
     (\<forall>s. nfc (nfc s) = nfc s) \<and> (\<forall>s. valid_utf8 s \<longrightarrow> valid_utf8 (nfc s))"

section \<open>Operations\<close>

definition isHex :: "char \<Rightarrow> bool" where
  "isHex b \<longleftrightarrow> b \<in> set ''0123456789abcdefABCDEF''"

fun containsPercentEscape :: "string \<Rightarrow> bool" where
  "containsPercentEscape (a # b # c # s) =
     ((a = CHR ''%'' \<and> isHex b \<and> isHex c) \<or> containsPercentEscape (b # c # s))"
| "containsPercentEscape _ = False"

text \<open>\<open>url.PathUnescape\<close>: every percent sign must start a two-digit escape.\<close>

fun pathUnescape :: "string \<Rightarrow> string option" where
  "pathUnescape [] = Some []"
| "pathUnescape (a # s) =
     (if a = CHR ''%'' then
        (case s of
           b # c # t \<Rightarrow>
             (case (hex_value b, hex_value c, pathUnescape t) of
                (Some x, Some y, Some u) \<Rightarrow> Some (char_of (16 * x + y) # u)
              | _ \<Rightarrow> None)
         | _ \<Rightarrow> None)
      else map_option (Cons a) (pathUnescape s))"

definition hasWindowsDrivePrefix :: "string \<Rightarrow> bool" where
  "hasWindowsDrivePrefix s =
     (case s of
        a # b # _ \<Rightarrow>
          a \<in> set ''ABCDEFGHIJKLMNOPQRSTUVWXYZabcdefghijklmnopqrstuvwxyz'' \<and> b = CHR '':''
      | _ \<Rightarrow> False)"

definition reserved_names :: "string list" where
  "reserved_names =
     [''CON'', ''PRN'', ''AUX'', ''NUL'',
      ''COM1'', ''COM2'', ''COM3'', ''COM4'', ''COM5'', ''COM6'', ''COM7'', ''COM8'', ''COM9'',
      ''LPT1'', ''LPT2'', ''LPT3'', ''LPT4'', ''LPT5'', ''LPT6'', ''LPT7'', ''LPT8'', ''LPT9'',
      ''KON'', ''KOM1'', ''KOM2'', ''KOM3'', ''KOM4'', ''KOM5'', ''KOM6'', ''KOM7'', ''KOM8'',
      ''KOM9'',
      ''KPT1'', ''KPT2'', ''KPT3'', ''KPT4'', ''KPT5'', ''KPT6'', ''KPT7'', ''KPT8'', ''KPT9'']"

definition isWindowsReservedName :: "string \<Rightarrow> bool" where
  "isWindowsReservedName s =
     list_ex (equal_fold_ascii (takeWhile (\<lambda>c. c \<noteq> CHR ''.'') s)) reserved_names"

definition rejectsLeading :: "string \<Rightarrow> name_policy \<Rightarrow> bool" where
  "rejectsLeading s policy =
     (case s of
        [] \<Rightarrow> False
      | c # _ \<Rightarrow>
          if c = CHR ''.'' then RejectLeadingDot policy
          else if c = CHR ''~'' then RejectLeadingTilde policy
          else if c = CHR ''$'' then RejectLeadingDollar policy
          else if c = CHR ''#'' then RejectLeadingHash policy
          else False)"

definition backslash :: char where
  "backslash = char_of (92 :: nat)"

definition validateSegment :: "string \<Rightarrow> name_policy \<Rightarrow> string option" where
  "validateSegment segment policy =
     (if segment = [] then Some ''logical path contains an empty segment''
      else if segment = ''.'' \<or> segment = ''..''
        then Some ''logical path contains traversal segment''
      else if backslash \<in> set segment then Some ''logical path contains backslash''
      else if hasWindowsDrivePrefix segment
        then Some ''logical path contains Windows drive path''
      else if has_suffix segment '' '' \<or> has_suffix segment ''.''
        then Some ''logical path segment has a trailing space or dot''
      else if list_ex (\<lambda>r. r = 0 \<or> is_control r) (runes segment)
        then Some ''logical path contains control character''
      else if isWindowsReservedName segment
        then Some ''logical path contains Windows reserved name''
      else if rejectsLeading segment policy
        then Some ''logical path segment has forbidden leading character''
      else None)"

fun validateSegments :: "string list \<Rightarrow> name_policy \<Rightarrow> string option" where
  "validateSegments [] policy = None"
| "validateSegments (s # ss) policy =
     (case validateSegment s policy of
        Some e \<Rightarrow> Some e
      | None \<Rightarrow> validateSegments ss policy)"

definition parseDecodedPath :: "(string \<Rightarrow> string) \<Rightarrow> string \<Rightarrow> name_policy \<Rightarrow> string + path" where
  "parseDecodedPath nfc decoded policy =
     (if \<not> valid_utf8 decoded then Inl ''logical path is not valid UTF-8''
      else
        (let segments = split_on (CHR ''/'') (nfc decoded) in
         case validateSegments segments policy of
           Some e \<Rightarrow> Inl e
         | None \<Rightarrow>
             Inr \<lparr>Canonical = CHR ''/'' # join (CHR ''/'') segments, Segments = segments\<rparr>))"

definition ParseDecodedPath :: "(string \<Rightarrow> string) \<Rightarrow> string \<Rightarrow> name_policy \<Rightarrow> string + path" where
  "ParseDecodedPath nfc decoded policy =
     (if decoded = ''/'' then Inr \<lparr>Canonical = ''/'', Segments = []\<rparr>
      else if decoded = [] \<or> has_prefix decoded ''/''
        then Inl ''logical path must be relative or root''
      else parseDecodedPath nfc decoded policy)"

definition ParseEscapedPath :: "(string \<Rightarrow> string) \<Rightarrow> string \<Rightarrow> name_policy \<Rightarrow> string + path" where
  "ParseEscapedPath nfc raw policy =
     (if raw = ''/'' then Inr \<lparr>Canonical = ''/'', Segments = []\<rparr>
      else if raw = [] \<or> has_prefix raw ''/''
        then Inl ''logical path must be relative or root''
      else
        (case pathUnescape raw of
           None \<Rightarrow> Inl ''decode logical path''
         | Some decoded \<Rightarrow>
             if containsPercentEscape decoded
             then Inl ''logical path contains double encoding''
             else parseDecodedPath nfc decoded policy))"

section \<open>What an accepted segment looks like\<close>

text \<open>
  The abstract promise: no traversal, no separator of any platform, no control byte, no
  trailing dot or space, no device name.
\<close>

definition safe_segment :: "name_policy \<Rightarrow> string \<Rightarrow> bool" where
  "safe_segment policy s \<longleftrightarrow>
     s \<noteq> [] \<and> s \<noteq> ''.'' \<and> s \<noteq> ''..''
     \<and> CHR ''/'' \<notin> set s \<and> backslash \<notin> set s
     \<and> (\<forall>c \<in> set s. 32 \<le> (of_char c :: nat) \<and> of_char c \<noteq> (127 :: nat))
     \<and> last s \<noteq> CHR '' '' \<and> last s \<noteq> CHR ''.''
     \<and> \<not> hasWindowsDrivePrefix s \<and> \<not> isWindowsReservedName s \<and> \<not> rejectsLeading s policy"

lemma suffix_single: "s \<noteq> [] \<Longrightarrow> suffix [c] s \<longleftrightarrow> last s = c"
  by (auto simp: suffix_def) (metis append_butlast_last_id)

lemma no_control_bytes:
  assumes "\<not> list_ex (\<lambda>r. r = 0 \<or> is_control r) (runes s)" and "c \<in> set s"
  shows "32 \<le> (of_char c :: nat) \<and> of_char c \<noteq> (127 :: nat)"
proof (rule ccontr)
  assume neg: "\<not> ?thesis"
  then have "of_char c < (128 :: nat)" and "is_control (of_char c)"
    by (auto simp: is_control_def)
  moreover from this assms(2) have "of_char c \<in> set (runes s)"
    by (intro ascii_in_runes)
  ultimately show False using assms(1) by (auto simp: list_ex_iff)
qed

lemma validateSegment_None_iff:
  "validateSegment s policy = None \<longleftrightarrow>
     s \<noteq> [] \<and> s \<noteq> ''.'' \<and> s \<noteq> ''..'' \<and> backslash \<notin> set s \<and> \<not> hasWindowsDrivePrefix s
     \<and> \<not> suffix '' '' s \<and> \<not> suffix ''.'' s
     \<and> \<not> list_ex (\<lambda>r. r = 0 \<or> is_control r) (runes s)
     \<and> \<not> isWindowsReservedName s \<and> \<not> rejectsLeading s policy"
  unfolding validateSegment_def has_suffix_def by (simp only: guard_None_iff simp_thms de_Morgan_disj conj_assoc)

lemma validateSegment_None:
  assumes none: "validateSegment s policy = None" and slash: "CHR ''/'' \<notin> set s"
  shows "safe_segment policy s"
proof -
  note facts = none [unfolded validateSegment_None_iff]
  then have "last s \<noteq> CHR '' ''" and "last s \<noteq> CHR ''.''"
    using suffix_single [of s] by metis+
  moreover have "\<forall>c \<in> set s. 32 \<le> (of_char c :: nat) \<and> of_char c \<noteq> (127 :: nat)"
    using no_control_bytes [of s] facts by blast
  ultimately show ?thesis
    unfolding safe_segment_def using facts slash by blast
qed

lemma validateSegments_None:
  "validateSegments ss policy = None \<longleftrightarrow> (\<forall>s \<in> set ss. validateSegment s policy = None)"
  by (induction ss) (auto split: option.splits)

lemma parseDecodedPath_Inr:
  assumes "parseDecodedPath nfc d policy = Inr p"
  shows "valid_utf8 d" and "Segments p = split_on (CHR ''/'') (nfc d)"
    and "Canonical p = CHR ''/'' # nfc d"
    and "\<forall>s \<in> set (Segments p). validateSegment s policy = None"
  using assms
  by (auto simp: parseDecodedPath_def Let_def validateSegments_None
      split: if_splits option.splits)

lemma parseDecodedPath_safe:
  "parseDecodedPath nfc d policy = Inr p \<Longrightarrow> s \<in> set (Segments p) \<Longrightarrow> safe_segment policy s"
  by (rule validateSegment_None)
    (simp add: parseDecodedPath_Inr(4), simp only: parseDecodedPath_Inr(2) split_on_free not_False_eq_True)

lemma parseDecodedPath_segments_ne:
  "parseDecodedPath nfc d policy = Inr p \<Longrightarrow> Segments p \<noteq> []"
  using parseDecodedPath_Inr(2) by fastforce

text \<open>Both entry points return the root, or what \<open>parseDecodedPath\<close> returns.\<close>

lemma ParseDecodedPath_cases:
  assumes "ParseDecodedPath nfc d policy = Inr p"
  obtains "d = ''/''" "p = \<lparr>Canonical = ''/'', Segments = []\<rparr>"
  | "parseDecodedPath nfc d policy = Inr p"
proof (cases "d = ''/''")
  case True
  with assms show ?thesis by (simp add: ParseDecodedPath_def that(1))
next
  case False
  with assms have "parseDecodedPath nfc d policy = Inr p"
    unfolding ParseDecodedPath_def by (simp only: if_False guard_Inr_iff)
  then show ?thesis by (rule that(2))
qed

lemma ParseEscapedPath_cases:
  assumes "ParseEscapedPath nfc raw policy = Inr p"
  obtains "raw = ''/''" "p = \<lparr>Canonical = ''/'', Segments = []\<rparr>"
  | d where "pathUnescape raw = Some d" "\<not> containsPercentEscape d"
      "parseDecodedPath nfc d policy = Inr p"
proof (cases "raw = ''/''")
  case True
  with assms show ?thesis by (simp add: ParseEscapedPath_def that(1))
next
  case False
  with assms obtain d where "pathUnescape raw = Some d" and "\<not> containsPercentEscape d"
    and "parseDecodedPath nfc d policy = Inr p"
    unfolding ParseEscapedPath_def
    by (cases "pathUnescape raw") (simp_all only: if_False guard_Inr_iff option.case sum.distinct simp_thms)
  then show ?thesis by (rule that(2))
qed

text \<open>
  A canonical path starts with a slash and is the slash-joined list of its segments: no
  segment is lost or invented.
\<close>

lemma join_not_slash:
  assumes "ss \<noteq> []" and "\<forall>s \<in> set ss. s \<noteq> [] \<and> c \<notin> set s"
  shows "join c ss \<noteq> [] \<and> hd (join c ss) \<noteq> c"
proof (cases ss)
  case Nil
  with assms show ?thesis by simp
next
  case (Cons w ws)
  with assms obtain a w' where "w = a # w'" and "a \<noteq> c"
    by (cases w) auto
  with Cons show ?thesis by (cases ws) auto
qed

lemma parseDecodedPath_canonical:
  assumes "parseDecodedPath nfc d policy = Inr p"
  shows "Canonical p = CHR ''/'' # join (CHR ''/'') (Segments p)"
    and "split_on (CHR ''/'') (tl (Canonical p)) = Segments p"
  using parseDecodedPath_Inr [OF assms] by simp_all

lemma parseDecodedPath_tail:
  assumes "parseDecodedPath nfc d policy = Inr p"
  shows "tl (Canonical p) \<noteq> [] \<and> hd (tl (Canonical p)) \<noteq> CHR ''/''"
proof -
  have "\<forall>s \<in> set (Segments p). s \<noteq> [] \<and> CHR ''/'' \<notin> set s"
    using parseDecodedPath_safe [OF assms] by (auto simp: safe_segment_def)
  from join_not_slash [OF parseDecodedPath_segments_ne [OF assms] this] show ?thesis
    using parseDecodedPath_canonical(1) [OF assms] by simp
qed

text \<open>Parsing the canonical form again gives the same path.\<close>

lemma parseDecodedPath_reparse:
  assumes laws: "nfc_laws nfc" and p: "parseDecodedPath nfc d policy = Inr p"
  shows "parseDecodedPath nfc (tl (Canonical p)) policy = Inr p"
proof -
  note facts = parseDecodedPath_Inr [OF p]
  have tl: "tl (Canonical p) = nfc d" using facts(3) by simp
  have "valid_utf8 (nfc d)" and "nfc (nfc d) = nfc d"
    using laws facts(1) by (auto simp: nfc_laws_def)
  with p facts tl show ?thesis
    by (auto simp: parseDecodedPath_def Let_def split: if_splits option.splits)
qed

end
