(* ===== verification/Permission.thy ===== *)
theory Permission
  imports Pathpolicy DbTypes
begin

text \<open>
  Package \<open>internal/permission\<close>: the single authorization decision point.  The repository
  is the argument \<open>fetch\<close>, what \<open>PermissionsForUserAndRoot\<close> returns for a user and a root.
\<close>

section \<open>Operations\<close>

definition canonicalPath :: "(string \<Rightarrow> string) \<Rightarrow> string \<Rightarrow> name_policy \<Rightarrow> err + string" where
  "canonicalPath nfc value policy =
     (if value = ''/'' then Inr ''/''
      else if \<not> has_prefix value ''/'' then Inl Invalid
      else
        (case ParseDecodedPath nfc (trim_prefix value ''/'') policy of
           Inl e \<Rightarrow> Inl Invalid
         | Inr p \<Rightarrow> if Canonical p \<noteq> value then Inl Invalid else Inr (Canonical p)))"

definition matches :: "string \<Rightarrow> string \<Rightarrow> bool" where
  "matches path pfx \<longleftrightarrow>
     pfx = ''/'' \<or> path = pfx \<or> has_prefix path (pfx @ ''/'')"

definition known_action :: "string \<Rightarrow> bool" where
  "known_action a \<longleftrightarrow> a = ''read'' \<or> a = ''write'' \<or> a = ''delete'' \<or> a = ''archive''"

text \<open>The loop over the stored permissions, with its three variables.\<close>

fun authorizeLoop ::
    "(string \<Rightarrow> string) \<Rightarrow> name_policy \<Rightarrow> string \<Rightarrow> string \<Rightarrow> int \<Rightarrow> bool \<Rightarrow> bool
     \<Rightarrow> permission list \<Rightarrow> err + (int \<times> bool \<times> bool)" where
  "authorizeLoop nfc policy path action best allow denied [] = Inr (best, allow, denied)"
| "authorizeLoop nfc policy path action best allow denied (p # ps) =
     (if perm_Action p \<noteq> action then authorizeLoop nfc policy path action best allow denied ps
      else
        (case canonicalPath nfc (perm_PathPrefix p) policy of
           Inl e \<Rightarrow> Inl e
         | Inr pfx \<Rightarrow>
             if \<not> matches path pfx
             then authorizeLoop nfc policy path action best allow denied ps
             else
               (let n = int (length pfx) in
                if n > best
                then authorizeLoop nfc policy path action n (perm_Allow p) (\<not> perm_Allow p) ps
                else if n = best \<and> \<not> perm_Allow p
                then authorizeLoop nfc policy path action best allow True ps
                else authorizeLoop nfc policy path action best allow denied ps)))"

definition Authorize ::
    "(string \<Rightarrow> string) \<Rightarrow> name_policy \<Rightarrow> (int \<Rightarrow> int \<Rightarrow> err + permission list)
     \<Rightarrow> int \<Rightarrow> int \<Rightarrow> string \<Rightarrow> string \<Rightarrow> err + bool" where
  "Authorize nfc policy fetch userID rootID logicalPath action0 =
     (case canonicalPath nfc logicalPath policy of
        Inl e \<Rightarrow> Inl e
      | Inr path \<Rightarrow>
          (let action = to_lower (trim_space action0) in
           if \<not> known_action action then Inl Invalid
           else
             (case fetch userID rootID of
                Inl e \<Rightarrow> Inl e
              | Inr permissions \<Rightarrow>
                  (case authorizeLoop nfc policy path action (-1) False False permissions of
                     Inl e \<Rightarrow> Inl e
                   | Inr (best, allow, denied) \<Rightarrow> Inr (best \<ge> 0 \<and> allow \<and> \<not> denied)))))"

section \<open>The rule the decision implements\<close>

text \<open>
  The permissions that speak about a path and an action; the decision is what the most
  specific of them say, with a deny winning among equally specific ones.
\<close>

definition relevant :: "string \<Rightarrow> string \<Rightarrow> permission list \<Rightarrow> permission list" where
  "relevant path action ps =
     filter (\<lambda>p. perm_Action p = action \<and> matches path (perm_PathPrefix p)) ps"

definition most_specific :: "permission list \<Rightarrow> permission \<Rightarrow> bool" where
  "most_specific rs p \<longleftrightarrow>
     p \<in> set rs \<and> (\<forall>q \<in> set rs. length (perm_PathPrefix q) \<le> length (perm_PathPrefix p))"

definition decide :: "permission list \<Rightarrow> bool" where
  "decide rs \<longleftrightarrow> rs \<noteq> [] \<and> (\<forall>p \<in> set rs. most_specific rs p \<longrightarrow> perm_Allow p)"

definition prefixes_canonical ::
    "(string \<Rightarrow> string) \<Rightarrow> name_policy \<Rightarrow> string \<Rightarrow> permission list \<Rightarrow> bool" where
  "prefixes_canonical nfc policy action ps \<longleftrightarrow>
     (\<forall>p \<in> set ps. perm_Action p = action \<longrightarrow>
        canonicalPath nfc (perm_PathPrefix p) policy = Inr (perm_PathPrefix p))"

subsection \<open>Canonical paths\<close>

lemma canonicalPath_Inr:
  assumes "canonicalPath nfc v policy = Inr c"
  shows "c = v"
proof (cases "v = ''/''")
  case True
  with assms show ?thesis by (simp add: canonicalPath_def)
next
  case False
  with assms show ?thesis
    unfolding canonicalPath_def
    by (simp only: if_False early_return) blast
qed

lemma canonicalPath_cases:
  assumes "canonicalPath nfc v policy = Inr c"
  obtains "c = ''/''"
  | p where "ParseDecodedPath nfc (tl c) policy = Inr p" "Canonical p = c" "c \<noteq> ''/''"
proof (cases "v = ''/''")
  case True
  with canonicalPath_Inr [OF assms] show ?thesis by (simp add: that(1))
next
  case False
  with assms obtain p where v: "has_prefix v ''/''"
    and p: "ParseDecodedPath nfc (trim_prefix v ''/'') policy = Inr p" "Canonical p = v" "c = v"
    unfolding canonicalPath_def by (simp only: if_False early_return) blast
  moreover have "trim_prefix v ''/'' = tl v"
    using v by (cases v) (auto simp: has_prefix_def trim_prefix_def)
  ultimately show ?thesis using that(2) False by metis
qed

text \<open>The empty canonical path never parses, so a parsed canonical path is not the root.\<close>

lemma parsed_not_root:
  assumes "parseDecodedPath nfc d policy = Inr p"
  shows "Canonical p \<noteq> ''/''"
  using parseDecodedPath_tail [OF assms] by auto

lemma canonicalPath_parsed:
  assumes laws: "nfc_laws nfc" and p: "ParseDecodedPath nfc d policy = Inr p"
  shows "canonicalPath nfc (Canonical p) policy = Inr (Canonical p)"
  using p
proof (cases rule: ParseDecodedPath_cases)
  case 1
  then show ?thesis by (simp add: canonicalPath_def)
next
  case 2
  note tail = parseDecodedPath_tail [OF 2]
  have c: "Canonical p = CHR ''/'' # tl (Canonical p)"
    using parseDecodedPath_canonical(1) [OF 2] by simp
  have "tl (Canonical p) \<noteq> ''/''" and np: "\<not> has_prefix (tl (Canonical p)) ''/''"
    using tail by (cases "tl (Canonical p)"; auto simp: has_prefix_def)+
  with tail parseDecodedPath_reparse [OF laws 2]
  have "ParseDecodedPath nfc (tl (Canonical p)) policy = Inr p"
    by (simp only: ParseDecodedPath_def if_False simp_thms)
  moreover have "trim_prefix (Canonical p) ''/'' = tl (Canonical p)"
    and "has_prefix (Canonical p) ''/''"
    using c by (metis append_Cons append_Nil drop_Suc drop_0 length_Cons list.size(3) prefixI
        trim_prefix_def One_nat_def list.sel(3) has_prefix_def)+
  ultimately show ?thesis
    using parsed_not_root [OF 2] by (simp add: canonicalPath_def)
qed

subsection \<open>Matching is ancestry of segments\<close>

lemma Canonical_join:
  assumes "ParseDecodedPath nfc d policy = Inr p"
  shows "Canonical p = CHR ''/'' # join (CHR ''/'') (Segments p)"
  using assms
  by (cases rule: ParseDecodedPath_cases) (simp, rule parseDecodedPath_canonical(1))

lemma Segments_plain:
  assumes "ParseDecodedPath nfc d policy = Inr p" and "s \<in> set (Segments p)"
  shows "s \<noteq> [] \<and> CHR ''/'' \<notin> set s"
  using assms(1)
proof (cases rule: ParseDecodedPath_cases)
  case 1
  with assms(2) show ?thesis by simp
next
  case 2
  from parseDecodedPath_safe [OF this assms(2)] show ?thesis
    by (simp add: safe_segment_def)
qed

lemma join_prefix_iff:
  assumes us: "us \<noteq> []" "\<And>s. s \<in> set us \<Longrightarrow> s \<noteq> [] \<and> c \<notin> set s"
    and ts: "\<And>s. s \<in> set ts \<Longrightarrow> s \<noteq> [] \<and> c \<notin> set s"
  shows "join c ts = join c us \<or> prefix (join c us @ [c]) (join c ts) \<longleftrightarrow> prefix us ts"
proof
  assume l: "join c ts = join c us \<or> prefix (join c us @ [c]) (join c ts)"
  have su: "split_on c (join c us) = us"
    using us by (intro split_on_join) auto
  have "ts \<noteq> []"
    using l join_not_slash [of us c] us by auto
  then have st: "split_on c (join c ts) = ts"
    using ts by (intro split_on_join) auto
  from l show "prefix us ts"
  proof
    assume "join c ts = join c us"
    with su st have "ts = us" by metis
    then show ?thesis by simp
  next
    assume "prefix (join c us @ [c]) (join c ts)"
    then obtain r where "join c ts = join c us @ c # r"
      by (auto simp: prefix_def)
    with st split_on_append_sep [of c "join c us" r] su have "ts = us @ split_on c r"
      by metis
    then show ?thesis by simp
  qed
next
  assume "prefix us ts"
  then obtain vs where "ts = us @ vs" by (auto simp: prefix_def)
  with us(1) show "join c ts = join c us \<or> prefix (join c us @ [c]) (join c ts)"
    by (cases "vs = []") (auto simp: join_append)
qed

lemma matches_iff_segments:
  assumes p: "ParseDecodedPath nfc d policy = Inr p"
    and q: "ParseDecodedPath nfc e policy = Inr q"
  shows "matches (Canonical p) (Canonical q) \<longleftrightarrow> prefix (Segments q) (Segments p)"
proof (cases "Segments q = []")
  case True
  then show ?thesis using Canonical_join [OF q] by (simp add: matches_def)
next
  case False
  have ne: "join (CHR ''/'') (Segments q) \<noteq> []"
    using join_not_slash [OF False, of "CHR ''/''"] Segments_plain [OF q] by blast
  have "matches (Canonical p) (Canonical q) \<longleftrightarrow>
      join (CHR ''/'') (Segments p) = join (CHR ''/'') (Segments q)
      \<or> prefix (join (CHR ''/'') (Segments q) @ ''/'') (join (CHR ''/'') (Segments p))"
    using ne unfolding matches_def has_prefix_def Canonical_join [OF p] Canonical_join [OF q]
    by simp
  also have "\<dots> \<longleftrightarrow> prefix (Segments q) (Segments p)"
    using False Segments_plain [OF p] Segments_plain [OF q] by (intro join_prefix_iff) auto
  finally show ?thesis .
qed

subsection \<open>The loop computes the rule\<close>

text \<open>The loop on the relevant permissions only, each reduced to its length and its verdict.\<close>

fun scan :: "int \<Rightarrow> bool \<Rightarrow> bool \<Rightarrow> (int \<times> bool) list \<Rightarrow> int \<times> bool \<times> bool" where
  "scan best allow denied [] = (best, allow, denied)"
| "scan best allow denied ((n, a) # xs) =
     (if n > best then scan n a (\<not> a) xs
      else if n = best \<and> \<not> a then scan best allow True xs
      else scan best allow denied xs)"

lemma authorizeLoop_scan:
  assumes "prefixes_canonical nfc policy action ps"
  shows "authorizeLoop nfc policy path action best allow denied ps =
    Inr (scan best allow denied
      (map (\<lambda>p. (int (length (perm_PathPrefix p)), perm_Allow p)) (relevant path action ps)))"
  using assms
  by (induction ps arbitrary: best allow denied)
    (auto simp: prefixes_canonical_def relevant_def Let_def)

lemma scan_spec:
  assumes "scan b a d xs = (b', a', d')"
  shows "b \<le> b' \<and> (\<forall>x \<in> set xs. fst x \<le> b') \<and> (b' = b \<or> (\<exists>x \<in> set xs. fst x = b'))
    \<and> (a' \<and> \<not> d' \<longleftrightarrow> (\<forall>x \<in> set xs. fst x = b' \<longrightarrow> snd x) \<and> (b = b' \<longrightarrow> a \<and> \<not> d))"
  using assms
proof (induction xs arbitrary: b a d)
  case Nil
  then show ?case by auto
next
  case (Cons x xs)
  obtain n v where x: "x = (n, v)" by fastforce
  consider (longer) "n > b" | (tie) "n = b" "\<not> v" | (skip) "\<not> n > b" "\<not> (n = b \<and> \<not> v)"
    by blast
  then show ?case
  proof cases
    case longer
    with Cons.prems x have "scan n v (\<not> v) xs = (b', a', d')" by simp
    from Cons.IH [OF this] longer x show ?thesis by auto
  next
    case tie
    with Cons.prems x have "scan b a True xs = (b', a', d')" by simp
    from Cons.IH [OF this] tie x show ?thesis by auto
  next
    case skip
    with Cons.prems x have "scan b a d xs = (b', a', d')" by simp
    from Cons.IH [OF this] skip x show ?thesis by auto
  qed
qed

lemma scan_decide:
  assumes "scan (-1) False False
      (map (\<lambda>p. (int (length (perm_PathPrefix p)), perm_Allow p)) rs) = (b, a, d)"
  shows "(b \<ge> 0 \<and> a \<and> \<not> d) \<longleftrightarrow> decide rs"
proof (cases "rs = []")
  case True
  with assms show ?thesis by (auto simp: decide_def)
next
  case False
  let ?len = "\<lambda>p. int (length (perm_PathPrefix p))"
  note spec = scan_spec [OF assms]
  have bound: "\<forall>q \<in> set rs. ?len q \<le> b"
    and attained: "b = -1 \<or> (\<exists>q \<in> set rs. ?len q = b)"
    and verdict: "a \<and> \<not> d \<longleftrightarrow> (\<forall>q \<in> set rs. ?len q = b \<longrightarrow> perm_Allow q) \<and> b \<noteq> -1"
    using spec by auto
  obtain p0 where "p0 \<in> set rs" using False by (cases rs) auto
  with bound have b0: "0 \<le> b" by force
  with attained obtain p where p: "p \<in> set rs" "?len p = b" by auto
  have ms: "most_specific rs q \<longleftrightarrow> q \<in> set rs \<and> ?len q = b" for q
  proof
    assume q: "most_specific rs q"
    then have "length (perm_PathPrefix p) \<le> length (perm_PathPrefix q)" and "q \<in> set rs"
      using p(1) by (auto simp: most_specific_def)
    with p(2) bound show "q \<in> set rs \<and> ?len q = b" by force
  next
    assume q: "q \<in> set rs \<and> ?len q = b"
    then show "most_specific rs q"
      using bound by (auto simp: most_specific_def)
  qed
  show ?thesis
    unfolding decide_def ms using verdict b0 False by auto
qed

lemma Authorize_decide:
  assumes path: "canonicalPath nfc logicalPath policy = Inr logicalPath"
    and act: "action = to_lower (trim_space action0)" "known_action action"
    and rows: "fetch userID rootID = Inr ps"
    and canon: "prefixes_canonical nfc policy action ps"
  shows "Authorize nfc policy fetch userID rootID logicalPath action0
           = Inr (decide (relevant logicalPath action ps))"
proof -
  let ?xs = "map (\<lambda>p. (int (length (perm_PathPrefix p)), perm_Allow p))
      (relevant logicalPath action ps)"
  obtain b a d where s: "scan (-1) False False ?xs = (b, a, d)"
    by (cases "scan (-1) False False ?xs") auto
  have "authorizeLoop nfc policy logicalPath action (-1) False False ps = Inr (b, a, d)"
    using authorizeLoop_scan [OF canon] s by metis
  with path act rows scan_decide [OF s] show ?thesis
    by (simp add: Authorize_def)
qed

text \<open>The decision does not depend on the order of the rows.\<close>

lemma decide_cong: "set rs = set rs' \<Longrightarrow> decide rs = decide rs'"
  by (auto simp: decide_def most_specific_def)

lemma decide_append_irrelevant:
  "\<not> (perm_Action p = action \<and> matches path (perm_PathPrefix p)) \<Longrightarrow>
   relevant path action (us @ p # vs) = relevant path action (us @ vs)"
  by (auto simp: relevant_def)

end
