(* ===== verification/Download.thy ===== *)
theory Download
  imports GoText DbTypes
begin

text \<open>
  Package \<open>internal/download\<close>: the single-range policy of \<open>range.go\<close>.  Header and size come
  from outside; the arithmetic is on \<open>int64\<close> (\<open>wrap64\<close>).
\<close>

record byte_range =
  Start :: int
  Length :: int

definition comma_free :: "string \<Rightarrow> bool" where
  "comma_free s \<longleftrightarrow> CHR '','' \<notin> set s"

definition ParseRange :: "string \<Rightarrow> int \<Rightarrow> err + byte_range" where
  "ParseRange header sz =
     (if sz < 0 \<or> \<not> has_prefix header ''bytes='' then Inl Invalid
      else
        (let spec = trim_prefix header ''bytes='' in
         if spec = [] \<or> \<not> comma_free spec then Inl Invalid
         else
           (case split_on (CHR ''-'') spec of
              [fst1, lst] \<Rightarrow>
                (if fst1 = [] then
                   (case parse_int64 lst of
                      None \<Rightarrow> Inl Invalid
                    | Some n \<Rightarrow>
                        if n \<le> 0 \<or> sz = 0 then Inl Invalid
                        else
                          (let n = (if n > sz then sz else n) in
                           Inr \<lparr>Start = wrap64 (sz - n), Length = n\<rparr>))
                 else
                   (case parse_int64 fst1 of
                      None \<Rightarrow> Inl Invalid
                    | Some start \<Rightarrow>
                        if start < 0 \<or> start \<ge> sz then Inl Invalid
                        else if lst = [] then
                          Inr \<lparr>Start = start, Length = wrap64 (wrap64 (wrap64 (sz - 1) - start) + 1)\<rparr>
                        else
                          (case parse_int64 lst of
                             None \<Rightarrow> Inl Invalid
                           | Some end1 \<Rightarrow>
                               if end1 < start then Inl Invalid
                               else
                                 (let end2 = (if end1 \<ge> sz then wrap64 (sz - 1) else end1) in
                                  Inr \<lparr>Start = start,
                                       Length = wrap64 (wrap64 (end2 - start) + 1)\<rparr>))))
            | _ \<Rightarrow> Inl Invalid)))"

section \<open>Every accepted range lies inside the object\<close>

lemma wrap64_inside:
  assumes "0 \<le> a" and "a \<le> b" and "int64 b"
  shows "wrap64 (b - a) = b - a"
  using assms by (intro wrap64_id) (simp add: int64_def)

lemma open_range_length:
  assumes "0 \<le> start" and "start < sz" and "int64 sz"
  shows "wrap64 (wrap64 (wrap64 (sz - 1) - start) + 1) = sz - start"
proof -
  have "wrap64 (sz - 1) = sz - 1"
    using assms by (intro wrap64_id) (simp add: int64_def)
  moreover have "wrap64 (sz - 1 - start) = sz - 1 - start"
    using assms by (intro wrap64_id) (simp add: int64_def)
  moreover have "wrap64 (sz - start) = sz - start"
    using assms by (intro wrap64_id) (simp add: int64_def)
  ultimately show ?thesis by (simp add: diff_add_eq)
qed

lemma closed_range_length:
  assumes "0 \<le> start" and "start \<le> e" and "e < sz" and "int64 sz"
  shows "wrap64 (wrap64 (e - start) + 1) = e - start + 1"
proof -
  have "wrap64 (e - start) = e - start"
    using assms by (intro wrap64_id) (simp add: int64_def)
  moreover have "wrap64 (e - start + 1) = e - start + 1"
    using assms by (intro wrap64_id) (simp add: int64_def)
  ultimately show ?thesis by simp
qed

lemma wrap64_pred: "0 \<le> sz \<Longrightarrow> int64 sz \<Longrightarrow> wrap64 (sz - 1) = sz - 1"
  by (intro wrap64_id) (simp add: int64_def)

text \<open>The length the code computes for an explicit end, clamped to the object.\<close>

lemma clamped_range_length:
  assumes "0 \<le> start" and "start < sz" and "start \<le> e" and "int64 sz"
  shows "wrap64 (wrap64 ((if e \<ge> sz then wrap64 (sz - 1) else e) - start) + 1)
    = min e (sz - 1) - start + 1"
proof -
  have clamp: "(if e \<ge> sz then wrap64 (sz - 1) else e) = min e (sz - 1)"
    using assms by (auto simp: wrap64_pred min_def)
  show ?thesis
    unfolding clamp using assms by (intro closed_range_length [of _ _ sz]) auto
qed

lemma ParseRange_within:
  assumes size: "int64 sz" and ok: "ParseRange h sz = Inr r"
  shows "0 \<le> Start r \<and> 0 < Length r \<and> Start r + Length r \<le> sz"
proof -
  let ?spec = "trim_prefix h ''bytes=''"
  have s0: "0 \<le> sz" using ok by (auto simp: ParseRange_def split: if_splits)
  obtain fst1 lst where sp: "split_on (CHR ''-'') ?spec = [fst1, lst]"
    using ok by (auto simp: ParseRange_def Let_def split: if_splits list.splits)
  show ?thesis
  proof (cases "fst1 = []")
    case True
    with ok sp obtain n where n: "parse_int64 lst = Some n" "0 < n" "sz \<noteq> 0"
      and r: "r = \<lparr>Start = wrap64 (sz - min n sz), Length = min n sz\<rparr>"
      by (auto simp: ParseRange_def Let_def min_def split: if_splits option.splits)
    have "wrap64 (sz - min n sz) = sz - min n sz"
      using n s0 size by (intro wrap64_inside) auto
    with r n s0 show ?thesis by auto
  next
    case False
    with ok sp obtain start where st: "parse_int64 fst1 = Some start" "0 \<le> start" "start < sz"
      by (auto simp: ParseRange_def Let_def split: if_splits option.splits)
    show ?thesis
    proof (cases "lst = []")
      case True
      with ok sp False st
      have "r = \<lparr>Start = start, Length = wrap64 (wrap64 (wrap64 (sz - 1) - start) + 1)\<rparr>"
        by (auto simp: ParseRange_def Let_def split: if_splits option.splits)
      with st size show ?thesis by (simp add: open_range_length)
    next
      case lst: False
      with ok sp False st obtain e where e: "parse_int64 lst = Some e" "start \<le> e"
        and r: "r = \<lparr>Start = start, Length = wrap64 (wrap64
             ((if e \<ge> sz then wrap64 (sz - 1) else e) - start) + 1)\<rparr>"
        by (auto simp: ParseRange_def Let_def split: if_splits option.splits)
      have "Length r = min e (sz - 1) - start + 1"
        using clamped_range_length [OF st(2,3) e(2) size] r by simp
      with r st e show ?thesis by auto
    qed
  qed
qed

section \<open>Well-formed headers\<close>

text \<open>The three forms of RFC 9110, for numerals without a sign.\<close>

definition plain_number :: "string \<Rightarrow> int \<Rightarrow> bool" where
  "plain_number s n \<longleftrightarrow> parse_int64 s = Some n \<and> s \<noteq> [] \<and> (\<forall>c \<in> set s. is_digit c)"

lemma plain_number_chars:
  assumes "plain_number s n"
  shows "CHR ''-'' \<notin> set s" and "CHR '','' \<notin> set s" and "s \<noteq> []" and "0 \<le> n"
proof -
  have digits: "\<forall>c \<in> set s. is_digit c"
    using assms by (simp add: plain_number_def)
  have "\<not> is_digit (CHR ''-'')" and "\<not> is_digit (CHR '','')"
    by (simp_all add: is_digit_def)
  with digits show dash: "CHR ''-'' \<notin> set s" and "CHR '','' \<notin> set s"
    by blast+
  show "s \<noteq> []"
    using assms by (simp add: plain_number_def)
  show "0 \<le> n"
    using parse_int64_nonneg [OF _ dash] assms by (simp add: plain_number_def)
qed

lemma ParseRange_closed:
  assumes a: "plain_number s a" and b: "plain_number t b" and size: "int64 sz"
  shows "ParseRange (''bytes='' @ s @ ''-'' @ t) sz =
    (if a \<le> b \<and> a < sz then Inr \<lparr>Start = a, Length = min b (sz - 1) - a + 1\<rparr>
     else Inl Invalid)"
proof -
  note ca = plain_number_chars [OF a] and cb = plain_number_chars [OF b]
  have sp: "split_on (CHR ''-'') (s @ CHR ''-'' # t) = [s, t]"
    using ca cb by (simp add: split_on_append split_on_word)
  have tp: "trim_prefix (''bytes='' @ s @ ''-'' @ t) ''bytes='' = s @ CHR ''-'' # t"
    by (simp add: trim_prefix_def)
  have cf: "comma_free (s @ CHR ''-'' # t)"
    using ca cb by (simp add: comma_free_def)
  have hp: "has_prefix (''bytes='' @ s @ ''-'' @ t) ''bytes=''"
    by (simp add: has_prefix_def)
  have pa: "parse_int64 s = Some a" and pb: "parse_int64 t = Some b"
    using a b by (simp_all add: plain_number_def)
  have arith: "a < sz \<Longrightarrow> a \<le> b \<Longrightarrow>
      wrap64 (wrap64 ((if b \<ge> sz then wrap64 (sz - 1) else b) - a) + 1)
        = min b (sz - 1) - a + 1"
    by (rule clamped_range_length [OF ca(4) _ _ size])
  show ?thesis
    unfolding ParseRange_def Let_def tp sp
    using hp cf ca cb pa pb arith by (simp add: not_le)
qed

lemma ParseRange_suffix:
  assumes b: "plain_number t b" and size: "int64 sz" "0 \<le> sz"
  shows "ParseRange (''bytes=-'' @ t) sz =
    (if 0 < b \<and> 0 < sz then Inr \<lparr>Start = sz - min b sz, Length = min b sz\<rparr>
     else Inl Invalid)"
proof -
  note cb = plain_number_chars [OF b]
  have sp: "split_on (CHR ''-'') (CHR ''-'' # t) = [[], t]"
    using cb by (simp add: split_on_word)
  have tp: "trim_prefix (''bytes=-'' @ t) ''bytes='' = CHR ''-'' # t"
    by (simp add: trim_prefix_def)
  have cf: "comma_free (CHR ''-'' # t)"
    using cb by (simp add: comma_free_def)
  have hp: "has_prefix (''bytes=-'' @ t) ''bytes=''"
    by (simp add: has_prefix_def)
  have pb: "parse_int64 t = Some b" using b by (simp add: plain_number_def)
  have w: "wrap64 (sz - min b sz) = sz - min b sz" if "0 < b"
    using size that by (intro wrap64_inside) auto
  show ?thesis
    unfolding ParseRange_def Let_def tp sp
    using hp cf pb w size by (auto simp: min_def not_le)
qed

end
