(* ===== verification/Limits.thy ===== *)
theory Limits
  imports Prelude "HOL-Library.Multiset"
begin

text \<open>
  Package \<open>internal/limits\<close>: non-blocking admission.  The buffered channel \<open>global\<close> is the
  number of slots in use and its capacity; a Go map with the default value 0 is a function
  together with its key set, which the code trims when a count returns to 0.
\<close>

section \<open>Download admission\<close>

record download_limiter =
  dl_slots :: nat
  dl_cap :: nat

definition NewDownloadLimiter :: "int \<Rightarrow> err + download_limiter" where
  "NewDownloadLimiter capacity =
     (if capacity \<le> 0 then Inl Invalid else Inr \<lparr>dl_slots = 0, dl_cap = nat capacity\<rparr>)"

definition dl_TryAcquire :: "download_limiter \<Rightarrow> err + download_limiter" where
  "dl_TryAcquire l =
     (if dl_slots l < dl_cap l then Inr (l\<lparr>dl_slots := Suc (dl_slots l)\<rparr>) else Inl Limited)"

text \<open>
  \<open>DownloadLease.Release\<close>: the \<open>once\<close> of the lease is its flag, \<open>True\<close> after the first call.
\<close>

definition dl_Release :: "download_limiter \<Rightarrow> bool \<Rightarrow> download_limiter \<times> bool" where
  "dl_Release l once = (if once then (l, True) else (l\<lparr>dl_slots := dl_slots l - 1\<rparr>, True))"

section \<open>Upload admission\<close>

record upload_limiter =
  ul_global :: nat
  ul_cap :: nat
  ul_perUser :: int
  ul_perIP :: int
  ul_users :: "string \<rightharpoonup> int"
  ul_ips :: "string \<rightharpoonup> int"

record upload_key =
  key_User :: string
  key_IP :: string

definition NewUploadLimiter :: "int \<Rightarrow> int \<Rightarrow> int \<Rightarrow> err + upload_limiter" where
  "NewUploadLimiter global perUser perIP =
     (if global \<le> 0 \<or> perUser \<le> 0 \<or> perIP \<le> 0 then Inl Invalid
      else Inr \<lparr>ul_global = 0, ul_cap = nat global, ul_perUser = perUser, ul_perIP = perIP,
                ul_users = Map.empty, ul_ips = Map.empty\<rparr>)"

definition count_of :: "('k \<rightharpoonup> int) \<Rightarrow> 'k \<Rightarrow> int" where
  "count_of m k = (case m k of None \<Rightarrow> 0 | Some n \<Rightarrow> n)"

definition bump :: "('k \<rightharpoonup> int) \<Rightarrow> 'k \<Rightarrow> ('k \<rightharpoonup> int)" where
  "bump m k = m(k \<mapsto> count_of m k + 1)"

definition drop_one :: "('k \<rightharpoonup> int) \<Rightarrow> 'k \<Rightarrow> ('k \<rightharpoonup> int)" where
  "drop_one m k =
     (let n = count_of m k - 1 in if n = 0 then m(k := None) else m(k \<mapsto> n))"

text \<open>
  \<open>TryAcquire\<close> is two atomic steps: taking a slot of the channel, then, under the mutex,
  the scoped check that either records the lease or gives the slot back.
\<close>

definition take_slot :: "upload_limiter \<Rightarrow> err + upload_limiter" where
  "take_slot l =
     (if ul_global l < ul_cap l then Inr (l\<lparr>ul_global := Suc (ul_global l)\<rparr>) else Inl Limited)"

definition scoped_check :: "upload_limiter \<Rightarrow> upload_key \<Rightarrow> bool \<times> upload_limiter" where
  "scoped_check l k =
     (if count_of (ul_users l) (key_User k) \<ge> ul_perUser l
         \<or> count_of (ul_ips l) (key_IP k) \<ge> ul_perIP l
      then (False, l\<lparr>ul_global := ul_global l - 1\<rparr>)
      else (True, l\<lparr>ul_users := bump (ul_users l) (key_User k),
                    ul_ips := bump (ul_ips l) (key_IP k)\<rparr>))"

definition ul_TryAcquire :: "upload_limiter \<Rightarrow> upload_key \<Rightarrow> upload_limiter \<times> (err + upload_key)" where
  "ul_TryAcquire l k =
     (case take_slot l of
        Inl e \<Rightarrow> (l, Inl e)
      | Inr l1 \<Rightarrow>
          (case scoped_check l1 k of
             (False, l2) \<Rightarrow> (l2, Inl Limited)
           | (True, l2) \<Rightarrow> (l2, Inr k)))"

text \<open>
  \<open>Lease.Release\<close>: the counters go down under the mutex, then the channel slot is freed,
  a separate step.
\<close>

definition release_counts :: "upload_limiter \<Rightarrow> upload_key \<Rightarrow> upload_limiter" where
  "release_counts l k =
     l\<lparr>ul_users := drop_one (ul_users l) (key_User k), ul_ips := drop_one (ul_ips l) (key_IP k)\<rparr>"

definition free_slot :: "upload_limiter \<Rightarrow> upload_limiter" where
  "free_slot l = l\<lparr>ul_global := ul_global l - 1\<rparr>"

definition ul_Release :: "upload_limiter \<Rightarrow> upload_key \<Rightarrow> bool \<Rightarrow> upload_limiter \<times> bool" where
  "ul_Release l k once = (if once then (l, True) else (free_slot (release_counts l k), True))"

section \<open>A channel used as a counting semaphore\<close>

text \<open>
  Both limiters hang on the same contract: a slot is taken without blocking while fewer than
  the capacity are in use, and given back once.  \<open>pool_run\<close> is any history of attempts
  (\<open>True\<close>) and releases of a held lease (\<open>False\<close>).
\<close>

fun pool_run :: "('s \<Rightarrow> err + 's) \<Rightarrow> ('s \<Rightarrow> 's) \<Rightarrow> bool list \<Rightarrow> 's \<times> nat \<Rightarrow> 's \<times> nat" where
  "pool_run acq rel [] (s, held) = (s, held)"
| "pool_run acq rel (True # es) (s, held) =
     (case acq s of
        Inl e \<Rightarrow> pool_run acq rel es (s, held)
      | Inr t \<Rightarrow> pool_run acq rel es (t, Suc held))"
| "pool_run acq rel (False # es) (s, held) =
     (if held = 0 then pool_run acq rel es (s, held)
      else pool_run acq rel es (rel s, held - 1))"

locale bounded_pool =
  fixes acq :: "'s \<Rightarrow> err + 's"
    and rel :: "'s \<Rightarrow> 's"
    and used :: "'s \<Rightarrow> nat"
    and capacity :: "'s \<Rightarrow> nat"
  assumes acq_ok: "acq s = Inr t \<Longrightarrow> used s < capacity s \<and> used t = Suc (used s)"
    and acq_cap: "acq s = Inr t \<Longrightarrow> capacity t = capacity s"
    and acq_full: "acq s = Inl e \<Longrightarrow> capacity s \<le> used s"
    and rel_used: "0 < used s \<Longrightarrow> used (rel s) = used s - 1"
    and rel_cap: "capacity (rel s) = capacity s"
begin

lemma run_bounded:
  "used s = held \<Longrightarrow> held \<le> capacity s \<Longrightarrow> pool_run acq rel es (s, held) = (s', held') \<Longrightarrow>
   used s' = held' \<and> held' \<le> capacity s' \<and> capacity s' = capacity s"
proof (induction es arbitrary: s held)
  case Nil
  then show ?case by simp
next
  case (Cons e es)
  show ?case
  proof (cases e)
    case True
    show ?thesis
    proof (cases "acq s")
      case (Inl x)
      with Cons.prems True have "pool_run acq rel es (s, held) = (s', held')" by simp
      with Cons.IH [OF Cons.prems(1,2)] show ?thesis by blast
    next
      case (Inr t)
      with Cons.prems True have r: "pool_run acq rel es (t, Suc held) = (s', held')" by simp
      have "used t = Suc held" and "Suc held \<le> capacity t" and "capacity t = capacity s"
        using Cons.prems acq_ok [OF Inr] acq_cap [OF Inr] by simp_all
      with Cons.IH [OF _ _ r] show ?thesis by simp
    qed
  next
    case e: False
    show ?thesis
    proof (cases "held = 0")
      case True
      with Cons.prems e have "pool_run acq rel es (s, held) = (s', held')" by simp
      with Cons.IH [OF Cons.prems(1,2)] show ?thesis by blast
    next
      case False
      with Cons.prems e have r: "pool_run acq rel es (rel s, held - 1) = (s', held')" by simp
      have "used (rel s) = held - 1" and "held - 1 \<le> capacity (rel s)"
        and "capacity (rel s) = capacity s"
        using Cons.prems False rel_used [of s] rel_cap [of s] by simp_all
      with Cons.IH [OF _ _ r] show ?thesis by simp
    qed
  qed
qed

lemma admits_below_capacity: "used s < capacity s \<Longrightarrow> is_ok (acq s)"
  using acq_full [of s] by (cases "acq s") auto

end

interpretation download_pool:
  bounded_pool dl_TryAcquire "\<lambda>l. fst (dl_Release l False)" dl_slots dl_cap
  by unfold_locales (auto simp: dl_TryAcquire_def dl_Release_def split: if_splits)

interpretation upload_pool: bounded_pool take_slot free_slot ul_global ul_cap
  by unfold_locales (auto simp: take_slot_def free_slot_def split: if_splits)

section \<open>Concurrent requests\<close>

text \<open>
  The system: the limiter, the requests between the two steps of \<open>TryAcquire\<close>, the live
  leases, and the leases between the two steps of \<open>Release\<close>.  Any request may move.
\<close>

record ul_system =
  lim :: upload_limiter
  waiting :: "upload_key multiset"
  leased :: "upload_key multiset"
  freeing :: nat

inductive ul_step :: "ul_system \<Rightarrow> ul_system \<Rightarrow> bool" where
  grab: "take_slot (lim s) = Inr l \<Longrightarrow>
    ul_step s (s\<lparr>lim := l, waiting := add_mset k (waiting s)\<rparr>)"
| admit: "k \<in># waiting s \<Longrightarrow> scoped_check (lim s) k = (True, l) \<Longrightarrow>
    ul_step s (s\<lparr>lim := l, waiting := waiting s - {#k#}, leased := add_mset k (leased s)\<rparr>)"
| refuse: "k \<in># waiting s \<Longrightarrow> scoped_check (lim s) k = (False, l) \<Longrightarrow>
    ul_step s (s\<lparr>lim := l, waiting := waiting s - {#k#}\<rparr>)"
| release: "k \<in># leased s \<Longrightarrow>
    ul_step s (s\<lparr>lim := release_counts (lim s) k, leased := leased s - {#k#},
                 freeing := Suc (freeing s)\<rparr>)"
| free: "freeing s > 0 \<Longrightarrow>
    ul_step s (s\<lparr>lim := free_slot (lim s), freeing := freeing s - 1\<rparr>)"

inductive_cases ul_stepE: "ul_step s t"

definition ul_init :: "upload_limiter \<Rightarrow> ul_system" where
  "ul_init l = \<lparr>lim = l, waiting = {#}, leased = {#}, freeing = 0\<rparr>"

text \<open>The counters are the leases, and no count passes its bound.\<close>

definition tracks :: "('k \<rightharpoonup> int) \<Rightarrow> 'k multiset \<Rightarrow> bool" where
  "tracks m M \<longleftrightarrow> (\<forall>k. m k = (if count M k = 0 then None else Some (int (count M k))))"

definition ul_inv :: "ul_system \<Rightarrow> bool" where
  "ul_inv s \<longleftrightarrow>
     ul_global (lim s) = size (waiting s) + size (leased s) + freeing s
     \<and> ul_global (lim s) \<le> ul_cap (lim s)
     \<and> tracks (ul_users (lim s)) (image_mset key_User (leased s))
     \<and> tracks (ul_ips (lim s)) (image_mset key_IP (leased s))
     \<and> (\<forall>u. int (count (image_mset key_User (leased s)) u) \<le> ul_perUser (lim s))
     \<and> (\<forall>i. int (count (image_mset key_IP (leased s)) i) \<le> ul_perIP (lim s))"

lemma tracks_empty: "tracks Map.empty {#}"
  by (simp add: tracks_def)

lemma tracks_count: "tracks m M \<Longrightarrow> count_of m k = int (count M k)"
  by (auto simp: tracks_def count_of_def)

lemma tracks_bump: "tracks m M \<Longrightarrow> tracks (bump m k) (add_mset k M)"
  by (auto simp: tracks_def bump_def count_of_def count_eq_zero_iff)

lemma tracks_drop:
  assumes "tracks m M" and "k \<in># M"
  shows "tracks (drop_one m k) (M - {#k#})"
proof -
  obtain N where M: "M = add_mset k N"
    using assms(2) by (metis multi_member_split)
  with assms(1) have mk: "m k = Some (int (count N k) + 1)"
    and other: "\<And>j. j \<noteq> k \<Longrightarrow> m j = (if count N j = 0 then None else Some (int (count N j)))"
    by (auto simp: tracks_def count_eq_zero_iff)
  have "drop_one m k j = (if count N j = 0 then None else Some (int (count N j)))" for j
    by (cases "j = k") (auto simp: drop_one_def count_of_def mk other Let_def count_eq_zero_iff)
  then show ?thesis
    by (simp add: tracks_def M)
qed

lemma ul_inv_init: "NewUploadLimiter g u i = Inr l \<Longrightarrow> ul_inv (ul_init l)"
  by (auto simp: NewUploadLimiter_def ul_init_def ul_inv_def tracks_empty split: if_splits)

lemma ul_step_inv:
  assumes inv: "ul_inv s" and step: "ul_step s t"
  shows "ul_inv t"
  using step
proof (cases rule: ul_step.cases)
  case (grab l k)
  then show ?thesis using inv by (auto simp: ul_inv_def take_slot_def split: if_splits)
next
  case (admit k l)
  have "size (waiting s) = Suc (size (waiting s - {#k#}))"
    using admit by (simp add: size_Diff_singleton_if)
      (metis Suc_pred nonempty_has_size empty_not_add_mset multi_member_split)
  moreover have lt: "int (count (image_mset key_User (leased s)) (key_User k)) < ul_perUser (lim s)"
      "int (count (image_mset key_IP (leased s)) (key_IP k)) < ul_perIP (lim s)"
    using admit inv tracks_count [of "ul_users (lim s)"] tracks_count [of "ul_ips (lim s)"]
    by (auto simp: scoped_check_def ul_inv_def split: if_splits)
  ultimately show ?thesis
    using admit inv
    by (auto simp: ul_inv_def scoped_check_def tracks_bump split: if_splits)
next
  case (refuse k l)
  have "size (waiting s) = Suc (size (waiting s - {#k#}))"
    using refuse by (simp add: size_Diff_singleton_if)
      (metis Suc_pred nonempty_has_size empty_not_add_mset multi_member_split)
  then show ?thesis
    using refuse inv by (auto simp: ul_inv_def scoped_check_def split: if_splits)
next
  case (release k)
  obtain L where L: "leased s = add_mset k L"
    using release by (metis multi_member_split)
  have "tracks (drop_one (ul_users (lim s)) (key_User k)) (image_mset key_User L)"
    and "tracks (drop_one (ul_ips (lim s)) (key_IP k)) (image_mset key_IP L)"
    using inv L tracks_drop [of "ul_users (lim s)" "image_mset key_User (leased s)" "key_User k"]
      tracks_drop [of "ul_ips (lim s)" "image_mset key_IP (leased s)" "key_IP k"]
    by (auto simp: ul_inv_def)
  moreover have "int (count (image_mset key_User L) u) \<le> ul_perUser (lim s)"
    and "int (count (image_mset key_IP L) i) \<le> ul_perIP (lim s)" for u i
    using inv L by (auto simp: ul_inv_def split: if_splits) (smt (verit))+
  ultimately show ?thesis
    using release inv L by (auto simp: ul_inv_def release_counts_def)
next
  case free
  then show ?thesis using inv by (auto simp: ul_inv_def free_slot_def)
qed

interpretation upload_admission: invariant_system ul_step ul_inv
  by unfold_locales (rule ul_step_inv)

text \<open>The bounds themselves never change.\<close>

lemma ul_step_bounds:
  "ul_step s t \<Longrightarrow> ul_cap (lim t) = ul_cap (lim s) \<and> ul_perUser (lim t) = ul_perUser (lim s)
    \<and> ul_perIP (lim t) = ul_perIP (lim s)"
  by (erule ul_stepE)
    (auto simp: take_slot_def scoped_check_def release_counts_def free_slot_def split: if_splits)

lemma ul_run_bounds:
  assumes "NewUploadLimiter g u i = Inr l" and "run ul_step (ul_init l) s"
  shows "int (ul_cap (lim s)) = g \<and> ul_perUser (lim s) = u \<and> ul_perIP (lim s) = i"
proof -
  have "run ul_step t s \<Longrightarrow> ul_cap (lim s) = ul_cap (lim t) \<and> ul_perUser (lim s) = ul_perUser (lim t)
    \<and> ul_perIP (lim s) = ul_perIP (lim t)" for t
    by (induction rule: run.induct) (auto dest: ul_step_bounds)
  from this [OF assms(2)] assms(1) show ?thesis
    by (auto simp: ul_init_def NewUploadLimiter_def split: if_splits)
qed

end
