(* ===== verification/Samples.thy ===== *)
theory Samples
  imports UploadSpec Permission Download Limits
begin

text \<open>
  Small concrete states, on which the witnesses run the operations: one user, one root, and
  an upload of three bytes whose part is partly or completely there.
\<close>

definition sample_policy :: name_policy where
  "sample_policy = NamePolicy Default"

definition sample_user :: user_row where
  "sample_user = \<lparr>user_ID = 1, user_Username = ''ann'', user_PasswordHash = ''h'',
     user_Disabled = False, user_CreatedAt = 0, user_UpdatedAt = 0\<rparr>"

definition sample_root :: root_row where
  "sample_root = \<lparr>root_ID = 1, root_Name = ''r'', root_Path = ''data'', root_CreatedAt = 0,
     root_UpdatedAt = 0\<rparr>"

definition sample_settings :: settings_row where
  "sample_settings = \<lparr>set_SiteName = ''SafeFileHub'', set_PrimaryColor = ''#112233'',
     set_FilingEnabled = False, set_FilingText = [], set_MD5Enabled = False,
     set_LoginLogo = None, set_NavLogo = None, set_Favicon = None, set_CreatedAt = 0, set_UpdatedAt = 0\<rparr>"

definition sample_db :: db where
  "sample_db = \<lparr>db_users = [sample_user], db_bootstrap = None, db_roots = [sample_root],
     db_files = [], db_dirs = [], db_perms = [], db_uploads = [], db_cleanup = [], db_audit = [],
     db_tasks = [], db_settings = sample_settings, db_assets = [], db_asset_cleanup = []\<rparr>"

definition sample_id :: string where
  "sample_id = replicate 32 (CHR ''0'')"

definition sample_session :: "int \<Rightarrow> upload_row" where
  "sample_session offset = \<lparr>up_ID = sample_id, up_UserID = 1, up_RootID = 1,
     up_LogicalPath = ''/a'', up_StagingPath = staging_name sample_id, up_Offset = offset,
     up_Length = 3, up_Status = Active, up_ExpiresAt = 100, up_CreatedAt = 0, up_UpdatedAt = 0\<rparr>"

text \<open>The hub whose session has acknowledged the bytes of \<open>c\<close>.\<close>

definition sample_hub :: "string \<Rightarrow> hub" where
  "sample_hub c = \<lparr>hub_db = sample_db\<lparr>db_uploads := [sample_session (int (length c))]\<rparr>,
     hub_store = \<lparr>st_open = True, st_staging = Some [(sample_id @ ''.part'', Regular c)],
                  st_objects = Map.empty\<rparr>\<rparr>"

definition sample_random :: string where
  "sample_random = replicate 32 (CHR 0x00)"

definition sample_perm :: "string \<Rightarrow> bool \<Rightarrow> permission" where
  "sample_perm pfx allow = \<lparr>perm_ID = 1, perm_UserID = 1, perm_RootID = 1, perm_PathPrefix = pfx,
     perm_Action = ''read'', perm_Allow = allow, perm_CreatedAt = 0, perm_UpdatedAt = 0\<rparr>"

definition sample_key :: upload_key where
  "sample_key = \<lparr>key_User = ''1'', key_IP = ''::1''\<rparr>"

definition sample_dir :: dir_row where
  "sample_dir = \<lparr>dir_ID = 1, dir_RootID = 1, dir_LogicalPath = ''/d'', dir_CreatedByUserID = 1,
     dir_CreatedAt = 0, dir_UpdatedAt = 0\<rparr>"

definition sample_file :: file_row where
  "sample_file = \<lparr>file_ID = 1, file_RootID = 1, file_LogicalPath = ''/f'', file_ObjectKey = ''k'',
     file_Size = 3, file_CreatedByUserID = 1, file_CreatedAt = 0, file_UpdatedAt = 0,
     file_DeleteState = FileActive, file_MD5Status = MD5Disabled, file_MD5Digest = [],
     file_MD5Error = []\<rparr>"

lemmas sample_simps = sample_hub_def sample_db_def sample_session_def sample_user_def sample_root_def
  sample_settings_def

lemma id_ok_sample: "id_ok sample_id"
  by (simp add: id_ok_def sample_id_def)

lemma sess_sample: "sess (sample_hub c) i =
    (if i = sample_id then Some (sample_session (int (length c))) else None)"
  by (auto simp: sample_hub_def sample_session_def session_def row_at_def)

lemma part_sample: "part (sample_hub c) sample_id = Some (Regular c)"
  by (simp add: sample_hub_def staging_lookup_def entries_def)

lemma row_ok_sample:
  assumes "length c \<le> 3"
  shows "row_ok (sample_hub c) sample_id (sample_session (int (length c)))"
  unfolding row_ok_def using id_ok_sample part_sample [of c] assms
  by (simp add: sample_session_def int64_def)

lemma upload_inv_sample:
  assumes "length c \<le> 3"
  shows "upload_inv (sample_hub c)"
  unfolding upload_inv_def
proof (intro conjI)
  show "sessions_ok (hub_db (sample_hub c))"
    by (simp add: sessions_ok_def sample_hub_def sample_session_def)
  show "\<forall>i s. sess (sample_hub c) i = Some s \<longrightarrow> row_ok (sample_hub c) i s"
    using row_ok_sample [OF assms] by (simp add: sess_sample)
  show "files_ok (sample_hub c)"
    by (simp add: files_ok_def sample_hub_def sample_db_def)
qed

lemma ready_sample: "length c \<le> 3 \<Longrightarrow> ready (sample_hub c) sample_id"
  using upload_inv_sample [of c] id_ok_sample
  by (simp add: ready_def lock_ok_def sample_hub_def entries_def lock_base_def)

lemma fresh_sample: "fresh_key sample_random (sample_hub c)"
  by (simp add: fresh_key_def sample_random_def sample_hub_def)

section \<open>Evaluating paths\<close>

lemma backslash_char: "backslash = CHR 0x5C"
  unfolding backslash_def by code_simp

lemmas path_eval =
  ParseDecodedPath_def parseDecodedPath_def ParseEscapedPath_def validateSegment_def valid_utf8_def
  runes_def bytes_of_def decode_code rune_error_def has_prefix_def has_suffix_def suffix_to_prefix
  hasWindowsDrivePrefix_def backslash_char is_control_def isWindowsReservedName_def
  reserved_names_def equal_fold_ascii_def fold_eq_def ascii_lower_def rejectsLeading_def
  sample_policy_def Default_def isHex_def char_of_def bit_0 canonicalPath_def trim_prefix_def

end
