(* ===== verification/DbAdmin.thy ===== *)
theory DbAdmin
  imports Tables
begin

text \<open>
  Package \<open>internal/db\<close> (\<open>repository.go\<close>), the administrative tables: users and the
  bootstrap administrator, storage roots, permissions, and audit events with the redaction of
  their details.
\<close>

section \<open>Users\<close>

definition insert_user :: "int \<Rightarrow> db \<Rightarrow> user_row \<Rightarrow> err + (user_row \<times> db)" where
  "insert_user now d u =
     (let created = utcOrNow now (user_CreatedAt u);
          updated = updatedOr created (user_UpdatedAt u);
          u' = u\<lparr>user_ID := next_id (map user_ID (db_users d)), user_CreatedAt := created,
                 user_UpdatedAt := updated\<rparr> in
      if list_ex (\<lambda>v. user_Username v = user_Username u) (db_users d) then Inl DbConflict
      else Inr (u', d\<lparr>db_users := db_users d @ [u']\<rparr>))"

definition CreateUser :: "bool \<Rightarrow> int \<Rightarrow> db \<Rightarrow> user_row \<Rightarrow> db \<times> (err + user_row)" where
  "CreateUser flt now d u =
     (if flt then (d, Inl DbOther)
      else (case insert_user now d u of Inl e \<Rightarrow> (d, Inl e) | Inr (u', d') \<Rightarrow> (d', Inr u')))"

definition UserByUsername :: "bool \<Rightarrow> db \<Rightarrow> string \<Rightarrow> err + user_row" where
  "UserByUsername flt d name = query_row flt (\<lambda>u. user_Username u = name) (db_users d)"

definition UserByID :: "bool \<Rightarrow> db \<Rightarrow> int \<Rightarrow> err + user_row" where
  "UserByID flt d i = query_row flt (\<lambda>u. user_ID u = i) (db_users d)"

definition IsBootstrapAdmin :: "bool \<Rightarrow> db \<Rightarrow> int \<Rightarrow> err + bool" where
  "IsBootstrapAdmin flt d i = (if flt then Inl DbOther else Inr (db_bootstrap d = Some i))"

definition BootstrapAdmin :: "bool \<Rightarrow> db \<Rightarrow> err + user_row" where
  "BootstrapAdmin flt d = query_row flt (\<lambda>u. db_bootstrap d = Some (user_ID u)) (db_users d)"

text \<open>The singleton row: its key is fixed, so a second insertion violates uniqueness.\<close>

definition insert_bootstrap :: "db \<Rightarrow> int \<Rightarrow> err + db" where
  "insert_bootstrap d i =
     (if db_bootstrap d \<noteq> None \<or> \<not> user_exists d i then Inl DbConflict
      else Inr (d\<lparr>db_bootstrap := Some i\<rparr>))"

definition SetBootstrapAdmin :: "bool \<Rightarrow> db \<Rightarrow> int \<Rightarrow> db \<times> (err + unit)" where
  "SetBootstrapAdmin flt d i =
     (if flt then (d, Inl DbOther)
      else (case insert_bootstrap d i of Inl e \<Rightarrow> (d, Inl e) | Inr d' \<Rightarrow> (d', Inr ())))"

definition AdoptLegacyBootstrapAdmin :: "bool \<Rightarrow> db \<Rightarrow> int \<Rightarrow> db \<times> (err + unit)" where
  "AdoptLegacyBootstrapAdmin flt d i = SetBootstrapAdmin flt d i"

definition CreateBootstrapAdmin :: "bool \<Rightarrow> int \<Rightarrow> db \<Rightarrow> user_row \<Rightarrow> db \<times> (err + user_row)" where
  "CreateBootstrapAdmin flt now d u =
     (if flt then (d, Inl DbOther)
      else
        (case insert_user now d u of
           Inl e \<Rightarrow> (d, Inl e)
         | Inr (u', d1) \<Rightarrow>
             (case insert_bootstrap d1 (user_ID u') of
                Inl e \<Rightarrow> (d, Inl e)
              | Inr d2 \<Rightarrow> (d2, Inr u'))))"

definition UpdateUserCredentials ::
    "bool \<Rightarrow> int \<Rightarrow> db \<Rightarrow> int \<Rightarrow> string \<Rightarrow> bool \<Rightarrow> db \<times> (err + unit)" where
  "UpdateUserCredentials flt now d i hash disabled =
     (let P = (\<lambda>u. user_ID u = i) in
      if flt then (d, Inl DbOther)
      else
        (d\<lparr>db_users := update_rows P
             (\<lambda>u. u\<lparr>user_PasswordHash := hash, user_Disabled := disabled, user_UpdatedAt := now\<rparr>)
             (db_users d)\<rparr>,
         if affected P (db_users d) \<noteq> 1 then Inl DbNotFound else Inr ()))"

definition ResetInitialAdmin ::
    "bool \<Rightarrow> int \<Rightarrow> db \<Rightarrow> string \<Rightarrow> string \<Rightarrow> db \<times> (err + unit)" where
  "ResetInitialAdmin flt now d name hash =
     (let P = (\<lambda>u. db_bootstrap d = Some (user_ID u)) in
      if flt then (d, Inl DbOther)
      else if list_ex P (db_users d)
              \<and> list_ex (\<lambda>v. \<not> P v \<and> user_Username v = name) (db_users d)
      then (d, Inl DbConflict)
      else
        (d\<lparr>db_users := update_rows P
             (\<lambda>u. u\<lparr>user_Username := name, user_PasswordHash := hash, user_Disabled := False,
                    user_UpdatedAt := now\<rparr>) (db_users d)\<rparr>,
         if affected P (db_users d) \<noteq> 1 then Inl DbNotFound else Inr ()))"

section \<open>Roots and permissions\<close>

definition CreateStorageRoot :: "bool \<Rightarrow> int \<Rightarrow> db \<Rightarrow> root_row \<Rightarrow> db \<times> (err + root_row)" where
  "CreateStorageRoot flt now d r =
     (let created = utcOrNow now (root_CreatedAt r);
          updated = updatedOr created (root_UpdatedAt r);
          r' = r\<lparr>root_ID := next_id (map root_ID (db_roots d)), root_CreatedAt := created,
                 root_UpdatedAt := updated\<rparr> in
      if flt then (d, Inl DbOther)
      else if list_ex (\<lambda>x. root_Name x = root_Name r \<or> root_Path x = root_Path r) (db_roots d)
      then (d, Inl DbConflict)
      else (d\<lparr>db_roots := db_roots d @ [r']\<rparr>, Inr r'))"

definition normalizeAction :: "string \<Rightarrow> string" where
  "normalizeAction action0 =
     (let action = to_lower (trim_space action0) in
      if action \<in> set [''read'', ''write'', ''delete'', ''archive''] then action else [])"

definition CreatePermission :: "bool \<Rightarrow> int \<Rightarrow> db \<Rightarrow> permission \<Rightarrow> db \<times> (err + permission)" where
  "CreatePermission flt now d p =
     (let action = normalizeAction (perm_Action p);
          created = utcOrNow now (perm_CreatedAt p);
          updated = updatedOr created (perm_UpdatedAt p);
          p' = p\<lparr>perm_ID := next_id (map perm_ID (db_perms d)), perm_Action := action,
                 perm_CreatedAt := created, perm_UpdatedAt := updated\<rparr> in
      if action = [] then (d, Inl Invalid)
      else if flt then (d, Inl DbOther)
      else if \<not> user_exists d (perm_UserID p) \<or> \<not> root_exists d (perm_RootID p)
              \<or> list_ex (\<lambda>q. perm_UserID q = perm_UserID p \<and> perm_RootID q = perm_RootID p
                          \<and> perm_PathPrefix q = perm_PathPrefix p \<and> perm_Action q = action
                          \<and> perm_Allow q = perm_Allow p) (db_perms d)
      then (d, Inl DbConflict)
      else (d\<lparr>db_perms := db_perms d @ [p']\<rparr>, Inr p'))"

definition PermissionsForUserAndRoot :: "bool \<Rightarrow> db \<Rightarrow> int \<Rightarrow> int \<Rightarrow> err + permission list" where
  "PermissionsForUserAndRoot flt d uid rid =
     (if flt then Inl DbOther
      else Inr (sort_key perm_ID
             (filter (\<lambda>p. perm_UserID p = uid \<and> perm_RootID p = rid) (db_perms d))))"

section \<open>Audit events\<close>

definition secret_prefixes :: "string list" where
  "secret_prefixes = [''password='', ''content='', ''token='', ''secret='', ''authorization='']"

definition kept_prefixes :: "string list" where
  "kept_prefixes = [''status='', ''target_user_id='', ''request_id='', ''session_audit_id='', ''result='']"

definition keeps_field :: "string \<Rightarrow> bool" where
  "keeps_field w \<longleftrightarrow>
     (let lower = to_lower w in
      \<not> list_ex (has_prefix lower) secret_prefixes \<and> list_ex (has_prefix lower) kept_prefixes)"

definition redactAuditDetail :: "string \<Rightarrow> string" where
  "redactAuditDetail detail = join (CHR '' '') (filter keeps_field (split_fields detail))"

text \<open>\<open>fmt.Sscanf(field, "status=%d", &status)\<close>: the literal, a sign, and the digits that follow.\<close>

definition scan_status :: "string \<Rightarrow> int option" where
  "scan_status w =
     (if \<not> has_prefix w ''status='' then None
      else
        (let t = trim_prefix w ''status='' in
         case t of
           [] \<Rightarrow> None
         | c # r \<Rightarrow>
             if c = CHR ''+'' \<or> c = CHR ''-'' then parse_int64 (c # takeWhile is_digit r)
             else parse_int64 (takeWhile is_digit t)))"

fun first_status :: "string list \<Rightarrow> int" where
  "first_status [] = 0"
| "first_status (w # ws) =
     (if has_prefix (to_lower w) ''status='' then
        (case scan_status w of Some n \<Rightarrow> n | None \<Rightarrow> first_status ws)
      else first_status ws)"

definition auditStatus :: "string \<Rightarrow> int" where
  "auditStatus detail = first_status (split_fields detail)"

definition prepareAuditEvent :: "int \<Rightarrow> audit_event \<Rightarrow> audit_event" where
  "prepareAuditEvent now e =
     (let detail = redactAuditDetail (ae_Detail e) in
      e\<lparr>ae_Detail := detail,
        ae_Status := (if ae_Status e = 0 then auditStatus detail else ae_Status e),
        ae_CreatedAt := utcOrNow now (ae_CreatedAt e)\<rparr>)"

definition nullableRootID :: "int \<Rightarrow> int option" where
  "nullableRootID i = (if i = 0 then None else Some i)"

definition stored_event :: "int \<Rightarrow> audit_event \<Rightarrow> audit_row" where
  "stored_event i e =
     \<lparr>audit_ID = i, audit_UserID = ae_UserID e, audit_RootID = nullableRootID (ae_RootID e),
      audit_Action = ae_Action e, audit_LogicalPath = ae_LogicalPath e, audit_Detail = ae_Detail e,
      audit_Status = ae_Status e, audit_CreatedAt = ae_CreatedAt e\<rparr>"

definition insert_audit :: "db \<Rightarrow> audit_event \<Rightarrow> err + (int \<times> db)" where
  "insert_audit d e =
     (if \<not> user_exists d (ae_UserID e) \<or> (ae_RootID e \<noteq> 0 \<and> \<not> root_exists d (ae_RootID e))
      then Inl DbConflict
      else
        (let i = next_id (map audit_ID (db_audit d)) in
         Inr (i, d\<lparr>db_audit := db_audit d @ [stored_event i e]\<rparr>)))"

definition CreateAuditEvent :: "bool \<Rightarrow> int \<Rightarrow> db \<Rightarrow> audit_event \<Rightarrow> db \<times> (err + audit_event)" where
  "CreateAuditEvent flt now d e =
     (let e' = prepareAuditEvent now e in
      if flt then (d, Inl DbOther)
      else (case insert_audit d e' of
              Inl x \<Rightarrow> (d, Inl x)
            | Inr (i, d') \<Rightarrow> (d', Inr (e'\<lparr>ae_ID := i\<rparr>))))"

definition createAuditEventTx :: "bool \<Rightarrow> int \<Rightarrow> db \<Rightarrow> audit_event \<Rightarrow> err + db" where
  "createAuditEventTx flt now d e =
     (if flt then Inl DbOther
      else (case insert_audit d (prepareAuditEvent now e) of Inl x \<Rightarrow> Inl x | Inr (_, d') \<Rightarrow> Inr d'))"

definition scanAudit :: "audit_row \<Rightarrow> audit_event" where
  "scanAudit r =
     \<lparr>ae_ID = audit_ID r, ae_UserID = audit_UserID r,
      ae_RootID = (case audit_RootID r of None \<Rightarrow> 0 | Some i \<Rightarrow> i),
      ae_Action = audit_Action r, ae_LogicalPath = audit_LogicalPath r,
      ae_Detail = audit_Detail r, ae_Status = audit_Status r, ae_CreatedAt = audit_CreatedAt r\<rparr>"

definition AuditEventsForUser :: "bool \<Rightarrow> db \<Rightarrow> int \<Rightarrow> err + audit_event list" where
  "AuditEventsForUser flt d uid =
     (if flt then Inl DbOther
      else Inr (map scanAudit (sort_key audit_ID (filter (\<lambda>r. audit_UserID r = uid) (db_audit d)))))"

definition AuditEvents :: "bool \<Rightarrow> db \<Rightarrow> int \<Rightarrow> err + audit_event list" where
  "AuditEvents flt d limit =
     (if limit \<le> 0 then Inr []
      else if flt then Inl DbOther
      else Inr (map scanAudit (sql_limit limit (rev (sort_key audit_ID (db_audit d))))))"

section \<open>Accounts\<close>

text \<open>
  Ids and user names are unique, and the bootstrap record names a user.  The contract of an
  administrative operation: it keeps that, and a recorded bootstrap administrator.
\<close>

definition accounts_inv :: "db \<Rightarrow> bool" where
  "accounts_inv d \<longleftrightarrow>
     distinct (map user_ID (db_users d)) \<and> distinct (map user_Username (db_users d))
     \<and> (\<forall>i. db_bootstrap d = Some i \<longrightarrow> user_exists d i)"

inductive account_step :: "db \<Rightarrow> db \<Rightarrow> bool" where
  step_user: "CreateUser flt now d u = (d', r) \<Longrightarrow> account_step d d'"
| step_set: "SetBootstrapAdmin flt d i = (d', r) \<Longrightarrow> account_step d d'"
| step_bootstrap: "CreateBootstrapAdmin flt now d u = (d', r) \<Longrightarrow> account_step d d'"
| step_credentials: "UpdateUserCredentials flt now d i hash disabled = (d', r) \<Longrightarrow> account_step d d'"
| step_reset: "ResetInitialAdmin flt now d name hash = (d', r) \<Longrightarrow> account_step d d'"

inductive_cases account_stepE: "account_step d d'"

lemma insert_user_Inr:
  assumes "insert_user now d u = Inr (u', d')"
  shows "d' = d\<lparr>db_users := db_users d @ [u']\<rparr>" "user_ID u' \<notin> user_ID ` set (db_users d)"
    "user_Username u' = user_Username u" "user_Username u' \<notin> user_Username ` set (db_users d)"
  using assms next_id_fresh [of "map user_ID (db_users d)"]
  by (auto simp: insert_user_def Let_def list_ex_iff split: if_splits)

lemma accounts_inv_insert:
  assumes "accounts_inv d" and "insert_user now d u = Inr (u', d')"
  shows "accounts_inv d'" and "user_exists d' (user_ID u')" and "db_bootstrap d' = db_bootstrap d"
  using assms(1) insert_user_Inr [OF assms(2)]
  by (auto simp: accounts_inv_def user_exists_def list_ex_iff)

lemma insert_bootstrap_Inr:
  "insert_bootstrap d i = Inr d' \<longleftrightarrow>
     db_bootstrap d = None \<and> user_exists d i \<and> d' = d\<lparr>db_bootstrap := Some i\<rparr>"
  by (auto simp: insert_bootstrap_def)

lemma user_exists_iff: "user_exists d i \<longleftrightarrow> i \<in> user_ID ` set (db_users d)"
  by (auto simp: user_exists_def list_ex_iff)

lemma accounts_inv_update:
  assumes inv: "accounts_inv d" and id: "\<And>u. user_ID (f u) = user_ID u"
    and names: "distinct (map user_Username (update_rows P f (db_users d)))"
  shows "accounts_inv (d\<lparr>db_users := update_rows P f (db_users d)\<rparr>)"
  using inv names image_update_rows [of P user_ID f "db_users d"] map_update_rows [of P user_ID f "db_users d"] id
  by (simp add: accounts_inv_def user_exists_iff)

lemma distinct_rename:
  assumes "distinct (map g rows)" and "distinct (map k rows)" and "\<And>r. P r \<longleftrightarrow> k r = i"
    and "\<And>r. P r \<Longrightarrow> g (f r) = n" and "\<And>r. r \<in> set rows \<Longrightarrow> \<not> P r \<Longrightarrow> g r \<noteq> n"
  shows "distinct (map g (update_rows P f rows))"
  using assms by (induction rows) (auto simp: update_rows_def image_iff split: if_splits)

lemma account_step_inv:
  assumes "account_step d d'" and inv: "accounts_inv d"
  shows "accounts_inv d'"
  using assms(1)
proof cases
  case (step_user flt now u r)
  then show ?thesis using inv accounts_inv_insert(1) [OF inv]
    by (auto simp: CreateUser_def split: if_splits sum.splits)
next
  case (step_set flt i r)
  then show ?thesis using inv
    by (auto simp: SetBootstrapAdmin_def insert_bootstrap_Inr accounts_inv_def user_exists_def
        split: if_splits sum.splits)
next
  case (step_bootstrap flt now u r)
  then show ?thesis using inv accounts_inv_insert [OF inv]
    by (auto simp: CreateBootstrapAdmin_def insert_bootstrap_Inr accounts_inv_def user_exists_def
        split: if_splits sum.splits)
next
  case (step_credentials flt now i hash disabled r)
  have "distinct (map user_Username (update_rows (\<lambda>u. user_ID u = i)
      (\<lambda>u. u\<lparr>user_PasswordHash := hash, user_Disabled := disabled, user_UpdatedAt := now\<rparr>) (db_users d)))"
    using inv by (subst map_update_rows) (simp_all add: accounts_inv_def)
  from accounts_inv_update [OF inv _ this] step_credentials inv show ?thesis
    by (auto simp: UpdateUserCredentials_def Let_def split: if_splits)
next
  case (step_reset flt now name hash r)
  let ?P = "\<lambda>u. db_bootstrap d = Some (user_ID u)"
  let ?f = "\<lambda>u. u\<lparr>user_Username := name, user_PasswordHash := hash, user_Disabled := False, user_UpdatedAt := now\<rparr>"
  show ?thesis
  proof (cases "d' = d")
    case False
    with step_reset have d': "d' = d\<lparr>db_users := update_rows ?P ?f (db_users d)\<rparr>"
      and free: "list_ex ?P (db_users d) \<longrightarrow> \<not> list_ex (\<lambda>v. \<not> ?P v \<and> user_Username v = name) (db_users d)"
      by (auto simp: ResetInitialAdmin_def Let_def split: if_splits)
    have "distinct (map user_Username (update_rows ?P ?f (db_users d)))"
    proof (cases "list_ex ?P (db_users d)")
      case False
      then have "update_rows ?P ?f (db_users d) = db_users d"
        by (auto simp: update_rows_def list_ex_iff intro!: map_idI)
      with inv show ?thesis by (simp add: accounts_inv_def)
    next
      case True
      then obtain i where i: "db_bootstrap d = Some i" by (auto simp: list_ex_iff)
      show ?thesis
        by (rule distinct_rename [where k = user_ID and i = i and n = name])
          (use inv free True i in \<open>auto simp: accounts_inv_def list_ex_iff\<close>)
    qed
    from accounts_inv_update [OF inv _ this] d' show ?thesis by simp
  qed (use inv in simp)
qed

lemma account_step_bootstrap:
  "account_step d d' \<Longrightarrow> db_bootstrap d = Some i \<Longrightarrow> db_bootstrap d' = Some i"
  by (erule account_stepE)
    (auto simp: CreateUser_def SetBootstrapAdmin_def CreateBootstrapAdmin_def UpdateUserCredentials_def
      ResetInitialAdmin_def insert_bootstrap_Inr Let_def dest: insert_user_Inr(1)
      split: if_splits sum.splits)

definition administered :: "int \<Rightarrow> db \<Rightarrow> bool" where
  "administered i d \<longleftrightarrow> accounts_inv d \<and> db_bootstrap d = Some i"

interpretation accounts: invariant_system account_step accounts_inv
  by unfold_locales (rule account_step_inv)

interpretation bootstrap: invariant_system account_step "administered i" for i
  by unfold_locales (auto simp: administered_def intro: account_step_inv account_step_bootstrap)

section \<open>What audit rows keep\<close>

text \<open>The stored detail splits into the fields that may be kept, so redacting twice changes nothing.\<close>

lemma redacted_fields: "split_fields (redactAuditDetail detail) = filter keeps_field (split_fields detail)"
  by (simp add: redactAuditDetail_def split_fields_filter)

lemma redact_idem: "redactAuditDetail (redactAuditDetail detail) = redactAuditDetail detail"
  using redacted_fields [of detail] by (simp add: redactAuditDetail_def)

lemma insert_audit_Inr:
  assumes "insert_audit d e = Inr (i, d')"
  shows "d' = d\<lparr>db_audit := db_audit d @ [stored_event i e]\<rparr>" "i \<notin> audit_ID ` set (db_audit d)"
    "user_exists d (ae_UserID e)"
  using assms next_id_fresh [of "map audit_ID (db_audit d)"]
  by (auto simp: insert_audit_def Let_def split: if_splits)

text \<open>What is read back is what was stored.\<close>

lemma scan_stored: "scanAudit (stored_event i e) = e\<lparr>ae_ID := i\<rparr>"
  by (simp add: scanAudit_def stored_event_def nullableRootID_def)

end
