(* ===== verification/DbSite.thy ===== *)
theory DbSite
  imports DbAdmin
begin

text \<open>
  Package \<open>internal/db\<close> (\<open>repository.go\<close>), the site tables: the settings row and the
  branding assets.  Replacing or resetting an asset is one transaction that also queues the
  file of the old asset for removal and stores the audit event.
\<close>

record site_settings =
  ss_SiteName :: string
  ss_PrimaryColor :: string
  ss_FilingText :: string
  ss_FilingEnabled :: bool
  ss_MD5Enabled :: bool
  ss_LoginLogo :: int
  ss_NavLogo :: int
  ss_Favicon :: int
  ss_CreatedAt :: int
  ss_UpdatedAt :: int

definition null_zero :: "int option \<Rightarrow> int" where
  "null_zero v = (case v of None \<Rightarrow> 0 | Some i \<Rightarrow> i)"

definition SiteSettings :: "bool \<Rightarrow> db \<Rightarrow> err + site_settings" where
  "SiteSettings flt d =
     (if flt then Inl DbOther
      else
        (let s = db_settings d in
         Inr \<lparr>ss_SiteName = set_SiteName s, ss_PrimaryColor = set_PrimaryColor s,
              ss_FilingText = set_FilingText s, ss_FilingEnabled = set_FilingEnabled s,
              ss_MD5Enabled = set_MD5Enabled s, ss_LoginLogo = null_zero (set_LoginLogo s),
              ss_NavLogo = null_zero (set_NavLogo s), ss_Favicon = null_zero (set_Favicon s),
              ss_CreatedAt = set_CreatedAt s, ss_UpdatedAt = set_UpdatedAt s\<rparr>))"

definition is_hex_char :: "char \<Rightarrow> bool" where
  "is_hex_char c \<longleftrightarrow> c \<in> set ''0123456789abcdefABCDEF''"

definition validSiteSettings :: "site_settings \<Rightarrow> bool" where
  "validSiteSettings s \<longleftrightarrow>
     (if trim_space (ss_SiteName s) = [] \<or> length (ss_SiteName s) > 200
         \<or> length (ss_FilingText s) > 500 then False
      else
        (case ss_PrimaryColor s of
           [] \<Rightarrow> False
         | h # cs \<Rightarrow> length (ss_PrimaryColor s) = 7 \<and> h = CHR ''#'' \<and> list_all is_hex_char cs))"

definition asset_exists :: "db \<Rightarrow> int \<Rightarrow> bool" where
  "asset_exists d i = list_ex (\<lambda>a. asset_ID a = i) (db_assets d)"

text \<open>The \<open>UPDATE\<close> of the settings row, with \<open>NULLIF\<close> and the foreign keys of the logos.\<close>

definition put_settings :: "int \<Rightarrow> db \<Rightarrow> site_settings \<Rightarrow> err + db" where
  "put_settings now d s =
     (let logos = [nullableRootID (ss_LoginLogo s), nullableRootID (ss_NavLogo s),
                   nullableRootID (ss_Favicon s)] in
      if \<not> list_all (\<lambda>v. case v of None \<Rightarrow> True | Some i \<Rightarrow> asset_exists d i) logos
      then Inl DbConflict
      else Inr (d\<lparr>db_settings := (db_settings d)
             \<lparr>set_SiteName := ss_SiteName s, set_PrimaryColor := ss_PrimaryColor s,
              set_FilingEnabled := ss_FilingEnabled s, set_FilingText := ss_FilingText s,
              set_MD5Enabled := ss_MD5Enabled s,
              set_LoginLogo := nullableRootID (ss_LoginLogo s),
              set_NavLogo := nullableRootID (ss_NavLogo s),
              set_Favicon := nullableRootID (ss_Favicon s), set_UpdatedAt := now\<rparr>\<rparr>))"

definition UpdateSiteSettings :: "bool \<Rightarrow> int \<Rightarrow> db \<Rightarrow> site_settings \<Rightarrow> db \<times> (err + unit)" where
  "UpdateSiteSettings flt now d s =
     (if \<not> validSiteSettings s then (d, Inl Invalid)
      else if flt then (d, Inl DbOther)
      else (case put_settings now d s of Inl e \<Rightarrow> (d, Inl e) | Inr d' \<Rightarrow> (d', Inr ())))"

definition UpdateSiteSettingsWithAudit ::
    "bool \<Rightarrow> bool \<Rightarrow> int \<Rightarrow> db \<Rightarrow> site_settings \<Rightarrow> audit_event \<Rightarrow> db \<times> (err + unit)" where
  "UpdateSiteSettingsWithAudit flt afail now d s e =
     (if \<not> validSiteSettings s then (d, Inl Invalid)
      else if flt then (d, Inl DbOther)
      else
        (case put_settings now d s of
           Inl x \<Rightarrow> (d, Inl x)
         | Inr d1 \<Rightarrow>
             (case createAuditEventTx afail now d1 e of
                Inl x \<Rightarrow> (d, Inl x)
              | Inr d2 \<Rightarrow> (d2, Inr ()))))"

section \<open>Assets\<close>

definition validAssetKind :: "string \<Rightarrow> bool" where
  "validAssetKind k \<longleftrightarrow> k = ''login_logo'' \<or> k = ''nav_logo'' \<or> k = ''favicon''"

definition logo_of :: "string \<Rightarrow> settings_row \<Rightarrow> int option" where
  "logo_of k s =
     (if k = ''login_logo'' then set_LoginLogo s
      else if k = ''nav_logo'' then set_NavLogo s else set_Favicon s)"

definition set_logo :: "string \<Rightarrow> int option \<Rightarrow> int \<Rightarrow> settings_row \<Rightarrow> settings_row" where
  "set_logo k v now s =
     (if k = ''login_logo'' then s\<lparr>set_LoginLogo := v, set_UpdatedAt := now\<rparr>
      else if k = ''nav_logo'' then s\<lparr>set_NavLogo := v, set_UpdatedAt := now\<rparr>
      else s\<lparr>set_Favicon := v, set_UpdatedAt := now\<rparr>)"

text \<open>Deleting an asset row sets the columns that refer to it to \<open>NULL\<close>.\<close>

definition forget :: "int \<Rightarrow> int option \<Rightarrow> int option" where
  "forget i v = (if v = Some i then None else v)"

definition delete_asset :: "int \<Rightarrow> db \<Rightarrow> db" where
  "delete_asset i d =
     (if asset_exists d i
      then d\<lparr>db_assets := delete_rows (\<lambda>a. asset_ID a = i) (db_assets d),
             db_settings := (db_settings d)
               \<lparr>set_LoginLogo := forget i (set_LoginLogo (db_settings d)),
                set_NavLogo := forget i (set_NavLogo (db_settings d)),
                set_Favicon := forget i (set_Favicon (db_settings d))\<rparr>\<rparr>
      else d)"

definition queue_key :: "string \<Rightarrow> int \<Rightarrow> db \<Rightarrow> db" where
  "queue_key key now d =
     (if list_ex (\<lambda>c. fst c = key) (db_asset_cleanup d) then d
      else d\<lparr>db_asset_cleanup := db_asset_cleanup d @ [(key, now)]\<rparr>)"

text \<open>Dropping the asset a column named: read its key, delete the row, queue the key.\<close>

definition retire_asset :: "int \<Rightarrow> int option \<Rightarrow> db \<Rightarrow> db option" where
  "retire_asset now old d =
     (case old of
        None \<Rightarrow> Some d
      | Some i \<Rightarrow>
          (case find (\<lambda>a. asset_ID a = i) (db_assets d) of
             None \<Rightarrow> None
           | Some a \<Rightarrow> Some (queue_key (asset_OpaqueKey a) now (delete_asset i d))))"

definition replaceSiteAsset ::
    "bool \<Rightarrow> bool \<Rightarrow> int \<Rightarrow> db \<Rightarrow> string \<Rightarrow> asset_row \<Rightarrow> audit_event option \<Rightarrow> db \<times> (err + asset_row)" where
  "replaceSiteAsset flt afail now d kind a event =
     (if \<not> validAssetKind kind \<or> asset_OpaqueKey a = [] \<or> asset_ContentType a = [] \<or> asset_Size a < 0
         \<or> asset_Width a \<le> 0 \<or> asset_Height a \<le> 0
      then (d, Inl Invalid)
      else if flt then (d, Inl DbOther)
      else if list_ex (\<lambda>b. asset_OpaqueKey b = asset_OpaqueKey a) (db_assets d) then (d, Inl DbConflict)
      else
        (let i = next_id (map asset_ID (db_assets d));
             a' = a\<lparr>asset_ID := i, asset_Kind := kind, asset_CreatedAt := now, asset_UpdatedAt := now\<rparr>;
             old = logo_of kind (db_settings d);
             d1 = d\<lparr>db_assets := db_assets d @ [a'],
                    db_settings := set_logo kind (Some i) now (db_settings d)\<rparr> in
         case retire_asset now old d1 of
           None \<Rightarrow> (d, Inl DbOther)
         | Some d2 \<Rightarrow>
             (case event of
                None \<Rightarrow> (d2, Inr a')
              | Some e \<Rightarrow>
                  (case createAuditEventTx afail now d2 e of
                     Inl x \<Rightarrow> (d, Inl x)
                   | Inr d3 \<Rightarrow> (d3, Inr a')))))"

definition ReplaceSiteAsset ::
    "bool \<Rightarrow> int \<Rightarrow> db \<Rightarrow> string \<Rightarrow> asset_row \<Rightarrow> db \<times> (err + asset_row)" where
  "ReplaceSiteAsset flt now d kind a = replaceSiteAsset flt False now d kind a None"

definition ReplaceSiteAssetWithAudit ::
    "bool \<Rightarrow> bool \<Rightarrow> int \<Rightarrow> db \<Rightarrow> string \<Rightarrow> asset_row \<Rightarrow> audit_event \<Rightarrow> db \<times> (err + asset_row)" where
  "ReplaceSiteAssetWithAudit flt afail now d kind a e = replaceSiteAsset flt afail now d kind a (Some e)"

definition ResetSiteAssetWithAudit ::
    "bool \<Rightarrow> bool \<Rightarrow> int \<Rightarrow> db \<Rightarrow> string \<Rightarrow> audit_event \<Rightarrow> db \<times> (err + unit)" where
  "ResetSiteAssetWithAudit flt afail now d kind e =
     (if \<not> validAssetKind kind then (d, Inl Invalid)
      else if flt then (d, Inl DbOther)
      else
        (let old = logo_of kind (db_settings d);
             d1 = d\<lparr>db_settings := set_logo kind None now (db_settings d)\<rparr> in
         case retire_asset now old d1 of
           None \<Rightarrow> (d, Inl DbNotFound)
         | Some d2 \<Rightarrow>
             (case createAuditEventTx afail now d2 e of
                Inl x \<Rightarrow> (d, Inl x)
              | Inr d3 \<Rightarrow> (d3, Inr ()))))"

definition SiteAssetCleanupKeys :: "bool \<Rightarrow> db \<Rightarrow> int \<Rightarrow> err + string list" where
  "SiteAssetCleanupKeys flt d limit =
     (if limit \<le> 0 then Inr []
      else if flt then Inl DbOther
      else Inr (map fst (sql_limit limit (sort_key snd (sort_key fst (db_asset_cleanup d))))))"

definition CompleteSiteAssetCleanup :: "bool \<Rightarrow> db \<Rightarrow> string \<Rightarrow> db \<times> (err + unit)" where
  "CompleteSiteAssetCleanup flt d key =
     (if flt then (d, Inl DbOther)
      else (d\<lparr>db_asset_cleanup := delete_rows (\<lambda>c. fst c = key) (db_asset_cleanup d)\<rparr>, Inr ()))"

definition DeleteSiteAsset :: "bool \<Rightarrow> db \<Rightarrow> int \<Rightarrow> db \<times> (err + unit)" where
  "DeleteSiteAsset flt d i = (if flt then (d, Inl DbOther) else (delete_asset i d, Inr ()))"

definition PublicSiteAssetByID :: "bool \<Rightarrow> db \<Rightarrow> int \<Rightarrow> err + asset_row" where
  "PublicSiteAssetByID flt d i = query_row flt (\<lambda>a. asset_ID a = i) (db_assets d)"

section \<open>No configured asset is queued for removal\<close>

text \<open>
  Asset ids and keys are unique, every configured logo is an asset, and no asset's file is
  queued: the cleanup, which deletes the files of queued keys, never deletes one in use.
\<close>

definition logos :: "settings_row \<Rightarrow> int set" where
  "logos s = {i. set_LoginLogo s = Some i \<or> set_NavLogo s = Some i \<or> set_Favicon s = Some i}"

definition assets_inv :: "db \<Rightarrow> bool" where
  "assets_inv d \<longleftrightarrow>
     distinct (map asset_ID (db_assets d)) \<and> distinct (map asset_OpaqueKey (db_assets d))
     \<and> logos (db_settings d) \<subseteq> asset_ID ` set (db_assets d)
     \<and> asset_OpaqueKey ` set (db_assets d) \<inter> fst ` set (db_asset_cleanup d) = {}"

lemma asset_exists_iff: "asset_exists d i \<longleftrightarrow> i \<in> asset_ID ` set (db_assets d)"
  by (auto simp: asset_exists_def list_ex_iff)

lemma logo_in: "logo_of k s = Some i \<Longrightarrow> i \<in> logos s"
  by (auto simp: logo_of_def logos_def split: if_splits)

lemma logos_set: "logos (set_logo k v now s) \<subseteq> logos s \<union> set_option v"
  by (auto simp: set_logo_def logos_def split: if_splits)

lemma logos_forget:
  "logos (s\<lparr>set_LoginLogo := forget i (set_LoginLogo s), set_NavLogo := forget i (set_NavLogo s),
            set_Favicon := forget i (set_Favicon s)\<rparr>) = logos s - {i}"
  by (auto simp: logos_def forget_def split: if_splits)

lemma assets_inv_delete:
  assumes "assets_inv d"
  shows "assets_inv (delete_asset i d)"
  using assms distinct_delete_rows [of asset_ID "db_assets d"]
    distinct_delete_rows [of asset_OpaqueKey "db_assets d"]
  by (auto simp: assets_inv_def delete_asset_def logos_forget)

lemma keys_unique:
  "distinct (map g rows) \<Longrightarrow> a \<in> set rows \<Longrightarrow> b \<in> set rows \<Longrightarrow> g a = g b \<Longrightarrow> a = b"
  by (meson distinct_map inj_onD)

lemma assets_inv_retire:
  assumes inv: "assets_inv d" and op: "retire_asset now old d = Some d'"
  shows "assets_inv d'" and "db_audit d' = db_audit d" and "db_users d' = db_users d"
    and "db_roots d' = db_roots d"
proof -
  have "assets_inv d' \<and> db_audit d' = db_audit d \<and> db_users d' = db_users d \<and> db_roots d' = db_roots d"
  proof (cases old)
    case None
    with inv op show ?thesis by (simp add: retire_asset_def)
  next
    case (Some i)
    with op obtain a where a: "a \<in> set (db_assets d)" "asset_ID a = i"
      and d': "d' = queue_key (asset_OpaqueKey a) now (delete_asset i d)"
      by (auto simp: retire_asset_def dest: find_SomeD split: option.splits)
    have "asset_OpaqueKey b \<noteq> asset_OpaqueKey a"
      if "b \<in> set (db_assets d)" "asset_ID b \<noteq> i" for b
      using keys_unique [of asset_OpaqueKey "db_assets d" b a] inv a that by (auto simp: assets_inv_def)
    moreover have "asset_exists d i" using a by (auto simp: asset_exists_iff)
    ultimately have "asset_OpaqueKey a \<notin> asset_OpaqueKey ` set (db_assets (delete_asset i d))"
      unfolding delete_asset_def image_iff by (simp, metis)
    with assets_inv_delete [OF inv, of i] d' show ?thesis
      by (auto simp: queue_key_def assets_inv_def delete_asset_def)
  qed
  then show "assets_inv d'" "db_audit d' = db_audit d" "db_users d' = db_users d" "db_roots d' = db_roots d"
    by simp_all
qed

lemma assets_inv_same:
  "db_assets d' = db_assets d \<Longrightarrow> db_settings d' = db_settings d \<Longrightarrow>
   db_asset_cleanup d' = db_asset_cleanup d \<Longrightarrow> assets_inv d' = assets_inv d"
  by (simp add: assets_inv_def)

lemma createAuditEventTx_Inr:
  assumes "createAuditEventTx flt now d e = Inr d'"
  obtains i where "d' = d\<lparr>db_audit := db_audit d @ [stored_event i (prepareAuditEvent now e)]\<rparr>"
  using assms by (auto simp: createAuditEventTx_def dest: insert_audit_Inr(1) split: if_splits sum.splits)

lemma assets_inv_audit:
  assumes "assets_inv d" and "createAuditEventTx flt now d e = Inr d'"
  shows "assets_inv d'"
  by (rule createAuditEventTx_Inr [OF assms(2)]) (use assms(1) in \<open>simp add: assets_inv_def\<close>)

lemma assets_inv_replace:
  assumes inv: "assets_inv d" and op: "replaceSiteAsset flt afail now d kind a event = (d', r)"
    and fresh: "asset_OpaqueKey a \<notin> fst ` set (db_asset_cleanup d)"
  shows "assets_inv d'"
proof -
  let ?i = "next_id (map asset_ID (db_assets d))"
  let ?a = "a\<lparr>asset_ID := ?i, asset_Kind := kind, asset_CreatedAt := now, asset_UpdatedAt := now\<rparr>"
  let ?d1 = "d\<lparr>db_assets := db_assets d @ [?a], db_settings := set_logo kind (Some ?i) now (db_settings d)\<rparr>"
  consider "d' = d"
    | d2 where "\<forall>b \<in> set (db_assets d). asset_OpaqueKey b \<noteq> asset_OpaqueKey a"
        "retire_asset now (logo_of kind (db_settings d)) ?d1 = Some d2" "d' = d2"
    | d2 e where "\<forall>b \<in> set (db_assets d). asset_OpaqueKey b \<noteq> asset_OpaqueKey a"
        "retire_asset now (logo_of kind (db_settings d)) ?d1 = Some d2"
        "createAuditEventTx afail now d2 e = Inr d'"
    using op by (auto simp: replaceSiteAsset_def Let_def list_ex_iff
        split: if_splits option.splits sum.splits)
  moreover have d1: "assets_inv ?d1" if "\<forall>b \<in> set (db_assets d). asset_OpaqueKey b \<noteq> asset_OpaqueKey a"
    using inv that fresh next_id_fresh [of "map asset_ID (db_assets d)"]
      logos_set [of kind "Some ?i" now "db_settings d"]
    by (auto simp: assets_inv_def)
  ultimately show ?thesis
  proof cases
    case 1
    with inv show ?thesis by simp
  next
    case 2
    with assets_inv_retire(1) [OF d1] show ?thesis by simp
  next
    case (3 d2 e)
    have "assets_inv d2" by (rule assets_inv_retire(1) [OF d1 [OF 3(1)] 3(2)])
    with 3(3) show ?thesis by (rule assets_inv_audit [rotated])
  qed
qed

lemma assets_inv_reset:
  assumes inv: "assets_inv d" and op: "ResetSiteAssetWithAudit flt afail now d kind e = (d', r)"
  shows "assets_inv d'"
proof -
  let ?d1 = "d\<lparr>db_settings := set_logo kind None now (db_settings d)\<rparr>"
  consider "d' = d" | d2 where "retire_asset now (logo_of kind (db_settings d)) ?d1 = Some d2"
      "createAuditEventTx afail now d2 e = Inr d'"
    using op by (auto simp: ResetSiteAssetWithAudit_def Let_def split: if_splits option.splits sum.splits)
  moreover have d1: "assets_inv ?d1"
    using inv logos_set [of kind None now "db_settings d"] by (auto simp: assets_inv_def)
  ultimately show ?thesis
  proof cases
    case (2 d2)
    have "assets_inv d2" by (rule assets_inv_retire(1) [OF d1 2(1)])
    with 2(2) show ?thesis by (rule assets_inv_audit [rotated])
  qed (use inv in simp)
qed

lemma assets_inv_put_settings:
  assumes "assets_inv d" and "put_settings now d s = Inr d'"
  shows "assets_inv d'"
proof -
  have "list_all (\<lambda>v. case v of None \<Rightarrow> True | Some i \<Rightarrow> asset_exists d i)
      [nullableRootID (ss_LoginLogo s), nullableRootID (ss_NavLogo s), nullableRootID (ss_Favicon s)]"
    and d': "\<exists>t. d' = d\<lparr>db_settings := t\<rparr> \<and> set_LoginLogo t = nullableRootID (ss_LoginLogo s)
      \<and> set_NavLogo t = nullableRootID (ss_NavLogo s) \<and> set_Favicon t = nullableRootID (ss_Favicon s)"
    using assms(2) by (auto simp: put_settings_def Let_def split: if_splits)
  then have "logos (db_settings d') \<subseteq> asset_ID ` set (db_assets d)"
    by (auto simp: logos_def asset_exists_iff)
  moreover from d' obtain t where "d' = d\<lparr>db_settings := t\<rparr>" by blast
  ultimately show ?thesis using assms(1) by (simp add: assets_inv_def)
qed

lemma assets_inv_update:
  assumes inv: "assets_inv d" and op: "UpdateSiteSettingsWithAudit flt afail now d s e = (d', r)"
  shows "assets_inv d'"
proof -
  consider "d' = d" | d1 where "put_settings now d s = Inr d1" "createAuditEventTx afail now d1 e = Inr d'"
    using op by (auto simp: UpdateSiteSettingsWithAudit_def split: if_splits sum.splits)
  then show ?thesis
    by cases (use inv assets_inv_put_settings [OF inv] assets_inv_audit in \<open>blast+\<close>)
qed

text \<open>An accepted change is durable together with its audit event, or nothing changes.\<close>

definition audited :: "db \<Rightarrow> db \<Rightarrow> audit_event \<Rightarrow> int \<Rightarrow> bool" where
  "audited d d' e now \<longleftrightarrow> (\<exists>i. db_audit d' = db_audit d @ [stored_event i (prepareAuditEvent now e)])"

lemma retire_audit: "retire_asset now old d = Some d' \<Longrightarrow> db_audit d' = db_audit d"
  by (auto simp: retire_asset_def queue_key_def delete_asset_def split: option.splits if_splits)

lemma put_settings_audit: "put_settings now d s = Inr d' \<Longrightarrow> db_audit d' = db_audit d"
  by (auto simp: put_settings_def Let_def split: if_splits)

lemma site_changes_audited:
  "UpdateSiteSettingsWithAudit flt afail now d s e = (d', r) \<Longrightarrow> (if is_ok r then audited d d' e now else d' = d)"
  "ResetSiteAssetWithAudit flt afail now d kind e = (d', r2) \<Longrightarrow> (if is_ok r2 then audited d d' e now else d' = d)"
  "ReplaceSiteAssetWithAudit flt afail now d kind a e = (d', r3) \<Longrightarrow> (if is_ok r3 then audited d d' e now else d' = d)"
  unfolding UpdateSiteSettingsWithAudit_def ResetSiteAssetWithAudit_def ReplaceSiteAssetWithAudit_def
    replaceSiteAsset_def Let_def audited_def
  by (auto split: if_splits sum.splits option.splits elim!: createAuditEventTx_Inr
      dest!: put_settings_audit retire_audit)

end
