(* ===== verification/DbMd5.thy ===== *)
theory DbMd5
  imports DbInv DbUploads
begin

text \<open>
  Package \<open>internal/db\<close> (\<open>repository.go\<close>), the MD5 task queue: one task per file, claimed,
  completed, failed and requeued by single statements or transactions.
\<close>

section \<open>Operations\<close>

text \<open>The due tasks, in the order of the subquery; the update violates the table's
  \<open>attempts <= max_attempts\<close> check when the first of them has none left.\<close>

definition due_tasks :: "int \<Rightarrow> db \<Rightarrow> md5_task list" where
  "due_tasks now d =
     sort_key task_AvailableAt (sort_key task_FileID
       (filter (\<lambda>t. task_Status t = TaskPending \<and> task_AvailableAt t \<le> now) (db_tasks d)))"

definition claim :: "int \<Rightarrow> md5_task \<Rightarrow> md5_task" where
  "claim now t = t\<lparr>task_Status := TaskComputing, task_Attempts := task_Attempts t + 1,
                   task_ClaimedAt := Some now, task_UpdatedAt := now\<rparr>"

definition ClaimMD5Task :: "bool \<Rightarrow> int \<Rightarrow> db \<Rightarrow> db \<times> (err + md5_task)" where
  "ClaimMD5Task flt now d =
     (if flt then (d, Inl DbOther)
      else
        (case due_tasks now d of
           [] \<Rightarrow> (d, Inl DbNotFound)
         | t # _ \<Rightarrow>
             if task_Attempts t + 1 > task_MaxAttempts t then (d, Inl DbConflict)
             else (d\<lparr>db_tasks := update_rows (\<lambda>u. task_FileID u = task_FileID t \<and> task_Status u = TaskPending)
                       (claim now) (db_tasks d)\<rparr>, Inr (claim now t))))"

definition valid_digest :: "string \<Rightarrow> bool" where
  "valid_digest s \<longleftrightarrow> length s = 32 \<and> list_all is_lower_hex_char s"

definition CompleteMD5Task :: "bool \<Rightarrow> int \<Rightarrow> db \<Rightarrow> int \<Rightarrow> string \<Rightarrow> db \<times> (err + unit)" where
  "CompleteMD5Task flt now d i digest =
     (let P = (\<lambda>t. task_FileID t = i \<and> task_Status t = TaskComputing) in
      if \<not> valid_digest digest then (d, Inl Invalid)
      else if flt then (d, Inl DbOther)
      else if affected P (db_tasks d) \<noteq> 1 then (d, Inl DbNotFound)
      else
        (d\<lparr>db_tasks := update_rows P (\<lambda>t. t\<lparr>task_Status := TaskComplete, task_UpdatedAt := now\<rparr>) (db_tasks d),
           db_files := update_rows (\<lambda>f. file_ID f = i)
             (\<lambda>f. f\<lparr>file_MD5Status := MD5Ready, file_MD5Digest := digest, file_MD5Error := [],
                    file_UpdatedAt := now\<rparr>) (db_files d)\<rparr>, Inr ()))"

definition give_up :: "md5_task \<Rightarrow> bool" where
  "give_up t \<longleftrightarrow> task_Attempts t \<ge> task_MaxAttempts t"

definition FailMD5Task :: "bool \<Rightarrow> int \<Rightarrow> db \<Rightarrow> int \<Rightarrow> string \<Rightarrow> db \<times> (err + unit)" where
  "FailMD5Task flt now d i message =
     (let P = (\<lambda>t. task_FileID t = i \<and> task_Status t = TaskComputing);
          tasks = update_rows P
            (\<lambda>t. t\<lparr>task_Status := (if give_up t then TaskFailed else TaskPending),
                   task_AvailableAt := now, task_ClaimedAt := None, task_UpdatedAt := now\<rparr>) (db_tasks d);
          failed = list_ex (\<lambda>t. task_FileID t = i \<and> task_Status t = TaskFailed) tasks in
      if flt then (d, Inl DbOther)
      else if affected P (db_tasks d) \<noteq> 1 then (d, Inl DbNotFound)
      else
        (d\<lparr>db_tasks := tasks,
           db_files := update_rows (\<lambda>f. file_ID f = i)
             (\<lambda>f. f\<lparr>file_MD5Status := (if failed then MD5Failed else MD5Pending),
                    file_MD5Error := message, file_UpdatedAt := now\<rparr>) (db_files d)\<rparr>, Inr ()))"

text \<open>The stale claims, oldest first; a row without \<open>claimed_at\<close> is never stale.\<close>

definition stale_claims :: "int \<Rightarrow> int \<Rightarrow> db \<Rightarrow> md5_task list" where
  "stale_claims limit before d =
     sql_limit limit
       (sort_key (\<lambda>t. case task_ClaimedAt t of None \<Rightarrow> 0 | Some c \<Rightarrow> c) (sort_key task_FileID
         (filter (\<lambda>t. task_Status t = TaskComputing
                      \<and> (case task_ClaimedAt t of None \<Rightarrow> False | Some c \<Rightarrow> c \<le> before)) (db_tasks d))))"

definition RequeueComputingMD5Tasks :: "bool \<Rightarrow> int \<Rightarrow> db \<Rightarrow> int \<Rightarrow> int \<Rightarrow> db \<times> (err + int)" where
  "RequeueComputingMD5Tasks flt now d limit before =
     (if limit \<le> 0 then (d, Inr 0)
      else if flt then (d, Inl DbOther)
      else
        (let P = (\<lambda>t. task_FileID t \<in> set (map task_FileID (stale_claims limit before d))) in
         (d\<lparr>db_tasks := update_rows P
              (\<lambda>t. t\<lparr>task_Status := TaskPending, task_ClaimedAt := None, task_AvailableAt := now,
                     task_UpdatedAt := now\<rparr>) (db_tasks d)\<rparr>, Inr (affected P (db_tasks d)))))"

section \<open>Tasks and files agree\<close>

text \<open>
  A file without a task has MD5 disabled; otherwise its status mirrors its task.  Attempts
  stay within their bound, and a file that is ready has a digest.
\<close>

definition task_of :: "db \<Rightarrow> int \<Rightarrow> md5_task option" where
  "task_of d i = row_at task_FileID i (db_tasks d)"

fun status_of :: "md5_task option \<Rightarrow> string" where
  "status_of None = MD5Disabled"
| "status_of (Some t) =
     (case task_Status t of
        TaskPending \<Rightarrow> MD5Pending
      | TaskComputing \<Rightarrow> MD5Pending
      | TaskFailed \<Rightarrow> MD5Failed
      | TaskComplete \<Rightarrow> MD5Ready)"

definition attempts_ok :: "md5_task \<Rightarrow> bool" where
  "attempts_ok t \<longleftrightarrow> 0 \<le> task_Attempts t \<and> task_Attempts t \<le> task_MaxAttempts t"

definition md5_inv :: "db \<Rightarrow> bool" where
  "md5_inv d \<longleftrightarrow>
     distinct (map file_ID (db_files d)) \<and> distinct (map task_FileID (db_tasks d))
     \<and> task_FileID ` set (db_tasks d) \<subseteq> file_ID ` set (db_files d)
     \<and> list_all attempts_ok (db_tasks d)
     \<and> (\<forall>f \<in> set (db_files d). file_MD5Status f = status_of (task_of d (file_ID f))
          \<and> (file_MD5Status f = MD5Ready \<longrightarrow> valid_digest (file_MD5Digest f)))"

lemmas md5_statuses = MD5Disabled_def MD5Pending_def MD5Ready_def MD5Failed_def MD5Computing_def

lemma status_enum: "status_of t \<in> {MD5Disabled, MD5Pending, MD5Ready, MD5Failed}"
  by (cases t) (auto split: task_status.splits)

lemma set_due: "t \<in> set (due_tasks now d) \<longleftrightarrow>
    t \<in> set (db_tasks d) \<and> task_Status t = TaskPending \<and> task_AvailableAt t \<le> now"
  by (auto simp: due_tasks_def)

lemma task_iff: "md5_inv d \<Longrightarrow> task_of d i = Some t \<longleftrightarrow> t \<in> set (db_tasks d) \<and> task_FileID t = i"
  by (simp add: md5_inv_def task_of_def row_at_eq)

text \<open>The invariant over one task that moves, with its file.\<close>

lemma md5_inv_move:
  assumes inv: "md5_inv d" and t: "task_of d i = Some t" and Q: "Q t"
    and id: "\<And>t. task_FileID (g t) = task_FileID t" and ok: "attempts_ok (g t)"
    and fid: "\<And>f. file_ID (h f) = file_ID f"
    and st: "\<And>f. f \<in> set (db_files d) \<Longrightarrow> file_ID f = i \<Longrightarrow> file_MD5Status (h f) = status_of (Some (g t))
        \<and> (file_MD5Status (h f) = MD5Ready \<longrightarrow> valid_digest (file_MD5Digest (h f)))"
  shows "md5_inv (d\<lparr>db_tasks := update_rows (\<lambda>t. task_FileID t = i \<and> Q t) g (db_tasks d),
                    db_files := update_rows (\<lambda>f. file_ID f = i) h (db_files d)\<rparr>)"
    (is "md5_inv ?d")
proof -
  have dist: "distinct (map task_FileID (db_tasks d))" using inv by (simp add: md5_inv_def)
  have look: "task_of ?d j = (if j = i then Some (g t) else task_of d j)" for j
    using row_at_update [OF dist t [unfolded task_of_def], of Q g j] Q id by (simp add: task_of_def)
  have ids: "map task_FileID (db_tasks ?d) = map task_FileID (db_tasks d)"
    by (simp add: map_update_rows id)
  have fids: "file_ID ` set (db_files ?d) = file_ID ` set (db_files d)"
    by (simp add: image_update_rows fid)
  have att: "list_all attempts_ok (db_tasks ?d)"
  proof (simp add: list_all_iff, intro ballI)
    fix u assume "u \<in> set (update_rows (\<lambda>t. task_FileID t = i \<and> Q t) g (db_tasks d))"
    then obtain v where v: "v \<in> set (db_tasks d)"
      and u: "u = (if task_FileID v = i \<and> Q v then g v else v)" by (auto simp: update_rows_def)
    have "task_FileID v = i \<Longrightarrow> v = t"
      using t v task_iff [OF inv, of i v] by simp
    with u v ok inv show "attempts_ok u" by (auto simp: md5_inv_def list_all_iff)
  qed
  have files: "file_MD5Status f = status_of (task_of ?d (file_ID f))
      \<and> (file_MD5Status f = MD5Ready \<longrightarrow> valid_digest (file_MD5Digest f))"
    if f_in: "f \<in> set (db_files ?d)" for f
  proof -
    from f_in obtain f0 where f0: "f0 \<in> set (db_files d)" "f = (if file_ID f0 = i then h f0 else f0)"
      by (auto simp: update_rows_def)
    show ?thesis
    proof (cases "file_ID f0 = i")
      case True
      with f0 st [of f0] fid [of f0] look show ?thesis by simp
    next
      case False
      with f0 inv look show ?thesis by (simp add: md5_inv_def)
    qed
  qed
  have "distinct (map task_FileID (db_tasks ?d))" using dist unfolding ids .
  moreover have "task_FileID ` set (db_tasks ?d) \<subseteq> file_ID ` set (db_files ?d)"
    using inv arg_cong [OF ids, of set] fids by (simp add: md5_inv_def)
  moreover have "distinct (map file_ID (db_files ?d))"
    using inv by (simp add: map_update_rows fid md5_inv_def)
  ultimately show ?thesis using att files unfolding md5_inv_def by blast
qed

lemma update_rows_id [simp]: "update_rows P (\<lambda>r. r) rows = rows"
  by (simp add: update_rows_def)

lemma md5_inv_move_task:
  assumes inv: "md5_inv d" and t: "task_of d i = Some t" and Q: "Q t"
    and id: "\<And>t. task_FileID (g t) = task_FileID t" and ok: "attempts_ok (g t)"
    and st: "status_of (Some (g t)) = status_of (Some t)"
  shows "md5_inv (d\<lparr>db_tasks := update_rows (\<lambda>t. task_FileID t = i \<and> Q t) g (db_tasks d)\<rparr>)"
proof -
  have "md5_inv (d\<lparr>db_tasks := update_rows (\<lambda>t. task_FileID t = i \<and> Q t) g (db_tasks d),
                    db_files := update_rows (\<lambda>f. file_ID f = i) (\<lambda>f. f) (db_files d)\<rparr>)"
    by (rule md5_inv_move [where g = g and Q = Q, OF inv t Q id ok]) (use inv t st in \<open>auto simp: md5_inv_def\<close>)
  then show ?thesis by simp
qed

lemma ClaimMD5Task_cases:
  assumes inv: "md5_inv d" and op: "ClaimMD5Task flt now d = (d', r)"
  obtains (Claimed) t where "r = Inr (claim now t)" "task_of d (task_FileID t) = Some t" "task_Status t = TaskPending"
      "task_AvailableAt t \<le> now" "task_Attempts t < task_MaxAttempts t" "db_files d' = db_files d"
      "task_of d' = (task_of d)(task_FileID t \<mapsto> claim now t)" "md5_inv d'"
  | (Empty) "r = Inl DbNotFound" "d' = d" "\<And>t. t \<in> set (db_tasks d) \<Longrightarrow> task_Status t = TaskPending \<Longrightarrow> now < task_AvailableAt t"
  | (Poison) t where "r = Inl DbConflict" "d' = d" "t \<in> set (db_tasks d)" "task_Attempts t = task_MaxAttempts t"
  | (Fault) "r = Inl DbOther" "d' = d"
proof (cases flt)
  case True
  with op Fault show thesis by (simp add: ClaimMD5Task_def)
next
  case False
  note flt = this
  show thesis
  proof (cases "due_tasks now d")
    case Nil
    with op flt Empty set_due [of _ now d] show thesis by (force simp: ClaimMD5Task_def)
  next
    case (Cons t ts)
    then have due: "t \<in> set (db_tasks d)" "task_Status t = TaskPending" "task_AvailableAt t \<le> now"
      using set_due [of t now d] by simp_all
    have t: "task_of d (task_FileID t) = Some t" using task_iff [OF inv] due(1) by simp
    have ok: "attempts_ok t" using inv due(1) by (simp add: md5_inv_def list_all_iff)
    show thesis
    proof (cases "task_Attempts t + 1 > task_MaxAttempts t")
      case True
      with op flt Cons Poison due ok show thesis by (simp add: ClaimMD5Task_def attempts_ok_def)
    next
      case False
      let ?Q = "\<lambda>u. task_Status u = TaskPending"
      from False op flt Cons have d': "r = Inr (claim now t)"
        "d' = d\<lparr>db_tasks := update_rows (\<lambda>u. task_FileID u = task_FileID t \<and> ?Q u) (claim now) (db_tasks d)\<rparr>"
        by (simp_all add: ClaimMD5Task_def)
      have "md5_inv d'" unfolding d'(2)
        by (rule md5_inv_move_task [OF inv t]) (use due ok False in \<open>auto simp: claim_def attempts_ok_def\<close>)
      moreover have "task_of d' = (task_of d)(task_FileID t \<mapsto> claim now t)"
      proof
        fix j
        have L: "task_of d' j = map_option (\<lambda>u. if task_FileID u = task_FileID t \<and> ?Q u then claim now u else u) (task_of d j)"
          unfolding d'(2) task_of_def by (simp, rule row_at_update_rows) (simp add: claim_def)
        show "task_of d' j = ((task_of d)(task_FileID t \<mapsto> claim now t)) j"
        proof (cases "j = task_FileID t")
          case True
          with t due L show ?thesis by simp
        next
          case False
          have "task_of d' j = task_of d j"
          proof (cases "task_of d j")
            case (Some u)
            with task_iff [OF inv, of j u] False L show ?thesis by simp
          qed (simp add: L)
          with False show ?thesis by simp
        qed
      qed
      ultimately show thesis using Claimed d' t due False by simp
    qed
  qed
qed

lemma cas_task:
  assumes "md5_inv d"
  shows "affected (\<lambda>t. task_FileID t = i \<and> Q t) (db_tasks d) = 1 \<longleftrightarrow> (\<exists>t. task_of d i = Some t \<and> Q t)"
  using cas_iff [of task_FileID "db_tasks d" i Q] assms by (simp add: md5_inv_def task_of_def)

lemma CompleteMD5Task_inv:
  assumes inv: "md5_inv d" and op: "CompleteMD5Task flt now d i digest = (d', r)"
  shows "md5_inv d'" and "r = Inr () \<Longrightarrow> f \<in> set (db_files d') \<Longrightarrow> file_ID f = i \<Longrightarrow>
    file_MD5Status f = MD5Ready \<and> file_MD5Digest f = digest"
proof -
  have "md5_inv d' \<and> (r = Inr () \<longrightarrow> (\<forall>f \<in> set (db_files d'). file_ID f = i \<longrightarrow>
      file_MD5Status f = MD5Ready \<and> file_MD5Digest f = digest))"
  proof (cases "r = Inr ()")
    case False
    with op inv show ?thesis by (auto simp: CompleteMD5Task_def Let_def split: if_splits)
  next
    case True
    let ?Q = "\<lambda>t. task_Status t = TaskComputing"
    let ?g = "\<lambda>t. t\<lparr>task_Status := TaskComplete, task_UpdatedAt := now\<rparr>"
    let ?h = "\<lambda>f. f\<lparr>file_MD5Status := MD5Ready, file_MD5Digest := digest, file_MD5Error := [], file_UpdatedAt := now\<rparr>"
    from True op have dg: "valid_digest digest"
      and aff: "affected (\<lambda>t. task_FileID t = i \<and> ?Q t) (db_tasks d) = 1"
      and d': "d' = d\<lparr>db_tasks := update_rows (\<lambda>t. task_FileID t = i \<and> ?Q t) ?g (db_tasks d),
        db_files := update_rows (\<lambda>f. file_ID f = i) ?h (db_files d)\<rparr>"
      by (simp_all add: CompleteMD5Task_def Let_def split: if_splits)
    from aff obtain t where t: "task_of d i = Some t" "?Q t" using cas_task [OF inv, of i ?Q] by auto
    have "attempts_ok t"
      using inv task_iff [OF inv, of i t] t(1) by (simp add: md5_inv_def list_all_iff)
    then have g: "attempts_ok (?g t)" by (simp add: attempts_ok_def)
    have "md5_inv d'" unfolding d'
      by (rule md5_inv_move [where Q = ?Q and g = ?g and h = ?h, OF inv t _ g]) (simp_all add: dg)
    moreover have "\<forall>f \<in> set (db_files d'). file_ID f = i \<longrightarrow> file_MD5Status f = MD5Ready \<and> file_MD5Digest f = digest"
    proof (intro ballI impI)
      fix f assume "f \<in> set (db_files d')" and i: "file_ID f = i"
      then have "f \<in> set (update_rows (\<lambda>f. file_ID f = i) ?h (db_files d))" by (simp add: d')
      from update_rowsD [OF this] obtain f0 where "f = (if file_ID f0 = i then ?h f0 else f0)" by blast
      with i show "file_MD5Status f = MD5Ready \<and> file_MD5Digest f = digest"
        by (cases "file_ID f0 = i") simp_all
    qed
    ultimately show ?thesis by simp
  qed
  then show "md5_inv d'" and "r = Inr () \<Longrightarrow> f \<in> set (db_files d') \<Longrightarrow> file_ID f = i \<Longrightarrow>
    file_MD5Status f = MD5Ready \<and> file_MD5Digest f = digest" by simp_all
qed

lemma FailMD5Task_inv:
  assumes inv: "md5_inv d" and op: "FailMD5Task flt now d i message = (d', r)"
  shows "md5_inv d'"
proof (cases "r = Inr ()")
  case False
  with op inv show ?thesis by (auto simp: FailMD5Task_def Let_def split: if_splits)
next
  case True
  let ?Q = "\<lambda>t. task_Status t = TaskComputing"
  let ?g = "\<lambda>t. t\<lparr>task_Status := (if give_up t then TaskFailed else TaskPending), task_AvailableAt := now,
      task_ClaimedAt := None, task_UpdatedAt := now\<rparr>"
  let ?tasks = "update_rows (\<lambda>t. task_FileID t = i \<and> ?Q t) ?g (db_tasks d)"
  define failed where "failed \<longleftrightarrow> list_ex (\<lambda>t. task_FileID t = i \<and> task_Status t = TaskFailed) ?tasks"
  let ?h = "\<lambda>f. f\<lparr>file_MD5Status := (if failed then MD5Failed else MD5Pending), file_MD5Error := message,
      file_UpdatedAt := now\<rparr>"
  from True op have aff: "affected (\<lambda>t. task_FileID t = i \<and> ?Q t) (db_tasks d) = 1"
    and d': "d' = d\<lparr>db_tasks := ?tasks, db_files := update_rows (\<lambda>f. file_ID f = i) ?h (db_files d)\<rparr>"
    by (simp_all add: FailMD5Task_def Let_def failed_def split: if_splits)
  from aff obtain t where t: "task_of d i = Some t" "?Q t" using cas_task [OF inv, of i ?Q] by auto
  have ok: "attempts_ok t" using inv task_iff [OF inv, of i t] t(1) by (simp add: md5_inv_def list_all_iff)
  have only: "u = t" if "u \<in> set (db_tasks d)" "task_FileID u = i" for u
    using task_iff [OF inv, of i u] that t(1) by simp
  have tin: "t \<in> set (db_tasks d)" "task_FileID t = i" using task_iff [OF inv, of i t] t(1) by simp_all
  have "failed \<longleftrightarrow> give_up t"
  proof
    assume failed
    then obtain u where u: "u \<in> set ?tasks" "task_FileID u = i" "task_Status u = TaskFailed"
      by (auto simp: failed_def list_ex_iff)
    from update_rowsD [OF u(1)] obtain v where v: "v \<in> set (db_tasks d)"
      "u = (if task_FileID v = i \<and> ?Q v then ?g v else v)" by blast
    then have "task_FileID v = i" using u(2) by (cases "task_FileID v = i \<and> ?Q v") simp_all
    with only v t(2) u(3) show "give_up t" by (simp split: if_splits)
  next
    assume "give_up t"
    then have "task_Status (?g t) = TaskFailed" and "task_FileID (?g t) = i" using tin by simp_all
    moreover have "?g t \<in> set ?tasks"
      by (rule update_rowsI [where f = ?g]) (use tin t(2) in simp_all)
    ultimately show failed unfolding failed_def list_ex_iff by blast
  qed
  then have st: "status_of (Some (?g t)) = (if failed then MD5Failed else MD5Pending)" by simp
  have g: "attempts_ok (?g t)" using ok by (simp add: attempts_ok_def)
  show ?thesis unfolding d'
    by (rule md5_inv_move [where Q = ?Q and g = ?g and h = ?h, OF inv t _ g])
      (simp_all add: st md5_statuses del: status_of.simps)
qed

text \<open>Requeueing moves several tasks; none changes what its file shows.\<close>

lemma md5_inv_same_view:
  assumes inv: "md5_inv d" and g: "\<And>t. P t \<Longrightarrow> t \<in> set (db_tasks d) \<Longrightarrow>
      task_FileID (g t) = task_FileID t \<and> status_of (Some (g t)) = status_of (Some t) \<and> (attempts_ok t \<longrightarrow> attempts_ok (g t))"
  shows "md5_inv (d\<lparr>db_tasks := update_rows P g (db_tasks d)\<rparr>)"
proof -
  have st: "status_of (task_of (d\<lparr>db_tasks := update_rows P g (db_tasks d)\<rparr>) i) = status_of (task_of d i)" for i
  proof (cases "task_of d i")
    case None
    with g show ?thesis by (simp add: task_of_def row_at_update_rows)
  next
    case (Some t)
    with task_iff [OF inv, of i t] g [of t] show ?thesis
      using g by (simp add: task_of_def row_at_update_rows)
  qed
  have ids: "map task_FileID (update_rows P g (db_tasks d)) = map task_FileID (db_tasks d)"
    using g by (auto simp: update_rows_def)
  have "task_FileID ` set (update_rows P g (db_tasks d)) = task_FileID ` set (db_tasks d)"
    using arg_cong [OF ids, of set] by simp
  moreover have "list_all attempts_ok (update_rows P g (db_tasks d))"
    using inv g by (auto simp: md5_inv_def list_all_iff update_rows_def)
  ultimately show ?thesis using inv ids st by (simp add: md5_inv_def)
qed

lemma RequeueComputingMD5Tasks_inv:
  assumes inv: "md5_inv d" and op: "RequeueComputingMD5Tasks flt now d limit before = (d', r)"
  shows "md5_inv d'" and "r = Inr n \<Longrightarrow> n \<le> max 0 limit"
proof -
  let ?P = "\<lambda>t. task_FileID t \<in> set (map task_FileID (stale_claims limit before d))"
  let ?g = "\<lambda>t. t\<lparr>task_Status := TaskPending, task_ClaimedAt := None, task_AvailableAt := now, task_UpdatedAt := now\<rparr>"
  have stale: "set (stale_claims limit before d) \<subseteq> {t \<in> set (db_tasks d). task_Status t = TaskComputing}"
    using set_sql_limit unfolding stale_claims_def by fastforce
  have comp: "task_Status t = TaskComputing" if "?P t" "t \<in> set (db_tasks d)" for t
  proof -
    from that(1) obtain u where u: "u \<in> set (stale_claims limit before d)" "task_FileID u = task_FileID t" by auto
    with stale have "u \<in> set (db_tasks d)" "task_Status u = TaskComputing" by auto
    with u(2) that(2) task_iff [OF inv, of "task_FileID t"] show ?thesis by (metis option.inject)
  qed
  have "md5_inv (d\<lparr>db_tasks := update_rows ?P ?g (db_tasks d)\<rparr>)"
    by (rule md5_inv_same_view [OF inv]) (use comp in \<open>auto simp: attempts_ok_def\<close>)
  with op inv show "md5_inv d'"
    by (auto simp: RequeueComputingMD5Tasks_def Let_def split: if_splits)
  have "affected ?P (db_tasks d) \<le> int (length (stale_claims limit before d))"
  proof -
    have dist: "distinct (map task_FileID (db_tasks d))" using inv by (simp add: md5_inv_def)
    have "card (set (filter ?P (db_tasks d))) \<le> card (set (stale_claims limit before d))"
    proof (rule card_mono)
      show "set (filter ?P (db_tasks d)) \<subseteq> set (stale_claims limit before d)"
      proof
        fix t assume "t \<in> set (filter ?P (db_tasks d))"
        then obtain u where u: "t \<in> set (db_tasks d)" "u \<in> set (stale_claims limit before d)" "task_FileID u = task_FileID t"
          by auto
        with stale have "u \<in> set (db_tasks d)" by auto
        with u task_iff [OF inv, of "task_FileID t"] have "u = t" by (metis option.inject)
        with u show "t \<in> set (stale_claims limit before d)" by simp
      qed
    qed simp
    moreover have "card (set (filter ?P (db_tasks d))) = length (filter ?P (db_tasks d))"
      using dist by (intro distinct_card distinct_filter) (simp add: distinct_map)
    ultimately show ?thesis
      using card_length [of "stale_claims limit before d"] unfolding affected_def by linarith
  qed
  moreover have "0 < limit \<Longrightarrow> int (length (stale_claims limit before d)) \<le> limit"
    by (simp add: stale_claims_def sql_limit_def)
  ultimately show "r = Inr n \<Longrightarrow> n \<le> max 0 limit"
    using op by (auto simp: RequeueComputingMD5Tasks_def Let_def split: if_splits)
qed

section \<open>Files come and go\<close>

lemma md5_inv_update_files:
  assumes inv: "md5_inv d"
    and f: "\<And>r. P r \<Longrightarrow> file_ID (f r) = file_ID r \<and> file_MD5Status (f r) = file_MD5Status r
      \<and> file_MD5Digest (f r) = file_MD5Digest r"
  shows "md5_inv (d\<lparr>db_files := update_rows P f (db_files d)\<rparr>)"
proof -
  have ids: "map file_ID (update_rows P f (db_files d)) = map file_ID (db_files d)"
    using f by (intro map_update_rows) simp
  have "file_MD5Status x = status_of (task_of d (file_ID x)) \<and> (file_MD5Status x = MD5Ready \<longrightarrow> valid_digest (file_MD5Digest x))"
    if "x \<in> set (update_rows P f (db_files d))" for x
  proof -
    from update_rowsD [OF that] obtain r where r: "r \<in> set (db_files d)" "x = (if P r then f r else r)" by blast
    then have "file_ID x = file_ID r" "file_MD5Status x = file_MD5Status r" "file_MD5Digest x = file_MD5Digest r"
      using f by simp_all
    with inv r(1) show ?thesis by (simp add: md5_inv_def)
  qed
  then show ?thesis
    using inv ids image_update_rows [of P file_ID f "db_files d"] f by (simp add: md5_inv_def task_of_def)
qed

lemma insert_file_Inr:
  assumes "insert_file d f = Inr (f', d')"
  shows "f' = f\<lparr>file_ID := next_id (map file_ID (db_files d))\<rparr>" "d' = d\<lparr>db_files := db_files d @ [f']\<rparr>"
    "file_ID f' \<notin> file_ID ` set (db_files d)"
  using assms next_id_fresh [of "map file_ID (db_files d)"]
  by (auto simp: insert_file_def Let_def split: if_splits)

text \<open>A new file, with the task it needs.\<close>

lemma md5_inv_new_file:
  assumes inv: "md5_inv d" and new: "file_ID f \<notin> file_ID ` set (db_files d)"
    and ts: "ts = [] \<and> file_MD5Status f = MD5Disabled
      \<or> (\<exists>t. ts = [t] \<and> task_FileID t = file_ID f \<and> task_Status t = TaskPending \<and> attempts_ok t \<and> file_MD5Status f = MD5Pending)"
  shows "md5_inv (d\<lparr>db_files := db_files d @ [f], db_tasks := db_tasks d @ ts\<rparr>)"
proof -
  have sub: "task_FileID ` set (db_tasks d) \<subseteq> file_ID ` set (db_files d)" using inv by (simp add: md5_inv_def)
  have old: "row_at task_FileID (file_ID g) (db_tasks d @ ts) = row_at task_FileID (file_ID g) (db_tasks d)"
    if "g \<in> set (db_files d)" for g
    using ts new that by (auto simp: row_at_append image_iff split: option.splits)
  have none: "row_at task_FileID (file_ID f) (db_tasks d) = None"
    using sub new by (auto simp: row_at_None)
  have other: "task_FileID x \<noteq> file_ID f" if "x \<in> set (db_tasks d)" for x
    using sub new that by (metis image_eqI subsetD)
  have st: "file_MD5Status f = status_of (row_at task_FileID (file_ID f) (db_tasks d @ ts)) \<and> file_MD5Status f \<noteq> MD5Ready"
    using ts none by (auto simp: row_at_append md5_statuses)
  show ?thesis
    using inv new ts sub st old other unfolding md5_inv_def task_of_def by (auto simp: list_all_iff)
qed

lemma md5_inv_CreateFile:
  assumes inv: "md5_inv d" and op: "CreateFile flt now d f = (d', r)"
  shows "md5_inv d'"
proof -
  define row where "row = f\<lparr>file_CreatedAt := utcOrNow now (file_CreatedAt f),
    file_UpdatedAt := updatedOr (utcOrNow now (file_CreatedAt f)) (file_UpdatedAt f),
    file_DeleteState := FileActive, file_MD5Status := MD5Disabled, file_MD5Digest := [], file_MD5Error := []\<rparr>"
  have st: "file_MD5Status row = MD5Disabled" by (simp add: row_def)
  from op consider "d' = d" | f' where "insert_file d row = Inr (f', d')"
    unfolding CreateFile_def Let_def row_def [symmetric] by (auto split: if_splits sum.splits)
  then show ?thesis
  proof cases
    case (2 f')
    note i = insert_file_Inr [OF 2]
    have "md5_inv (d\<lparr>db_files := db_files d @ [f'], db_tasks := db_tasks d @ []\<rparr>)"
      by (rule md5_inv_new_file [OF inv i(3)]) (simp add: i(1) st)
    with i(2) show ?thesis by simp
  qed (use inv in simp)
qed

lemma md5_inv_uploads: "md5_inv (d\<lparr>db_uploads := us\<rparr>) = md5_inv d"
  by (simp add: md5_inv_def task_of_def)

lemma md5_inv_CompleteUpload:
  assumes inv: "md5_inv d" and op: "CompleteUpload flt now d f sid = (d', r)"
  shows "md5_inv d'"
proof -
  define md5 where "md5 \<longleftrightarrow> set_MD5Enabled (db_settings d)"
  define created where "created = utcOrNow now (file_CreatedAt f)"
  define updated where "updated = updatedOr created (file_UpdatedAt f)"
  define row where "row = f\<lparr>file_CreatedAt := created, file_UpdatedAt := updated,
    file_DeleteState := FileActive, file_MD5Status := (if md5 then MD5Pending else MD5Disabled),
    file_MD5Digest := [], file_MD5Error := []\<rparr>"
  define d0 where "d0 = d\<lparr>db_uploads := delete_rows (\<lambda>s. up_ID s = sid \<and> up_Status s = Active \<and> up_ExpiresAt s > now) (db_uploads d)\<rparr>"
  define t where "t i = \<lparr>task_FileID = i, task_Status = TaskPending, task_Attempts = 0, task_MaxAttempts = 3,
    task_AvailableAt = created, task_ClaimedAt = None, task_CreatedAt = created, task_UpdatedAt = updated\<rparr>" for i
  have inv0: "md5_inv d0" using inv by (simp add: d0_def md5_inv_uploads)
  have st: "file_MD5Status row = (if md5 then MD5Pending else MD5Disabled)" by (simp add: row_def)
  from op consider "d' = d"
    | f' d1 where "insert_file d0 row = Inr (f', d1)" "d' = (if md5 then d1\<lparr>db_tasks := db_tasks d1 @ [t (file_ID f')]\<rparr> else d1)"
    unfolding CompleteUpload_def Let_def created_def [symmetric] updated_def [symmetric] md5_def [symmetric]
      row_def [symmetric] d0_def [symmetric] t_def [symmetric]
    by (auto split: if_splits sum.splits)
  then show ?thesis
  proof cases
    case (2 f' d1)
    note i = insert_file_Inr [OF 2(1)]
    have "md5_inv (d0\<lparr>db_files := db_files d0 @ [f'], db_tasks := db_tasks d0 @ (if md5 then [t (file_ID f')] else [])\<rparr>)"
      by (rule md5_inv_new_file [OF inv0 i(3)]) (simp add: i(1) st t_def attempts_ok_def)
    with 2(2) i(2) show ?thesis by (cases md5) simp_all
  qed (use inv in simp)
qed

lemma md5_inv_delete_files:
  assumes inv: "md5_inv d"
  shows "md5_inv (delete_files P d)"
proof -
  let ?gone = "\<lambda>t. list_ex (\<lambda>f. P f \<and> file_ID f = task_FileID t) (db_files d)"
  have unique: "g = f" if "g \<in> set (db_files d)" "f \<in> set (db_files d)" "file_ID g = file_ID f" for f g
    using inv that by (auto simp: md5_inv_def distinct_map inj_on_def)
  have look: "row_at task_FileID (file_ID f) (delete_rows ?gone (db_tasks d)) = row_at task_FileID (file_ID f) (db_tasks d)"
    if f: "f \<in> set (db_files d)" "\<not> P f" for f
  proof -
    have keep: "\<not> ?gone t" if "task_FileID t = file_ID f" for t
      using unique [OF _ f(1)] f(2) that by (auto simp: list_ex_iff)
    have "row_at task_FileID (file_ID f) (delete_rows ?gone rows) = row_at task_FileID (file_ID f) rows" for rows
      using keep by (induction rows) (auto simp: delete_rows_def)
    then show ?thesis .
  qed
  have "task_FileID ` set (delete_rows ?gone (db_tasks d)) \<subseteq> file_ID ` set (delete_rows P (db_files d))"
  proof
    fix i assume "i \<in> task_FileID ` set (delete_rows ?gone (db_tasks d))"
    then obtain t where t: "t \<in> set (db_tasks d)" "\<not> ?gone t" "i = task_FileID t" by auto
    moreover have "task_FileID t \<in> file_ID ` set (db_files d)" using inv t(1) by (auto simp: md5_inv_def)
    ultimately obtain f where f: "f \<in> set (db_files d)" "file_ID f = i" by auto
    with t have "\<not> P f" by (auto simp: list_ex_iff)
    with f show "i \<in> file_ID ` set (delete_rows P (db_files d))" by auto
  qed
  with inv look show ?thesis
    unfolding md5_inv_def delete_files_def task_of_def
    by (simp add: distinct_delete_rows list_all_iff)
qed

section \<open>The queue as a transition system\<close>

inductive md5_step :: "db \<Rightarrow> db \<Rightarrow> bool" where
  md5_claim: "ClaimMD5Task flt now d = (d', r) \<Longrightarrow> md5_step d d'"
| md5_complete: "CompleteMD5Task flt now d i digest = (d', r2) \<Longrightarrow> md5_step d d'"
| md5_fail: "FailMD5Task flt now d i message = (d', r2) \<Longrightarrow> md5_step d d'"
| md5_requeue: "RequeueComputingMD5Tasks flt now d limit before = (d', r3) \<Longrightarrow> md5_step d d'"
| md5_create: "CreateFile flt now d f = (d', r4) \<Longrightarrow> md5_step d d'"
| md5_upload: "CompleteUpload flt now d f sid = (d', r2) \<Longrightarrow> md5_step d d'"
| md5_rename: "RenameFile flt now d i old new = (d', r2) \<Longrightarrow> md5_step d d'"
| md5_begin: "BeginFileDelete flt now d i key = (d', r2) \<Longrightarrow> md5_step d d'"
| md5_finalize: "FinalizeFileDelete flt d i key = (d', r2) \<Longrightarrow> md5_step d d'"
| md5_delete: "DeleteFile flt d i = (d', r2) \<Longrightarrow> md5_step d d'"

lemma md5_step_inv: "md5_step d d' \<Longrightarrow> md5_inv d \<Longrightarrow> md5_inv d'"
proof (induction rule: md5_step.induct)
  case md5_claim
  then show ?case by (auto elim: ClaimMD5Task_cases)
next
  case md5_complete
  then show ?case by (blast intro: CompleteMD5Task_inv(1))
next
  case md5_fail
  then show ?case by (blast intro: FailMD5Task_inv)
next
  case md5_requeue
  then show ?case by (blast intro: RequeueComputingMD5Tasks_inv(1))
next
  case md5_create
  then show ?case by (blast intro: md5_inv_CreateFile)
next
  case md5_upload
  then show ?case by (blast intro: md5_inv_CompleteUpload)
next
  case (md5_rename flt now d i old new d' r2)
  then show ?case
    using md5_inv_update_files [of d "\<lambda>f. file_ID f = i \<and> file_LogicalPath f = old \<and> file_DeleteState f = FileActive"
        "\<lambda>f. f\<lparr>file_LogicalPath := new, file_UpdatedAt := now\<rparr>"]
    by (auto simp: RenameFile_def Let_def split: if_splits)
next
  case (md5_begin flt now d i key d' r2)
  then show ?case
    using md5_inv_update_files [of d "\<lambda>f. file_ID f = i \<and> file_ObjectKey f = key \<and> file_DeleteState f = FileActive"
        "\<lambda>f. f\<lparr>file_DeleteState := FileDeleting, file_UpdatedAt := now\<rparr>"]
    by (auto simp: BeginFileDelete_def Let_def split: if_splits)
next
  case md5_finalize
  then show ?case by (auto simp: FinalizeFileDelete_def Let_def md5_inv_delete_files split: if_splits)
next
  case md5_delete
  then show ?case by (auto simp: DeleteFile_def Let_def md5_inv_delete_files split: if_splits)
qed

interpretation md5_queue: invariant_system md5_step md5_inv
  by unfold_locales (rule md5_step_inv)

end
