(* ===== verification/Checksum.thy ===== *)
theory Checksum
  imports DbMd5 Upload
begin

text \<open>
  Package \<open>internal/checksum\<close> (\<open>worker.go\<close>): the worker that computes the MD5 digests of
  published files.  The goroutines of a batch are an explicit schedule: before each claim some
  of the tasks in flight finish, in any order, and no more run than the concurrency allows.
  MD5 is the parameter \<open>md5\<close>, the text of an error the parameter \<open>msg\<close>, and \<open>env\<close> is
  what other processes do to the database between reading an object and storing its digest.
\<close>

section \<open>One task\<close>

record task_faults =
  lookup_fails :: bool
  open_fault :: io_fault
  read_fails :: bool
  persist_fails :: bool

definition no_task_faults :: task_faults where
  "no_task_faults = \<lparr>lookup_fails = False, open_fault = NoFault, read_fails = False, persist_fails = False\<rparr>"

definition fail_task ::
    "task_faults \<Rightarrow> int \<Rightarrow> int \<Rightarrow> string \<Rightarrow> db \<Rightarrow> db \<times> err option" where
  "fail_task F now i message d =
     (case FailMD5Task (persist_fails F) now d i message of
        (d', Inl e) \<Rightarrow> (d', Some e)
      | (d', Inr ()) \<Rightarrow> (d', None))"

definition process ::
    "(string \<Rightarrow> string) \<Rightarrow> (err \<Rightarrow> string) \<Rightarrow> task_faults \<Rightarrow> int \<Rightarrow> (db \<Rightarrow> db) \<Rightarrow> object_store
     \<Rightarrow> int \<Rightarrow> db \<Rightarrow> db \<times> err option" where
  "process md5 msg F now env store i d =
     (case FileByID (lookup_fails F) d i of
        Inl DbNotFound \<Rightarrow> (d, None)
      | Inl e \<Rightarrow> fail_task F now i (msg e) d
      | Inr f \<Rightarrow>
          (case store_Open (open_fault F) (file_ObjectKey f) store of
             Inl NotExist \<Rightarrow> fail_task F now i ''object missing'' d
           | Inl e \<Rightarrow> fail_task F now i (msg e) d
           | Inr content \<Rightarrow>
               if read_fails F then fail_task F now i (msg IoError) d
               else
                 (case CompleteMD5Task (persist_fails F) now (env d) i (hex_encode (md5 content)) of
                    (d', Inl e) \<Rightarrow> (d', Some e)
                  | (d', Inr ()) \<Rightarrow> (d', None))))"

section \<open>One batch\<close>

record worker_options =
  Concurrency :: int
  MaxTasksPerRun :: int
  RecoveryLimit :: int
  Lease :: int

definition NewWorker :: "worker_options \<Rightarrow> worker_options" where
  "NewWorker o0 =
     (let o1 = (if Concurrency o0 \<le> 0 then o0\<lparr>Concurrency := 1\<rparr> else o0);
          o2 = (if MaxTasksPerRun o1 \<le> 0 then o1\<lparr>MaxTasksPerRun := 1\<rparr> else o1);
          o3 = (if RecoveryLimit o2 \<le> 0 then o2\<lparr>RecoveryLimit := MaxTasksPerRun o2\<rparr> else o2) in
      if Lease o3 \<le> 0 then o3\<lparr>Lease := 5 * 60 * 1000000000\<rparr> else o3)"

text \<open>The state of a batch: the database, the tasks in flight, how many are done, and the errors.\<close>

type_synonym batch = "db \<times> int list \<times> nat \<times> err list"

definition finish_at :: "(int \<Rightarrow> db \<Rightarrow> db \<times> err option) \<Rightarrow> nat \<Rightarrow> batch \<Rightarrow> batch" where
  "finish_at p k b =
     (case b of (d, ts, n, es) \<Rightarrow>
        if ts = [] then b
        else
          (let j = k mod length ts in
           case p (ts ! j) d of
             (d', e) \<Rightarrow> (d', take j ts @ drop (Suc j) ts, Suc n,
                        es @ (case e of None \<Rightarrow> [] | Some x \<Rightarrow> [x]))))"

definition finish_many :: "(int \<Rightarrow> db \<Rightarrow> db \<times> err option) \<Rightarrow> nat list \<Rightarrow> batch \<Rightarrow> batch" where
  "finish_many p ks b = fold (finish_at p) ks b"

definition drain :: "(int \<Rightarrow> db \<Rightarrow> db \<times> err option) \<Rightarrow> batch \<Rightarrow> batch" where
  "drain p b = finish_many p (replicate (length (fst (snd b))) 0) b"

text \<open>
  What a schedule decides for each turn of the claiming loop: which tasks finish first,
  whether the context is cancelled, the clock, whether the claim fails, and whether the
  cancellation wins against handing the task over.
\<close>

record turn =
  finishes :: "nat list"
  cancelled :: bool
  clock :: int
  claim_fails :: bool
  gives_up :: bool

fun claim_loop ::
    "(int \<Rightarrow> db \<Rightarrow> db \<times> err option) \<Rightarrow> nat \<Rightarrow> turn list \<Rightarrow> batch \<Rightarrow> batch \<times> err option" where
  "claim_loop p conc [] b = (drain p b, None)"
| "claim_loop p conc (t # turns) b =
     (let b1 = finish_many p (finishes t) b in
      if cancelled t then (drain p b1, Some Cancelled)
      else
        (case ClaimMD5Task (claim_fails t) (clock t) (fst b1) of
           (d, Inl DbNotFound) \<Rightarrow> (drain p (d, snd b1), None)
         | (d, Inl e) \<Rightarrow> (drain p (d, snd b1), Some e)
         | (d, Inr task) \<Rightarrow>
             (let ts = fst (snd b1);
                  b2 = finish_many p (replicate (Suc (length ts) - conc) 0) (d, snd b1) in
              if gives_up t then (drain p b2, Some Cancelled)
              else
                (case b2 of (d2, ts2, n, es) \<Rightarrow>
                   claim_loop p conc turns (d2, ts2 @ [task_FileID task], n, es)))))"

text \<open>The schedule has one turn for each iteration of the loop at most.\<close>

definition RunOnce ::
    "worker_options \<Rightarrow> (int \<Rightarrow> db \<Rightarrow> db \<times> err option) \<Rightarrow> bool \<Rightarrow> int \<Rightarrow> turn list \<Rightarrow> db
     \<Rightarrow> db \<times> nat \<times> err option" where
  "RunOnce w p flt now turns d =
     (case RequeueComputingMD5Tasks flt now d (RecoveryLimit w) (now - Lease w) of
        (d1, Inl e) \<Rightarrow> (d1, 0, Some e)
      | (d1, Inr _) \<Rightarrow>
          (case claim_loop p (nat (Concurrency w)) (take (nat (MaxTasksPerRun w)) turns) (d1, [], 0, []) of
             ((d2, _, n, es), Some e) \<Rightarrow> (d2, n, Some e)
           | ((d2, _, n, es), None) \<Rightarrow> (d2, n, (case es of [] \<Rightarrow> None | e # _ \<Rightarrow> Some e))))"

text \<open>
  \<open>Run\<close>: batches until an error or a cancellation.  A round is a batch, whether the context
  was cancelled when it failed, and whether it was cancelled while waiting for the next one;
  \<open>None\<close> is still running.
\<close>

fun run_rounds :: "((db \<Rightarrow> db \<times> nat \<times> err option) \<times> bool \<times> bool) list \<Rightarrow> db \<Rightarrow> db \<times> (err + unit) option" where
  "run_rounds [] d = (d, None)"
| "run_rounds ((once, during, waiting) # rounds) d =
     (case once d of
        (d', _, Some e) \<Rightarrow> (d', Some (if during then Inr () else Inl e))
      | (d', _, None) \<Rightarrow> if waiting then (d', Some (Inr ())) else run_rounds rounds d')"

definition Run ::
    "int \<Rightarrow> ((db \<Rightarrow> db \<times> nat \<times> err option) \<times> bool \<times> bool) list \<Rightarrow> db \<Rightarrow> db \<times> (err + unit) option" where
  "Run interval rounds d = (if interval \<le> 0 then (d, Some (Inl Invalid)) else run_rounds rounds d)"

section \<open>The queue's invariant through a batch\<close>

text \<open>
  The contract between the worker and what it runs for a task: it keeps the invariant of the
  queue.  Every schedule of every batch then does.
\<close>

locale task_runner =
  fixes p :: "int \<Rightarrow> db \<Rightarrow> db \<times> err option"
  assumes runs_inv: "md5_inv d \<Longrightarrow> md5_inv (fst (p i d))"
begin

lemma finish_at_inv: "md5_inv (fst b) \<Longrightarrow> md5_inv (fst (finish_at p k b))"
  using runs_inv by (cases b) (auto simp: finish_at_def Let_def split: prod.splits, metis fst_conv)

lemma finish_at_count:
  "length (fst (snd (finish_at p k b))) + fst (snd (snd (finish_at p k b)))
    = length (fst (snd b)) + fst (snd (snd b))"
proof (cases b)
  case (fields d ts n es)
  show ?thesis
  proof (cases "ts = []")
    case False
    then have "k mod length ts < length ts" by simp
    then have "Suc (k mod length ts + (length ts - Suc (k mod length ts))) = length ts" by linarith
    with fields False show ?thesis
      by (auto simp: finish_at_def Let_def split: prod.splits)
  qed (simp add: fields finish_at_def)
qed

lemma finish_many_inv: "md5_inv (fst b) \<Longrightarrow> md5_inv (fst (finish_many p ks b))"
  by (induction ks arbitrary: b) (simp_all add: finish_many_def finish_at_inv)

lemma finish_many_count:
  "length (fst (snd (finish_many p ks b))) + fst (snd (snd (finish_many p ks b)))
    = length (fst (snd b)) + fst (snd (snd b))"
proof (induction ks arbitrary: b)
  case (Cons k ks)
  then show ?case using finish_at_count [of k b] by (simp add: finish_many_def)
qed (simp add: finish_many_def)

lemma claim_loop_inv:
  "md5_inv (fst b) \<Longrightarrow> claim_loop p conc turns b = (b', r) \<Longrightarrow> md5_inv (fst b')
    \<and> length (fst (snd b')) + fst (snd (snd b')) \<le> length (fst (snd b)) + fst (snd (snd b)) + length turns"
proof (induction turns arbitrary: b)
  case Nil
  with finish_many_inv [OF Nil.prems(1)] finish_many_count [of _ b] show ?case by (auto simp: drain_def)
next
  case (Cons t turns)
  define b1 where "b1 = finish_many p (finishes t) b"
  have b1: "md5_inv (fst b1)" "length (fst (snd b1)) + fst (snd (snd b1)) = length (fst (snd b)) + fst (snd (snd b))"
    using finish_many_inv [OF Cons.prems(1)] finish_many_count by (simp_all add: b1_def)
  obtain d c where cl: "ClaimMD5Task (claim_fails t) (clock t) (fst b1) = (d, c)" by fastforce
  have d: "md5_inv d" using cl b1(1) by (auto elim: ClaimMD5Task_cases)
  have dr: "md5_inv (fst (drain p x)) \<and> length (fst (snd (drain p x))) + fst (snd (snd (drain p x)))
      = length (fst (snd x)) + fst (snd (snd x))" if "md5_inv (fst x)" for x
    using finish_many_inv [OF that] finish_many_count by (simp add: drain_def)
  define b2 where "b2 = finish_many p (replicate (Suc (length (fst (snd b1))) - conc) 0) (d, snd b1)"
  have b2: "md5_inv (fst b2)" "length (fst (snd b2)) + fst (snd (snd b2)) = length (fst (snd b1)) + fst (snd (snd b1))"
    using finish_many_inv [of "(d, snd b1)"] finish_many_count [of _ "(d, snd b1)"] d by (simp_all add: b2_def)
  obtain d2 ts2 n es where f: "b2 = (d2, ts2, n, es)" by (cases b2) auto
  note op = Cons.prems(2) [unfolded claim_loop.simps Let_def, folded b1_def, unfolded cl, folded b2_def, unfolded f prod.case]
  consider (End) x where "b' = drain p x" "md5_inv (fst x)"
      "length (fst (snd x)) + fst (snd (snd x)) = length (fst (snd b)) + fst (snd (snd b))"
    | (Go) task :: md5_task where "claim_loop p conc turns (d2, ts2 @ [task_FileID task], n, es) = (b', r)"
  proof (cases "cancelled t")
    case True
    with op have "b' = drain p b1" by simp
    with b1 End [of b1] show thesis by simp
  next
    case False
    show thesis
    proof (cases c)
      case (Inl e)
      with False op have "b' = drain p (d, snd b1)" by (simp split: err.splits)
      with d b1(2) End [of "(d, snd b1)"] show thesis by simp
    next
      case (Inr task)
      with False op have "(if gives_up t then (drain p b2, Some Cancelled)
          else claim_loop p conc turns (d2, ts2 @ [task_FileID task], n, es)) = (b', r)"
        by (cases "gives_up t") (simp_all add: f f [unfolded b2_def])
      with End [of b2] Go [of task] b2 b1(2) show thesis by (cases "gives_up t") simp_all
    qed
  qed
  then show ?case
  proof cases
    case End
    with dr [OF End(2)] show ?thesis by simp
  next
    case (Go task)
    from Cons.IH [OF _ Go] b2 b1(2) f show ?thesis by simp
  qed
qed

lemma RunOnce_inv:
  assumes inv: "md5_inv d" and op: "RunOnce w p flt now turns d = (d', n, r)"
  shows "md5_inv d' \<and> n \<le> nat (MaxTasksPerRun w)"
proof -
  obtain d1 c where q: "RequeueComputingMD5Tasks flt now d (RecoveryLimit w) (now - Lease w) = (d1, c)" by fastforce
  have d1: "md5_inv d1" by (rule RequeueComputingMD5Tasks_inv(1) [OF inv q])
  show ?thesis
  proof (cases c)
    case (Inl e)
    with op q d1 show ?thesis by (simp add: RunOnce_def)
  next
    case (Inr k)
    obtain b r1 where cl: "claim_loop p (nat (Concurrency w)) (take (nat (MaxTasksPerRun w)) turns) (d1, [], 0, []) = (b, r1)"
      by fastforce
    obtain d2 ts n2 es where b: "b = (d2, ts, n2, es)" by (cases b) auto
    from claim_loop_inv [OF _ cl] d1 b have "md5_inv d2" "n2 \<le> nat (MaxTasksPerRun w)" by simp_all
    moreover from op q Inr cl b have "d' = d2 \<and> n = n2"
      by (auto simp: RunOnce_def split: option.splits)
    ultimately show ?thesis by simp
  qed
qed

end

lemma fail_task_inv: "md5_inv d \<Longrightarrow> md5_inv (fst (fail_task F now i m d))"
  using FailMD5Task_inv [of d "persist_fails F" now i m]
  by (auto simp: fail_task_def split: prod.splits sum.splits)

lemma process_inv:
  assumes "md5_inv d" and "md5_inv (env d)"
  shows "md5_inv (fst (process md5 msg F now env store i d))"
  using assms fail_task_inv [OF assms(1)] CompleteMD5Task_inv(1) [OF assms(2)]
  by (auto simp: process_def split: sum.splits err.splits prod.splits)

interpretation md5_worker: task_runner "process md5 msg F now (\<lambda>d. d) store"
  for md5 msg F now store
  by unfold_locales (simp add: process_inv)

section \<open>The digest of a file\<close>

lemma hex_digest: "length x = 16 \<Longrightarrow> valid_digest (hex_encode x)"
  by (auto simp: valid_digest_def list_all_iff intro: hex_encode_lower)

lemma affected_computing: "md5_inv d \<Longrightarrow> task_of d i = Some t \<Longrightarrow> task_Status t = TaskComputing \<Longrightarrow>
    affected (\<lambda>t. task_FileID t = i \<and> task_Status t = TaskComputing) (db_tasks d) = 1"
  using cas_task [of d i "\<lambda>t. task_Status t = TaskComputing"] by auto

text \<open>A claimed task of an active file ends with the digest of the file's object.\<close>

lemma process_ready:
  assumes inv: "md5_inv d" and t: "task_of d i = Some t" "task_Status t = TaskComputing"
    and f: "f \<in> set (db_files d)" "file_ID f = i" "file_DeleteState f = FileActive"
    and obj: "store_Open NoFault (file_ObjectKey f) store = Inr content"
    and md5: "\<And>x. length (md5 x) = 16"
  shows "\<exists>d'. process md5 msg no_task_faults now (\<lambda>d. d) store i d = (d', None) \<and> md5_inv d'
    \<and> (\<forall>g \<in> set (db_files d'). file_ID g = i \<longrightarrow>
         file_MD5Status g = MD5Ready \<and> file_MD5Digest g = hex_encode (md5 content))"
proof -
  have "FileByID False d i = Inr f"
  proof -
    have "distinct (map file_ID (db_files d))" using inv by (simp add: md5_inv_def)
    then have "g = f" if "g \<in> set (db_files d)" "file_ID g = i" for g
      using that f by (auto simp: distinct_map inj_on_def)
    moreover have "find (\<lambda>f. file_ID f = i \<and> file_DeleteState f = FileActive) (db_files d) \<noteq> None"
      using f by (auto simp: find_None_iff)
    ultimately show ?thesis
      by (auto simp: FileByID_def query_row_def dest: find_SomeD split: option.splits)
  qed
  moreover obtain d' where c: "CompleteMD5Task False now d i (hex_encode (md5 content)) = (d', Inr ())"
    using affected_computing [OF inv t] hex_digest [OF md5] by (simp add: CompleteMD5Task_def Let_def)
  ultimately have "process md5 msg no_task_faults now (\<lambda>d. d) store i d = (d', None)"
    using obj by (simp add: process_def no_task_faults_def)
  with CompleteMD5Task_inv [OF inv c] show ?thesis by blast
qed

section \<open>A task that cannot be claimed\<close>

text \<open>
  A requeued task without attempts left makes every claim fail: the queue behind it waits
  forever, and \<open>RunOnce\<close> ends with an error each time.
\<close>

lemma poison_stays:
  assumes "due_tasks now d = t # ts" and "task_Attempts t = task_MaxAttempts t"
  shows "ClaimMD5Task False now d = (d, Inl DbConflict)"
  using assms by (simp add: ClaimMD5Task_def)

end
