(* ===== verification/Http.thy ===== *)
theory Http
  imports Upload DbAdmin Permission
begin

text \<open>
  What the handlers of \<open>internal/httpapi\<close> share: responses, the identity a session put into
  the request context, the authorizer over the permission table, and the audit event of a
  published change (\<open>published.go\<close>: \<open>auditPublished\<close>).
\<close>

record list_entry =
  le_Name :: string
  le_Path :: string
  le_Size :: int
  le_MD5Status :: string
  le_MD5Digest :: string
  le_IsDirectory :: bool
  le_ID :: int
  le_UpdatedAt :: int

text \<open>The public part of the site settings: the texts and the URLs of the configured assets.\<close>

record site_public =
  sp_SiteName :: string
  sp_PrimaryColor :: string
  sp_FilingEnabled :: bool
  sp_FilingText :: string
  sp_MD5Enabled :: bool
  sp_LoginLogoURL :: string
  sp_NavLogoURL :: string
  sp_FaviconURL :: string

datatype content =
    Message string                      \<comment> \<open>\<open>http.Error\<close>\<close>
  | FileInfo int int string int         \<comment> \<open>id, root, path, size\<close>
  | DirInfo int int string              \<comment> \<open>id, root, path\<close>
  | Listing string "list_entry list"    \<comment> \<open>path, entries\<close>
  | UploadInfo string int int int       \<comment> \<open>id, chunk size, offset, expiry\<close>
  | UserInfo int string bool            \<comment> \<open>id, name, disabled\<close>
  | AuditLog "(int \<times> string \<times> string \<times> int \<times> int) list"  \<comment> \<open>actor, action, path, status, time\<close>
  | SiteInfo site_public
  | AssetInfo int string string int int int  \<comment> \<open>id, URL, type, size, width, height\<close>
  | JobInfo string                      \<comment> \<open>id of an archive job\<close>
  | Data string
  | NoContent

record response =
  res_status :: int
  res_headers :: "(string \<times> string) list"
  res_body :: content

definition reply :: "int \<Rightarrow> content \<Rightarrow> response" where
  "reply code b = \<lparr>res_status = code, res_headers = [], res_body = b\<rparr>"

definition with_headers :: "(string \<times> string) list \<Rightarrow> response \<Rightarrow> response" where
  "with_headers hs r = r\<lparr>res_headers := hs @ res_headers r\<rparr>"

definition header_of :: "string \<Rightarrow> response \<Rightarrow> string option" where
  "header_of name r = map_of (res_headers r) name"

text \<open>A handler that panics: the server closes the connection without a response.\<close>

definition panicked :: response where
  "panicked = reply 0 NoContent"

definition http_error :: "string \<Rightarrow> int \<Rightarrow> response" where
  "http_error message code = reply code (Message message)"

definition not_found :: response where
  "not_found = http_error ''404 page not found'' 404"

lemma res_simps [simp]:
  "res_status (reply code b) = code" "res_body (reply code b) = b" "res_headers (reply code b) = []"
  "res_status (http_error m code) = code" "res_body (http_error m code) = Message m"
  "res_status (with_headers hs r) = res_status r" "res_body (with_headers hs r) = res_body r"
  "res_headers (with_headers hs r) = hs @ res_headers r" "res_headers (http_error m code) = []"
  "res_status not_found = 404" "res_status panicked = 0"
  by (simp_all add: reply_def http_error_def with_headers_def not_found_def panicked_def)

text \<open>The values of the request context: the session's user and the correlation ids.\<close>

record request_context =
  rc_User :: "int option"
  rc_RequestID :: string
  rc_SessionAuditID :: string

definition session_user :: "request_context \<Rightarrow> int option" where
  "session_user c = (case rc_User c of None \<Rightarrow> None | Some u \<Rightarrow> if u \<le> 0 then None else Some u)"

text \<open>The authorizer reads the permission rows of the user below the root.\<close>

definition authorized ::
    "(string \<Rightarrow> string) \<Rightarrow> name_policy \<Rightarrow> bool \<Rightarrow> db \<Rightarrow> int \<Rightarrow> int \<Rightarrow> string \<Rightarrow> string \<Rightarrow> err + bool" where
  "authorized nfc policy flt d uid rid path action =
     Authorize nfc policy (PermissionsForUserAndRoot flt d) uid rid path action"

text \<open>An error or a fault in the permission query denies.\<close>

lemma authorized_quiet:
  "authorized nfc policy flt d uid rid p a = Inr b \<Longrightarrow> authorized nfc policy False d uid rid p a = Inr b"
  by (cases flt) (auto simp: authorized_def Authorize_def PermissionsForUserAndRoot_def Let_def
      split: if_splits sum.splits)

definition may :: "(string \<Rightarrow> string) \<Rightarrow> name_policy \<Rightarrow> db \<Rightarrow> request_context \<Rightarrow> int \<Rightarrow> int \<Rightarrow> string \<Rightarrow> string \<Rightarrow> bool" where
  "may nfc policy d c uid rid p action \<longleftrightarrow>
     session_user c = Some uid \<and> authorized nfc policy False d uid rid p action = Inr True"

text \<open>\<open>path.Dir\<close> of a canonical path other than the root.\<close>

definition parent_dir :: "string \<Rightarrow> string" where
  "parent_dir p = CHR ''/'' # join (CHR ''/'') (butlast (split_on (CHR ''/'') (tl p)))"

definition audit_detail :: "int \<Rightarrow> request_context \<Rightarrow> string" where
  "audit_detail status c =
     ''status='' @ itoa status @ '' result='' @ (if 200 \<le> status \<and> status < 400 then ''success'' else ''failure'')
     @ '' request_id='' @ rc_RequestID c @ '' session_audit_id='' @ rc_SessionAuditID c"

definition auditPublished ::
    "bool \<Rightarrow> int \<Rightarrow> request_context \<Rightarrow> string \<Rightarrow> int \<Rightarrow> int \<Rightarrow> string \<Rightarrow> int \<Rightarrow> db \<Rightarrow> db" where
  "auditPublished flt now c action uid rid path status d =
     fst (CreateAuditEvent flt now d
       \<lparr>ae_ID = 0, ae_UserID = uid, ae_RootID = rid, ae_Action = action, ae_LogicalPath = path,
        ae_Detail = audit_detail status c, ae_Status = status, ae_CreatedAt = zero_time\<rparr>)"

text \<open>An audit event changes the audit table only.\<close>

definition audit_only :: "db \<Rightarrow> db \<Rightarrow> bool" where
  "audit_only d d' \<longleftrightarrow> (\<exists>rows. d' = d\<lparr>db_audit := db_audit d @ rows\<rparr>)"

lemma audit_only_refl [simp]: "audit_only d d"
  unfolding audit_only_def by (rule exI [of _ "[]"]) simp

lemma audit_only_published: "audit_only d (auditPublished flt now c action uid rid path status d)"
proof -
  define e where "e = prepareAuditEvent now \<lparr>ae_ID = 0, ae_UserID = uid, ae_RootID = rid, ae_Action = action,
    ae_LogicalPath = path, ae_Detail = audit_detail status c, ae_Status = status, ae_CreatedAt = zero_time\<rparr>"
  show ?thesis
  proof (cases "insert_audit d e")
    case (Inl x)
    then show ?thesis by (simp add: auditPublished_def CreateAuditEvent_def Let_def flip: e_def)
  next
    case (Inr y)
    then obtain i d' where y: "y = (i, d')" by fastforce
    with Inr have "insert_audit d e = Inr (i, d')" by simp
    from insert_audit_Inr(1) [OF this] Inr y show ?thesis
      by (auto simp: auditPublished_def CreateAuditEvent_def Let_def audit_only_def simp flip: e_def)
        (metis append_Nil2 db.surjective db.update_convs(9))
  qed
qed

lemma audit_onlyD:
  assumes "audit_only d d'"
  shows "db_files d' = db_files d" "db_dirs d' = db_dirs d" "db_cleanup d' = db_cleanup d"
    "db_uploads d' = db_uploads d" "db_tasks d' = db_tasks d" "db_perms d' = db_perms d"
    "db_roots d' = db_roots d" "db_users d' = db_users d"
  using assms by (auto simp: audit_only_def)

end
