(* ===== verification/Published.thy ===== *)
theory Published
  imports Http DbInv
begin

text \<open>
  The handlers for published files and directories (\<open>internal/httpapi/published.go\<close>) and the
  recovery pass over what they leave behind (\<open>internal/publishedrecovery/recovery.go\<close>).
  A request body is the decoded JSON, \<open>None\<close> when decoding fails (malformed, unknown fields,
  too large).  Every fallible call has a site, as in the upload manager.
\<close>

datatype psite =
    PAuth | PAuthNew | PRoot | PParent | PDest | PObject | PWrite | PUndo | PMeta
  | PEnqueue | PRemove | PJobDone | PLoad | PBegin | PFinalize | PRename | PEmpty | PAudit

type_synonym pfaults = "psite \<Rightarrow> io_fault"

record file_request =
  fr_RootID :: int
  fr_Path :: string
  fr_Content :: string

record dir_request =
  dr_RootID :: int
  dr_Path :: string

section \<open>Creating\<close>

text \<open>
  The checks a creation makes once its path is parsed: a session, the write permission, the
  root, the parent directory, and that no file is at the path.
\<close>

definition target_checks ::
    "(string \<Rightarrow> string) \<Rightarrow> name_policy \<Rightarrow> pfaults \<Rightarrow> request_context \<Rightarrow> string \<Rightarrow> int \<Rightarrow> string \<Rightarrow> db
     \<Rightarrow> int + response" where
  "target_checks nfc policy F c noun rid p d =
     (case session_user c of
        None \<Rightarrow> Inr (http_error ''unauthorized'' 401)
      | Some uid \<Rightarrow>
          (case authorized nfc policy (bad (F PAuth)) d uid rid p ''write'' of
             Inl e \<Rightarrow> Inr (http_error (''authorize '' @ noun) 500)
           | Inr False \<Rightarrow> Inr (http_error ''forbidden'' 403)
           | Inr True \<Rightarrow>
               (case StorageRootByID (bad (F PRoot)) d rid of
                  Inl e \<Rightarrow> Inr (if e = DbNotFound then http_error ''not found'' 404 else http_error ''load root'' 500)
                | Inr _ \<Rightarrow>
                    (case (if parent_dir p = ''/'' then None
                           else (case DirectoryByRootAndPath (bad (F PParent)) d rid (parent_dir p) of
                                   Inl e \<Rightarrow> Some e | Inr _ \<Rightarrow> None)) of
                       Some e \<Rightarrow> Inr (if e = DbNotFound then http_error ''parent directory not found'' 404
                                     else http_error ''load parent directory'' 500)
                     | None \<Rightarrow>
                         (case FileByRootAndPath (bad (F PDest)) d rid p of
                            Inr _ \<Rightarrow> Inr (http_error ''destination exists'' 409)
                          | Inl e \<Rightarrow> if e = DbNotFound then Inl uid
                                    else Inr (http_error ''check destination'' 500))))))"

definition published_file :: "int \<Rightarrow> string \<Rightarrow> string \<Rightarrow> int \<Rightarrow> file_row" where
  "published_file rid p key uid =
     \<lparr>file_ID = 0, file_RootID = rid, file_LogicalPath = p, file_ObjectKey = key, file_Size = 0,
      file_CreatedByUserID = uid, file_CreatedAt = zero_time, file_UpdatedAt = zero_time,
      file_DeleteState = FileActive, file_MD5Status = [], file_MD5Digest = [], file_MD5Error = []\<rparr>"

text \<open>A failed insertion records the object for cleanup before it tries to remove it.\<close>

definition undo_object :: "pfaults \<Rightarrow> int \<Rightarrow> string \<Rightarrow> err \<Rightarrow> hub \<Rightarrow> hub \<times> response" where
  "undo_object F now key e h =
     (case EnqueueObjectCleanup (bad (F PEnqueue)) now (hub_db h) key ''empty_file_metadata_failed'' of
        (d, Inl x) \<Rightarrow> (h\<lparr>hub_db := d\<rparr>, http_error ''create metadata; record cleanup'' 500)
      | (d, Inr ()) \<Rightarrow>
          (case store_Remove (F PRemove) key (hub_store h) of
             (s, Inl x) \<Rightarrow> (\<lparr>hub_db = d, hub_store = s\<rparr>, http_error ''create metadata; cleanup pending'' 500)
           | (s, Inr ()) \<Rightarrow>
               (\<lparr>hub_db = fst (CompleteObjectCleanup (bad (F PJobDone)) d key), hub_store = s\<rparr>,
                if e = DbConflict then http_error ''destination exists'' 409
                else http_error ''create metadata'' 500)))"

definition create_object ::
    "pfaults \<Rightarrow> string \<Rightarrow> string \<Rightarrow> int \<Rightarrow> int \<Rightarrow> int \<Rightarrow> string \<Rightarrow> string \<Rightarrow> hub \<Rightarrow> hub \<times> response" where
  "create_object F partial random now uid rid p content h =
     (if length content > 16 * 2 ^ 20 then (h, http_error ''content too large'' 413)
      else
        (case store_CreateContent (F PObject) (bad (F PWrite)) partial (F PUndo) random content (hub_store h) of
           (s, Inl e) \<Rightarrow> (h\<lparr>hub_store := s\<rparr>, http_error ''create object'' 500)
         | (s, Inr key) \<Rightarrow>
             (case CreateFile (bad (F PMeta)) now (hub_db h) (published_file rid p key uid) of
                (d, Inl e) \<Rightarrow> undo_object F now key e \<lparr>hub_db = d, hub_store = s\<rparr>
              | (d, Inr f) \<Rightarrow>
                  (\<lparr>hub_db = d, hub_store = s\<rparr>,
                   reply 201 (FileInfo (file_ID f) (file_RootID f) (file_LogicalPath f) (file_Size f))))))"

definition create_file_core ::
    "(string \<Rightarrow> string) \<Rightarrow> name_policy \<Rightarrow> pfaults \<Rightarrow> string \<Rightarrow> string \<Rightarrow> int \<Rightarrow> bool \<Rightarrow> request_context
     \<Rightarrow> file_request option \<Rightarrow> hub \<Rightarrow> hub \<times> response \<times> int \<times> string" where
  "create_file_core nfc policy F partial random now withContent c req h =
     (case req of
        None \<Rightarrow> (h, http_error ''invalid file'' 400, 0, [])
      | Some r \<Rightarrow>
          if fr_RootID r \<le> 0 \<or> (\<not> withContent \<and> fr_Content r \<noteq> []) \<or> \<not> valid_utf8 (fr_Content r)
          then (h, http_error ''invalid file'' 400, 0, [])
          else
            (case ParseDecodedPath nfc (fr_Path r) policy of
               Inl e \<Rightarrow> (h, http_error ''invalid path'' 400, 0, [])
             | Inr p \<Rightarrow>
                 if Canonical p = ''/'' then (h, http_error ''invalid path'' 400, 0, [])
                 else
                   (case target_checks nfc policy F c ''file'' (fr_RootID r) (Canonical p) (hub_db h) of
                      Inr resp \<Rightarrow> (h, resp, fr_RootID r, Canonical p)
                    | Inl uid \<Rightarrow>
                        (case create_object F partial random now uid (fr_RootID r) (Canonical p) (fr_Content r) h of
                           (h', resp) \<Rightarrow> (h', resp, fr_RootID r, Canonical p)))))"

text \<open>Every exit of the handler, success or error, writes its audit event.\<close>

definition audited_exit ::
    "pfaults \<Rightarrow> int \<Rightarrow> request_context \<Rightarrow> string \<Rightarrow> hub \<times> response \<times> int \<times> string \<Rightarrow> hub \<times> response" where
  "audited_exit F now c action out =
     (case out of (h, resp, rid, p) \<Rightarrow>
        (h\<lparr>hub_db := auditPublished (bad (F PAudit)) now c action
              (case rc_User c of None \<Rightarrow> 0 | Some u \<Rightarrow> u) rid p (res_status resp) (hub_db h)\<rparr>, resp))"

definition createFile ::
    "(string \<Rightarrow> string) \<Rightarrow> name_policy \<Rightarrow> pfaults \<Rightarrow> string \<Rightarrow> string \<Rightarrow> int \<Rightarrow> bool \<Rightarrow> request_context
     \<Rightarrow> file_request option \<Rightarrow> hub \<Rightarrow> hub \<times> response" where
  "createFile nfc policy F partial random now withContent c req h =
     audited_exit F now c ''file.create''
       (create_file_core nfc policy F partial random now withContent c req h)"

definition createEmptyFile ::
    "(string \<Rightarrow> string) \<Rightarrow> name_policy \<Rightarrow> pfaults \<Rightarrow> string \<Rightarrow> string \<Rightarrow> int \<Rightarrow> request_context
     \<Rightarrow> file_request option \<Rightarrow> hub \<Rightarrow> hub \<times> response" where
  "createEmptyFile nfc policy F partial random now c req h =
     createFile nfc policy F partial random now False c req h"

definition create_directory_core ::
    "(string \<Rightarrow> string) \<Rightarrow> name_policy \<Rightarrow> pfaults \<Rightarrow> int \<Rightarrow> request_context \<Rightarrow> dir_request option \<Rightarrow> hub
     \<Rightarrow> hub \<times> response \<times> int \<times> string" where
  "create_directory_core nfc policy F now c req h =
     (case req of
        None \<Rightarrow> (h, http_error ''invalid directory'' 400, 0, [])
      | Some r \<Rightarrow>
          if dr_RootID r \<le> 0 then (h, http_error ''invalid directory'' 400, 0, [])
          else
            (case ParseDecodedPath nfc (dr_Path r) policy of
               Inl e \<Rightarrow> (h, http_error ''invalid path'' 400, 0, [])
             | Inr p \<Rightarrow>
                 if Canonical p = ''/'' then (h, http_error ''invalid path'' 400, 0, [])
                 else
                   (case target_checks nfc policy F c ''directory'' (dr_RootID r) (Canonical p) (hub_db h) of
                      Inr resp \<Rightarrow> (h, resp, dr_RootID r, Canonical p)
                    | Inl uid \<Rightarrow>
                        (case CreateDirectory (bad (F PMeta)) now (hub_db h)
                                \<lparr>dir_ID = 0, dir_RootID = dr_RootID r, dir_LogicalPath = Canonical p,
                                 dir_CreatedByUserID = uid, dir_CreatedAt = zero_time,
                                 dir_UpdatedAt = zero_time\<rparr> of
                           (d, Inl e) \<Rightarrow>
                             (h\<lparr>hub_db := d\<rparr>, if e = DbConflict then http_error ''destination exists'' 409
                                             else http_error ''create directory'' 500, dr_RootID r, Canonical p)
                         | (d, Inr x) \<Rightarrow>
                             (h\<lparr>hub_db := d\<rparr>, reply 201 (DirInfo (dir_ID x) (dir_RootID x) (dir_LogicalPath x)),
                              dr_RootID r, Canonical p)))))"

definition createDirectory ::
    "(string \<Rightarrow> string) \<Rightarrow> name_policy \<Rightarrow> pfaults \<Rightarrow> int \<Rightarrow> request_context \<Rightarrow> dir_request option \<Rightarrow> hub
     \<Rightarrow> hub \<times> response" where
  "createDirectory nfc policy F now c req h =
     audited_exit F now c ''directory.create'' (create_directory_core nfc policy F now c req h)"

section \<open>Renaming\<close>

text \<open>
  Only a successful rename is audited, before anything was written to the response: the
  recorded status is still zero.
\<close>

definition both_allowed ::
    "(string \<Rightarrow> string) \<Rightarrow> name_policy \<Rightarrow> pfaults \<Rightarrow> int \<Rightarrow> file_row \<Rightarrow> string \<Rightarrow> db \<Rightarrow> response option" where
  "both_allowed nfc policy F uid f p d =
     (case authorized nfc policy (bad (F PAuth)) d uid (file_RootID f) (file_LogicalPath f) ''write'' of
        Inl e \<Rightarrow> Some (http_error ''authorize rename'' 500)
      | Inr False \<Rightarrow> Some (http_error ''forbidden'' 403)
      | Inr True \<Rightarrow>
          (case authorized nfc policy (bad (F PAuthNew)) d uid (file_RootID f) p ''write'' of
             Inl e \<Rightarrow> Some (http_error ''authorize rename'' 500)
           | Inr False \<Rightarrow> Some (http_error ''forbidden'' 403)
           | Inr True \<Rightarrow> None))"

definition rename_to ::
    "pfaults \<Rightarrow> int \<Rightarrow> request_context \<Rightarrow> int \<Rightarrow> file_row \<Rightarrow> string \<Rightarrow> db \<Rightarrow> db \<times> response" where
  "rename_to F now c uid f p d =
     (case FileByRootAndPath (bad (F PDest)) d (file_RootID f) p of
        Inr _ \<Rightarrow> (d, http_error ''destination exists'' 409)
      | Inl e \<Rightarrow>
          if e \<noteq> DbNotFound then (d, http_error ''check destination'' 500)
          else
            (case (if parent_dir p = ''/'' then None
                   else (case DirectoryByRootAndPath (bad (F PParent)) d (file_RootID f) (parent_dir p) of
                           Inl e \<Rightarrow> Some e | Inr _ \<Rightarrow> None)) of
               Some e \<Rightarrow> (d, if e = DbNotFound then http_error ''parent directory not found'' 404
                            else http_error ''load parent directory'' 500)
             | None \<Rightarrow>
                 (case RenameFile (bad (F PRename)) now d (file_ID f) (file_LogicalPath f) p of
                    (d', Inl e) \<Rightarrow>
                      (d', if e = DbConflict then http_error ''destination exists'' 409
                           else http_error ''rename file'' 409)
                  | (d', Inr ()) \<Rightarrow>
                      (auditPublished (bad (F PAudit)) now c ''file.rename'' uid (file_RootID f) p 0 d',
                       reply 200 (FileInfo (file_ID f) (file_RootID f) p (file_Size f))))))"

definition renameFile ::
    "(string \<Rightarrow> string) \<Rightarrow> name_policy \<Rightarrow> pfaults \<Rightarrow> int \<Rightarrow> request_context \<Rightarrow> string \<Rightarrow> string option \<Rightarrow> hub
     \<Rightarrow> hub \<times> response" where
  "renameFile nfc policy F now c fileID req h =
     (case parse_int64 fileID of
        None \<Rightarrow> (h, http_error ''invalid file'' 400)
      | Some i \<Rightarrow>
          if i \<le> 0 then (h, http_error ''invalid file'' 400)
          else
            (case FileByID (bad (F PLoad)) (hub_db h) i of
               Inl e \<Rightarrow> (h, if e = DbNotFound then http_error ''not found'' 404 else http_error ''load file'' 500)
             | Inr f \<Rightarrow>
                 (case session_user c of
                    None \<Rightarrow> (h, http_error ''unauthorized'' 401)
                  | Some uid \<Rightarrow>
                      (case req of
                         None \<Rightarrow> (h, http_error ''invalid rename'' 400)
                       | Some path \<Rightarrow>
                           (case ParseDecodedPath nfc path policy of
                              Inl e \<Rightarrow> (h, http_error ''invalid path'' 400)
                            | Inr p \<Rightarrow>
                                if Canonical p = ''/'' then (h, http_error ''invalid path'' 400)
                                else
                                  (case both_allowed nfc policy F uid f (Canonical p) (hub_db h) of
                                     Some resp \<Rightarrow> (h, resp)
                                   | None \<Rightarrow>
                                       (case rename_to F now c uid f (Canonical p) (hub_db h) of
                                          (d, resp) \<Rightarrow> (h\<lparr>hub_db := d\<rparr>, resp))))))))"

section \<open>Deleting\<close>

text \<open>A file becomes a tombstone, its object is removed, and its row goes.\<close>

definition delete_steps :: "pfaults \<Rightarrow> int \<Rightarrow> file_row \<Rightarrow> hub \<Rightarrow> hub \<times> response" where
  "delete_steps F now f h =
     (case BeginFileDelete (bad (F PBegin)) now (hub_db h) (file_ID f) (file_ObjectKey f) of
        (d, Inl e) \<Rightarrow> (h\<lparr>hub_db := d\<rparr>, http_error ''delete changed'' 409)
      | (d, Inr ()) \<Rightarrow>
          (case store_Remove (F PRemove) (file_ObjectKey f) (hub_store h) of
             (s, Inl e) \<Rightarrow> (\<lparr>hub_db = d, hub_store = s\<rparr>, http_error ''remove object; deletion pending'' 500)
           | (s, Inr ()) \<Rightarrow>
               (case FinalizeFileDelete (bad (F PFinalize)) d (file_ID f) (file_ObjectKey f) of
                  (d', Inl e) \<Rightarrow>
                    (\<lparr>hub_db = d', hub_store = s\<rparr>, http_error ''finalize metadata; deletion pending'' 500)
                | (d', Inr ()) \<Rightarrow> (\<lparr>hub_db = d', hub_store = s\<rparr>, reply 204 NoContent))))"

definition delete_file_core ::
    "(string \<Rightarrow> string) \<Rightarrow> name_policy \<Rightarrow> pfaults \<Rightarrow> int \<Rightarrow> request_context \<Rightarrow> string \<Rightarrow> hub
     \<Rightarrow> hub \<times> response \<times> int \<times> string" where
  "delete_file_core nfc policy F now c fileID h =
     (case parse_int64 fileID of
        None \<Rightarrow> (h, http_error ''invalid file'' 400, 0, [])
      | Some i \<Rightarrow>
          if i \<le> 0 then (h, http_error ''invalid file'' 400, 0, [])
          else
            (case FileByID (bad (F PLoad)) (hub_db h) i of
               Inl e \<Rightarrow> (h, if e = DbNotFound then http_error ''not found'' 404 else http_error ''load file'' 500, 0, [])
             | Inr f \<Rightarrow>
                 (case session_user c of
                    None \<Rightarrow> (h, http_error ''unauthorized'' 401, file_RootID f, file_LogicalPath f)
                  | Some uid \<Rightarrow>
                      (case authorized nfc policy (bad (F PAuth)) (hub_db h) uid (file_RootID f)
                              (file_LogicalPath f) ''delete'' of
                         Inl e \<Rightarrow> (h, http_error ''authorize delete'' 500, file_RootID f, file_LogicalPath f)
                       | Inr False \<Rightarrow> (h, http_error ''forbidden'' 403, file_RootID f, file_LogicalPath f)
                       | Inr True \<Rightarrow>
                           (case delete_steps F now f h of
                              (h', resp) \<Rightarrow> (h', resp, file_RootID f, file_LogicalPath f))))))"

definition deleteFile ::
    "(string \<Rightarrow> string) \<Rightarrow> name_policy \<Rightarrow> pfaults \<Rightarrow> int \<Rightarrow> request_context \<Rightarrow> string \<Rightarrow> hub
     \<Rightarrow> hub \<times> response" where
  "deleteFile nfc policy F now c fileID h =
     audited_exit F now c ''file.delete'' (delete_file_core nfc policy F now c fileID h)"

definition delete_directory_core ::
    "(string \<Rightarrow> string) \<Rightarrow> name_policy \<Rightarrow> pfaults \<Rightarrow> request_context \<Rightarrow> string \<Rightarrow> hub
     \<Rightarrow> hub \<times> response \<times> int \<times> string" where
  "delete_directory_core nfc policy F c dirID h =
     (case parse_int64 dirID of
        None \<Rightarrow> (h, http_error ''invalid directory'' 400, 0, [])
      | Some i \<Rightarrow>
          if i \<le> 0 then (h, http_error ''invalid directory'' 400, 0, [])
          else
            (case DirectoryByID (bad (F PLoad)) (hub_db h) i of
               Inl e \<Rightarrow> (h, if e = DbNotFound then http_error ''not found'' 404
                            else http_error ''load directory'' 500, 0, [])
             | Inr x \<Rightarrow>
                 (case session_user c of
                    None \<Rightarrow> (h, http_error ''unauthorized'' 401, dir_RootID x, dir_LogicalPath x)
                  | Some uid \<Rightarrow>
                      (case authorized nfc policy (bad (F PAuth)) (hub_db h) uid (dir_RootID x)
                              (dir_LogicalPath x) ''delete'' of
                         Inl e \<Rightarrow> (h, http_error ''authorize delete'' 500, dir_RootID x, dir_LogicalPath x)
                       | Inr False \<Rightarrow> (h, http_error ''forbidden'' 403, dir_RootID x, dir_LogicalPath x)
                       | Inr True \<Rightarrow>
                           (case DirectoryEmpty (bad (F PEmpty)) (hub_db h) x of
                              Inl e \<Rightarrow> (h, http_error ''check directory'' 500, dir_RootID x, dir_LogicalPath x)
                            | Inr False \<Rightarrow> (h, http_error ''directory not empty'' 409, dir_RootID x, dir_LogicalPath x)
                            | Inr True \<Rightarrow>
                                (case DeleteDirectory (bad (F PMeta)) (hub_db h) i of
                                   (d, Inl e) \<Rightarrow>
                                     (h\<lparr>hub_db := d\<rparr>, if e = DbConflict then http_error ''directory not empty'' 409
                                                     else http_error ''remove directory'' 500,
                                      dir_RootID x, dir_LogicalPath x)
                                 | (d, Inr ()) \<Rightarrow>
                                     (h\<lparr>hub_db := d\<rparr>, reply 204 NoContent, dir_RootID x, dir_LogicalPath x)))))))"

definition deleteDirectory ::
    "(string \<Rightarrow> string) \<Rightarrow> name_policy \<Rightarrow> pfaults \<Rightarrow> int \<Rightarrow> request_context \<Rightarrow> string \<Rightarrow> hub
     \<Rightarrow> hub \<times> response" where
  "deleteDirectory nfc policy F now c dirID h =
     audited_exit F now c ''directory.delete'' (delete_directory_core nfc policy F c dirID h)"

section \<open>Recovery\<close>

record published_report =
  CleanupChecked :: nat
  CleanupCompleted :: nat
  TombstonesChecked :: nat
  TombstonesFinalized :: nat

text \<open>What goes wrong with one item: the context is done, the removal, the database.\<close>

record item_faults =
  it_cancelled :: bool
  it_remove :: io_fault
  it_db :: bool

fun recover_jobs ::
    "(string \<Rightarrow> item_faults) \<Rightarrow> cleanup_job list \<Rightarrow> published_report \<Rightarrow> hub
     \<Rightarrow> hub \<times> published_report \<times> err option" where
  "recover_jobs G [] out h = (h, out, None)"
| "recover_jobs G (j # js) out h =
     (let g = G (job_ObjectKey j) in
      if it_cancelled g then (h, out, Some Cancelled)
      else
        (let out1 = out\<lparr>CleanupChecked := CleanupChecked out + 1\<rparr> in
         case store_Remove (it_remove g) (job_ObjectKey j) (hub_store h) of
           (s, Inl e) \<Rightarrow> recover_jobs G js out1 (h\<lparr>hub_store := s\<rparr>)
         | (s, Inr ()) \<Rightarrow>
             (case CompleteObjectCleanup (it_db g) (hub_db h) (job_ObjectKey j) of
                (d, Inl e) \<Rightarrow> (\<lparr>hub_db = d, hub_store = s\<rparr>, out1, Some e)
              | (d, Inr ()) \<Rightarrow>
                  recover_jobs G js (out1\<lparr>CleanupCompleted := CleanupCompleted out1 + 1\<rparr>)
                    \<lparr>hub_db = d, hub_store = s\<rparr>)))"

fun recover_tombstones ::
    "(string \<Rightarrow> item_faults) \<Rightarrow> file_row list \<Rightarrow> published_report \<Rightarrow> hub
     \<Rightarrow> hub \<times> published_report \<times> err option" where
  "recover_tombstones G [] out h = (h, out, None)"
| "recover_tombstones G (f # fs) out h =
     (let g = G (file_ObjectKey f) in
      if it_cancelled g then (h, out, Some Cancelled)
      else
        (let out1 = out\<lparr>TombstonesChecked := TombstonesChecked out + 1\<rparr> in
         case store_Remove (it_remove g) (file_ObjectKey f) (hub_store h) of
           (s, Inl e) \<Rightarrow> recover_tombstones G fs out1 (h\<lparr>hub_store := s\<rparr>)
         | (s, Inr ()) \<Rightarrow>
             (let out2 = out1\<lparr>TombstonesFinalized := TombstonesFinalized out1 + 1\<rparr> in
              case FinalizeFileDelete (it_db g) (hub_db h) (file_ID f) (file_ObjectKey f) of
                (d, Inl e) \<Rightarrow>
                  if e \<noteq> DbNotFound then (\<lparr>hub_db = d, hub_store = s\<rparr>, out1, Some e)
                  else recover_tombstones G fs out2 \<lparr>hub_db = d, hub_store = s\<rparr>
              | (d, Inr ()) \<Rightarrow> recover_tombstones G fs out2 \<lparr>hub_db = d, hub_store = s\<rparr>)))"

definition published_Recover ::
    "bool \<Rightarrow> bool \<Rightarrow> (string \<Rightarrow> item_faults) \<Rightarrow> (string \<Rightarrow> item_faults) \<Rightarrow> int \<Rightarrow> hub
     \<Rightarrow> hub \<times> published_report \<times> err option" where
  "published_Recover flt1 flt2 G1 G2 limit h =
     (let out0 = \<lparr>CleanupChecked = 0, CleanupCompleted = 0, TombstonesChecked = 0, TombstonesFinalized = 0\<rparr> in
      case ObjectCleanupJobs flt1 (hub_db h) limit of
        Inl e \<Rightarrow> (h, out0, Some e)
      | Inr jobs \<Rightarrow>
          (case recover_jobs G1 jobs out0 h of
             (h1, out1, Some e) \<Rightarrow> (h1, out1, Some e)
           | (h1, out1, None) \<Rightarrow>
               (case DeletingFiles flt2 (hub_db h1) limit of
                  Inl e \<Rightarrow> (h1, out1, Some e)
                | Inr files \<Rightarrow> recover_tombstones G2 files out1 h1)))"

end
