(* ===== verification/PublishedInv.thy ===== *)
theory PublishedInv
  imports Published UploadInv
begin

text \<open>
  What the handlers of \<open>published.go\<close> and the recovery pass keep true of the database and the
  object store together, and what each of their outcomes did.
\<close>

section \<open>The steps one by one\<close>

lemma audited_exitD:
  assumes "audited_exit F now c action out = (h', resp)"
  obtains h1 rid p where "out = (h1, resp, rid, p)" "hub_store h' = hub_store h1"
    "audit_only (hub_db h1) (hub_db h')"
  using assms audit_only_published unfolding audited_exit_def
  by (cases out) (auto intro: that)

lemma store_Remove_cases:
  assumes "store_Remove f key s = (s', r)"
  obtains (kept) e where "s' = s" "r = Inl e"
    | (removed) "s' = del_object key s" "st_objects s key \<noteq> None"
  using assms unfolding store_Remove_def
  by (auto split: if_splits sum.splits option.splits node.splits)

lemma store_Remove_gone:
  assumes "store_Remove f key s = (s', Inr ())"
  shows "s' = del_object key s" "st_objects s key \<noteq> None"
  using assms unfolding store_Remove_def
  by (auto split: if_splits sum.splits option.splits node.splits)

lemma objects_put_twice:
  "st_objects (put_object k v (put_object k w s)) = (st_objects s)(k \<mapsto> v)"
  by simp

lemma create_content_Inr:
  assumes "store_CreateContent fc wfail partial fr random content s = (s', Inr key)"
  shows "key = object_key random" "st_objects s key = None"
    "st_objects s' = (st_objects s)(key \<mapsto> Regular content)" "st_open s'" "\<not> wfail"
  using assms unfolding store_CreateContent_def store_Create_def
  by (auto simp: Let_def split: if_splits prod.splits)

lemma create_content_Inl:
  assumes "store_CreateContent fc wfail partial fr random content s = (s', Inl e)"
  shows "st_objects s' = st_objects s
    \<or> st_objects s (object_key random) = None
      \<and> st_objects s' = (st_objects s)(object_key random \<mapsto> Regular partial)
      \<and> (length random = 32 \<longrightarrow> fr = FaultBefore)"
proof (cases "store_Create fc random s")
  case (Pair s1 r)
  show ?thesis
  proof (cases r)
    case (Inl x)
    with Pair assms have "store_Create fc random s = (s', Inl e)"
      by (simp add: store_CreateContent_def)
    then show ?thesis unfolding store_Create_def by (auto simp: Let_def split: if_splits)
  next
    case (Inr key)
    with Pair have key: "key = object_key random" "st_objects s key = None"
      and s1: "s1 = put_object key (Regular []) s" and op: "st_open s"
      unfolding store_Create_def by (auto simp: Let_def split: if_splits)
    define t where "t = put_object key (Regular partial) s1"
    have t: "st_objects t = (st_objects s)(key \<mapsto> Regular partial)" "st_open t"
      using op by (simp_all add: t_def s1)
    from Pair Inr assms have s': "s' = fst (store_Remove fr key t)"
      by (auto simp: store_CreateContent_def t_def split: if_splits)
    show ?thesis
    proof (cases "store_Remove fr key t")
      case (Pair u x)
      with s' have u: "s' = u" by simp
      from Pair show ?thesis
      proof (cases rule: store_Remove_cases)
        case (kept e)
        have "st_objects (del_object key t) key \<noteq> st_objects t key" by (simp add: t)
        then have ne: "del_object key t \<noteq> t" by metis
        have "fr = FaultBefore" if "length random = 32"
          using Pair kept t ne parse_object_key [OF that]
          by (auto simp: store_Remove_def key(1) split: if_splits)
        with u kept t key show ?thesis by simp
      next
        case removed
        with u t key have "st_objects s' = st_objects s" by (auto simp: fun_eq_iff)
        then show ?thesis ..
      qed
    qed
  qed
qed

lemma CreateFile_Inl: "CreateFile flt now d f = (d', Inl e) \<Longrightarrow> d' = d"
  by (auto simp: CreateFile_def Let_def split: if_splits sum.splits)

lemma CreateFile_Inr:
  assumes "CreateFile flt now d f = (d', Inr f')"
  obtains row where "d' = d\<lparr>db_files := db_files d @ [row]\<rparr>" "file_ID row = next_id (map file_ID (db_files d))"
    "file_ObjectKey row = file_ObjectKey f" "file_place row = file_place f" "file_Size row = file_Size f"
    "file_CreatedByUserID row = file_CreatedByUserID f" "file_DeleteState row = FileActive"
    "file_ID f' = file_ID row" "file_RootID f' = file_RootID f" "file_LogicalPath f' = file_LogicalPath f"
    "file_Size f' = file_Size f" "file_insertable d f"
proof -
  define created where "created = utcOrNow now (file_CreatedAt f)"
  define row where "row = f\<lparr>file_CreatedAt := created, file_UpdatedAt := updatedOr created (file_UpdatedAt f),
      file_DeleteState := FileActive, file_MD5Status := MD5Disabled, file_MD5Digest := [], file_MD5Error := [],
      file_ID := next_id (map file_ID (db_files d))\<rparr>"
  have flt: "\<not> flt" and ok: "file_insertable d f"
    using assms by (auto simp: CreateFile_def insert_file_def Let_def file_insertable_def split: if_splits)
  then have "CreateFile flt now d f = (d\<lparr>db_files := db_files d @ [row]\<rparr>,
      Inr (f\<lparr>file_ID := file_ID row, file_CreatedAt := created,
              file_UpdatedAt := updatedOr created (file_UpdatedAt f)\<rparr>))"
    by (simp add: CreateFile_def insert_file_def Let_def row_def created_def file_insertable_def)
  with assms have "d' = d\<lparr>db_files := db_files d @ [row]\<rparr>"
    and "f' = f\<lparr>file_ID := file_ID row, file_CreatedAt := created,
              file_UpdatedAt := updatedOr created (file_UpdatedAt f)\<rparr>"
    by simp_all
  with ok show thesis by (intro that [of row]) (simp_all add: row_def file_place_def)
qed

section \<open>Creating a file\<close>

definition job_keys :: "hub \<Rightarrow> string set" where
  "job_keys h = job_ObjectKey ` set (db_cleanup (hub_db h))"

lemma EnqueueObjectCleanup_cases:
  assumes "EnqueueObjectCleanup flt now d key reason = (d', r)"
  obtains (failed) e where "flt" "d' = d" "r = Inl e"
    | (recorded) rows where "r = Inr ()" "d' = d\<lparr>db_cleanup := rows\<rparr>"
        "job_ObjectKey ` set rows = insert key (job_ObjectKey ` set (db_cleanup d))"
proof (cases flt)
  case True
  with assms show thesis by (intro failed [of DbOther]) (simp_all add: EnqueueObjectCleanup_def)
next
  case False
  show thesis
  proof (cases "list_ex (\<lambda>j. job_ObjectKey j = key) (db_cleanup d)")
    case True
    then have "key \<in> job_ObjectKey ` set (db_cleanup d)" by (auto simp: list_ex_iff)
    moreover have "job_ObjectKey ` set (update_rows (\<lambda>j. job_ObjectKey j = key)
        (\<lambda>j. j\<lparr>job_UpdatedAt := now\<rparr>) (db_cleanup d)) = job_ObjectKey ` set (db_cleanup d)"
      by (rule image_update_rows) simp
    moreover have "r = Inr ()" "d' = d\<lparr>db_cleanup := update_rows (\<lambda>j. job_ObjectKey j = key)
        (\<lambda>j. j\<lparr>job_UpdatedAt := now\<rparr>) (db_cleanup d)\<rparr>"
      using assms False True by (simp_all add: EnqueueObjectCleanup_def)
    ultimately show thesis
      by (intro recorded [of "update_rows (\<lambda>j. job_ObjectKey j = key) (\<lambda>j. j\<lparr>job_UpdatedAt := now\<rparr>)
          (db_cleanup d)"]) (simp_all add: insert_absorb)
  next
    case False
    then show thesis
      using assms \<open>\<not> flt\<close>
      by (intro recorded [of "db_cleanup d @ [\<lparr>job_ObjectKey = key, job_Reason = reason,
          job_CreatedAt = now, job_UpdatedAt = now\<rparr>]"]) (simp_all add: EnqueueObjectCleanup_def)
  qed
qed

lemma CompleteObjectCleanup_keys:
  assumes "CompleteObjectCleanup flt d key = (d', r)"
  obtains rows where "d' = d\<lparr>db_cleanup := rows\<rparr>"
    "job_ObjectKey ` set rows \<subseteq> job_ObjectKey ` set (db_cleanup d)"
    "flt \<or> job_ObjectKey ` set rows = job_ObjectKey ` set (db_cleanup d) - {key}"
proof (cases flt)
  case True
  with assms show thesis by (intro that [of "db_cleanup d"]) (simp_all add: CompleteObjectCleanup_def)
next
  case False
  with assms show thesis
    by (intro that [of "delete_rows (\<lambda>j. job_ObjectKey j = key) (db_cleanup d)"])
      (auto simp: CompleteObjectCleanup_def)
qed

text \<open>
  The undo of a creation: the files stay, and the object is gone, or recorded for cleanup, or
  recording it failed.
\<close>

lemma undo_object_effect:
  assumes "undo_object F now key e h = (h', resp)"
  shows "db_files (hub_db h') = db_files (hub_db h)" "db_dirs (hub_db h') = db_dirs (hub_db h)"
    "job_keys h' \<subseteq> insert key (job_keys h)" "res_status resp \<noteq> 201"
    "st_objects (hub_store h') = (st_objects (hub_store h))(key := None)
     \<or> st_objects (hub_store h') = st_objects (hub_store h) \<and> (key \<in> job_keys h' \<or> bad (F PEnqueue))"
proof -
  let ?Q = "db_files (hub_db h') = db_files (hub_db h) \<and> db_dirs (hub_db h') = db_dirs (hub_db h)
    \<and> job_keys h' \<subseteq> insert key (job_keys h) \<and> res_status resp \<noteq> 201
    \<and> (st_objects (hub_store h') = (st_objects (hub_store h))(key := None)
     \<or> st_objects (hub_store h') = st_objects (hub_store h) \<and> (key \<in> job_keys h' \<or> bad (F PEnqueue)))"
  obtain d r where en: "EnqueueObjectCleanup (bad (F PEnqueue)) now (hub_db h) key ''empty_file_metadata_failed'' = (d, r)"
    by fastforce
  from en have ?Q
  proof (cases rule: EnqueueObjectCleanup_cases)
    case (failed x)
    with en assms show ?thesis
      by (auto simp: undo_object_def http_error_def reply_def job_keys_def)
  next
    case (recorded rows)
    obtain s x where rm: "store_Remove (F PRemove) key (hub_store h) = (s, x)" by fastforce
    from rm show ?thesis
    proof (cases rule: store_Remove_cases)
      case (kept y)
      with en recorded rm assms show ?thesis
        by (auto simp: undo_object_def http_error_def reply_def job_keys_def)
    next
      case removed
      show ?thesis
      proof (cases x)
        case (Inl y)
        with en recorded rm removed assms show ?thesis
          by (auto simp: undo_object_def http_error_def reply_def job_keys_def)
      next
        case (Inr u)
        obtain d2 z where co: "CompleteObjectCleanup (bad (F PJobDone)) d key = (d2, z)" by fastforce
        from co obtain rows2 where "d2 = d\<lparr>db_cleanup := rows2\<rparr>"
          "job_ObjectKey ` set rows2 \<subseteq> job_ObjectKey ` set (db_cleanup d)"
          by (rule CompleteObjectCleanup_keys)
        moreover have "h' = \<lparr>hub_db = d2, hub_store = s\<rparr>" "res_status resp \<noteq> 201"
          using en recorded rm Inr co assms
          by (auto simp: undo_object_def http_error_def reply_def split: if_splits)
        ultimately show ?thesis using recorded removed by (auto simp: job_keys_def)
      qed
    qed
  qed
  then show "db_files (hub_db h') = db_files (hub_db h)" "db_dirs (hub_db h') = db_dirs (hub_db h)"
    "job_keys h' \<subseteq> insert key (job_keys h)" "res_status resp \<noteq> 201"
    "st_objects (hub_store h') = (st_objects (hub_store h))(key := None)
     \<or> st_objects (hub_store h') = st_objects (hub_store h) \<and> (key \<in> job_keys h' \<or> bad (F PEnqueue))"
    by blast+
qed

text \<open>What a creation did, by its status.\<close>

definition created_row :: "int \<Rightarrow> string \<Rightarrow> string \<Rightarrow> int \<Rightarrow> file_row \<Rightarrow> bool" where
  "created_row rid p key uid row \<longleftrightarrow>
     file_place row = (rid, p) \<and> file_ObjectKey row = key \<and> file_CreatedByUserID row = uid
     \<and> file_DeleteState row = FileActive \<and> file_Size row = 0"

definition created :: "hub \<Rightarrow> int \<Rightarrow> string \<Rightarrow> string \<Rightarrow> string \<Rightarrow> int \<Rightarrow> hub \<Rightarrow> bool" where
  "created h rid p key content uid h' \<longleftrightarrow>
     (\<exists>row. db_files (hub_db h') = db_files (hub_db h) @ [row] \<and> created_row rid p key uid row
        \<and> file_ID row = next_id (map file_ID (db_files (hub_db h))))
     \<and> key \<notin> file_ObjectKey ` set (db_files (hub_db h))
     \<and> (rid, p) \<notin> file_place ` set (db_files (hub_db h)) \<union> dir_place ` set (db_dirs (hub_db h))
     \<and> job_keys h' = job_keys h \<and> db_dirs (hub_db h') = db_dirs (hub_db h)
     \<and> st_objects (hub_store h) key = None
     \<and> st_objects (hub_store h') = (st_objects (hub_store h))(key \<mapsto> Regular content)"

text \<open>
  A failed creation may leave an object behind, but then its key is recorded for cleanup, or
  the recording itself (or the removal of a half-written object) failed.
\<close>

definition not_created :: "pfaults \<Rightarrow> hub \<Rightarrow> string \<Rightarrow> hub \<Rightarrow> bool" where
  "not_created F h key h' \<longleftrightarrow>
     db_files (hub_db h') = db_files (hub_db h) \<and> db_dirs (hub_db h') = db_dirs (hub_db h)
     \<and> job_keys h' \<subseteq> insert key (job_keys h)
     \<and> (st_objects (hub_store h') = st_objects (hub_store h)
        \<or> st_objects (hub_store h) key = None
          \<and> (\<exists>c. st_objects (hub_store h') = (st_objects (hub_store h))(key \<mapsto> Regular c))
          \<and> (key \<in> job_keys h' \<or> F PEnqueue \<noteq> NoFault \<or> F PUndo \<noteq> NoFault))"

lemma not_created_refl [simp]: "not_created F h key h"
  by (auto simp: not_created_def)

lemma create_object_effect:
  assumes "create_object F partial random now uid rid p content h = (h', resp)"
    and len: "length random = 32"
  shows "if res_status resp = 201 then created h rid p (object_key random) content uid h'
    else not_created F h (object_key random) h'"
proof -
  let ?k = "object_key random"
  let ?objs = "st_objects (hub_store h)"
  show ?thesis
  proof (cases "length content > 16 * 2 ^ 20")
    case True
    with assms show ?thesis by (auto simp: create_object_def http_error_def reply_def)
  next
    case False
    obtain s r where cc: "store_CreateContent (F PObject) (bad (F PWrite)) partial (F PUndo) random content
        (hub_store h) = (s, r)" by fastforce
    show ?thesis
    proof (cases r)
      case (Inl e)
      with cc False assms have h': "h' = h\<lparr>hub_store := s\<rparr>" and st: "res_status resp \<noteq> 201"
        by (auto simp: create_object_def http_error_def reply_def)
      from cc Inl have "store_CreateContent (F PObject) (bad (F PWrite)) partial (F PUndo) random content
        (hub_store h) = (s, Inl e)" by simp
      from create_content_Inl [OF this] len h' show ?thesis
        using st by (auto simp: not_created_def job_keys_def)
    next
      case (Inr key)
      with cc have "store_CreateContent (F PObject) (bad (F PWrite)) partial (F PUndo) random content
        (hub_store h) = (s, Inr key)" by simp
      note obj = create_content_Inr [OF this]
      obtain d x where cf: "CreateFile (bad (F PMeta)) now (hub_db h) (published_file rid p key uid) = (d, x)"
        by fastforce
      show ?thesis
      proof (cases x)
        case (Inl e)
        with cf have d: "d = hub_db h" by (simp add: CreateFile_Inl)
        from cc cf Inl Inr False assms have un: "undo_object F now key e \<lparr>hub_db = d, hub_store = s\<rparr> = (h', resp)"
          by (simp add: create_object_def)
        have "?objs(?k := None) = ?objs" using obj(1,2) by (simp add: fun_upd_idem)
        with undo_object_effect(5) [OF un] obj(1-3)
        have "st_objects (hub_store h') = ?objs
          \<or> st_objects (hub_store h') = ?objs(?k \<mapsto> Regular content) \<and> (?k \<in> job_keys h' \<or> F PEnqueue \<noteq> NoFault)"
          by (auto simp: bad_def)
        then have "not_created F h ?k h'"
          using undo_object_effect(1-3) [OF un] obj(1,2) d by (auto simp: not_created_def job_keys_def)
        with undo_object_effect(4) [OF un] show ?thesis by simp
      next
        case (Inr f)
        with cf have "CreateFile (bad (F PMeta)) now (hub_db h) (published_file rid p key uid) = (d, Inr f)" by simp
        then obtain row where row: "d = (hub_db h)\<lparr>db_files := db_files (hub_db h) @ [row]\<rparr>"
          "file_ID row = next_id (map file_ID (db_files (hub_db h)))" "file_ObjectKey row = key"
          "file_place row = (rid, p)" "file_Size row = 0" "file_CreatedByUserID row = uid"
          "file_DeleteState row = FileActive" "file_insertable (hub_db h) (published_file rid p key uid)"
          by (rule CreateFile_Inr) (auto simp: published_file_def file_place_def)
        from cc cf Inr \<open>r = Inr key\<close> False assms have h': "h' = \<lparr>hub_db = d, hub_store = s\<rparr>"
          and st: "res_status resp = 201"
          by (auto simp: create_object_def reply_def)
        have "key \<notin> file_ObjectKey ` set (db_files (hub_db h))"
          and "(rid, p) \<notin> file_place ` set (db_files (hub_db h)) \<union> dir_place ` set (db_dirs (hub_db h))"
          using row(8)
          by (auto simp: file_insertable_def list_ex_iff published_file_def file_at_iff dir_at_iff)
        moreover have "created_row rid p key uid row" using row by (simp add: created_row_def)
        ultimately have "created h rid p ?k content uid h'"
          using h' row(1,2) obj by (auto simp: created_def job_keys_def)
        with st show ?thesis by simp
      qed
    qed
  qed
qed

lemma target_checks_Inl:
  assumes "target_checks nfc policy F c noun rid p d = Inl uid"
  shows "may nfc policy d c uid rid p ''write''"
    and "parent_dir p = ''/'' \<or> (\<exists>x \<in> set (db_dirs d). dir_at rid (parent_dir p) x)"
    and "\<forall>f \<in> set (db_files d). file_at rid p f \<longrightarrow> file_DeleteState f \<noteq> FileActive"
proof -
  have au: "session_user c = Some uid" "authorized nfc policy (bad (F PAuth)) d uid rid p ''write'' = Inr True"
    and pd: "parent_dir p = ''/'' \<or> (\<exists>x. DirectoryByRootAndPath (bad (F PParent)) d rid (parent_dir p) = Inr x)"
    and fd: "FileByRootAndPath (bad (F PDest)) d rid p = Inl DbNotFound"
    using assms unfolding target_checks_def
    by (auto split: option.splits sum.splits bool.splits if_splits)
  from au authorized_quiet show "may nfc policy d c uid rid p ''write''" by (auto simp: may_def)
  from pd show "parent_dir p = ''/'' \<or> (\<exists>x \<in> set (db_dirs d). dir_at rid (parent_dir p) x)"
    unfolding DirectoryByRootAndPath_def by (auto dest!: query_row_Inr)
  from fd show "\<forall>f \<in> set (db_files d). file_at rid p f \<longrightarrow> file_DeleteState f \<noteq> FileActive"
    unfolding FileByRootAndPath_def query_row_NotFound by blast
qed

lemma target_checks_Inr:
  "target_checks nfc policy F c noun rid p d = Inr resp \<Longrightarrow> 400 \<le> res_status resp"
  unfolding target_checks_def http_error_def reply_def
  by (auto split: option.splits sum.splits bool.splits if_splits)

lemma created_audit:
  "created h rid p key content uid h1 \<Longrightarrow> hub_store h' = hub_store h1 \<Longrightarrow> audit_only (hub_db h1) (hub_db h')
   \<Longrightarrow> created h rid p key content uid h'"
  by (simp add: created_def job_keys_def audit_onlyD)

lemma not_created_audit:
  "not_created F h key h1 \<Longrightarrow> hub_store h' = hub_store h1 \<Longrightarrow> audit_only (hub_db h1) (hub_db h')
   \<Longrightarrow> not_created F h key h'"
  by (simp add: not_created_def job_keys_def audit_onlyD)

lemma create_file_core_effect:
  assumes "create_file_core nfc policy F partial random now wc c req h = (h', resp, rid, p)"
    and len: "length random = 32"
  shows "if res_status resp = 201
    then \<exists>r uid. req = Some r \<and> fr_RootID r = rid \<and> (\<exists>q. ParseDecodedPath nfc (fr_Path r) policy = Inr q \<and> p = Canonical q)
      \<and> p \<noteq> ''/'' \<and> may nfc policy (hub_db h) c uid rid p ''write''
      \<and> created h rid p (object_key random) (fr_Content r) uid h'
    else not_created F h (object_key random) h'"
proof (cases req)
  case None
  with assms show ?thesis by (auto simp: create_file_core_def http_error_def reply_def)
next
  case (Some r)
  show ?thesis
  proof (cases "fr_RootID r \<le> 0 \<or> (\<not> wc \<and> fr_Content r \<noteq> []) \<or> \<not> valid_utf8 (fr_Content r)")
    case True
    with assms Some show ?thesis by (auto simp: create_file_core_def http_error_def reply_def)
  next
    case ok: False
    show ?thesis
    proof (cases "ParseDecodedPath nfc (fr_Path r) policy")
      case (Inl e)
      with assms Some ok show ?thesis by (auto simp: create_file_core_def http_error_def reply_def)
    next
      case (Inr q)
      show ?thesis
      proof (cases "Canonical q = ''/''")
        case True
        with assms Some ok Inr show ?thesis by (auto simp: create_file_core_def http_error_def reply_def)
      next
        case nr: False
        show ?thesis
        proof (cases "target_checks nfc policy F c ''file'' (fr_RootID r) (Canonical q) (hub_db h)")
          case tc: (Inr x)
          with assms Some ok Inr nr have "h' = h" "resp = x" by (auto simp: create_file_core_def)
          with target_checks_Inr [OF tc] show ?thesis by simp
        next
          case tc: (Inl uid)
          with assms Some ok Inr nr have
            co: "create_object F partial random now uid rid p (fr_Content r) h = (h', resp)"
            and rp: "rid = fr_RootID r" "p = Canonical q"
            by (auto simp: create_file_core_def split: prod.splits)
          from create_object_effect [OF co len] target_checks_Inl(1) [OF tc] Some Inr nr rp
          show ?thesis by (auto split: if_splits)
        qed
      qed
    qed
  qed
qed

lemma createFile_effect:
  assumes "createFile nfc policy F partial random now wc c req h = (h', resp)" and "length random = 32"
  shows "if res_status resp = 201
    then \<exists>r q uid. req = Some r \<and> ParseDecodedPath nfc (fr_Path r) policy = Inr q \<and> Canonical q \<noteq> ''/''
      \<and> may nfc policy (hub_db h) c uid (fr_RootID r) (Canonical q) ''write''
      \<and> created h (fr_RootID r) (Canonical q) (object_key random) (fr_Content r) uid h'
    else not_created F h (object_key random) h'"
proof -
  from assms(1) obtain h1 rid p
    where core: "create_file_core nfc policy F partial random now wc c req h = (h1, resp, rid, p)"
      and st: "hub_store h' = hub_store h1" "audit_only (hub_db h1) (hub_db h')"
    unfolding createFile_def by (rule audited_exitD)
  from create_file_core_effect [OF core assms(2)] created_audit [OF _ st] not_created_audit [OF _ st]
  show ?thesis by (simp split: if_splits) blast
qed

section \<open>Deleting a file\<close>

definition mark_deleting :: "int \<Rightarrow> file_row \<Rightarrow> file_row" where
  "mark_deleting now f = f\<lparr>file_DeleteState := FileDeleting, file_UpdatedAt := now\<rparr>"

lemma mark_deleting_simps [simp]:
  "file_ID (mark_deleting now f) = file_ID f" "file_ObjectKey (mark_deleting now f) = file_ObjectKey f"
  "file_DeleteState (mark_deleting now f) = FileDeleting" "file_place (mark_deleting now f) = file_place f"
  by (simp_all add: mark_deleting_def file_place_def)

lemma same_row:
  "distinct (map file_ID rows) \<Longrightarrow> f \<in> set rows \<Longrightarrow> g \<in> set rows \<Longrightarrow> file_ID g = file_ID f \<Longrightarrow> g = f"
  by (auto simp: distinct_map dest: inj_onD)

text \<open>With unique ids, a condition on a row beside its id selects that row or nothing.\<close>

lemma pick_row:
  assumes "distinct (map file_ID rows)" and "f \<in> set rows" and "Q f"
  shows "update_rows (\<lambda>g. file_ID g = file_ID f \<and> Q g) u rows = update_rows (\<lambda>g. file_ID g = file_ID f) u rows"
    and "delete_rows (\<lambda>g. file_ID g = file_ID f \<and> Q g) rows = delete_rows (\<lambda>g. file_ID g = file_ID f) rows"
    and "affected (\<lambda>g. file_ID g = file_ID f \<and> Q g) rows = 1"
    and "list_ex (\<lambda>g. (file_ID g = file_ID f \<and> Q g) \<and> file_ID g = j) rows \<longleftrightarrow> j = file_ID f"
proof -
  have eq: "(file_ID g = file_ID f \<and> Q g) \<longleftrightarrow> file_ID g = file_ID f" if "g \<in> set rows" for g
    using same_row [OF assms(1,2) that] assms(3) by auto
  then show "update_rows (\<lambda>g. file_ID g = file_ID f \<and> Q g) u rows = update_rows (\<lambda>g. file_ID g = file_ID f) u rows"
    "delete_rows (\<lambda>g. file_ID g = file_ID f \<and> Q g) rows = delete_rows (\<lambda>g. file_ID g = file_ID f) rows"
    by (auto simp: update_rows_def delete_rows_def intro!: filter_cong)
  have "row_at file_ID (file_ID f) rows = Some f" using assms(1,2) by (simp add: row_at_eq)
  from cas_hit(1) [where Q = Q, OF assms(1) this assms(3)]
  show "affected (\<lambda>g. file_ID g = file_ID f \<and> Q g) rows = 1" .
  show "list_ex (\<lambda>g. (file_ID g = file_ID f \<and> Q g) \<and> file_ID g = j) rows \<longleftrightarrow> j = file_ID f"
    using assms(2,3) by (auto simp: list_ex_iff)
qed

definition without_file :: "int \<Rightarrow> db \<Rightarrow> db" where
  "without_file i d = d\<lparr>db_files := delete_rows (\<lambda>g. file_ID g = i) (db_files d),
     db_tasks := delete_rows (\<lambda>t. task_FileID t = i) (db_tasks d)\<rparr>"

definition marked_db :: "int \<Rightarrow> int \<Rightarrow> db \<Rightarrow> db" where
  "marked_db now i d = d\<lparr>db_files := update_rows (\<lambda>g. file_ID g = i) (mark_deleting now) (db_files d)\<rparr>"

lemma BeginFileDelete_row:
  assumes "distinct (map file_ID (db_files d))" and "f \<in> set (db_files d)"
    and "file_DeleteState f = FileActive"
  shows "BeginFileDelete flt now d (file_ID f) (file_ObjectKey f) =
    (if flt then (d, Inl DbOther) else (marked_db now (file_ID f) d, Inr ()))"
  using pick_row [OF assms(1,2), of "\<lambda>g. file_ObjectKey g = file_ObjectKey f \<and> file_DeleteState g = FileActive"] assms(3)
  by (simp add: BeginFileDelete_def Let_def marked_db_def mark_deleting_def [abs_def])

lemma FinalizeFileDelete_row:
  assumes "distinct (map file_ID (db_files d))" and "f \<in> set (db_files d)"
    and "file_DeleteState f = FileDeleting"
  shows "FinalizeFileDelete flt d (file_ID f) (file_ObjectKey f) =
    (if flt then (d, Inl DbOther) else (without_file (file_ID f) d, Inr ()))"
proof -
  note pick = pick_row [OF assms(1,2), of "\<lambda>g. file_ObjectKey g = file_ObjectKey f \<and> file_DeleteState g = FileDeleting"]
  let ?P = "\<lambda>g. file_ID g = file_ID f \<and> file_ObjectKey g = file_ObjectKey f \<and> file_DeleteState g = FileDeleting"
  have "delete_files ?P d = without_file (file_ID f) d"
    unfolding delete_files_def without_file_def using pick(2,4) assms(3) by (simp only: simp_thms)
  moreover have "affected ?P (db_files d) = 1" using pick(3) assms(3) by (simp only: simp_thms)
  ultimately show ?thesis
    unfolding FinalizeFileDelete_def Let_def by (simp only: simp_thms if_False if_True not_False_eq_True split: if_split)
qed

lemma delete_marked [simp]:
  "delete_rows (\<lambda>g. file_ID g = i) (update_rows (\<lambda>g. file_ID g = i) (mark_deleting now) rows)
    = delete_rows (\<lambda>g. file_ID g = i) rows"
  by (induction rows) (auto simp: delete_rows_def update_rows_def)

lemma without_marked:
  "without_file i (marked_db now i d) = without_file i d"
  by (simp add: without_file_def marked_db_def)

text \<open>
  A deletion either did nothing, or left the tombstone (with or without its object), or removed
  row and object; it answers 204 in the last case only.
\<close>

lemma delete_steps_cases:
  assumes "delete_steps F now f h = (h', resp)"
    and ids: "distinct (map file_ID (db_files (hub_db h)))" and f: "f \<in> set (db_files (hub_db h))"
    and act: "file_DeleteState f = FileActive"
  obtains (nothing) "h' = h" "res_status resp = 409"
    | (kept) "h' = h\<lparr>hub_db := marked_db now (file_ID f) (hub_db h)\<rparr>" "res_status resp = 500"
    | (removed) "h' = \<lparr>hub_db = marked_db now (file_ID f) (hub_db h),
          hub_store = del_object (file_ObjectKey f) (hub_store h)\<rparr>" "res_status resp = 500"
        "st_objects (hub_store h) (file_ObjectKey f) \<noteq> None"
    | (deleted) "h' = \<lparr>hub_db = without_file (file_ID f) (hub_db h),
          hub_store = del_object (file_ObjectKey f) (hub_store h)\<rparr>" "res_status resp = 204"
        "st_objects (hub_store h) (file_ObjectKey f) \<noteq> None"
proof (cases "bad (F PBegin)")
  case True
  with assms show thesis by - (rule nothing; auto simp: delete_steps_def BeginFileDelete_row http_error_def reply_def)
next
  case False
  let ?d = "marked_db now (file_ID f) (hub_db h)"
  have beg: "BeginFileDelete (bad (F PBegin)) now (hub_db h) (file_ID f) (file_ObjectKey f) = (?d, Inr ())"
    using False BeginFileDelete_row [OF ids f act] by simp
  have "distinct (map file_ID (db_files ?d))"
    using ids by (simp add: marked_db_def map_update_rows)
  moreover have "mark_deleting now f \<in> set (db_files ?d)"
    using f by (auto simp: marked_db_def intro: update_rowsI)
  ultimately have fin: "FinalizeFileDelete flt ?d (file_ID f) (file_ObjectKey f) =
      (if flt then (?d, Inl DbOther) else (without_file (file_ID f) (hub_db h), Inr ()))" for flt
    using FinalizeFileDelete_row [of ?d "mark_deleting now f" flt] without_marked by simp
  obtain s r where rm: "store_Remove (F PRemove) (file_ObjectKey f) (hub_store h) = (s, r)" by fastforce
  show thesis
  proof (cases r)
    case (Inl e)
    from rm show thesis
    proof (cases rule: store_Remove_cases)
      case 1: (kept x)
      have "h' = h\<lparr>hub_db := ?d\<rparr>" "res_status resp = 500"
        using assms(1) beg rm Inl 1(1) by (auto simp: delete_steps_def http_error_def reply_def)
      then show thesis by (rule kept)
    next
      case 2: removed
      have "h' = \<lparr>hub_db = ?d, hub_store = del_object (file_ObjectKey f) (hub_store h)\<rparr>" "res_status resp = 500"
        using assms(1) beg rm Inl 2(1) by (auto simp: delete_steps_def http_error_def reply_def)
      then show thesis using 2(2) by (rule removed)
    qed
  next
    case (Inr u)
    with rm have rm': "store_Remove (F PRemove) (file_ObjectKey f) (hub_store h) = (s, Inr ())" by simp
    note gone = store_Remove_gone [OF this]
    show thesis
    proof (cases "bad (F PFinalize)")
      case True
      with assms(1) beg rm' fin gone
      show thesis by - (rule removed; auto simp: delete_steps_def http_error_def reply_def)
    next
      case False
      with assms(1) beg rm' fin gone
      show thesis by - (rule deleted; auto simp: delete_steps_def reply_def)
    qed
  qed
qed

section \<open>The invariant of files and objects\<close>

text \<open>
  Row ids and object keys are unique, every active file has its object, and no cleanup job
  names the object of an active file.
\<close>

definition objects_inv :: "hub \<Rightarrow> bool" where
  "objects_inv h \<longleftrightarrow>
     distinct (map file_ID (db_files (hub_db h))) \<and> distinct (map file_ObjectKey (db_files (hub_db h)))
     \<and> files_ok h
     \<and> (\<forall>f \<in> set (db_files (hub_db h)). file_DeleteState f = FileActive \<longrightarrow> file_ObjectKey f \<notin> job_keys h)"

text \<open>What a random key must avoid: the objects and the cleanup jobs there are.\<close>

definition new_key :: "string \<Rightarrow> hub \<Rightarrow> bool" where
  "new_key random h \<longleftrightarrow> fresh_key random h \<and> object_key random \<notin> job_keys h"

lemma objects_inv_same:
  "objects_inv h \<Longrightarrow> db_files (hub_db h') = db_files (hub_db h) \<Longrightarrow> job_keys h' \<subseteq> job_keys h \<Longrightarrow>
   st_objects (hub_store h') = st_objects (hub_store h) \<Longrightarrow> objects_inv h'"
  by (auto simp: objects_inv_def files_ok_def)

lemma objects_inv_audit:
  "objects_inv h \<Longrightarrow> hub_store h' = hub_store h \<Longrightarrow> audit_only (hub_db h) (hub_db h') \<Longrightarrow> objects_inv h'"
  by (rule objects_inv_same) (simp_all add: audit_onlyD job_keys_def)

text \<open>Replacing the object of a key no active file has is harmless.\<close>

lemma objects_inv_at_key:
  assumes "objects_inv h" and "db_files (hub_db h') = db_files (hub_db h)"
    and "job_keys h' \<subseteq> insert k (job_keys h)"
    and "st_objects (hub_store h') = st_objects (hub_store h)
      \<or> st_objects (hub_store h') = (st_objects (hub_store h))(k := v)"
    and "\<And>f. f \<in> set (db_files (hub_db h)) \<Longrightarrow> file_DeleteState f = FileActive \<Longrightarrow> file_ObjectKey f \<noteq> k"
  shows "objects_inv h'"
proof -
  have "files_ok h'"
    unfolding files_ok_def
  proof (intro ballI impI)
    fix f assume "f \<in> set (db_files (hub_db h'))" and a: "file_DeleteState f = FileActive"
    then have f: "f \<in> set (db_files (hub_db h))" by (simp add: assms(2))
    with a assms(1) obtain c where "st_objects (hub_store h) (file_ObjectKey f) = Some (Regular c)"
      by (auto simp: objects_inv_def files_ok_def)
    with assms(4) assms(5) [OF f a] show "\<exists>c. st_objects (hub_store h') (file_ObjectKey f) = Some (Regular c)"
      by auto
  qed
  moreover have "file_ObjectKey f \<notin> job_keys h'"
    if "f \<in> set (db_files (hub_db h'))" "file_DeleteState f = FileActive" for f
    using that assms(1,2,3) assms(5) [of f] by (auto simp: objects_inv_def)
  ultimately show ?thesis using assms(1,2) by (simp add: objects_inv_def)
qed

lemma no_active_key:
  "objects_inv h \<Longrightarrow> st_objects (hub_store h) k = None \<Longrightarrow> f \<in> set (db_files (hub_db h)) \<Longrightarrow>
   file_DeleteState f = FileActive \<Longrightarrow> file_ObjectKey f \<noteq> k"
  by (auto simp: objects_inv_def files_ok_def)

lemma objects_inv_not_created:
  assumes "objects_inv h" and "not_created F h k h'" and "st_objects (hub_store h) k = None"
  shows "objects_inv h'"
proof -
  obtain v where "st_objects (hub_store h') = st_objects (hub_store h)
      \<or> st_objects (hub_store h') = (st_objects (hub_store h))(k := v)"
    using assms(2) unfolding not_created_def by blast
  with assms(2) show ?thesis
    by (intro objects_inv_at_key [OF assms(1) _ _ _ no_active_key [OF assms(1,3)]])
      (simp_all add: not_created_def)
qed

lemma objects_inv_append:
  assumes inv: "objects_inv h" and files: "db_files (hub_db h') = db_files (hub_db h) @ [row]"
    and id: "file_ID row \<notin> file_ID ` set (db_files (hub_db h))"
    and key: "file_ObjectKey row = k" "k \<notin> file_ObjectKey ` set (db_files (hub_db h))"
    and jobs: "job_keys h' = job_keys h" "k \<notin> job_keys h"
    and objs: "st_objects (hub_store h') = (st_objects (hub_store h))(k \<mapsto> Regular c)"
  shows "objects_inv h'"
proof -
  have "files_ok h'"
    unfolding files_ok_def
  proof (intro ballI impI)
    fix f assume f: "f \<in> set (db_files (hub_db h'))" "file_DeleteState f = FileActive"
    show "\<exists>c. st_objects (hub_store h') (file_ObjectKey f) = Some (Regular c)"
    proof (cases "f = row")
      case True
      with key objs show ?thesis by simp
    next
      case False
      with f files have g: "f \<in> set (db_files (hub_db h))" by simp
      then have "file_ObjectKey f \<noteq> k" using key(2) by (metis imageI)
      with g f(2) inv objs show ?thesis by (auto simp: objects_inv_def files_ok_def)
    qed
  qed
  with inv id key jobs show ?thesis by (auto simp: objects_inv_def files)
qed

lemma objects_inv_created:
  assumes "objects_inv h" and "created h rid p k content uid h'" and "k \<notin> job_keys h"
  shows "objects_inv h'"
proof -
  obtain row where row: "db_files (hub_db h') = db_files (hub_db h) @ [row]" "created_row rid p k uid row"
    "file_ID row = next_id (map file_ID (db_files (hub_db h)))"
    using assms(2) by (auto simp: created_def)
  have "file_ID row \<notin> file_ID ` set (db_files (hub_db h))"
    using next_id_fresh [of "map file_ID (db_files (hub_db h))"] row(3) by simp
  with row assms show ?thesis
    by (intro objects_inv_append [where h = h and h' = h' and row = row and k = k and c = content])
      (auto simp: created_def created_row_def)
qed

lemma createFile_inv:
  assumes "objects_inv h" and "createFile nfc policy F partial random now wc c req h = (h', resp)"
    and "new_key random h"
  shows "objects_inv h'"
  using createFile_effect [OF assms(2)] assms(1,3) objects_inv_created [OF assms(1), of _ _ "object_key random"]
    objects_inv_not_created [OF assms(1)]
  by (fastforce simp: new_key_def fresh_key_def split: if_splits)

lemma objects_inv_update:
  assumes inv: "objects_inv h" and "db_files (hub_db h') = update_rows P u (db_files (hub_db h))"
    and "job_keys h' = job_keys h" and "st_objects (hub_store h') = st_objects (hub_store h)"
    and "\<And>r. file_ID (u r) = file_ID r" "\<And>r. file_ObjectKey (u r) = file_ObjectKey r"
    and "\<And>r. file_DeleteState (u r) = FileActive \<Longrightarrow> file_DeleteState r = FileActive"
  shows "objects_inv h'"
proof -
  have old: "\<exists>g \<in> set (db_files (hub_db h)). file_ObjectKey g = file_ObjectKey f \<and> file_DeleteState g = FileActive"
    if f: "f \<in> set (db_files (hub_db h'))" "file_DeleteState f = FileActive" for f
  proof -
    from f(1) have "f \<in> set (update_rows P u (db_files (hub_db h)))" by (simp add: assms(2))
    from in_update_rows [OF this] obtain g where "g \<in> set (db_files (hub_db h))" "f = u g \<or> f = g" by blast
    with f(2) assms(6,7) show ?thesis by metis
  qed
  have "files_ok h'" unfolding files_ok_def using old inv assms(4) by (auto simp: objects_inv_def files_ok_def dest!: old)
  moreover have "\<forall>f \<in> set (db_files (hub_db h')). file_DeleteState f = FileActive \<longrightarrow> file_ObjectKey f \<notin> job_keys h'"
    using old inv assms(3) unfolding objects_inv_def by metis
  ultimately show ?thesis using inv assms(2,5,6) by (simp add: objects_inv_def map_update_rows)
qed

lemma objects_inv_without:
  assumes "objects_inv h" and "db_files (hub_db h') = delete_rows P (db_files (hub_db h))"
    and "job_keys h' = job_keys h" and "st_objects (hub_store h') = st_objects (hub_store h)"
  shows "objects_inv h'"
  using assms by (auto simp: objects_inv_def files_ok_def distinct_delete_rows)

lemma marked_job_keys [simp]:
  "job_keys (h\<lparr>hub_db := marked_db now i d\<rparr>) = job_ObjectKey ` set (db_cleanup d)"
  "db_cleanup (marked_db now i d) = db_cleanup d" "db_cleanup (without_file i d) = db_cleanup d"
  by (simp_all add: job_keys_def marked_db_def without_file_def)

lemma objects_inv_mark:
  assumes "objects_inv h"
  shows "objects_inv (h\<lparr>hub_db := marked_db now i (hub_db h)\<rparr>)"
  by (rule objects_inv_update [OF assms, where P = "\<lambda>g. file_ID g = i" and u = "mark_deleting now"])
    (simp_all add: marked_db_def job_keys_def)

lemma deleting_key:
  assumes inv: "objects_inv h" and f: "f \<in> set (db_files (hub_db h))" "file_DeleteState f = FileDeleting"
    and g: "g \<in> set (db_files (hub_db h))" "file_DeleteState g = FileActive"
  shows "file_ObjectKey g \<noteq> file_ObjectKey f"
proof
  assume "file_ObjectKey g = file_ObjectKey f"
  with inv f(1) g(1) have "g = f" by (auto simp: objects_inv_def distinct_map dest: inj_onD)
  with f(2) g(2) show False by simp
qed

lemma objects_inv_unlink:
  assumes inv: "objects_inv h" and f: "f \<in> set (db_files (hub_db h))" "file_DeleteState f = FileDeleting"
  shows "objects_inv (h\<lparr>hub_store := del_object (file_ObjectKey f) (hub_store h)\<rparr>)"
  by (rule objects_inv_at_key [OF inv _ _ _ deleting_key [OF inv f], where v = None])
    (auto simp: job_keys_def)

lemma hub_update [simp]: "h\<lparr>hub_db := a, hub_store := b\<rparr> = \<lparr>hub_db = a, hub_store = b\<rparr>"
  by (cases h) simp

lemma delete_steps_inv:
  assumes inv: "objects_inv h" and op: "delete_steps F now f h = (h', resp)"
    and f: "f \<in> set (db_files (hub_db h))" "file_DeleteState f = FileActive"
  shows "objects_inv h'"
proof -
  let ?m = "h\<lparr>hub_db := marked_db now (file_ID f) (hub_db h)\<rparr>"
  let ?u = "?m\<lparr>hub_store := del_object (file_ObjectKey f) (hub_store ?m)\<rparr>"
  have m: "objects_inv ?m" by (rule objects_inv_mark [OF inv])
  have mf: "mark_deleting now f \<in> set (db_files (hub_db ?m))"
    using f(1) by (auto simp: marked_db_def intro: update_rowsI)
  have u: "objects_inv ?u" using objects_inv_unlink [OF m mf] by simp
  have ids: "distinct (map file_ID (db_files (hub_db h)))" using inv by (simp add: objects_inv_def)
  from op ids f show ?thesis
  proof (cases rule: delete_steps_cases)
    case nothing
    with inv show ?thesis by simp
  next
    case kept
    with m show ?thesis by simp
  next
    case removed
    with u show ?thesis by simp
  next
    case deleted
    show ?thesis
      using deleted(1)
      by (intro objects_inv_without [OF u, where P = "\<lambda>g. file_ID g = file_ID f"])
        (simp_all add: without_file_def job_keys_def marked_db_def)
  qed
qed

lemma delete_file_core_cases:
  assumes "delete_file_core nfc policy F now c fileID h = (h', resp, rid, p)"
  obtains (refused) "h' = h" "400 \<le> res_status resp"
    | (ran) f uid where "f \<in> set (db_files (hub_db h))" "file_DeleteState f = FileActive"
        "parse_int64 fileID = Some (file_ID f)" "may nfc policy (hub_db h) c uid (file_RootID f) (file_LogicalPath f) ''delete''"
        "delete_steps F now f h = (h', resp)" "rid = file_RootID f" "p = file_LogicalPath f"
proof -
  have "(h' = h \<and> 400 \<le> res_status resp) \<or> (\<exists>i f uid. parse_int64 fileID = Some i
      \<and> FileByID (bad (F PLoad)) (hub_db h) i = Inr f \<and> session_user c = Some uid
      \<and> authorized nfc policy (bad (F PAuth)) (hub_db h) uid (file_RootID f) (file_LogicalPath f) ''delete'' = Inr True
      \<and> delete_steps F now f h = (h', resp) \<and> rid = file_RootID f \<and> p = file_LogicalPath f)"
    using assms unfolding delete_file_core_def http_error_def reply_def
    by (auto split: option.splits sum.splits bool.splits if_splits prod.splits)
  then show thesis
  proof
    assume "\<exists>i f uid. parse_int64 fileID = Some i
      \<and> FileByID (bad (F PLoad)) (hub_db h) i = Inr f \<and> session_user c = Some uid
      \<and> authorized nfc policy (bad (F PAuth)) (hub_db h) uid (file_RootID f) (file_LogicalPath f) ''delete'' = Inr True
      \<and> delete_steps F now f h = (h', resp) \<and> rid = file_RootID f \<and> p = file_LogicalPath f"
    then obtain i f uid where *: "parse_int64 fileID = Some i" "FileByID (bad (F PLoad)) (hub_db h) i = Inr f"
      "session_user c = Some uid"
      "authorized nfc policy (bad (F PAuth)) (hub_db h) uid (file_RootID f) (file_LogicalPath f) ''delete'' = Inr True"
      "delete_steps F now f h = (h', resp)" "rid = file_RootID f" "p = file_LogicalPath f" by blast
    from *(2) have "f \<in> set (db_files (hub_db h)) \<and> file_ID f = i \<and> file_DeleteState f = FileActive"
      unfolding FileByID_def by (rule query_row_Inr)
    with * authorized_quiet [OF *(4)] show thesis by (intro ran [of f uid]) (auto simp: may_def)
  qed (elim conjE, rule refused)
qed

lemma deleteFile_inv:
  assumes "objects_inv h" and "deleteFile nfc policy F now c fileID h = (h', resp)"
  shows "objects_inv h'"
proof -
  from assms(2) obtain h1 rid p
    where core: "delete_file_core nfc policy F now c fileID h = (h1, resp, rid, p)"
      and st: "hub_store h' = hub_store h1" "audit_only (hub_db h1) (hub_db h')"
    unfolding deleteFile_def by (rule audited_exitD)
  from core have "objects_inv h1"
    by (cases rule: delete_file_core_cases) (use assms(1) delete_steps_inv in \<open>blast+\<close>)
  with st show ?thesis by (blast intro: objects_inv_audit)
qed

section \<open>Directories and renames\<close>

lemma create_directory_core_effect:
  assumes "create_directory_core nfc policy F now c req h = (h', resp, rid, p)"
  obtains (refused) "h' = h" "400 \<le> res_status resp"
    | (created) uid x where "may nfc policy (hub_db h) c uid rid p ''write''" "p \<noteq> ''/''"
        "dir_place x = (rid, p)" "dir_CreatedByUserID x = uid"
        "parent_dir p = ''/'' \<or> (\<exists>y \<in> set (db_dirs (hub_db h)). dir_at rid (parent_dir p) y)"
        "h' = h\<lparr>hub_db := (hub_db h)\<lparr>db_dirs := db_dirs (hub_db h) @ [x]\<rparr>\<rparr>" "res_status resp = 201"
proof (cases "\<exists>r q uid. req = Some r \<and> rid = dr_RootID r \<and> p = Canonical q \<and> p \<noteq> ''/''
    \<and> target_checks nfc policy F c ''directory'' rid p (hub_db h) = Inl uid \<and> dr_RootID r > 0
    \<and> ParseDecodedPath nfc (dr_Path r) policy = Inr q")
  case False
  have "h' = h \<and> 400 \<le> res_status resp"
  proof (cases req)
    case None
    with assms show ?thesis by (auto simp: create_directory_core_def http_error_def reply_def)
  next
    case (Some r)
    show ?thesis
    proof (cases "dr_RootID r \<le> 0")
      case True
      with assms Some show ?thesis by (auto simp: create_directory_core_def http_error_def reply_def)
    next
      case pos: False
      show ?thesis
      proof (cases "ParseDecodedPath nfc (dr_Path r) policy")
        case (Inl e)
        with assms Some pos show ?thesis by (auto simp: create_directory_core_def http_error_def reply_def)
      next
        case (Inr q)
        show ?thesis
        proof (cases "Canonical q = ''/''")
          case True
          with assms Some pos Inr show ?thesis by (auto simp: create_directory_core_def http_error_def reply_def)
        next
          case nr: False
          show ?thesis
          proof (cases "target_checks nfc policy F c ''directory'' (dr_RootID r) (Canonical q) (hub_db h)")
            case tc: (Inr x)
            with assms Some pos Inr nr have "h' = h" "resp = x"
              by (auto simp: create_directory_core_def)
            with target_checks_Inr [OF tc] show ?thesis by simp
          next
            case tc: (Inl uid)
            with assms Some pos Inr nr have "rid = dr_RootID r" "p = Canonical q"
              by (auto simp: create_directory_core_def split: prod.splits sum.splits)
            with False Some Inr nr tc pos show ?thesis by auto
          qed
        qed
      qed
    qed
  qed
  with refused show thesis by blast
next
  case True
  then obtain r q uid where r: "req = Some r" "rid = dr_RootID r" "p = Canonical q" "p \<noteq> ''/''"
    and tc: "target_checks nfc policy F c ''directory'' rid p (hub_db h) = Inl uid"
    and pos: "dr_RootID r > 0" "ParseDecodedPath nfc (dr_Path r) policy = Inr q" by blast
  define x where "x = \<lparr>dir_ID = 0, dir_RootID = rid, dir_LogicalPath = p, dir_CreatedByUserID = uid,
      dir_CreatedAt = zero_time, dir_UpdatedAt = zero_time\<rparr>"
  obtain d res where cd: "CreateDirectory (bad (F PMeta)) now (hub_db h) x = (d, res)" by fastforce
  show thesis
  proof (cases res)
    case (Inl e)
    with cd have "d = hub_db h" by (auto simp: CreateDirectory_def Let_def split: if_splits)
    with assms r tc pos cd Inl have "h' = h" "400 \<le> res_status resp"
      by (auto simp: create_directory_core_def x_def http_error_def reply_def)
    then show thesis by (rule refused)
  next
    case (Inr y)
    with cd have d: "d = (hub_db h)\<lparr>db_dirs := db_dirs (hub_db h) @ [y]\<rparr>"
      and y: "dir_place y = (rid, p)" "dir_CreatedByUserID y = uid"
      by (auto simp: CreateDirectory_def Let_def x_def dir_place_def split: if_splits)
    from assms r tc pos cd Inr have "h' = h\<lparr>hub_db := d\<rparr>" "res_status resp = 201"
      by (auto simp: create_directory_core_def x_def reply_def)
    with target_checks_Inl [OF tc] r(4) y d show thesis by - (rule created; simp)
  qed
qed

lemma createDirectory_inv:
  assumes "objects_inv h" and "createDirectory nfc policy F now c req h = (h', resp)"
  shows "objects_inv h'"
proof -
  from assms(2) obtain h1 rid p
    where core: "create_directory_core nfc policy F now c req h = (h1, resp, rid, p)"
      and st: "hub_store h' = hub_store h1" "audit_only (hub_db h1) (hub_db h')"
    unfolding createDirectory_def by (rule audited_exitD)
  from core have "db_files (hub_db h1) = db_files (hub_db h) \<and> job_keys h1 = job_keys h \<and> hub_store h1 = hub_store h"
    by (cases rule: create_directory_core_effect) (simp_all add: job_keys_def)
  then have "objects_inv h1" by (intro objects_inv_same [OF assms(1)]) simp_all
  with st show ?thesis by (blast intro: objects_inv_audit)
qed

lemma delete_directory_core_effect:
  assumes "delete_directory_core nfc policy F c dirID h = (h', resp, rid, p)"
  shows "hub_store h' = hub_store h" "db_files (hub_db h') = db_files (hub_db h)"
    "db_cleanup (hub_db h') = db_cleanup (hub_db h)" "db_uploads (hub_db h') = db_uploads (hub_db h)"
proof -
  have "h' = h \<or> (\<exists>i d r. DeleteDirectory (bad (F PMeta)) (hub_db h) i = (d, r) \<and> h' = h\<lparr>hub_db := d\<rparr>)"
    using assms unfolding delete_directory_core_def
    by (auto split: option.splits sum.splits bool.splits if_splits prod.splits)
  then show "hub_store h' = hub_store h" "db_files (hub_db h') = db_files (hub_db h)"
    "db_cleanup (hub_db h') = db_cleanup (hub_db h)" "db_uploads (hub_db h') = db_uploads (hub_db h)"
    by (auto simp: DeleteDirectory_def Let_def split: if_splits)
qed

lemma deleteDirectory_inv:
  assumes "objects_inv h" and "deleteDirectory nfc policy F now c dirID h = (h', resp)"
  shows "objects_inv h'"
proof -
  from assms(2) obtain h1 rid p
    where core: "delete_directory_core nfc policy F c dirID h = (h1, resp, rid, p)"
      and st: "hub_store h' = hub_store h1" "audit_only (hub_db h1) (hub_db h')"
    unfolding deleteDirectory_def by (rule audited_exitD)
  have "objects_inv h1"
    using delete_directory_core_effect [OF core] by (intro objects_inv_same [OF assms(1)]) (simp_all add: job_keys_def)
  with st show ?thesis by (blast intro: objects_inv_audit)
qed

lemma RenameFile_cases:
  assumes "RenameFile flt now d i old new = (d', r)"
  obtains (same) e where "d' = d" "r = Inl e"
    | (moved) "d' = d\<lparr>db_files := update_rows (\<lambda>f. file_ID f = i \<and> file_LogicalPath f = old
          \<and> file_DeleteState f = FileActive) (\<lambda>f. f\<lparr>file_LogicalPath := new, file_UpdatedAt := now\<rparr>) (db_files d)\<rparr>"
  using assms unfolding RenameFile_def Let_def by (auto split: if_splits)

lemma rename_to_cases:
  assumes "rename_to F now c uid f p d = (d', resp)"
  obtains (refused) "d' = d" "res_status resp \<noteq> 200"
    | (moved) d1 r where "RenameFile (bad (F PRename)) now d (file_ID f) (file_LogicalPath f) p = (d1, r)"
        "\<forall>g \<in> set (db_files d). file_at (file_RootID f) p g \<longrightarrow> file_DeleteState g \<noteq> FileActive"
        "if r = Inr () then d' = auditPublished (bad (F PAudit)) now c ''file.rename'' uid (file_RootID f) p 0 d1
            \<and> resp = reply 200 (FileInfo (file_ID f) (file_RootID f) p (file_Size f))
         else d' = d1 \<and> res_status resp = 409"
proof (cases "\<exists>d1 r. RenameFile (bad (F PRename)) now d (file_ID f) (file_LogicalPath f) p = (d1, r)
    \<and> FileByRootAndPath (bad (F PDest)) d (file_RootID f) p = Inl DbNotFound
    \<and> (if r = Inr () then d' = auditPublished (bad (F PAudit)) now c ''file.rename'' uid (file_RootID f) p 0 d1
            \<and> resp = reply 200 (FileInfo (file_ID f) (file_RootID f) p (file_Size f))
         else d' = d1 \<and> res_status resp = 409)")
  case True
  then obtain d1 r where "RenameFile (bad (F PRename)) now d (file_ID f) (file_LogicalPath f) p = (d1, r)"
    "FileByRootAndPath (bad (F PDest)) d (file_RootID f) p = Inl DbNotFound"
    "if r = Inr () then d' = auditPublished (bad (F PAudit)) now c ''file.rename'' uid (file_RootID f) p 0 d1
            \<and> resp = reply 200 (FileInfo (file_ID f) (file_RootID f) p (file_Size f))
         else d' = d1 \<and> res_status resp = 409" by blast
  then show thesis using moved unfolding FileByRootAndPath_def query_row_NotFound by blast
next
  case False
  then have "d' = d \<and> res_status resp \<noteq> 200"
    using assms unfolding rename_to_def http_error_def reply_def
    by (auto split: option.splits sum.splits if_splits prod.splits)
  with refused show thesis by blast
qed

lemma renameFile_cases:
  assumes "renameFile nfc policy F now c fileID req h = (h', resp)"
  obtains (refused) "h' = h" "400 \<le> res_status resp"
    | (ran) f uid path q d where "f \<in> set (db_files (hub_db h))" "file_DeleteState f = FileActive"
        "parse_int64 fileID = Some (file_ID f)" "req = Some path" "ParseDecodedPath nfc path policy = Inr q"
        "Canonical q \<noteq> ''/''" "may nfc policy (hub_db h) c uid (file_RootID f) (file_LogicalPath f) ''write''"
        "may nfc policy (hub_db h) c uid (file_RootID f) (Canonical q) ''write''"
        "rename_to F now c uid f (Canonical q) (hub_db h) = (d, resp)" "h' = h\<lparr>hub_db := d\<rparr>"
proof (cases "\<exists>i f uid path q. parse_int64 fileID = Some i \<and> FileByID (bad (F PLoad)) (hub_db h) i = Inr f
    \<and> req = Some path \<and> ParseDecodedPath nfc path policy = Inr q \<and> Canonical q \<noteq> ''/''
    \<and> session_user c = Some uid \<and> both_allowed nfc policy F uid f (Canonical q) (hub_db h) = None
    \<and> (\<exists>d. rename_to F now c uid f (Canonical q) (hub_db h) = (d, resp) \<and> h' = h\<lparr>hub_db := d\<rparr>)")
  case True
  then obtain i f uid path q d where *: "parse_int64 fileID = Some i" "FileByID (bad (F PLoad)) (hub_db h) i = Inr f"
    "req = Some path" "ParseDecodedPath nfc path policy = Inr q" "Canonical q \<noteq> ''/''" "session_user c = Some uid"
    and both: "both_allowed nfc policy F uid f (Canonical q) (hub_db h) = None"
    and rt: "rename_to F now c uid f (Canonical q) (hub_db h) = (d, resp)" "h' = h\<lparr>hub_db := d\<rparr>" by blast
  from *(2) have f: "f \<in> set (db_files (hub_db h)) \<and> file_ID f = i \<and> file_DeleteState f = FileActive"
    unfolding FileByID_def by (rule query_row_Inr)
  from both have "authorized nfc policy (bad (F PAuth)) (hub_db h) uid (file_RootID f) (file_LogicalPath f) ''write'' = Inr True"
    "authorized nfc policy (bad (F PAuthNew)) (hub_db h) uid (file_RootID f) (Canonical q) ''write'' = Inr True"
    unfolding both_allowed_def by (auto split: sum.splits bool.splits)
  then have "may nfc policy (hub_db h) c uid (file_RootID f) (file_LogicalPath f) ''write''"
    "may nfc policy (hub_db h) c uid (file_RootID f) (Canonical q) ''write''"
    using *(6) by (simp_all add: may_def authorized_quiet)
  with * f rt show thesis by (intro ran [of f path q uid d]) simp_all
next
  case False
  have both400: "both_allowed nfc policy F uid f p d = Some x \<Longrightarrow> 400 \<le> res_status x" for uid f p d x
    unfolding both_allowed_def http_error_def reply_def by (auto split: sum.splits bool.splits)
  have "h' = h \<and> 400 \<le> res_status resp"
    using assms False both400 unfolding renameFile_def http_error_def reply_def
    by (auto split: option.splits sum.splits if_splits prod.splits)
  with refused show thesis by blast
qed

lemma renameFile_inv:
  assumes inv: "objects_inv h" and "renameFile nfc policy F now c fileID req h = (h', resp)"
  shows "objects_inv h'"
  using assms(2)
proof (cases rule: renameFile_cases)
  case refused
  with inv show ?thesis by simp
next
  case (ran f uid path q d)
  have move: "objects_inv (h\<lparr>hub_db := d1\<rparr>)"
    if "RenameFile flt now (hub_db h) i old new = (d1, r)" for flt i old new d1 r
    using that
  proof (cases rule: RenameFile_cases)
    case (same e)
    with inv show ?thesis by simp
  next
    case moved
    then show ?thesis
      by (intro objects_inv_update [OF inv, where u = "\<lambda>f. f\<lparr>file_LogicalPath := new, file_UpdatedAt := now\<rparr>"])
        (simp_all add: job_keys_def)
  qed
  from ran(9) show ?thesis
  proof (cases rule: rename_to_cases)
    case refused
    with inv ran(10) show ?thesis by simp
  next
    case (moved d1 r)
    have m: "objects_inv (h\<lparr>hub_db := d1\<rparr>)" using moved(1) by (rule move)
    have "audit_only d1 d" using moved(3) by (auto simp: audit_only_published split: if_splits)
    with m ran(10) show ?thesis by (intro objects_inv_audit [OF m]) simp_all
  qed
qed

end
