(* ===== verification/PublishedRecover.thy ===== *)
theory PublishedRecover
  imports PublishedInv
begin

text \<open>
  The recovery pass of \<open>internal/publishedrecovery\<close>: it keeps the invariant under any faults,
  an undisturbed pass leaves nothing it could still remove, and what it can never finish.
\<close>

section \<open>The invariant\<close>

definition unused_key :: "hub \<Rightarrow> string \<Rightarrow> bool" where
  "unused_key h k \<longleftrightarrow>
     (\<forall>f \<in> set (db_files (hub_db h)). file_DeleteState f = FileActive \<longrightarrow> file_ObjectKey f \<noteq> k)"

lemma remove_unused_inv:
  assumes "objects_inv h" and "unused_key h k" and "store_Remove f k (hub_store h) = (s, r)"
  shows "objects_inv (h\<lparr>hub_store := s\<rparr>)"
  using assms(3)
proof (cases rule: store_Remove_cases)
  case (kept e)
  with assms(1) show ?thesis by simp
next
  case removed
  with assms(2) show ?thesis
    by (intro objects_inv_at_key [OF assms(1), where k = k and v = None])
      (auto simp: job_keys_def unused_key_def)
qed

lemma recover_jobs_inv:
  "objects_inv h \<Longrightarrow> \<forall>j \<in> set js. unused_key h (job_ObjectKey j) \<Longrightarrow>
   recover_jobs G js out h = (h', out', r) \<Longrightarrow>
   objects_inv h' \<and> db_files (hub_db h') = db_files (hub_db h)
   \<and> CleanupChecked out' \<le> CleanupChecked out + length js \<and> TombstonesChecked out' = TombstonesChecked out"
proof (induction js arbitrary: out h)
  case Nil
  then show ?case by simp
next
  case (Cons j js)
  let ?g = "G (job_ObjectKey j)"
  let ?out1 = "out\<lparr>CleanupChecked := CleanupChecked out + 1\<rparr>"
  show ?case
  proof (cases "it_cancelled ?g")
    case True
    with Cons.prems show ?thesis by (auto simp: Let_def)
  next
    case False
    obtain s x where rm: "store_Remove (it_remove ?g) (job_ObjectKey j) (hub_store h) = (s, x)" by fastforce
    have s: "objects_inv (h\<lparr>hub_store := s\<rparr>)"
      using remove_unused_inv [OF Cons.prems(1) _ rm] Cons.prems(2) by simp
    have rest: "\<forall>j \<in> set js. unused_key k (job_ObjectKey j)" if "db_files (hub_db k) = db_files (hub_db h)" for k
      using that Cons.prems(2) by (simp add: unused_key_def)
    show ?thesis
    proof (cases x)
      case (Inl e)
      with Cons.prems(3) False rm have "recover_jobs G js ?out1 (h\<lparr>hub_store := s\<rparr>) = (h', out', r)"
        by (simp add: Let_def)
      from Cons.IH [OF s rest this] show ?thesis by simp
    next
      case (Inr u)
      obtain d y where co: "CompleteObjectCleanup (it_db ?g) (hub_db h) (job_ObjectKey j) = (d, y)" by fastforce
      then obtain rows where rows: "d = (hub_db h)\<lparr>db_cleanup := rows\<rparr>"
        "job_ObjectKey ` set rows \<subseteq> job_ObjectKey ` set (db_cleanup (hub_db h))"
        by (rule CompleteObjectCleanup_keys)
      have d: "objects_inv \<lparr>hub_db = d, hub_store = s\<rparr>"
        using rows by (intro objects_inv_same [OF s]) (auto simp: job_keys_def)
      show ?thesis
      proof (cases y)
        case (Inl e)
        with Cons.prems(3) False rm Inr co d rows show ?thesis by (auto simp: Let_def)
      next
        case Inr': (Inr v)
        with Cons.prems(3) False rm Inr co
        have "recover_jobs G js (?out1\<lparr>CleanupCompleted := CleanupCompleted ?out1 + 1\<rparr>) \<lparr>hub_db = d, hub_store = s\<rparr>
          = (h', out', r)"
          by (simp add: Let_def)
        from Cons.IH [OF d rest this] rows show ?thesis by simp
      qed
    qed
  qed
qed

lemma delete_files_inv:
  "objects_inv \<lparr>hub_db = d, hub_store = s\<rparr> \<Longrightarrow> objects_inv \<lparr>hub_db = delete_files P d, hub_store = s\<rparr>"
  by (rule objects_inv_without [where P = P and h = "\<lparr>hub_db = d, hub_store = s\<rparr>"])
    (simp_all add: delete_files_def job_keys_def)

lemma FinalizeFileDelete_cases:
  assumes "FinalizeFileDelete flt d i k = (d', r)"
  obtains (failed) "d' = d" "r = Inl DbOther"
    | (ran) P where "d' = delete_files P d" "r = Inl DbNotFound \<or> r = Inr ()"
        "P = (\<lambda>f. file_ID f = i \<and> file_ObjectKey f = k \<and> file_DeleteState f = FileDeleting)"
  using assms unfolding FinalizeFileDelete_def Let_def by (auto split: if_splits)

lemma recover_tombstones_inv:
  "objects_inv h \<Longrightarrow> \<forall>f \<in> set fs. unused_key h (file_ObjectKey f) \<Longrightarrow>
   recover_tombstones G fs out h = (h', out', r) \<Longrightarrow>
   objects_inv h' \<and> TombstonesChecked out' \<le> TombstonesChecked out + length fs
   \<and> CleanupChecked out' = CleanupChecked out"
proof (induction fs arbitrary: out h)
  case Nil
  then show ?case by simp
next
  case (Cons f fs)
  let ?g = "G (file_ObjectKey f)"
  let ?out1 = "out\<lparr>TombstonesChecked := TombstonesChecked out + 1\<rparr>"
  show ?case
  proof (cases "it_cancelled ?g")
    case True
    with Cons.prems show ?thesis by (auto simp: Let_def)
  next
    case False
    obtain s x where rm: "store_Remove (it_remove ?g) (file_ObjectKey f) (hub_store h) = (s, x)" by fastforce
    have s: "objects_inv (h\<lparr>hub_store := s\<rparr>)"
      using remove_unused_inv [OF Cons.prems(1) _ rm] Cons.prems(2) by simp
    then have s': "objects_inv \<lparr>hub_db = hub_db h, hub_store = s\<rparr>" by (cases h) simp
    have rest: "\<forall>f \<in> set fs. unused_key k (file_ObjectKey f)"
      if "set (db_files (hub_db k)) \<subseteq> set (db_files (hub_db h))" for k
      using that Cons.prems(2) by (auto simp: unused_key_def)
    show ?thesis
    proof (cases x)
      case (Inl e)
      with Cons.prems(3) False rm have "recover_tombstones G fs ?out1 (h\<lparr>hub_store := s\<rparr>) = (h', out', r)"
        by (simp add: Let_def)
      from Cons.IH [OF s rest this] show ?thesis by simp
    next
      case (Inr u)
      let ?out2 = "?out1\<lparr>TombstonesFinalized := TombstonesFinalized ?out1 + 1\<rparr>"
      obtain d y where fd: "FinalizeFileDelete (it_db ?g) (hub_db h) (file_ID f) (file_ObjectKey f) = (d, y)"
        by fastforce
      from fd show ?thesis
      proof (cases rule: FinalizeFileDelete_cases)
        case failed
        with Cons.prems(3) False rm Inr fd s' show ?thesis by (auto simp: Let_def)
      next
        case (ran P)
        have d: "objects_inv \<lparr>hub_db = d, hub_store = s\<rparr>" using delete_files_inv [OF s'] ran(1) by simp
        have sub: "set (db_files d) \<subseteq> set (db_files (hub_db h))" by (auto simp: ran(1) delete_files_def)
        from Cons.prems(3) False rm Inr fd ran(2)
        have "recover_tombstones G fs ?out2 \<lparr>hub_db = d, hub_store = s\<rparr> = (h', out', r)"
          by (auto simp: Let_def)
        from Cons.IH [OF d rest this] sub show ?thesis by simp
      qed
    qed
  qed
qed

lemma ObjectCleanupJobs_Inr:
  "ObjectCleanupJobs flt d limit = Inr js \<Longrightarrow> set js \<subseteq> set (db_cleanup d) \<and> (0 \<le> limit \<longrightarrow> length js \<le> nat limit)"
  using set_sql_limit by (fastforce simp: ObjectCleanupJobs_def sql_limit_def split: if_splits)

lemma DeletingFiles_Inr:
  "DeletingFiles flt d limit = Inr fs \<Longrightarrow>
   set fs \<subseteq> {f \<in> set (db_files d). file_DeleteState f = FileDeleting} \<and> (0 \<le> limit \<longrightarrow> length fs \<le> nat limit)"
  using set_sql_limit [of limit "sort_key file_ID (filter (\<lambda>f. file_DeleteState f = FileDeleting) (db_files d))"]
  by (auto simp: DeletingFiles_def sql_limit_def split: if_splits)

lemma published_Recover_inv:
  assumes inv: "objects_inv h" and "published_Recover flt1 flt2 G1 G2 limit h = (h', rep, r)"
  shows "objects_inv h'" "0 \<le> limit \<Longrightarrow> int (CleanupChecked rep) \<le> limit \<and> int (TombstonesChecked rep) \<le> limit"
proof -
  let ?out0 = "\<lparr>CleanupChecked = 0, CleanupCompleted = 0, TombstonesChecked = 0, TombstonesFinalized = 0\<rparr>"
  have "objects_inv h' \<and> (0 \<le> limit \<longrightarrow> int (CleanupChecked rep) \<le> limit \<and> int (TombstonesChecked rep) \<le> limit)"
  proof (cases "ObjectCleanupJobs flt1 (hub_db h) limit")
    case (Inl e)
    with assms show ?thesis by (auto simp: published_Recover_def Let_def)
  next
    case (Inr js)
    obtain h1 out1 e1 where rj: "recover_jobs G1 js ?out0 h = (h1, out1, e1)" by (metis prod_cases3)
    have "\<forall>j \<in> set js. unused_key h (job_ObjectKey j)"
      using ObjectCleanupJobs_Inr [OF Inr] inv by (fastforce simp: objects_inv_def unused_key_def job_keys_def)
    from recover_jobs_inv [OF inv this rj]
    have h1: "objects_inv h1" "CleanupChecked out1 \<le> length js" "TombstonesChecked out1 = 0" by simp_all
    show ?thesis
    proof (cases e1)
      case (Some x)
      with assms(2) Inr rj h1 ObjectCleanupJobs_Inr [OF Inr] show ?thesis
        by (auto simp: published_Recover_def Let_def)
    next
      case None
      show ?thesis
      proof (cases "DeletingFiles flt2 (hub_db h1) limit")
        case (Inl e)
        with assms(2) Inr rj None h1 ObjectCleanupJobs_Inr [OF \<open>ObjectCleanupJobs flt1 (hub_db h) limit = Inr js\<close>]
        show ?thesis by (auto simp: published_Recover_def Let_def)
      next
        case df: (Inr fs)
        with assms(2) Inr rj None have rt: "recover_tombstones G2 fs out1 h1 = (h', rep, r)"
          by (simp add: published_Recover_def Let_def)
        have "\<forall>f \<in> set fs. unused_key h1 (file_ObjectKey f)"
          using DeletingFiles_Inr [OF df] deleting_key [OF h1(1)] by (auto simp: unused_key_def)
        from recover_tombstones_inv [OF h1(1) this rt] h1 DeletingFiles_Inr [OF df] ObjectCleanupJobs_Inr [OF Inr]
        show ?thesis by auto
      qed
    qed
  qed
  then show "objects_inv h'"
    "0 \<le> limit \<Longrightarrow> int (CleanupChecked rep) \<le> limit \<and> int (TombstonesChecked rep) \<le> limit"
    by simp_all
qed

text \<open>Which keys a removal can succeed for.\<close>

definition removable :: "object_store \<Rightarrow> string \<Rightarrow> bool" where
  "removable s k \<longleftrightarrow> st_open s \<and> (\<exists>x. parseObjectKey k = Inr x)
     \<and> (\<exists>v. st_objects s k = Some v \<and> v \<noteq> Directory)"

definition quiet_item :: item_faults where
  "quiet_item = \<lparr>it_cancelled = False, it_remove = NoFault, it_db = False\<rparr>"

lemma quiet_item_simps [simp]:
  "\<not> it_cancelled quiet_item" "it_remove quiet_item = NoFault" "\<not> it_db quiet_item"
  by (simp_all add: quiet_item_def)

lemma remove_removable: "removable s k \<Longrightarrow> store_Remove NoFault k s = (del_object k s, Inr ())"
  by (auto simp: removable_def store_Remove_def split: node.splits)

lemma remove_not_removable: "\<not> removable s k \<Longrightarrow> \<exists>e. store_Remove NoFault k s = (s, Inl e)"
  by (auto simp: removable_def store_Remove_def split: node.splits sum.splits option.splits)

lemma removable_del [simp]: "removable (del_object k s) j \<longleftrightarrow> j \<noteq> k \<and> removable s j"
  by (auto simp: removable_def)

text \<open>An undisturbed pass over the jobs removes what can be removed and forgets those jobs.\<close>

lemma recover_jobs_quiet:
  "recover_jobs (\<lambda>_. quiet_item) js out h = (h', out', r) \<Longrightarrow>
   r = None \<and> db_files (hub_db h') = db_files (hub_db h)
   \<and> job_keys h' = job_keys h - {k \<in> job_ObjectKey ` set js. removable (hub_store h) k}
   \<and> st_open (hub_store h') = st_open (hub_store h)
   \<and> st_objects (hub_store h') = (\<lambda>k. if k \<in> job_ObjectKey ` set js \<and> removable (hub_store h) k then None
        else st_objects (hub_store h) k)"
proof (induction js arbitrary: out h)
  case Nil
  then show ?case by simp
next
  case (Cons j js)
  let ?k = "job_ObjectKey j"
  let ?out1 = "out\<lparr>CleanupChecked := CleanupChecked out + 1\<rparr>"
  show ?case
  proof (cases "removable (hub_store h) ?k")
    case True
    let ?d = "(hub_db h)\<lparr>db_cleanup := delete_rows (\<lambda>i. job_ObjectKey i = ?k) (db_cleanup (hub_db h))\<rparr>"
    let ?h1 = "\<lparr>hub_db = ?d, hub_store = del_object ?k (hub_store h)\<rparr>"
    have "recover_jobs (\<lambda>_. quiet_item) js (?out1\<lparr>CleanupCompleted := CleanupCompleted ?out1 + 1\<rparr>) ?h1 = (h', out', r)"
      using Cons.prems remove_removable [OF True] by (simp add: Let_def CompleteObjectCleanup_def)
    note IH = Cons.IH [OF this]
    have "job_keys ?h1 = job_keys h - {?k}" by (auto simp: job_keys_def)
    with IH True show ?thesis by (auto simp: fun_eq_iff)
  next
    case False
    with remove_not_removable obtain e where "store_Remove NoFault ?k (hub_store h) = (hub_store h, Inl e)" by blast
    with Cons.prems have "recover_jobs (\<lambda>_. quiet_item) js ?out1 h = (h', out', r)"
      by (simp add: Let_def)
    from Cons.IH [OF this] False show ?thesis by (auto simp: fun_eq_iff)
  qed
qed

text \<open>The same for the tombstones.\<close>

lemma recover_tombstones_quiet:
  "recover_tombstones (\<lambda>_. quiet_item) fs out h = (h', out', r) \<Longrightarrow>
   distinct (map file_ID (db_files (hub_db h))) \<Longrightarrow> distinct (map file_ObjectKey fs) \<Longrightarrow> distinct fs \<Longrightarrow>
   \<forall>f \<in> set fs. f \<in> set (db_files (hub_db h)) \<and> file_DeleteState f = FileDeleting \<Longrightarrow>
   r = None \<and> db_cleanup (hub_db h') = db_cleanup (hub_db h)
   \<and> set (db_files (hub_db h')) = {f \<in> set (db_files (hub_db h)). \<not> (f \<in> set fs \<and> removable (hub_store h) (file_ObjectKey f))}
   \<and> st_open (hub_store h') = st_open (hub_store h)
   \<and> st_objects (hub_store h') = (\<lambda>k. if k \<in> file_ObjectKey ` set fs \<and> removable (hub_store h) k then None
        else st_objects (hub_store h) k)"
proof (induction fs arbitrary: out h)
  case Nil
  then show ?case by simp
next
  case (Cons f fs)
  let ?k = "file_ObjectKey f"
  let ?out1 = "out\<lparr>TombstonesChecked := TombstonesChecked out + 1\<rparr>"
  have f: "f \<in> set (db_files (hub_db h))" "file_DeleteState f = FileDeleting" using Cons.prems(5) by simp_all
  show ?case
  proof (cases "removable (hub_store h) ?k")
    case True
    let ?h1 = "\<lparr>hub_db = without_file (file_ID f) (hub_db h), hub_store = del_object ?k (hub_store h)\<rparr>"
    have fin: "FinalizeFileDelete False (hub_db h) (file_ID f) ?k = (without_file (file_ID f) (hub_db h), Inr ())"
      using FinalizeFileDelete_row [OF Cons.prems(2) f] by simp
    have run: "recover_tombstones (\<lambda>_. quiet_item) fs (?out1\<lparr>TombstonesFinalized := TombstonesFinalized ?out1 + 1\<rparr>) ?h1 = (h', out', r)"
      using Cons.prems(1) remove_removable [OF True] fin by (simp add: Let_def)
    have files: "set (db_files (hub_db ?h1)) = set (db_files (hub_db h)) - {f}"
      using same_row [OF Cons.prems(2) f(1)] by (auto simp: without_file_def)
    have "distinct (map file_ID (db_files (hub_db ?h1)))"
      using Cons.prems(2) by (simp add: without_file_def distinct_delete_rows)
    moreover have "\<forall>g \<in> set fs. g \<in> set (db_files (hub_db ?h1)) \<and> file_DeleteState g = FileDeleting"
      unfolding files using Cons.prems(4,5) by auto
    ultimately have IH: "r = None" "db_cleanup (hub_db h') = db_cleanup (hub_db ?h1)"
      "set (db_files (hub_db h')) = {g \<in> set (db_files (hub_db ?h1)). \<not> (g \<in> set fs \<and> removable (hub_store ?h1) (file_ObjectKey g))}"
      "st_open (hub_store h') = st_open (hub_store ?h1)"
      "st_objects (hub_store h') = (\<lambda>k. if k \<in> file_ObjectKey ` set fs \<and> removable (hub_store ?h1) k then None
        else st_objects (hub_store ?h1) k)"
      using Cons.IH [OF run] Cons.prems(3,4) by simp_all
    have other: "file_ObjectKey g \<noteq> ?k" if "g \<in> set fs" for g
      using that Cons.prems(3) by simp (metis imageI)
    have "set (db_files (hub_db h')) = {g \<in> set (db_files (hub_db h)). \<not> (g \<in> set (f # fs) \<and> removable (hub_store h) (file_ObjectKey g))}"
      unfolding IH(3) files using True other by auto
    moreover have "st_objects (hub_store h') = (\<lambda>k. if k \<in> file_ObjectKey ` set (f # fs) \<and> removable (hub_store h) k then None
        else st_objects (hub_store h) k)"
      unfolding IH(5) using True other by (auto simp: fun_eq_iff)
    ultimately show ?thesis using IH(1,2,4) by (simp add: without_file_def)
  next
    case False
    with remove_not_removable obtain e where "store_Remove NoFault ?k (hub_store h) = (hub_store h, Inl e)" by blast
    with Cons.prems(1) have "recover_tombstones (\<lambda>_. quiet_item) fs ?out1 h = (h', out', r)"
      by (simp add: Let_def)
    from Cons.IH [OF this Cons.prems(2)] Cons.prems(3-5) False show ?thesis by (auto simp: fun_eq_iff)
  qed
qed

text \<open>After an undisturbed pass nothing that is recorded could still be removed.\<close>

lemma limit_all: "length xs \<le> nat n \<Longrightarrow> sql_limit n xs = xs"
  by (simp add: sql_limit_def)

lemma published_Recover_quiet:
  assumes inv: "objects_inv h"
    and run: "published_Recover False False (\<lambda>_. quiet_item) (\<lambda>_. quiet_item) limit h = (h', rep, r)"
    and lim: "length (db_cleanup (hub_db h)) \<le> nat limit" "length (db_files (hub_db h)) \<le> nat limit"
  shows "r = None" "\<forall>k \<in> job_keys h'. \<not> removable (hub_store h') k"
    "\<forall>f \<in> set (db_files (hub_db h')). file_DeleteState f = FileDeleting \<longrightarrow>
       \<not> removable (hub_store h') (file_ObjectKey f)"
    "{f \<in> set (db_files (hub_db h')). file_DeleteState f = FileActive}
      = {f \<in> set (db_files (hub_db h)). file_DeleteState f = FileActive}"
    "\<forall>f \<in> set (db_files (hub_db h)). file_DeleteState f = FileActive \<longrightarrow>
       st_objects (hub_store h') (file_ObjectKey f) = st_objects (hub_store h) (file_ObjectKey f)"
proof -
  define js where "js = sort_key job_CreatedAt (db_cleanup (hub_db h))"
  define out0 where "out0 = \<lparr>CleanupChecked = 0, CleanupCompleted = 0, TombstonesChecked = 0, TombstonesFinalized = 0\<rparr>"
  have js: "ObjectCleanupJobs False (hub_db h) limit = Inr js"
    using lim(1) by (simp add: ObjectCleanupJobs_def js_def limit_all)
  have jk: "job_ObjectKey ` set js = job_keys h" by (simp add: js_def job_keys_def)
  obtain h1 out1 e1 where rj: "recover_jobs (\<lambda>_. quiet_item) js out0 h = (h1, out1, e1)" by (metis prod_cases3)
  note j = recover_jobs_quiet [OF rj, unfolded jk]
  have "\<forall>j \<in> set js. unused_key h (job_ObjectKey j)"
    using inv by (fastforce simp: objects_inv_def unused_key_def job_keys_def js_def)
  from recover_jobs_inv [OF inv this rj] have h1: "objects_inv h1" by simp
  define fs where "fs = sort_key file_ID (filter (\<lambda>f. file_DeleteState f = FileDeleting) (db_files (hub_db h)))"
  have "length (filter (\<lambda>f. file_DeleteState f = FileDeleting) (db_files (hub_db h))) \<le> nat limit"
    using lim(2) length_filter_le [of "\<lambda>f. file_DeleteState f = FileDeleting" "db_files (hub_db h)"] by linarith
  then have fs: "DeletingFiles False (hub_db h1) limit = Inr fs"
    using j by (simp add: DeletingFiles_def fs_def limit_all)
  from run js rj j fs have rt: "recover_tombstones (\<lambda>_. quiet_item) fs out1 h1 = (h', rep, r)"
    by (simp add: published_Recover_def Let_def out0_def)
  have sfs: "set fs = {f \<in> set (db_files (hub_db h)). file_DeleteState f = FileDeleting}"
    by (simp add: fs_def)
  have dfs: "distinct fs" and dk: "distinct (map file_ObjectKey fs)"
    using inv by (auto simp: fs_def objects_inv_def distinct_map intro: inj_on_subset)
  have "distinct (map file_ID (db_files (hub_db h1)))" using h1 by (simp add: objects_inv_def)
  moreover have "\<forall>f \<in> set fs. f \<in> set (db_files (hub_db h1)) \<and> file_DeleteState f = FileDeleting"
    using j sfs by simp
  ultimately have t: "r = None" "db_cleanup (hub_db h') = db_cleanup (hub_db h1)"
    "set (db_files (hub_db h')) = {f \<in> set (db_files (hub_db h)). \<not> (f \<in> set fs \<and> removable (hub_store h1) (file_ObjectKey f))}"
    "st_open (hub_store h') = st_open (hub_store h1)"
    "st_objects (hub_store h') = (\<lambda>k. if k \<in> file_ObjectKey ` set fs \<and> removable (hub_store h1) k then None
        else st_objects (hub_store h1) k)"
    using recover_tombstones_quiet [OF rt _ dk dfs] j by simp_all
  show "r = None" by (rule t)
  have less: "removable (hub_store h1) k" if "removable (hub_store h') k" for k
    using that t(4,5) by (auto simp: removable_def split: if_splits)
  have less1: "removable (hub_store h) k \<and> k \<notin> job_keys h" if "removable (hub_store h1) k" for k
    using that j by (auto simp: removable_def split: if_splits)
  show "\<forall>k \<in> job_keys h'. \<not> removable (hub_store h') k"
  proof (intro ballI notI)
    fix k assume "k \<in> job_keys h'" and "removable (hub_store h') k"
    moreover from this t(2) have "k \<in> job_keys h1" by (simp add: job_keys_def)
    ultimately show False using less less1 j by blast
  qed
  show "\<forall>f \<in> set (db_files (hub_db h')). file_DeleteState f = FileDeleting \<longrightarrow>
       \<not> removable (hub_store h') (file_ObjectKey f)"
    using t(3) sfs less by blast
  show "{f \<in> set (db_files (hub_db h')). file_DeleteState f = FileActive}
      = {f \<in> set (db_files (hub_db h)). file_DeleteState f = FileActive}"
    unfolding t(3) sfs by auto
  show "\<forall>f \<in> set (db_files (hub_db h)). file_DeleteState f = FileActive \<longrightarrow>
       st_objects (hub_store h') (file_ObjectKey f) = st_objects (hub_store h) (file_ObjectKey f)"
  proof (intro ballI impI)
    fix f assume f: "f \<in> set (db_files (hub_db h))" "file_DeleteState f = FileActive"
    then have "file_ObjectKey f \<notin> job_keys h" using inv by (auto simp: objects_inv_def)
    moreover have "file_ObjectKey f \<notin> file_ObjectKey ` set fs"
      using deleting_key [OF inv _ _ f] sfs by auto
    ultimately show "st_objects (hub_store h') (file_ObjectKey f) = st_objects (hub_store h) (file_ObjectKey f)"
      using j t(5) by simp
  qed
qed

section \<open>Deletions that cannot finish\<close>

text \<open>
  A tombstone whose object is gone, as a crash between the removal and the last statement
  leaves it: \<open>Remove\<close> fails on the absent object, so no pass finishes it, and its path stays
  taken.
\<close>

definition stuck :: "file_row \<Rightarrow> hub \<Rightarrow> bool" where
  "stuck f h \<longleftrightarrow> f \<in> set (db_files (hub_db h)) \<and> file_DeleteState f = FileDeleting
     \<and> st_objects (hub_store h) (file_ObjectKey f) = None \<and> distinct (map file_ObjectKey (db_files (hub_db h)))"

lemma remove_absent: "st_objects s k = None \<Longrightarrow> \<exists>e. store_Remove f k s = (s, Inl e)"
  by (auto simp: store_Remove_def split: sum.splits)

lemma remove_keeps_absent:
  "store_Remove f k s = (s', r) \<Longrightarrow> st_objects s j = None \<Longrightarrow> st_objects s' j = None"
  by (erule store_Remove_cases) simp_all

lemma recover_jobs_stuck:
  "recover_jobs G js out h = (h', out', r) \<Longrightarrow> stuck f h \<Longrightarrow> stuck f h'"
proof (induction js arbitrary: out h)
  case (Cons j js)
  obtain s x where rm: "store_Remove (it_remove (G (job_ObjectKey j))) (job_ObjectKey j) (hub_store h) = (s, x)"
    by fastforce
  obtain d y where co: "CompleteObjectCleanup (it_db (G (job_ObjectKey j))) (hub_db h) (job_ObjectKey j) = (d, y)"
    by fastforce
  then have d: "db_files d = db_files (hub_db h)" by (auto simp: CompleteObjectCleanup_def split: if_splits)
  have s: "stuck f (h\<lparr>hub_store := s\<rparr>)" "stuck f \<lparr>hub_db = d, hub_store = s\<rparr>"
    using Cons.prems(2) remove_keeps_absent [OF rm] d by (auto simp: stuck_def)
  show ?case
    using Cons.prems Cons.IH s rm co by (auto simp: Let_def split: if_splits sum.splits)
qed simp

lemma delete_files_keys:
  "distinct (map file_ObjectKey (db_files d)) \<Longrightarrow> distinct (map file_ObjectKey (db_files (delete_files P d)))"
  by (simp add: delete_files_def distinct_delete_rows)

lemma recover_tombstones_stuck:
  "recover_tombstones G fs out h = (h', out', r) \<Longrightarrow> stuck f h \<Longrightarrow> stuck f h'"
proof (induction fs arbitrary: out h)
  case (Cons g fs)
  obtain s x where rm: "store_Remove (it_remove (G (file_ObjectKey g))) (file_ObjectKey g) (hub_store h) = (s, x)"
    by fastforce
  obtain d y where fd: "FinalizeFileDelete (it_db (G (file_ObjectKey g))) (hub_db h) (file_ID g) (file_ObjectKey g) = (d, y)"
    by fastforce
  have s: "stuck f (h\<lparr>hub_store := s\<rparr>)"
    using Cons.prems(2) remove_keeps_absent [OF rm] by (auto simp: stuck_def)
  have d: "stuck f \<lparr>hub_db = d, hub_store = s\<rparr>" if "x = Inr u" for u
  proof -
    from rm that have "file_ObjectKey g \<noteq> file_ObjectKey f"
      using Cons.prems(2) store_Remove_gone(2) [of _ "file_ObjectKey g" "hub_store h" s] by (auto simp: stuck_def)
    from fd show ?thesis
    proof (cases rule: FinalizeFileDelete_cases)
      case failed
      with s show ?thesis by (simp add: stuck_def)
    next
      case (ran P)
      have "f \<in> set (db_files d)"
        using Cons.prems(2) \<open>file_ObjectKey g \<noteq> file_ObjectKey f\<close> by (simp add: ran delete_files_def stuck_def)
      with s ran(1) delete_files_keys show ?thesis by (simp add: stuck_def)
    qed
  qed
  show ?case
    using Cons.prems Cons.IH s d rm fd by (auto simp: Let_def split: if_splits sum.splits)
qed simp

lemma published_Recover_stuck:
  "published_Recover flt1 flt2 G1 G2 limit h = (h', rep, r) \<Longrightarrow> stuck f h \<Longrightarrow> stuck f h'"
  unfolding published_Recover_def
  by (auto simp: Let_def split: sum.splits prod.splits option.splits
      dest!: recover_jobs_stuck recover_tombstones_stuck)

inductive recovery_pass :: "hub \<Rightarrow> hub \<Rightarrow> bool" where
  pass: "published_Recover flt1 flt2 G1 G2 limit h = (h', rep, r) \<Longrightarrow> recovery_pass h h'"

interpretation stuck_passes: invariant_system recovery_pass "stuck f" for f
  by unfold_locales (auto elim!: recovery_pass.cases intro: published_Recover_stuck)

lemma stuck_path_taken:
  assumes "stuck f h" and op: "createFile nfc policy F partial random now wc c (Some r) h = (h', resp)"
    and "length random = 32" and "ParseDecodedPath nfc (fr_Path r) policy = Inr q"
    and "file_place f = (fr_RootID r, Canonical q)"
  shows "res_status resp \<noteq> 201"
  using createFile_effect [OF op assms(3)] assms(1,4,5) by (force simp: stuck_def created_def split: if_splits)

section \<open>The requests as a transition system\<close>

inductive published_step :: "hub \<Rightarrow> hub \<Rightarrow> bool" where
  ps_create: "createFile nfc policy F partial random now wc c req h = (h', resp) \<Longrightarrow> new_key random h \<Longrightarrow>
    published_step h h'"
| ps_mkdir: "createDirectory nfc policy F now c dreq h = (h', resp) \<Longrightarrow> published_step h h'"
| ps_rename: "renameFile nfc policy F now c fileID path h = (h', resp) \<Longrightarrow> published_step h h'"
| ps_delete: "deleteFile nfc policy F now c fileID h = (h', resp) \<Longrightarrow> published_step h h'"
| ps_rmdir: "deleteDirectory nfc policy F now c dirID h = (h', resp) \<Longrightarrow> published_step h h'"
| ps_recover: "published_Recover flt1 flt2 G1 G2 limit h = (h', rep, r) \<Longrightarrow> published_step h h'"

lemma published_step_inv: "published_step h h' \<Longrightarrow> objects_inv h \<Longrightarrow> objects_inv h'"
  by (induction rule: published_step.induct)
    (blast intro: createFile_inv createDirectory_inv renameFile_inv deleteFile_inv deleteDirectory_inv
      published_Recover_inv(1))+

interpretation published: invariant_system published_step objects_inv
  by unfold_locales (rule published_step_inv)

end
