(* ===== verification/System.thy ===== *)
theory System
  imports UploadRun PublishedRecover
begin

text \<open>
  The upload manager, the published-file handlers and the recovery pass over one database and
  one object store: every interleaving of their operations keeps both invariants.
\<close>

section \<open>What the upload manager does to the files\<close>

text \<open>Everything but a publication leaves files, cleanup jobs and objects alone.\<close>

locale quiet_section = critical_section +
  assumes body_outside: "upload_inv h \<Longrightarrow> P h \<Longrightarrow> sess h i = Some s \<Longrightarrow> fn s h = (h', x, r) \<Longrightarrow> outside_same h h'"
begin

lemma locked_outside:
  assumes inv: "upload_inv h" and "P h" and "withLifecycleLock F olds i fn init h = (h', x, r)"
  shows "outside_same h h'"
  using assms(3)
proof (cases rule: withLifecycleLock_cases)
  case (Quiet e)
  then show ?thesis by (simp add: outside_same_view)
next
  case (Ran h1 s e)
  have "sess h1 i = Some s" using Ran(1,2) by (simp add: same_view_def)
  with Ran assms show ?thesis
    by (blast intro: outside_same_trans outside_same_view upload_inv_view P_view body_outside)
qed

end

lemma cleanupLocked_outside:
  "upload_inv h \<Longrightarrow> sess h i = Some s \<Longrightarrow> cleanupLocked F now s h = (h', r) \<Longrightarrow> outside_same h h'"
  using cleanupLocked_effect by blast

lemma write_locked_outside:
  assumes "upload_inv h" and "sess h i = Some s" and "write_locked F now offset b s h = (h', n, r)"
  shows "outside_same h h'"
  using assms
proof (cases rule: write_locked_cases)
  case Expired
  with assms cleanupLocked_outside show ?thesis by (metis prod.collapse)
qed auto

interpretation quiet_write: quiet_section "write_locked F now offset b" "\<lambda>_. True"
  for F now offset b
  by unfold_locales (auto intro: write_locked_outside)

interpretation quiet_cleanup: quiet_section "cleanup_body F now eo" "\<lambda>_. True"
  for F now eo
  by unfold_locales (auto simp: cleanup_body_def intro: cleanupLocked_outside split: if_splits prod.splits)

interpretation quiet_recover: quiet_section "recover_body F now" "\<lambda>_. True"
  for F now
  by unfold_locales (auto simp: recover_body_def intro: cleanupLocked_outside split: if_splits prod.splits)

interpretation quiet_hash: quiet_section "complete_hash sha256 F now" "\<lambda>_. True"
  for sha256 F now
  by unfold_locales (auto dest: complete_hash_same)

lemma cleanup_outside:
  "upload_inv h \<Longrightarrow> cleanup F olds now i eo h = (h', r) \<Longrightarrow> outside_same h h'"
  using quiet_cleanup.locked_outside [of h F olds i F now eo "()"]
  by (cases "withLifecycleLock F olds i (cleanup_body F now eo) () h")
    (auto simp: cleanup_def cleanup_body_def [abs_def])

lemma Get_outside:
  "upload_inv h \<Longrightarrow> Get flt F now now' i h = (h', r) \<Longrightarrow> outside_same h h'"
  by (cases "cleanup F [] now' i True h")
    (auto simp: Get_def dest: cleanup_outside split: sum.splits if_splits)

lemma recover_sessions_outside:
  "upload_inv h \<Longrightarrow> recover_sessions Fs now dry ss rep h = (h', rep', r) \<Longrightarrow> outside_same h h'"
proof (induction ss arbitrary: rep h)
  case Nil
  then show ?case by simp
next
  case (Cons s ss)
  from Cons.prems(2) show ?case
  proof (cases rule: recover_sessions_step)
    case Stop
    then show ?thesis by simp
  next
    case (One h1 kept e)
    have "upload_inv h1 \<and> outside_same h h1"
      using One(1) Cons.prems(1) recover_section.locked_inv [OF Cons.prems(1) TrueI]
        quiet_recover.locked_outside [OF Cons.prems(1) TrueI]
      by (cases dry) auto
    with One(2) Cons.IH outside_same_trans show ?thesis by blast
  qed
qed

lemma recover_orphans_outside:
  "upload_inv h \<Longrightarrow> \<forall>n \<in> set names. validStagingName n \<Longrightarrow>
   recover_orphans Fs dry seen names rep h = (h', rep', r) \<Longrightarrow> outside_same h h'"
proof (induction names arbitrary: rep h)
  case Nil
  then show ?case by simp
next
  case (Cons n names)
  obtain st rl where l: "store_LockStaging (Fs n LockSite) n (hub_store h) = (st, rl)" by fastforce
  let ?h1 = "h\<lparr>hub_store := st\<rparr>"
  have v: "same_view h ?h1" by (rule lock_view_hub [OF l])
  have h1: "upload_inv ?h1" "outside_same h ?h1"
    by (rule upload_inv_view [OF Cons.prems(1) v]) (rule outside_same_view [OF v])
  obtain h2 rep2 e where ro: "remove_orphan (Fs n) dry n (rep\<lparr>Checked := Checked rep + 1\<rparr>) ?h1
      = (h2, rep2, e)" by (metis prod_cases3)
  have h2: "upload_inv h2" "outside_same h h2"
    using remove_orphan_inv [OF h1(1) _ ro] Cons.prems(2) outside_same_trans [OF h1(2)] by simp_all
  have IH: "upload_inv k \<Longrightarrow> outside_same h k \<Longrightarrow> recover_orphans Fs dry seen names rp k = (h', rep', r)
      \<Longrightarrow> outside_same h h'" for rp k
    using Cons.IH Cons.prems(2) outside_same_trans by (meson list.set_intros(2))
  show ?case
    using Cons.prems(1,3) IH h1 h2
    by (auto simp: Let_def l ro [simplified] split: if_splits sum.splits err.splits option.splits)
qed

lemma Recover_outside:
  assumes inv: "upload_inv h" and op: "Recover F Fs now limit dry h = (h', rep, r)"
  shows "outside_same h h'"
  using op
proof (cases rule: Recover_cases)
  case Early
  then show ?thesis by simp
next
  case (Go sessions ns h1 rep1 e)
  have h1: "upload_inv h1" "outside_same h h1"
    by (rule recover_sessions_inv [OF inv Go(3)]) (rule recover_sessions_outside [OF inv Go(3)])
  with Go(4) recover_orphans_outside [OF h1(1) StagingNames_valid [OF Go(2)]] outside_same_trans
  show ?thesis by auto
qed

text \<open>A publication adds one object under a key that was free, with its row or without one.\<close>

definition publishes :: "hub \<Rightarrow> hub \<Rightarrow> bool" where
  "publishes h h' \<longleftrightarrow>
     (\<exists>k v. st_objects (hub_store h) k = None
        \<and> st_objects (hub_store h') = (st_objects (hub_store h))(k \<mapsto> v)
        \<and> db_cleanup (hub_db h') = db_cleanup (hub_db h)
        \<and> (db_files (hub_db h') = db_files (hub_db h)
           \<or> (\<exists>row c. v = Regular c \<and> db_files (hub_db h') = db_files (hub_db h) @ [row]
                \<and> file_ID row \<notin> file_ID ` set (db_files (hub_db h))
                \<and> file_ObjectKey row = k \<and> k \<notin> file_ObjectKey ` set (db_files (hub_db h)))))"

lemma CompleteUpload_row:
  assumes "CompleteUpload flt now d f sid = (d', r)"
  shows "db_cleanup d' = db_cleanup d"
    and "db_files d' \<noteq> db_files d \<Longrightarrow> \<exists>row. db_files d' = db_files d @ [row]
      \<and> file_ID row = next_id (map file_ID (db_files d)) \<and> file_ObjectKey row = file_ObjectKey f
      \<and> file_ObjectKey f \<notin> file_ObjectKey ` set (db_files d)"
  using assms unfolding CompleteUpload_def insert_file_def
  by (auto simp: Let_def file_insertable_def list_ex_iff split: if_splits sum.splits prod.splits) blast+

lemma complete_publish_cleanup:
  assumes "complete_publish F random now txnow s h = (h', u, r)"
  shows "db_cleanup (hub_db h') = db_cleanup (hub_db h)"
    and "db_files (hub_db h') = db_files (hub_db h) @ [row] \<Longrightarrow>
      file_ID row \<notin> file_ID ` set (db_files (hub_db h))
      \<and> file_ObjectKey row \<notin> file_ObjectKey ` set (db_files (hub_db h))"
proof -
  have db: "hub_db h' = hub_db h \<or> (\<exists>flt k r. CompleteUpload flt txnow (hub_db h) (upload_file s k) (up_ID s) = (hub_db h', r))"
    using assms unfolding complete_publish_def by (auto split: if_splits prod.splits sum.splits)
  then show "db_cleanup (hub_db h') = db_cleanup (hub_db h)" using CompleteUpload_row(1) by auto
  show "file_ID row \<notin> file_ID ` set (db_files (hub_db h))
      \<and> file_ObjectKey row \<notin> file_ObjectKey ` set (db_files (hub_db h))"
    if new: "db_files (hub_db h') = db_files (hub_db h) @ [row]"
  proof -
    from db new obtain flt k r where "CompleteUpload flt txnow (hub_db h) (upload_file s k) (up_ID s) = (hub_db h', r)"
      by auto
    from CompleteUpload_row(2) [OF this] new
    have "file_ID row = next_id (map file_ID (db_files (hub_db h)))"
      "file_ObjectKey row \<notin> file_ObjectKey ` set (db_files (hub_db h))" by auto
    with next_id_fresh [of "map file_ID (db_files (hub_db h))"] show ?thesis by simp
  qed
qed

lemma complete_publish_publishes:
  assumes inv: "upload_inv h" and s: "sess h i = Some s"
    and op: "complete_publish F random now txnow s h = (h', u, r)" and fresh: "fresh_key random h"
  shows "outside_same h h' \<or> publishes h h'"
  using inv s op fresh [unfolded fresh_key_def, THEN conjunct1] fresh [unfolded fresh_key_def, THEN conjunct2]
proof (cases rule: complete_publish_cases)
  case (Published c row)
  with complete_publish_cleanup [OF op] fresh show ?thesis
    unfolding publishes_def fresh_key_def by metis
next
  case (Kept e)
  then show ?thesis by (simp add: outside_same_def)
next
  case (Lost e v)
  with fresh show ?thesis by (auto simp: publishes_def fresh_key_def)
qed

lemma publishes_view:
  "same_view h g \<Longrightarrow> publishes g h' \<Longrightarrow> publishes h h'"
  by (simp add: publishes_def same_view_def)

lemma up_step_files:
  "up_step l h h' \<Longrightarrow> upload_inv h \<Longrightarrow> outside_same h h' \<or> publishes h h'"
proof (induction rule: up_step.induct)
  case (step_create F now ttl random user root path len h h' res)
  from step_create.prems step_create.hyps(1-3) have "outside_same h h'"
    by (cases rule: Create_cases) auto
  then show ?case ..
next
  case step_get
  then show ?case by (blast intro: Get_outside)
next
  case step_write
  then show ?case unfolding Write_def by (blast intro: quiet_write.locked_outside)
next
  case step_cleanup
  then show ?case by (blast intro: cleanup_outside)
next
  case step_hash
  then show ?case by (blast intro: quiet_hash.locked_outside)
next
  case (step_publish F olds i random now txnow h h' u res)
  from step_publish.hyps(1) show ?case
  proof (cases rule: withLifecycleLock_cases)
    case (Quiet e)
    then show ?thesis by (simp add: outside_same_view)
  next
    case (Ran h1 s e)
    have h1: "upload_inv h1" "sess h1 i = Some s" "fresh_key random h1"
      using upload_inv_view [OF step_publish.prems Ran(1)] Ran(1,2) step_publish.hyps(2)
      by (simp_all add: same_view_def fresh_key_def)
    from complete_publish_publishes [OF h1(1,2) Ran(3) h1(3)]
      outside_same_trans [OF outside_same_view [OF Ran(1)]] publishes_view [OF Ran(1)]
    show ?thesis by blast
  qed
next
  case step_recover
  then show ?case by (blast intro: Recover_outside)
qed

text \<open>Objects that appear have keys no cleanup job names; in the code the keys are random.\<close>

definition avoids_jobs :: "hub \<Rightarrow> hub \<Rightarrow> bool" where
  "avoids_jobs h h' \<longleftrightarrow>
     (\<forall>k. st_objects (hub_store h) k = None \<longrightarrow> st_objects (hub_store h') k \<noteq> None \<longrightarrow> k \<notin> job_keys h)"

lemma up_step_objects:
  assumes step: "up_step l h h'" and up: "upload_inv h" and inv: "objects_inv h" and new: "avoids_jobs h h'"
  shows "objects_inv h'"
  using up_step_files [OF step up]
proof
  assume "outside_same h h'"
  then obtain us where "hub_db h' = (hub_db h)\<lparr>db_uploads := us\<rparr>"
    "st_objects (hub_store h') = st_objects (hub_store h)"
    by (auto simp: outside_same_def uploads_only_def)
  then show ?thesis by (intro objects_inv_same [OF inv]) (simp_all add: job_keys_def)
next
  assume "publishes h h'"
  then obtain k v where k: "st_objects (hub_store h) k = None"
    "st_objects (hub_store h') = (st_objects (hub_store h))(k \<mapsto> v)"
    "db_cleanup (hub_db h') = db_cleanup (hub_db h)"
    and rows: "db_files (hub_db h') = db_files (hub_db h)
           \<or> (\<exists>row c. v = Regular c \<and> db_files (hub_db h') = db_files (hub_db h) @ [row]
                \<and> file_ID row \<notin> file_ID ` set (db_files (hub_db h))
                \<and> file_ObjectKey row = k \<and> k \<notin> file_ObjectKey ` set (db_files (hub_db h)))"
    by (auto simp: publishes_def)
  have jobs: "job_keys h' = job_keys h" using k(3) by (simp add: job_keys_def)
  have "k \<notin> job_keys h" using new k(1,2) by (auto simp: avoids_jobs_def)
  from rows show ?thesis
  proof
    assume "db_files (hub_db h') = db_files (hub_db h)"
    with k(2) jobs show ?thesis
      by (intro objects_inv_at_key [OF inv _ _ _ no_active_key [OF inv k(1)]]) auto
  next
    assume "\<exists>row c. v = Regular c \<and> db_files (hub_db h') = db_files (hub_db h) @ [row]
                \<and> file_ID row \<notin> file_ID ` set (db_files (hub_db h))
                \<and> file_ObjectKey row = k \<and> k \<notin> file_ObjectKey ` set (db_files (hub_db h))"
    then obtain row c where "v = Regular c" "db_files (hub_db h') = db_files (hub_db h) @ [row]"
      "file_ID row \<notin> file_ID ` set (db_files (hub_db h))" "file_ObjectKey row = k"
      "k \<notin> file_ObjectKey ` set (db_files (hub_db h))" by blast
    with k(2) jobs \<open>k \<notin> job_keys h\<close> show ?thesis
      by - (rule objects_inv_append [OF inv]; simp)
  qed
qed

section \<open>What the published-file requests do to the uploads\<close>

definition uploads_kept :: "hub \<Rightarrow> hub \<Rightarrow> bool" where
  "uploads_kept h h' \<longleftrightarrow>
     db_uploads (hub_db h') = db_uploads (hub_db h) \<and> entries (hub_store h') = entries (hub_store h)"

lemma uploads_kept_refl [simp]: "uploads_kept h h"
  by (simp add: uploads_kept_def)

lemma uploads_kept_trans: "uploads_kept g h \<Longrightarrow> uploads_kept h k \<Longrightarrow> uploads_kept g k"
  by (simp add: uploads_kept_def)

lemma uploads_kept_audit:
  "hub_store h' = hub_store h \<Longrightarrow> audit_only (hub_db h) (hub_db h') \<Longrightarrow> uploads_kept h h'"
  by (simp add: uploads_kept_def audit_onlyD)

lemma upload_inv_kept:
  assumes "upload_inv h" and "uploads_kept h h'" and "files_ok h'"
  shows "upload_inv h'"
proof -
  have "sess h' = sess h" "\<And>i. part h' i = part h i" "sessions_ok (hub_db h') = sessions_ok (hub_db h)"
    using assms(2) by (auto simp: uploads_kept_def session_def staging_lookup_def sessions_ok_def)
  with assms(1,3) show ?thesis by (auto simp: upload_inv_def row_ok_def)
qed

lemma entries_objects [simp]:
  "entries (put_object k v s) = entries s" "entries (del_object k s) = entries s"
  by (simp_all add: entries_def put_object_def del_object_def)

lemma store_Remove_entries: "store_Remove f k s = (s', r) \<Longrightarrow> entries s' = entries s"
  by (erule store_Remove_cases) simp_all

lemma create_content_entries:
  assumes "store_CreateContent fc wfail partial fr random content s = (s', r)"
  shows "entries s' = entries s"
proof -
  have "entries (fst (store_Remove fr k t)) = entries t" for k t
    using store_Remove_entries [of fr k t] by (metis prod.collapse)
  with assms show ?thesis
    by (auto simp: store_CreateContent_def store_Create_def Let_def split: if_splits)
qed

lemma undo_object_kept: "undo_object F now key e h = (h', resp) \<Longrightarrow> uploads_kept h h'"
  unfolding undo_object_def
  by (auto simp: uploads_kept_def EnqueueObjectCleanup_def CompleteObjectCleanup_def
      dest: store_Remove_entries split: prod.splits sum.splits if_splits)

lemma CreateFile_uploads: "CreateFile flt now d f = (d', r) \<Longrightarrow> db_uploads d' = db_uploads d"
  by (auto simp: CreateFile_def insert_file_def Let_def split: if_splits)

lemma create_object_kept: "create_object F partial random now uid rid p content h = (h', resp) \<Longrightarrow> uploads_kept h h'"
  unfolding create_object_def
  by (auto simp: uploads_kept_def dest!: create_content_entries CreateFile_uploads undo_object_kept
      split: if_splits prod.splits sum.splits)

lemma createFile_kept:
  assumes "createFile nfc policy F partial random now wc c req h = (h', resp)"
  shows "uploads_kept h h'"
proof -
  from assms obtain h1 rid p
    where core: "create_file_core nfc policy F partial random now wc c req h = (h1, resp, rid, p)"
      and st: "hub_store h' = hub_store h1" "audit_only (hub_db h1) (hub_db h')"
    unfolding createFile_def by (rule audited_exitD)
  from core have "h1 = h \<or> (\<exists>uid r p content x. create_object F partial random now uid r p content h = (h1, x))"
    unfolding create_file_core_def by (auto split: option.splits sum.splits if_splits prod.splits)
  then have "uploads_kept h h1" using create_object_kept by auto
  with uploads_kept_audit [OF st] uploads_kept_trans show ?thesis by blast
qed

lemma createDirectory_kept:
  assumes "createDirectory nfc policy F now c req h = (h', resp)"
  shows "uploads_kept h h'"
proof -
  from assms obtain h1 rid p
    where core: "create_directory_core nfc policy F now c req h = (h1, resp, rid, p)"
      and st: "hub_store h' = hub_store h1" "audit_only (hub_db h1) (hub_db h')"
    unfolding createDirectory_def by (rule audited_exitD)
  from core have "uploads_kept h h1"
    by (cases rule: create_directory_core_effect) (simp_all add: uploads_kept_def)
  with uploads_kept_audit [OF st] uploads_kept_trans show ?thesis by blast
qed

lemma deleteDirectory_kept:
  assumes "deleteDirectory nfc policy F now c i h = (h', resp)"
  shows "uploads_kept h h'"
proof -
  from assms obtain h1 rid p
    where core: "delete_directory_core nfc policy F c i h = (h1, resp, rid, p)"
      and st: "hub_store h' = hub_store h1" "audit_only (hub_db h1) (hub_db h')"
    unfolding deleteDirectory_def by (rule audited_exitD)
  from core have "uploads_kept h h1"
    using delete_directory_core_effect [OF core] by (simp add: uploads_kept_def)
  with uploads_kept_audit [OF st] uploads_kept_trans show ?thesis by blast
qed

lemma BeginFileDelete_uploads: "BeginFileDelete flt now d i k = (d', r) \<Longrightarrow> db_uploads d' = db_uploads d"
  by (auto simp: BeginFileDelete_def Let_def split: if_splits)

lemma FinalizeFileDelete_uploads: "FinalizeFileDelete flt d i k = (d', r) \<Longrightarrow> db_uploads d' = db_uploads d"
  by (erule FinalizeFileDelete_cases) (simp_all add: delete_files_def)

lemma CompleteObjectCleanup_uploads: "CompleteObjectCleanup flt d k = (d', r) \<Longrightarrow> db_uploads d' = db_uploads d"
  by (auto simp: CompleteObjectCleanup_def split: if_splits)

lemma delete_steps_kept: "delete_steps F now f h = (h', resp) \<Longrightarrow> uploads_kept h h'"
  unfolding delete_steps_def
  by (auto simp: uploads_kept_def dest!: BeginFileDelete_uploads FinalizeFileDelete_uploads store_Remove_entries
      split: prod.splits sum.splits)

lemma deleteFile_kept:
  assumes "deleteFile nfc policy F now c i h = (h', resp)"
  shows "uploads_kept h h'"
proof -
  from assms obtain h1 rid p
    where core: "delete_file_core nfc policy F now c i h = (h1, resp, rid, p)"
      and st: "hub_store h' = hub_store h1" "audit_only (hub_db h1) (hub_db h')"
    unfolding deleteFile_def by (rule audited_exitD)
  from core have "uploads_kept h h1"
    by (cases rule: delete_file_core_cases) (auto intro: delete_steps_kept)
  with uploads_kept_audit [OF st] uploads_kept_trans show ?thesis by blast
qed

lemma renameFile_kept:
  assumes "renameFile nfc policy F now c i req h = (h', resp)"
  shows "uploads_kept h h'"
  using assms
proof (cases rule: renameFile_cases)
  case refused
  then show ?thesis by simp
next
  case (ran f uid path q d)
  from ran(9) have "db_uploads d = db_uploads (hub_db h)"
  proof (cases rule: rename_to_cases)
    case (moved d1 r)
    from moved(1) have "db_uploads d1 = db_uploads (hub_db h)"
      by (cases rule: RenameFile_cases) simp_all
    moreover have "audit_only d1 d" using moved(3) by (auto simp: audit_only_published split: if_splits)
    ultimately show ?thesis by (simp add: audit_onlyD)
  qed simp
  with ran(10) show ?thesis by (simp add: uploads_kept_def)
qed

lemma recover_jobs_kept: "recover_jobs G js out h = (h', out', r) \<Longrightarrow> uploads_kept h h'"
proof (induction js arbitrary: out h)
  case (Cons j js)
  obtain s x where rm: "store_Remove (it_remove (G (job_ObjectKey j))) (job_ObjectKey j) (hub_store h) = (s, x)"
    by fastforce
  obtain d y where co: "CompleteObjectCleanup (it_db (G (job_ObjectKey j))) (hub_db h) (job_ObjectKey j) = (d, y)"
    by fastforce
  have k: "uploads_kept h (h\<lparr>hub_store := s\<rparr>)" "uploads_kept h \<lparr>hub_db = d, hub_store = s\<rparr>"
    using store_Remove_entries [OF rm] CompleteObjectCleanup_uploads [OF co] by (simp_all add: uploads_kept_def)
  have IH: "recover_jobs G js o' k = (h', out', r) \<Longrightarrow> uploads_kept h k \<Longrightarrow> uploads_kept h h'" for o' k
    using Cons.IH uploads_kept_trans by blast
  show ?case
    using Cons.prems k IH rm co by (auto simp: Let_def split: if_splits sum.splits)
qed simp

lemma recover_tombstones_kept: "recover_tombstones G fs out h = (h', out', r) \<Longrightarrow> uploads_kept h h'"
proof (induction fs arbitrary: out h)
  case (Cons f fs)
  obtain s x where rm: "store_Remove (it_remove (G (file_ObjectKey f))) (file_ObjectKey f) (hub_store h) = (s, x)"
    by fastforce
  obtain d y where fd: "FinalizeFileDelete (it_db (G (file_ObjectKey f))) (hub_db h) (file_ID f) (file_ObjectKey f) = (d, y)"
    by fastforce
  have k: "uploads_kept h (h\<lparr>hub_store := s\<rparr>)" "uploads_kept h \<lparr>hub_db = d, hub_store = s\<rparr>"
    using store_Remove_entries [OF rm] FinalizeFileDelete_uploads [OF fd] by (simp_all add: uploads_kept_def)
  have IH: "recover_tombstones G fs o' k = (h', out', r) \<Longrightarrow> uploads_kept h k \<Longrightarrow> uploads_kept h h'" for o' k
    using Cons.IH uploads_kept_trans by blast
  show ?case
    using Cons.prems k IH rm fd by (auto simp: Let_def split: if_splits sum.splits)
qed simp

lemma published_Recover_kept:
  assumes "published_Recover flt1 flt2 G1 G2 limit h = (h', rep, r)"
  shows "uploads_kept h h'"
  using assms unfolding published_Recover_def
  by (auto simp: Let_def split: sum.splits prod.splits option.splits
      dest!: recover_jobs_kept recover_tombstones_kept intro: uploads_kept_trans)

lemma published_step_kept: "published_step h h' \<Longrightarrow> uploads_kept h h'"
  by (induction rule: published_step.induct)
    (blast intro: createFile_kept createDirectory_kept renameFile_kept deleteFile_kept deleteDirectory_kept
      published_Recover_kept)+

section \<open>The whole system\<close>

definition system_inv :: "hub \<Rightarrow> bool" where
  "system_inv h \<longleftrightarrow> upload_inv h \<and> objects_inv h"

inductive system_step :: "hub \<Rightarrow> hub \<Rightarrow> bool" where
  upload_step: "up_step l h h' \<Longrightarrow> avoids_jobs h h' \<Longrightarrow> system_step h h'"
| request_step: "published_step h h' \<Longrightarrow> system_step h h'"

lemma system_step_inv: "system_step h h' \<Longrightarrow> system_inv h \<Longrightarrow> system_inv h'"
proof (induction rule: system_step.induct)
  case (upload_step l h h')
  then show ?case using up_step_inv up_step_objects by (auto simp: system_inv_def)
next
  case (request_step h h')
  then have o: "objects_inv h'" by (auto simp: system_inv_def intro: published_step_inv)
  then have "files_ok h'" by (simp add: objects_inv_def)
  with request_step upload_inv_kept [OF _ published_step_kept] o show ?case
    by (auto simp: system_inv_def)
qed

interpretation whole_system: invariant_system system_step system_inv
  by unfold_locales (rule system_step_inv)

end
