(* ===== verification/UploadApi.thy ===== *)
theory UploadApi
  imports Http UploadSpec Config
begin

text \<open>
  The upload endpoints (\<open>internal/httpapi/uploads.go\<close>) over the upload manager.  The user id is
  taken from the context with an unchecked type assertion: without one the handler panics.
  Between the check of a request and the manager's operation the rest of the system may act
  (\<open>mid\<close>).
\<close>

record upload_request =
  rq_RootID :: int
  rq_Path :: string
  rq_Size :: int

record api_faults =
  af_auth :: bool
  af_root :: bool
  af_dest :: bool
  af_get :: bool

section \<open>Creating a session\<close>

definition createUpload ::
    "(string \<Rightarrow> string) \<Rightarrow> config \<Rightarrow> api_faults \<Rightarrow> faults \<Rightarrow> int \<Rightarrow> string \<Rightarrow> request_context
     \<Rightarrow> upload_request option \<Rightarrow> hub \<Rightarrow> hub \<times> response" where
  "createUpload nfc cfg A F now random c req h =
     (case req of
        None \<Rightarrow> (h, http_error ''invalid upload'' 400)
      | Some r \<Rightarrow>
          if rq_RootID r \<le> 0 \<or> rq_Size r < 0 \<or> rq_Size r > MaxRequestBodyBytes cfg
          then (h, http_error ''invalid upload'' 400)
          else
            (case ParseDecodedPath nfc (rq_Path r) (NamePolicy cfg) of
               Inl e \<Rightarrow> (h, http_error ''invalid path'' 400)
             | Inr p \<Rightarrow>
                 (case rc_User c of
                    None \<Rightarrow> (h, panicked)
                  | Some uid \<Rightarrow>
                      (case authorized nfc (NamePolicy cfg) (af_auth A) (hub_db h) uid (rq_RootID r)
                              (Canonical p) ''write'' of
                         Inl e \<Rightarrow> (h, http_error ''authorize upload'' 500)
                       | Inr False \<Rightarrow> (h, http_error ''forbidden'' 403)
                       | Inr True \<Rightarrow>
                           (case StorageRootByID (af_root A) (hub_db h) (rq_RootID r) of
                              Inl e \<Rightarrow> (h, http_error ''not found'' 404)
                            | Inr _ \<Rightarrow>
                                (case FileByRootAndPath (af_dest A) (hub_db h) (rq_RootID r) (Canonical p) of
                                   Inr _ \<Rightarrow> (h, http_error ''destination exists'' 409)
                                 | Inl e \<Rightarrow>
                                     if e \<noteq> DbNotFound then (h, http_error ''check destination'' 500)
                                     else
                                       (case Create F now (UploadSessionTTL cfg) random uid (rq_RootID r)
                                               (Canonical p) (rq_Size r) h of
                                          (h', Inl e) \<Rightarrow> (h', http_error ''create upload'' 500)
                                        | (h', Inr s) \<Rightarrow>
                                            (h', reply 201 (UploadInfo (us_ID s) (ChunkSize cfg) (us_Offset s)
                                                   (us_ExpiresAt s))))))))))"

section \<open>Finding the session of a request\<close>

datatype found = Panic | Missing | Found upload_row

definition sessionFor ::
    "(string \<Rightarrow> string) \<Rightarrow> name_policy \<Rightarrow> api_faults \<Rightarrow> faults \<Rightarrow> int \<Rightarrow> int \<Rightarrow> request_context \<Rightarrow> string
     \<Rightarrow> string \<Rightarrow> hub \<Rightarrow> hub \<times> found" where
  "sessionFor nfc policy A F now now' c action i h =
     (case Get (af_get A) F now now' i h of
        (h', Inl e) \<Rightarrow> (h', Missing)
      | (h', Inr s) \<Rightarrow>
          (case rc_User c of
             None \<Rightarrow> (h', Panic)
           | Some uid \<Rightarrow>
               if uid \<noteq> up_UserID s then
                 (case authorized nfc policy (af_auth A) (hub_db h') uid (up_RootID s) (up_LogicalPath s) action of
                    Inr True \<Rightarrow> (h', Found s)
                  | _ \<Rightarrow> (h', Missing))
               else (h', Found s)))"

definition with_session ::
    "hub \<times> found \<Rightarrow> (hub \<Rightarrow> hub) \<Rightarrow> (upload_row \<Rightarrow> hub \<Rightarrow> hub \<times> response) \<Rightarrow> hub \<times> response" where
  "with_session r mid act =
     (case r of
        (h, Panic) \<Rightarrow> (h, panicked)
      | (h, Missing) \<Rightarrow> (h, http_error ''not found'' 404)
      | (h, Found s) \<Rightarrow> act s (mid h))"

section \<open>State, cancellation, writing, completion\<close>

definition uploadState ::
    "(string \<Rightarrow> string) \<Rightarrow> name_policy \<Rightarrow> api_faults \<Rightarrow> faults \<Rightarrow> faults \<Rightarrow> db list \<Rightarrow> int \<Rightarrow> int \<Rightarrow> int
     \<Rightarrow> (hub \<Rightarrow> hub) \<Rightarrow> bool \<Rightarrow> request_context \<Rightarrow> string \<Rightarrow> hub \<Rightarrow> hub \<times> response" where
  "uploadState nfc policy A F F' olds now now' now'' mid is_delete c i h =
     with_session
       (sessionFor nfc policy A F now now' c (if is_delete then ''delete'' else ''read'') i h) mid
       (\<lambda>s h1.
          if is_delete then
            (case Cancel F' olds now'' (up_ID s) h1 of
               (h2, Some e) \<Rightarrow> (h2, http_error ''cancel upload'' 500)
             | (h2, None) \<Rightarrow> (h2, reply 204 NoContent))
          else
            (h1, with_headers [(''Upload-Offset'', itoa (up_Offset s)), (''Upload-Length'', itoa (up_Length s))]
                   (reply 200 NoContent)))"

definition offset_stream :: string where
  "offset_stream = ''application/offset+octet-stream''"

definition patchUpload ::
    "(string \<Rightarrow> string) \<Rightarrow> name_policy \<Rightarrow> (err \<Rightarrow> string) \<Rightarrow> api_faults \<Rightarrow> faults \<Rightarrow> faults \<Rightarrow> db list
     \<Rightarrow> int \<Rightarrow> int \<Rightarrow> int \<Rightarrow> (hub \<Rightarrow> hub) \<Rightarrow> request_context \<Rightarrow> string \<Rightarrow> string \<Rightarrow> string \<Rightarrow> body
     \<Rightarrow> hub \<Rightarrow> hub \<times> response" where
  "patchUpload nfc policy msg A F F' olds now now' now'' mid c i contentType offset b h =
     (if \<not> equal_fold_ascii (trim_space (hd (split_on (CHR '';'') contentType))) offset_stream
      then (h, http_error ''invalid content type'' 415)
      else
        with_session (sessionFor nfc policy A F now now' c ''write'' i h) mid
          (\<lambda>s h1.
             (case parse_int64 offset of
                None \<Rightarrow> (h1, http_error ''invalid offset'' 400)
              | Some off \<Rightarrow>
                  if off < 0 then (h1, http_error ''invalid offset'' 400)
                  else
                    (case Write F' olds now'' (up_ID s) off b h1 of
                       (h2, next, Some e) \<Rightarrow>
                         (h2, if e = OffsetConflict then
                                with_headers [(''Upload-Offset'', itoa next)] (http_error ''offset conflict'' 409)
                              else if e = TooLarge then http_error ''upload too large'' 413
                              else http_error (''write upload: '' @ msg e) 400)
                     | (h2, next, None) \<Rightarrow>
                         (h2, with_headers [(''Upload-Offset'', itoa next)] (reply 204 NoContent))))))"

definition clean_checksum :: "string \<Rightarrow> string" where
  "clean_checksum header = trim_prefix (to_lower (trim_space header)) ''sha256 ''"

definition complete_error :: "err \<Rightarrow> response" where
  "complete_error e =
     (if e = Incomplete then http_error ''upload incomplete'' 409
      else if e = ChecksumBad then http_error ''checksum mismatch'' 422
      else if e = DbNotFound \<or> e = DbConflict then http_error ''upload unavailable'' 409
      else http_error ''complete upload'' 500)"

definition completeUpload ::
    "(string \<Rightarrow> string) \<Rightarrow> name_policy \<Rightarrow> (string \<Rightarrow> string) \<Rightarrow> api_faults \<Rightarrow> faults \<Rightarrow> faults \<Rightarrow> faults
     \<Rightarrow> db list \<Rightarrow> db list \<Rightarrow> int \<Rightarrow> int \<Rightarrow> int \<Rightarrow> int \<Rightarrow> int \<Rightarrow> string \<Rightarrow> (hub \<Rightarrow> hub) \<Rightarrow> (hub \<Rightarrow> hub)
     \<Rightarrow> request_context \<Rightarrow> string \<Rightarrow> string \<Rightarrow> hub \<Rightarrow> hub \<times> response" where
  "completeUpload nfc policy sha256 A F F1 F2 olds1 olds2 now now' now1 now2 txnow random mid env c i checksum h =
     with_session (sessionFor nfc policy A F now now' c ''write'' i h) mid
       (\<lambda>s h1.
          (case Complete sha256 F1 F2 olds1 olds2 now1 now2 txnow random env (up_ID s) (clean_checksum checksum) h1 of
             (h2, Some e) \<Rightarrow> (h2, complete_error e)
           | (h2, None) \<Rightarrow> (h2, reply 204 NoContent)))"

section \<open>Who may act on a session\<close>

definition entitled :: "(string \<Rightarrow> string) \<Rightarrow> name_policy \<Rightarrow> db \<Rightarrow> request_context \<Rightarrow> upload_row \<Rightarrow> string \<Rightarrow> bool" where
  "entitled nfc policy d c s action \<longleftrightarrow>
     (\<exists>uid. rc_User c = Some uid \<and>
        (uid = up_UserID s
         \<or> authorized nfc policy False d uid (up_RootID s) (up_LogicalPath s) action = Inr True))"

lemma Get_Inr: "Get flt F now now' i h = (h', Inr s) \<Longrightarrow> h' = h \<and> sess h i = Some s \<and> live now s"
  by (auto simp: Get_def UploadSessionByID_def query_row_at session_def
      split: sum.splits if_splits option.splits)

lemma sessionFor_Found:
  assumes "sessionFor nfc policy A F now now' c action i h = (h1, Found s)"
  shows "h1 = h" "sess h i = Some s" "live now s" "entitled nfc policy (hub_db h) c s action"
proof -
  obtain h' r where g: "Get (af_get A) F now now' i h = (h', r)" by fastforce
  with assms obtain uid where r: "r = Inr s" and "h1 = h'" "rc_User c = Some uid"
    "uid = up_UserID s \<or> authorized nfc policy (af_auth A) (hub_db h') uid (up_RootID s) (up_LogicalPath s) action = Inr True"
    by (auto simp: sessionFor_def split: sum.splits option.splits if_splits bool.splits)
  moreover from g r have "h' = h \<and> sess h i = Some s \<and> live now s" by (simp add: Get_Inr)
  ultimately show "h1 = h" "sess h i = Some s" "live now s" "entitled nfc policy (hub_db h) c s action"
    by (auto simp: entitled_def dest: authorized_quiet)
qed

lemma sessionFor_hub:
  "sessionFor nfc policy A F now now' c action i h = (h1, r) \<Longrightarrow> h1 = fst (Get (af_get A) F now now' i h)"
  by (cases "Get (af_get A) F now now' i h")
    (auto simp: sessionFor_def split: sum.splits option.splits if_splits bool.splits)

text \<open>
  A request either ran the manager's operation for an entitled user, or did no more than look
  the session up (which removes it once it has expired).
\<close>

lemma with_session_cases:
  assumes "with_session (sessionFor nfc policy A F now now' c action i h) mid act = (h', resp)"
  obtains (refused) "h' = fst (Get (af_get A) F now now' i h)" "res_status resp = 404 \<or> resp = panicked"
    | (ran) s where "sess h i = Some s" "live now s" "entitled nfc policy (hub_db h) c s action"
        "act s (mid h) = (h', resp)"
proof -
  obtain h1 r where sf: "sessionFor nfc policy A F now now' c action i h = (h1, r)" by fastforce
  show thesis
  proof (cases r)
    case Panic
    with assms sf sessionFor_hub [OF sf] show thesis by - (rule refused; simp add: with_session_def)
  next
    case Missing
    with assms sf sessionFor_hub [OF sf] show thesis by - (rule refused; auto simp: with_session_def)
  next
    case (Found s)
    note f = sessionFor_Found [OF sf [unfolded Found]]
    from assms sf Found f(1) have "act s (mid h) = (h', resp)" by (simp add: with_session_def)
    with f show thesis by (intro ran) simp_all
  qed
qed

text \<open>The upload invariant through the endpoints.\<close>

text \<open>A success answer means an entitled user and a session that had not expired.\<close>

lemma uploadState_entitled:
  assumes "uploadState nfc policy A F F' olds now now' now'' mid del c i h = (h', resp)"
    and "res_status resp \<in> {200, 204}"
  shows "\<exists>s. sess h i = Some s \<and> live now s
    \<and> entitled nfc policy (hub_db h) c s (if del then ''delete'' else ''read'')"
  using assms(1) [unfolded uploadState_def]
  by (cases rule: with_session_cases) (use assms(2) in auto)

lemma completeUpload_entitled:
  assumes "completeUpload nfc policy sha256 A F F1 F2 olds1 olds2 now now' now1 now2 txnow random mid env c i
      checksum h = (h', resp)" and "res_status resp \<in> {200, 204}"
  shows "\<exists>s. sess h i = Some s \<and> live now s \<and> entitled nfc policy (hub_db h) c s ''write''"
  using assms(1) [unfolded completeUpload_def]
  by (cases rule: with_session_cases) (use assms(2) in auto)

lemma patchUpload_entitled:
  assumes op: "patchUpload nfc policy msg A F F' olds now now' now'' mid c i ct offset b h = (h', resp)"
    and ok: "res_status resp \<in> {200, 204}"
  shows "\<exists>s. sess h i = Some s \<and> live now s \<and> entitled nfc policy (hub_db h) c s ''write''"
proof -
  have "equal_fold_ascii (trim_space (hd (split_on (CHR '';'') ct))) offset_stream"
    using op ok by (auto simp: patchUpload_def split: if_splits)
  then obtain act where "with_session (sessionFor nfc policy A F now now' c ''write'' i h) mid act = (h', resp)"
    using op by (simp add: patchUpload_def)
  then show ?thesis
    by (cases rule: with_session_cases) (use ok in auto)
qed

lemma Get_hub_inv: "upload_inv h \<Longrightarrow> upload_inv (fst (Get flt F now now' i h))"
  by (cases "Get flt F now now' i h") (simp add: Get_inv)

lemma createUpload_cases:
  assumes "createUpload nfc cfg A F now random c req h = (h', resp)"
  obtains (refused) "h' = h" "resp = panicked \<or> 400 \<le> res_status resp"
    | (ran) r p uid res where "req = Some r" "0 \<le> rq_Size r" "rq_Size r \<le> MaxRequestBodyBytes cfg"
        "ParseDecodedPath nfc (rq_Path r) (NamePolicy cfg) = Inr p" "rc_User c = Some uid"
        "authorized nfc (NamePolicy cfg) False (hub_db h) uid (rq_RootID r) (Canonical p) ''write'' = Inr True"
        "\<forall>f \<in> set (db_files (hub_db h)). file_at (rq_RootID r) (Canonical p) f \<longrightarrow> file_DeleteState f \<noteq> FileActive"
        "Create F now (UploadSessionTTL cfg) random uid (rq_RootID r) (Canonical p) (rq_Size r) h = (h', res)"
        "case res of Inl e \<Rightarrow> res_status resp = 500
          | Inr s \<Rightarrow> resp = reply 201 (UploadInfo (us_ID s) (ChunkSize cfg) (us_Offset s) (us_ExpiresAt s))"
proof (cases "\<exists>r p uid res. req = Some r \<and> 0 \<le> rq_Size r \<and> rq_Size r \<le> MaxRequestBodyBytes cfg
    \<and> ParseDecodedPath nfc (rq_Path r) (NamePolicy cfg) = Inr p \<and> rc_User c = Some uid
    \<and> authorized nfc (NamePolicy cfg) (af_auth A) (hub_db h) uid (rq_RootID r) (Canonical p) ''write'' = Inr True
    \<and> FileByRootAndPath (af_dest A) (hub_db h) (rq_RootID r) (Canonical p) = Inl DbNotFound
    \<and> Create F now (UploadSessionTTL cfg) random uid (rq_RootID r) (Canonical p) (rq_Size r) h = (h', res)
    \<and> (case res of Inl e \<Rightarrow> res_status resp = 500
          | Inr s \<Rightarrow> resp = reply 201 (UploadInfo (us_ID s) (ChunkSize cfg) (us_Offset s) (us_ExpiresAt s)))")
  case True
  then obtain r p uid res where *: "req = Some r" "0 \<le> rq_Size r" "rq_Size r \<le> MaxRequestBodyBytes cfg"
    "ParseDecodedPath nfc (rq_Path r) (NamePolicy cfg) = Inr p" "rc_User c = Some uid"
    "authorized nfc (NamePolicy cfg) (af_auth A) (hub_db h) uid (rq_RootID r) (Canonical p) ''write'' = Inr True"
    "FileByRootAndPath (af_dest A) (hub_db h) (rq_RootID r) (Canonical p) = Inl DbNotFound"
    "Create F now (UploadSessionTTL cfg) random uid (rq_RootID r) (Canonical p) (rq_Size r) h = (h', res)"
    "case res of Inl e \<Rightarrow> res_status resp = 500
          | Inr s \<Rightarrow> resp = reply 201 (UploadInfo (us_ID s) (ChunkSize cfg) (us_Offset s) (us_ExpiresAt s))"
    by blast
  from *(7) have "\<forall>f \<in> set (db_files (hub_db h)). file_at (rq_RootID r) (Canonical p) f \<longrightarrow> file_DeleteState f \<noteq> FileActive"
    unfolding FileByRootAndPath_def query_row_NotFound by blast
  with * authorized_quiet [OF *(6)] show thesis by (intro ran) simp_all
next
  case False
  then have "h' = h \<and> (resp = panicked \<or> 400 \<le> res_status resp)"
    using assms unfolding createUpload_def
    by (auto split: option.splits sum.splits bool.splits if_splits prod.splits)
  with refused show thesis by blast
qed

lemma createUpload_inv:
  assumes inv: "upload_inv h" and op: "createUpload nfc cfg A F now random c req h = (h', resp)"
    and len: "length random = 16" and new: "sess h (hex_encode random) = None" and cfg: "int64 (MaxRequestBodyBytes cfg)"
  shows "upload_inv h'"
  using op
proof (cases rule: createUpload_cases)
  case refused
  with inv show ?thesis by simp
next
  case (ran r p uid res)
  have "int64 (rq_Size r)" using ran(2,3) cfg by (simp add: int64_def)
  from Create_inv [OF inv ran(8) len new this] show ?thesis .
qed

lemma uploadState_inv:
  assumes inv: "upload_inv h" and mid: "upload_inv (mid h)"
    and op: "uploadState nfc policy A F F' olds now now' now'' mid is_delete c i h = (h', resp)"
  shows "upload_inv h'"
  using op [unfolded uploadState_def]
proof (cases rule: with_session_cases)
  case refused
  with Get_hub_inv [OF inv] show ?thesis by simp
next
  case (ran s)
  from ran(4) mid show ?thesis
    by (auto simp: Cancel_def dest: cleanup_inv split: if_splits prod.splits option.splits)
qed

lemma patchUpload_inv:
  assumes inv: "upload_inv h" and mid: "upload_inv (mid h)"
    and op: "patchUpload nfc policy msg A F F' olds now now' now'' mid c i ct offset b h = (h', resp)"
  shows "upload_inv h'"
proof (cases "equal_fold_ascii (trim_space (hd (split_on (CHR '';'') ct))) offset_stream")
  case False
  with inv op show ?thesis by (simp add: patchUpload_def)
next
  case True
  with op have "with_session (sessionFor nfc policy A F now now' c ''write'' i h) mid
          (\<lambda>s h1.
             (case parse_int64 offset of
                None \<Rightarrow> (h1, http_error ''invalid offset'' 400)
              | Some off \<Rightarrow>
                  if off < 0 then (h1, http_error ''invalid offset'' 400)
                  else
                    (case Write F' olds now'' (up_ID s) off b h1 of
                       (h2, next, Some e) \<Rightarrow>
                         (h2, if e = OffsetConflict then
                                with_headers [(''Upload-Offset'', itoa next)] (http_error ''offset conflict'' 409)
                              else if e = TooLarge then http_error ''upload too large'' 413
                              else http_error (''write upload: '' @ msg e) 400)
                     | (h2, next, None) \<Rightarrow>
                         (h2, with_headers [(''Upload-Offset'', itoa next)] (reply 204 NoContent))))) = (h', resp)"
    by (simp add: patchUpload_def)
  then show ?thesis
  proof (cases rule: with_session_cases)
    case refused
    with Get_hub_inv [OF inv] show ?thesis by simp
  next
    case (ran s)
    have "upload_inv g" if "Write F' olds now'' (up_ID s) off b (mid h) = (g, n, r)" for off g n r
      using write_section.locked_inv [OF mid TrueI that [unfolded Write_def]] .
    with ran(4) mid show ?thesis
      by (auto split: if_splits prod.splits option.splits)
  qed
qed

end
