(* ===== verification/Transfers.thy ===== *)
theory Transfers
  imports Http Download Limits
begin

text \<open>
  Downloading one file (\<open>internal/httpapi/downloads.go\<close>).  SHA-256 and the two conversions
  between times and the HTTP date format are parameters (\<open>sha256\<close>, \<open>format_time\<close>,
  \<open>parse_time\<close>).  The body of a response is what the handler sends; a connection that breaks
  while it is sent is not modelled.
\<close>

record download_request =
  dq_Head :: bool
  dq_Range :: string
  dq_IfRange :: string

record download_faults =
  df_load :: bool
  df_auth :: bool
  df_root :: bool
  df_open :: io_fault
  df_stat :: bool
  df_seek :: bool

definition hiddenDownloadError :: "err \<Rightarrow> response" where
  "hiddenDownloadError e = (if e = DbNotFound then not_found else http_error ''load download'' 500)"

definition nul :: string where
  "nul = [CHR 0x00]"

definition downloadETag :: "(string \<Rightarrow> string) \<Rightarrow> file_row \<Rightarrow> string" where
  "downloadETag sha256 f =
     [CHR 0x22] @ hex_encode (sha256 (file_ObjectKey f @ nul @ itoa (file_Size f) @ nul @ itoa (file_UpdatedAt f)))
     @ [CHR 0x22]"

definition ifRangeMatches :: "(string \<Rightarrow> int option) \<Rightarrow> string \<Rightarrow> string \<Rightarrow> int \<Rightarrow> bool" where
  "ifRangeMatches parse_time v etag modified \<longleftrightarrow>
     v = [] \<or> trim_space v = etag \<or> (case parse_time v of None \<Rightarrow> False | Some t \<Rightarrow> \<not> modified > t)"

section \<open>Content-Disposition\<close>

text \<open>\<open>url.PathEscape\<close>: unreserved characters and some delimiters stay, other bytes become \<open>%XX\<close>.\<close>

definition path_safe :: "char \<Rightarrow> bool" where
  "path_safe c \<longleftrightarrow>
     c \<in> set ''ABCDEFGHIJKLMNOPQRSTUVWXYZabcdefghijklmnopqrstuvwxyz0123456789-_.~$&+:=@''"

definition upper_hex_digit :: "nat \<Rightarrow> char" where
  "upper_hex_digit n = ''0123456789ABCDEF'' ! n"

fun pathEscape :: "string \<Rightarrow> string" where
  "pathEscape [] = []"
| "pathEscape (c # s) =
     (if path_safe c then [c]
      else [CHR ''%'', upper_hex_digit (of_char c div 16), upper_hex_digit (of_char c mod 16)]) @ pathEscape s"

definition base_name :: "string \<Rightarrow> string" where
  "base_name logical = last (split_on (CHR ''/'') logical)"

definition ascii_name :: "string \<Rightarrow> string" where
  "ascii_name name =
     map (\<lambda>r. if 32 \<le> r \<and> r \<le> 126 \<and> r \<noteq> 34 \<and> r \<noteq> 92 then char_of r else CHR ''_'') (runes name)"

definition contentDisposition :: "string \<Rightarrow> string" where
  "contentDisposition logical =
     (let name = base_name logical;
          ascii = (if ascii_name name = [] then ''download'' else ascii_name name) in
      ''attachment; filename='' @ [CHR 0x22] @ ascii @ [CHR 0x22]
      @ ''; filename*=UTF-8'' @ [CHR 0x27, CHR 0x27] @ pathEscape name)"

section \<open>The handler\<close>

definition slice :: "int \<Rightarrow> int \<Rightarrow> string \<Rightarrow> string" where
  "slice start len c = take (nat len) (drop (nat start) c)"

text \<open>The response once the object is open: \<open>c\<close> is its content, \<open>mtime\<close> its modification time.\<close>

definition serve ::
    "(string \<Rightarrow> string) \<Rightarrow> (int \<Rightarrow> string) \<Rightarrow> (string \<Rightarrow> int option) \<Rightarrow> bool \<Rightarrow> int \<Rightarrow> download_request
     \<Rightarrow> file_row \<Rightarrow> string \<Rightarrow> response" where
  "serve sha256 format_time parse_time seek_fails mtime q f c =
     (let size = int (length c); etag = downloadETag sha256 f;
          modified = (if file_UpdatedAt f = zero_time then mtime else file_UpdatedAt f);
          common = [(''Accept-Ranges'', ''bytes''), (''ETag'', etag), (''Last-Modified'', format_time modified),
                    (''Content-Disposition'', contentDisposition (file_LogicalPath f))];
          finish = (\<lambda>start len status extra.
             let hs = common @ extra in
             if dq_Head q then with_headers (hs @ [(''Content-Length'', itoa len)]) (reply status NoContent)
             else if seek_fails then with_headers hs not_found
             else with_headers (hs @ [(''Content-Length'', itoa len)]) (reply status (Data (slice start len c)))) in
      if dq_Range q \<noteq> [] \<and> ifRangeMatches parse_time (dq_IfRange q) etag modified then
        (case ParseRange (dq_Range q) size of
           Inl e \<Rightarrow> with_headers (common @ [(''Content-Range'', ''bytes */'' @ itoa size)]) (reply 416 NoContent)
         | Inr rng \<Rightarrow>
             finish (Start rng) (Length rng) 206
               [(''Content-Range'', ''bytes '' @ itoa (Start rng) @ ''-''
                  @ itoa (wrap64 (wrap64 (Start rng + Length rng) - 1)) @ ''/'' @ itoa size)])
      else finish 0 size 200 [])"

definition downloadFile ::
    "(string \<Rightarrow> string) \<Rightarrow> name_policy \<Rightarrow> (string \<Rightarrow> string) \<Rightarrow> (int \<Rightarrow> string) \<Rightarrow> (string \<Rightarrow> int option)
     \<Rightarrow> download_faults \<Rightarrow> int \<Rightarrow> request_context \<Rightarrow> download_request \<Rightarrow> string \<Rightarrow> hub \<Rightarrow> response" where
  "downloadFile nfc policy sha256 format_time parse_time F mtime c q fileID h =
     (case parse_int64 fileID of
        None \<Rightarrow> not_found
      | Some i \<Rightarrow>
          if i \<le> 0 then not_found
          else
            (case session_user c of
               None \<Rightarrow> not_found
             | Some uid \<Rightarrow>
                 (case FileByID (df_load F) (hub_db h) i of
                    Inl e \<Rightarrow> hiddenDownloadError e
                  | Inr f \<Rightarrow>
                      (case authorized nfc policy (df_auth F) (hub_db h) uid (file_RootID f)
                              (file_LogicalPath f) ''read'' of
                         Inl e \<Rightarrow> http_error ''authorize download'' 500
                       | Inr False \<Rightarrow> not_found
                       | Inr True \<Rightarrow>
                           (case StorageRootByID (df_root F) (hub_db h) (file_RootID f) of
                              Inl e \<Rightarrow> hiddenDownloadError e
                            | Inr _ \<Rightarrow>
                                (case store_Open (df_open F) (file_ObjectKey f) (hub_store h) of
                                   Inl e \<Rightarrow> not_found
                                 | Inr content \<Rightarrow>
                                     if df_stat F then not_found
                                     else if file_Size f \<noteq> int (length content) then not_found
                                     else serve sha256 format_time parse_time (df_seek F) mtime q f content))))))"

text \<open>The download slots: a request that finds none is refused at once.\<close>

definition limitDownload ::
    "(hub \<Rightarrow> response) \<Rightarrow> download_limiter \<Rightarrow> hub \<Rightarrow> download_limiter \<times> response" where
  "limitDownload next l h =
     (case dl_TryAcquire l of
        Inl e \<Rightarrow> (l, with_headers [(''Retry-After'', ''1'')] (http_error ''download capacity exceeded'' 429))
      | Inr l1 \<Rightarrow> (fst (dl_Release l1 False), next h))"

section \<open>What a download returns\<close>

lemma length_slice:
  "0 \<le> start \<Longrightarrow> 0 \<le> len \<Longrightarrow> start + len \<le> int (length c) \<Longrightarrow> int (length (slice start len c)) = len"
  by (auto simp: slice_def min_def)

lemma slice_all: "slice 0 (int (length c)) c = c"
  by (simp add: slice_def)

lemma downloadFile_serves:
  assumes "downloadFile nfc policy sha256 fmt prs F mtime c q fileID h = resp"
    and "res_status resp = 200 \<or> res_status resp = 206"
  obtains f uid content where "f \<in> set (db_files (hub_db h))" "file_DeleteState f = FileActive"
    "parse_int64 fileID = Some (file_ID f)"
    "may nfc policy (hub_db h) c uid (file_RootID f) (file_LogicalPath f) ''read''"
    "st_objects (hub_store h) (file_ObjectKey f) = Some (Regular content)"
    "file_Size f = int (length content)" "resp = serve sha256 fmt prs (df_seek F) mtime q f content"
proof -
  have "\<exists>i f uid content. parse_int64 fileID = Some i \<and> FileByID (df_load F) (hub_db h) i = Inr f
    \<and> session_user c = Some uid
    \<and> authorized nfc policy (df_auth F) (hub_db h) uid (file_RootID f) (file_LogicalPath f) ''read'' = Inr True
    \<and> store_Open (df_open F) (file_ObjectKey f) (hub_store h) = Inr content
    \<and> file_Size f = int (length content) \<and> resp = serve sha256 fmt prs (df_seek F) mtime q f content"
    using assms unfolding downloadFile_def hiddenDownloadError_def
    by (auto split: option.splits sum.splits bool.splits if_splits)
  then obtain i f uid content where *: "parse_int64 fileID = Some i" "FileByID (df_load F) (hub_db h) i = Inr f"
    "session_user c = Some uid"
    "authorized nfc policy (df_auth F) (hub_db h) uid (file_RootID f) (file_LogicalPath f) ''read'' = Inr True"
    "store_Open (df_open F) (file_ObjectKey f) (hub_store h) = Inr content"
    "file_Size f = int (length content)" "resp = serve sha256 fmt prs (df_seek F) mtime q f content" by blast
  from *(2) have "f \<in> set (db_files (hub_db h)) \<and> file_ID f = i \<and> file_DeleteState f = FileActive"
    unfolding FileByID_def by (rule query_row_Inr)
  moreover from *(5) have "st_objects (hub_store h) (file_ObjectKey f) = Some (Regular content)"
    by (auto simp: store_Open_def split: if_splits sum.splits option.splits node.splits)
  ultimately show thesis
    using * authorized_quiet [OF *(4)] by (intro that [of f uid content]) (auto simp: may_def)
qed

text \<open>A full answer is the whole object, a partial one the range the header says.\<close>

lemma serve_200:
  assumes "serve sha256 fmt prs sf mtime q f c = resp" and "res_status resp = 200"
  shows "res_body resp = (if dq_Head q then NoContent else Data c)"
    and "header_of ''Content-Length'' resp = Some (itoa (int (length c)))"
  using assms by (auto simp: serve_def Let_def header_of_def slice_all split: if_splits sum.splits)

lemma serve_206:
  assumes "serve sha256 fmt prs sf mtime q f c = resp" and "res_status resp = 206"
    and small: "int64 (int (length c))"
  obtains rng where "ParseRange (dq_Range q) (int (length c)) = Inr rng"
    "0 \<le> Start rng" "0 < Length rng" "Start rng + Length rng \<le> int (length c)"
    "res_body resp = (if dq_Head q then NoContent else Data (slice (Start rng) (Length rng) c))"
    "header_of ''Content-Length'' resp = Some (itoa (Length rng))"
    "header_of ''Content-Range'' resp = Some (''bytes '' @ itoa (Start rng) @ ''-''
       @ itoa (Start rng + Length rng - 1) @ ''/'' @ itoa (int (length c)))"
proof -
  obtain rng where r: "ParseRange (dq_Range q) (int (length c)) = Inr rng"
    using assms(1,2) by (auto simp: serve_def Let_def split: if_splits sum.splits)
  from ParseRange_within [OF small r]
  have b: "0 \<le> Start rng" "0 < Length rng" "Start rng + Length rng \<le> int (length c)" by simp_all
  have w: "wrap64 (wrap64 (Start rng + Length rng) - 1) = Start rng + Length rng - 1"
    using b small by (simp add: int64_def)
  show thesis
    by (rule that [OF r b])
      (use assms(1,2) r in \<open>auto simp: serve_def Let_def header_of_def w split: if_splits\<close>)
qed

text \<open>The dates of \<open>net/http\<close> have a resolution of one second.\<close>

definition http_dates :: "(int \<Rightarrow> string) \<Rightarrow> (string \<Rightarrow> int option) \<Rightarrow> bool" where
  "http_dates format_time parse_time \<longleftrightarrow>
     (\<forall>t. parse_time (format_time t) = Some (t - t mod 1000000000))
     \<and> (\<forall>t. format_time t \<noteq> [] \<and> CHR 0x22 \<notin> set (trim_space (format_time t)))"

lemma date_never_matches:
  assumes "http_dates fmt prs" and "mod0 mod 1000000000 \<noteq> 0"
  shows "\<not> ifRangeMatches prs (fmt mod0) (downloadETag sha256 f) mod0"
proof -
  have pos: "mod0 mod 1000000000 > 0"
    using assms(2) pos_mod_sign [of 1000000000 mod0] by simp
  have "CHR 0x22 \<in> set (downloadETag sha256 f)" by (simp add: downloadETag_def)
  with assms(1) have "trim_space (fmt mod0) \<noteq> downloadETag sha256 f"
    unfolding http_dates_def by metis
  with assms(1) pos show ?thesis by (simp add: ifRangeMatches_def http_dates_def)
qed

end
