(* ===== verification/Listing.thy ===== *)
theory Listing
  imports Http DbInv
begin

text \<open>
  The listing of one directory (\<open>internal/httpapi/files.go\<close>).  \<open>FilesUnderRoot\<close> and
  \<open>DirectoriesUnderRoot\<close> return everything below the root; the handler keeps the direct
  children the user may read.
\<close>

definition publicMD5Status :: "string \<Rightarrow> string" where
  "publicMD5Status status =
     (if status \<in> {MD5Disabled, MD5Pending, MD5Computing, MD5Ready, MD5Failed} then status else MD5Disabled)"

definition publicMD5Digest :: "string \<Rightarrow> string \<Rightarrow> string" where
  "publicMD5Digest status digest =
     (if status \<noteq> MD5Ready \<or> length digest \<noteq> 32 \<or> \<not> (\<forall>c \<in> set digest. is_lower_hex_char c) then []
      else digest)"

definition logicalCanonical :: "(string \<Rightarrow> string) \<Rightarrow> string \<Rightarrow> name_policy \<Rightarrow> err + string" where
  "logicalCanonical nfc value policy =
     (if value = ''/'' then Inr ''/''
      else if \<not> has_prefix value ''/'' then Inl Invalid
      else
        (case ParseDecodedPath nfc (trim_prefix value ''/'') policy of
           Inl e \<Rightarrow> Inl Invalid
         | Inr p \<Rightarrow> Inr (Canonical p)))"

definition child_prefix :: "string \<Rightarrow> string" where
  "child_prefix directory = (if directory \<noteq> ''/'' then directory @ ''/'' else directory)"

definition isDirectChild :: "string \<Rightarrow> string \<Rightarrow> bool" where
  "isDirectChild directory candidate \<longleftrightarrow>
     has_prefix candidate (child_prefix directory)
     \<and> CHR ''/'' \<notin> set (trim_prefix candidate (child_prefix directory))"

text \<open>The faults of one listing: the two queries, and the authorizer for the directory and for each entry.\<close>

record list_faults =
  lf_auth :: bool
  lf_root :: bool
  lf_files :: bool
  lf_dirs :: bool
  lf_entry :: "string \<Rightarrow> bool"

definition file_entries ::
    "(string \<Rightarrow> string) \<Rightarrow> name_policy \<Rightarrow> (string \<Rightarrow> bool) \<Rightarrow> db \<Rightarrow> int \<Rightarrow> int \<Rightarrow> string \<Rightarrow> file_row list
     \<Rightarrow> list_entry list" where
  "file_entries nfc policy flt d uid rid dir files =
     map (\<lambda>f. \<lparr>le_Name = trim_prefix (file_LogicalPath f) (child_prefix dir), le_Path = file_LogicalPath f,
               le_Size = file_Size f, le_MD5Status = publicMD5Status (file_MD5Status f),
               le_MD5Digest = publicMD5Digest (file_MD5Status f) (file_MD5Digest f),
               le_IsDirectory = False, le_ID = file_ID f, le_UpdatedAt = file_UpdatedAt f\<rparr>)
       (filter (\<lambda>f. has_prefix (file_ObjectKey f) ''objects/'' \<and> isDirectChild dir (file_LogicalPath f)
            \<and> logicalCanonical nfc (file_LogicalPath f) policy = Inr (file_LogicalPath f)
            \<and> authorized nfc policy (flt (file_LogicalPath f)) d uid rid (file_LogicalPath f) ''read'' = Inr True)
          files)"

definition dir_entries ::
    "(string \<Rightarrow> string) \<Rightarrow> name_policy \<Rightarrow> (string \<Rightarrow> bool) \<Rightarrow> db \<Rightarrow> int \<Rightarrow> int \<Rightarrow> string \<Rightarrow> dir_row list
     \<Rightarrow> list_entry list" where
  "dir_entries nfc policy flt d uid rid dir dirs =
     map (\<lambda>x. \<lparr>le_Name = trim_prefix (dir_LogicalPath x) (child_prefix dir), le_Path = dir_LogicalPath x,
               le_Size = 0, le_MD5Status = [], le_MD5Digest = [], le_IsDirectory = True,
               le_ID = dir_ID x, le_UpdatedAt = dir_UpdatedAt x\<rparr>)
       (filter (\<lambda>x. isDirectChild dir (dir_LogicalPath x)
            \<and> authorized nfc policy (flt (dir_LogicalPath x)) d uid rid (dir_LogicalPath x) ''read'' = Inr True)
          dirs)"

definition listFiles ::
    "(string \<Rightarrow> string) \<Rightarrow> name_policy \<Rightarrow> list_faults \<Rightarrow> request_context \<Rightarrow> string \<Rightarrow> string \<Rightarrow> db \<Rightarrow> response" where
  "listFiles nfc policy F c rootID path d =
     (case parse_int64 rootID of
        None \<Rightarrow> http_error ''invalid root'' 400
      | Some rid \<Rightarrow>
          if rid \<le> 0 then http_error ''invalid root'' 400
          else
            (case ParseDecodedPath nfc path policy of
               Inl e \<Rightarrow> http_error ''invalid path'' 400
             | Inr p \<Rightarrow>
                 (case session_user c of
                    None \<Rightarrow> http_error ''unauthorized'' 401
                  | Some uid \<Rightarrow>
                      (case authorized nfc policy (lf_auth F) d uid rid (Canonical p) ''read'' of
                         Inl e \<Rightarrow> http_error ''authorize listing'' 500
                       | Inr False \<Rightarrow> http_error ''forbidden'' 403
                       | Inr True \<Rightarrow>
                           (case StorageRootByID (lf_root F) d rid of
                              Inl e \<Rightarrow> if e = DbNotFound then http_error ''not found'' 404
                                      else http_error ''load root'' 500
                            | Inr _ \<Rightarrow>
                                (case FilesUnderRoot (lf_files F) d rid of
                                   Inl e \<Rightarrow> http_error ''list files'' 500
                                 | Inr files \<Rightarrow>
                                     (case DirectoriesUnderRoot (lf_dirs F) d rid of
                                        Inl e \<Rightarrow> http_error ''list directories'' 500
                                      | Inr dirs \<Rightarrow>
                                          reply 200 (Listing (Canonical p)
                                            (file_entries nfc policy (lf_entry F) d uid rid (Canonical p) files
                                             @ dir_entries nfc policy (lf_entry F) d uid rid (Canonical p) dirs)))))))))"

section \<open>What a listing shows\<close>

text \<open>A direct child is the directory, a slash, and a name without a slash.\<close>

lemma isDirectChild_iff:
  "isDirectChild dir p \<longleftrightarrow> (\<exists>name. p = child_prefix dir @ name \<and> CHR ''/'' \<notin> set name)"
  by (auto simp: isDirectChild_def has_prefix_def trim_prefix_def prefix_def)

lemma child_name: "isDirectChild dir p \<Longrightarrow> p = child_prefix dir @ trim_prefix p (child_prefix dir)"
  by (auto simp: isDirectChild_iff trim_prefix_def)

lemma listFiles_200:
  assumes "listFiles nfc policy F c rootID path d = resp" and "res_status resp = 200"
  obtains rid p uid es where "parse_int64 rootID = Some rid" "ParseDecodedPath nfc path policy = Inr p"
    "session_user c = Some uid" "authorized nfc policy False d uid rid (Canonical p) ''read'' = Inr True"
    "res_body resp = Listing (Canonical p) es"
    "es = file_entries nfc policy (lf_entry F) d uid rid (Canonical p)
            (map (\<lambda>f. f\<lparr>file_MD5Status := [], file_MD5Digest := [], file_MD5Error := []\<rparr>)
              (sort_key file_LogicalPath (filter (\<lambda>f. file_RootID f = rid) (db_files d))))
          @ dir_entries nfc policy (lf_entry F) d uid rid (Canonical p)
            (sort_key dir_LogicalPath (filter (\<lambda>x. dir_RootID x = rid) (db_dirs d)))"
proof -
  have "\<exists>rid p uid files dirs. parse_int64 rootID = Some rid \<and> ParseDecodedPath nfc path policy = Inr p
    \<and> session_user c = Some uid \<and> authorized nfc policy (lf_auth F) d uid rid (Canonical p) ''read'' = Inr True
    \<and> FilesUnderRoot (lf_files F) d rid = Inr files \<and> DirectoriesUnderRoot (lf_dirs F) d rid = Inr dirs
    \<and> resp = reply 200 (Listing (Canonical p) (file_entries nfc policy (lf_entry F) d uid rid (Canonical p) files
        @ dir_entries nfc policy (lf_entry F) d uid rid (Canonical p) dirs))"
    using assms unfolding listFiles_def
    by (auto split: option.splits sum.splits bool.splits if_splits)
  then show thesis
    using that authorized_quiet
    by (fastforce simp: FilesUnderRoot_def DirectoriesUnderRoot_def split: if_splits)
qed

text \<open>
  Every entry of a listing is a row of the root that is a direct child of the directory, and the
  user may read it.
\<close>

definition readable :: "(string \<Rightarrow> string) \<Rightarrow> name_policy \<Rightarrow> db \<Rightarrow> int \<Rightarrow> int \<Rightarrow> string \<Rightarrow> bool" where
  "readable nfc policy d uid rid p \<longleftrightarrow> authorized nfc policy False d uid rid p ''read'' = Inr True"

lemma listing_entries:
  assumes "listFiles nfc policy F c rootID path d = resp" and "res_status resp = 200"
    and "res_body resp = Listing dir es" and "e \<in> set es"
  shows "\<exists>rid uid. parse_int64 rootID = Some rid \<and> session_user c = Some uid
    \<and> readable nfc policy d uid rid dir \<and> readable nfc policy d uid rid (le_Path e)
    \<and> isDirectChild dir (le_Path e) \<and> le_Path e = child_prefix dir @ le_Name e
    \<and> (if le_IsDirectory e then (rid, le_Path e) \<in> dir_place ` set (db_dirs d)
       else (rid, le_Path e) \<in> file_place ` set (db_files d))"
proof -
  from assms(1,2) obtain rid p uid es' where l: "parse_int64 rootID = Some rid"
    "ParseDecodedPath nfc path policy = Inr p" "session_user c = Some uid"
    "authorized nfc policy False d uid rid (Canonical p) ''read'' = Inr True" "res_body resp = Listing (Canonical p) es'"
    "es' = file_entries nfc policy (lf_entry F) d uid rid (Canonical p)
            (map (\<lambda>f. f\<lparr>file_MD5Status := [], file_MD5Digest := [], file_MD5Error := []\<rparr>)
              (sort_key file_LogicalPath (filter (\<lambda>f. file_RootID f = rid) (db_files d))))
          @ dir_entries nfc policy (lf_entry F) d uid rid (Canonical p)
            (sort_key dir_LogicalPath (filter (\<lambda>x. dir_RootID x = rid) (db_dirs d)))"
    by (rule listFiles_200)
  then have d: "dir = Canonical p" "es' = es" using assms(3) by simp_all
  from assms(4) l(6) d have "e \<in> set (file_entries nfc policy (lf_entry F) d uid rid dir
            (map (\<lambda>f. f\<lparr>file_MD5Status := [], file_MD5Digest := [], file_MD5Error := []\<rparr>)
              (sort_key file_LogicalPath (filter (\<lambda>f. file_RootID f = rid) (db_files d)))))
      \<or> e \<in> set (dir_entries nfc policy (lf_entry F) d uid rid dir
            (sort_key dir_LogicalPath (filter (\<lambda>x. dir_RootID x = rid) (db_dirs d))))" by auto
  then show ?thesis
  proof
    assume "e \<in> set (file_entries nfc policy (lf_entry F) d uid rid dir
            (map (\<lambda>f. f\<lparr>file_MD5Status := [], file_MD5Digest := [], file_MD5Error := []\<rparr>)
              (sort_key file_LogicalPath (filter (\<lambda>f. file_RootID f = rid) (db_files d)))))"
    then obtain f where f: "f \<in> set (db_files d)" "file_RootID f = rid" "isDirectChild dir (file_LogicalPath f)"
      "authorized nfc policy (lf_entry F (file_LogicalPath f)) d uid rid (file_LogicalPath f) ''read'' = Inr True"
      "le_Path e = file_LogicalPath f" "le_Name e = trim_prefix (file_LogicalPath f) (child_prefix dir)" "\<not> le_IsDirectory e"
      by (auto simp: file_entries_def)
    then have "(rid, le_Path e) \<in> file_place ` set (db_files d)" by (force simp: file_place_def)
    with f l(1,3,4) d child_name [OF f(3)] authorized_quiet [OF f(4)] show ?thesis by (simp add: readable_def)
  next
    assume "e \<in> set (dir_entries nfc policy (lf_entry F) d uid rid dir
            (sort_key dir_LogicalPath (filter (\<lambda>x. dir_RootID x = rid) (db_dirs d))))"
    then obtain x where x: "x \<in> set (db_dirs d)" "dir_RootID x = rid" "isDirectChild dir (dir_LogicalPath x)"
      "authorized nfc policy (lf_entry F (dir_LogicalPath x)) d uid rid (dir_LogicalPath x) ''read'' = Inr True"
      "le_Path e = dir_LogicalPath x" "le_Name e = trim_prefix (dir_LogicalPath x) (child_prefix dir)" "le_IsDirectory e"
      by (auto simp: dir_entries_def)
    then have "(rid, le_Path e) \<in> dir_place ` set (db_dirs d)" by (force simp: dir_place_def)
    with x l(1,3,4) d child_name [OF x(3)] authorized_quiet [OF x(4)] show ?thesis by (simp add: readable_def)
  qed
qed

text \<open>
  Without faults the listing is complete, for tombstones too: the query has no condition on the
  delete state.  It never shows a digest, which the query does not select.
\<close>

lemma listing_complete:
  assumes "listFiles nfc policy F c rootID path d = resp" and "res_status resp = 200"
    and "res_body resp = Listing dir es" and "lf_entry F = (\<lambda>_. False)"
    and "f \<in> set (db_files d)" and "parse_int64 rootID = Some (file_RootID f)"
    and "has_prefix (file_ObjectKey f) ''objects/''" and "isDirectChild dir (file_LogicalPath f)"
    and "logicalCanonical nfc (file_LogicalPath f) policy = Inr (file_LogicalPath f)"
    and "session_user c = Some uid" and "readable nfc policy d uid (file_RootID f) (file_LogicalPath f)"
  shows "\<exists>e \<in> set es. le_ID e = file_ID f \<and> le_Path e = file_LogicalPath f \<and> le_Size e = file_Size f
    \<and> \<not> le_IsDirectory e \<and> le_MD5Status e = MD5Disabled \<and> le_MD5Digest e = []"
proof -
  from assms(1,2) obtain rid p uid' es' where l: "parse_int64 rootID = Some rid"
    "ParseDecodedPath nfc path policy = Inr p" "session_user c = Some uid'"
    "authorized nfc policy False d uid' rid (Canonical p) ''read'' = Inr True" "res_body resp = Listing (Canonical p) es'"
    "es' = file_entries nfc policy (lf_entry F) d uid' rid (Canonical p)
            (map (\<lambda>f. f\<lparr>file_MD5Status := [], file_MD5Digest := [], file_MD5Error := []\<rparr>)
              (sort_key file_LogicalPath (filter (\<lambda>f. file_RootID f = rid) (db_files d))))
          @ dir_entries nfc policy (lf_entry F) d uid' rid (Canonical p)
            (sort_key dir_LogicalPath (filter (\<lambda>x. dir_RootID x = rid) (db_dirs d)))"
    by (rule listFiles_200)
  have e: "dir = Canonical p" "es' = es" "rid = file_RootID f" "uid' = uid"
    using l(1,3,5) assms(3,6,10) by auto
  let ?g = "f\<lparr>file_MD5Status := [], file_MD5Digest := [], file_MD5Error := []\<rparr>"
  let ?e = "\<lparr>le_Name = trim_prefix (file_LogicalPath f) (child_prefix dir), le_Path = file_LogicalPath f,
               le_Size = file_Size f, le_MD5Status = publicMD5Status [],
               le_MD5Digest = publicMD5Digest [] [],
               le_IsDirectory = False, le_ID = file_ID f, le_UpdatedAt = file_UpdatedAt f\<rparr>"
  have "?g \<in> set (map (\<lambda>f. f\<lparr>file_MD5Status := [], file_MD5Digest := [], file_MD5Error := []\<rparr>)
              (sort_key file_LogicalPath (filter (\<lambda>f. file_RootID f = rid) (db_files d))))"
    using assms(5) e(3) by simp
  then have "?e \<in> set (file_entries nfc policy (lf_entry F) d uid rid dir
      (map (\<lambda>f. f\<lparr>file_MD5Status := [], file_MD5Digest := [], file_MD5Error := []\<rparr>)
              (sort_key file_LogicalPath (filter (\<lambda>f. file_RootID f = rid) (db_files d)))))"
    unfolding file_entries_def set_map set_filter using assms(4,7-9,11) e(3)
    by (intro image_eqI [where x = ?g]) (auto simp: readable_def)
  with l(6) e have "?e \<in> set es" by simp
  moreover have "publicMD5Status [] = MD5Disabled" "publicMD5Digest [] [] = []"
    by (simp_all add: publicMD5Status_def publicMD5Digest_def MD5Disabled_def MD5Pending_def
        MD5Computing_def MD5Ready_def MD5Failed_def)
  ultimately show ?thesis by (intro bexI [of _ ?e]) simp_all
qed

end
