(* ===== verification/Endpoints.thy ===== *)
theory Endpoints
  imports System UploadApi Transfers Listing
begin

text \<open>
  The endpoints together: what was uploaded is what is downloaded, and what the creation of a
  file with content leaves out.
\<close>

section \<open>Downloads without faults\<close>

definition no_download_faults :: download_faults where
  "no_download_faults = \<lparr>df_load = False, df_auth = False, df_root = False, df_open = NoFault,
     df_stat = False, df_seek = False\<rparr>"

definition full_request :: download_request where
  "full_request = \<lparr>dq_Head = False, dq_Range = [], dq_IfRange = []\<rparr>"

lemma FileByID_row:
  assumes "distinct (map file_ID (db_files d))" and "f \<in> set (db_files d)" and "file_DeleteState f = FileActive"
  shows "FileByID False d (file_ID f) = Inr f"
proof (cases "find (\<lambda>g. file_ID g = file_ID f \<and> file_DeleteState g = FileActive) (db_files d)")
  case None
  with assms show ?thesis by (auto simp: find_None_iff)
next
  case (Some g)
  then have "g \<in> set (db_files d) \<and> file_ID g = file_ID f" using find_SomeD by fastforce
  with assms same_row have "g = f" by blast
  with Some show ?thesis by (simp add: FileByID_def query_row_def)
qed

lemma downloadFile_quiet:
  assumes inv: "objects_inv h" and f: "f \<in> set (db_files (hub_db h))" "file_DeleteState f = FileActive"
    and id: "0 < file_ID f" "int64 (file_ID f)"
    and may: "may nfc policy (hub_db h) c uid (file_RootID f) (file_LogicalPath f) ''read''"
    and root: "\<exists>x. StorageRootByID False (hub_db h) (file_RootID f) = Inr x"
    and obj: "st_open (hub_store h)" "\<exists>x. parseObjectKey (file_ObjectKey f) = Inr x"
      "st_objects (hub_store h) (file_ObjectKey f) = Some (Regular content)"
    and size: "file_Size f = int (length content)"
  shows "downloadFile nfc policy sha256 fmt prs no_download_faults mtime c q (itoa (file_ID f)) h
    = serve sha256 fmt prs False mtime q f content"
proof -
  have "FileByID False (hub_db h) (file_ID f) = Inr f"
    using inv f by (intro FileByID_row) (simp_all add: objects_inv_def)
  then show ?thesis
    using assms by (auto simp: downloadFile_def no_download_faults_def parse_itoa may_def store_Open_def)
qed

lemma serve_full:
  "res_status (serve sha256 fmt prs False mtime full_request f c) = 200
   \<and> res_body (serve sha256 fmt prs False mtime full_request f c) = Data c"
  by (simp add: serve_def full_request_def Let_def slice_all)

section \<open>From a completed upload to its download\<close>

lemma outside_same_keys:
  "outside_same h h' \<Longrightarrow> new_key random h \<Longrightarrow> new_key random h'"
  "outside_same h h' \<Longrightarrow> objects_inv h \<Longrightarrow> objects_inv h'"
proof -
  assume o: "outside_same h h'"
  then obtain us where us: "hub_db h' = (hub_db h)\<lparr>db_uploads := us\<rparr>"
    "st_objects (hub_store h') = st_objects (hub_store h)"
    by (auto simp: outside_same_def uploads_only_def)
  then show "new_key random h \<Longrightarrow> new_key random h'"
    by (simp add: new_key_def fresh_key_def job_keys_def)
  show "objects_inv h \<Longrightarrow> objects_inv h'"
    using us by (elim objects_inv_same) (simp_all add: job_keys_def)
qed

lemma Complete_objects:
  assumes inv: "system_inv h"
    and op: "Complete sha256 F1 F2 olds1 olds2 now1 now2 txnow random env i expected h = (h', r)"
    and env: "\<And>k. system_inv k \<Longrightarrow> system_inv (env k)"
    and key: "new_key random h" "\<And>k. new_key random k \<Longrightarrow> new_key random (env k)"
  shows "objects_inv h'"
proof -
  obtain h1 d e where one: "withLifecycleLock F1 olds1 i (complete_hash sha256 F1 now1)
      (replicate 32 (CHR 0x00)) h = (h1, d, e)" by (metis prod_cases3)
  have up: "upload_inv h" and ob: "objects_inv h" using inv by (simp_all add: system_inv_def)
  have o1: "outside_same h h1" by (rule quiet_hash.locked_outside [OF up TrueI one])
  have h1: "upload_inv h1" "objects_inv h1" "new_key random h1"
    using hash_section.locked_inv [OF up TrueI one] outside_same_keys [OF o1] ob key(1) by simp_all
  show ?thesis
  proof (cases "e = None \<and> checksum_ok d expected")
    case False
    with op one h1 show ?thesis by (auto simp: Complete_def split: option.splits if_splits)
  next
    case True
    let ?k = "env h1"
    have k: "upload_inv ?k" "objects_inv ?k" "new_key random ?k"
      using env [of h1] key(2) h1 by (simp_all add: system_inv_def)
    obtain u r' where two: "withLifecycleLock F2 olds2 i (complete_publish F2 random now2 txnow) () ?k = (h', u, r')"
      using op one True by (auto simp: Complete_def split: prod.splits)
    have fr: "fresh_key random ?k" using k(3) by (simp add: new_key_def)
    have step: "up_step Other ?k h'" using two fr by (rule step_publish)
    have "avoids_jobs ?k h'"
      using two
    proof (cases rule: withLifecycleLock_cases)
      case (Quiet x)
      then show ?thesis by (simp add: avoids_jobs_def same_view_def)
    next
      case (Ran g s x)
      have g: "upload_inv g" "sess g i = Some s" "length random = 32"
        "st_objects (hub_store g) (object_key random) = None"
        using upload_inv_view [OF k(1) Ran(1)] Ran(1,2) fr by (simp_all add: same_view_def fresh_key_def)
      have "\<exists>v. st_objects (hub_store h') = (st_objects (hub_store g))(object_key random := v)"
        using g(1,2) Ran(3) g(3,4)
      proof (cases rule: complete_publish_cases)
        case (Kept x)
        have "(st_objects (hub_store g))(object_key random := None) = st_objects (hub_store g)"
          using g(4) by (simp add: fun_upd_idem)
        with Kept(5) show ?thesis by metis
      qed auto
      with Ran(1) k(3) show ?thesis by (auto simp: avoids_jobs_def same_view_def new_key_def split: if_splits)
    qed
    from up_step_objects [OF step k(1,2) this] show ?thesis .
  qed
qed

lemma completed_upload_downloads:
  assumes op: "completeUpload nfc policy sha256 A F F1 F2 olds1 olds2 now now' now1 now2 txnow random mid env c i
      checksum h = (h', resp)" and ok: "res_status resp = 204"
    and inv: "system_inv h" and mid: "system_inv (mid h)"
    and env: "\<And>k. system_inv k \<Longrightarrow> system_inv (env k)" "\<And>k d. sealed i d k \<Longrightarrow> sealed i d (env k)"
    and key: "new_key random (mid h)" "\<And>k. new_key random k \<Longrightarrow> new_key random (env k)"
      "\<And>k. fresh_key random k \<Longrightarrow> fresh_key random (env k)"
  obtains s content row where "sess h i = Some s" "entitled nfc policy (hub_db h) c s ''write''"
    "part (mid h) i = Some (Regular content)" "row \<in> set (db_files (hub_db h'))"
    "file_ObjectKey row = object_key random" "file_DeleteState row = FileActive"
    "clean_checksum checksum \<noteq> [] \<Longrightarrow> hex_decode (clean_checksum checksum) = Some (sha256 content)"
    "\<And>mtime c' uid. 0 < file_ID row \<Longrightarrow> int64 (file_ID row) \<Longrightarrow>
       may nfc policy (hub_db h') c' uid (file_RootID row) (file_LogicalPath row) ''read'' \<Longrightarrow>
       \<exists>x. StorageRootByID False (hub_db h') (file_RootID row) = Inr x \<Longrightarrow> st_open (hub_store h') \<Longrightarrow>
       (\<exists>resp'. downloadFile nfc policy sha256 fmt prs no_download_faults mtime c' full_request
            (itoa (file_ID row)) h' = resp' \<and> res_status resp' = 200 \<and> res_body resp' = Data content)"
  using op [unfolded completeUpload_def]
proof (cases rule: with_session_cases)
  case refused
  with ok show thesis by auto
next
  case (ran s)
  have id: "up_ID s = i" using ran(1) inv upload_invD(2) by (fastforce simp: system_inv_def row_ok_def)
  from ran(4) ok obtain r where comp: "Complete sha256 F1 F2 olds1 olds2 now1 now2 txnow random env i
      (clean_checksum checksum) (mid h) = (h', r)" and "r = None"
    by (auto simp: id complete_error_def split: prod.splits option.splits if_splits)
  then have comp0: "Complete sha256 F1 F2 olds1 olds2 now1 now2 txnow random env i
      (clean_checksum checksum) (mid h) = (h', None)" by simp
  have up: "upload_inv (mid h)" using mid by (simp add: system_inv_def)
  have fk: "fresh_key random (mid h)" using key(1) by (simp add: new_key_def)
  have ob: "objects_inv h'" by (rule Complete_objects [OF mid comp env(1) key(1,2)])
  from Complete_publishes [OF up comp0 env(2) fk key(3)] obtain t content row where
    cp: "part (mid h) i = Some (Regular content)"
    "st_objects (hub_store h') (object_key random) = Some (Regular content)"
    "row \<in> set (db_files (hub_db h'))" "file_ObjectKey row = object_key random"
    "file_Size row = int (length content)" "file_DeleteState row = FileActive"
    "clean_checksum checksum \<noteq> [] \<Longrightarrow> hex_decode (clean_checksum checksum) = Some (sha256 content)"
    by metis
  have "\<exists>x. parseObjectKey (object_key random) = Inr x"
    using parse_object_key fk by (auto simp: fresh_key_def)
  then have dl: "downloadFile nfc policy sha256 fmt prs no_download_faults mtime c' full_request (itoa (file_ID row)) h'
      = serve sha256 fmt prs False mtime full_request row content"
    if "0 < file_ID row" "int64 (file_ID row)"
      "may nfc policy (hub_db h') c' uid (file_RootID row) (file_LogicalPath row) ''read''"
      "\<exists>x. StorageRootByID False (hub_db h') (file_RootID row) = Inr x" "st_open (hub_store h')"
    for mtime c' uid
    using downloadFile_quiet [OF ob cp(3,6) that(1-5)] cp by simp
  show thesis
    by (rule that [OF ran(1,3) cp(1,3,4,6,7)]) (use dl serve_full in \<open>auto\<close>)
qed

section \<open>Files created with content\<close>

text \<open>
  The row of a created file has size zero whatever its content, and a download compares the
  size of the row with that of the object: content created this way cannot be downloaded.
\<close>

lemma created_not_downloadable:
  assumes "created h rid p k content uid h'" and "content \<noteq> []" and "objects_inv h'"
    and "f \<in> set (db_files (hub_db h'))" and "file_ObjectKey f = k" and "parse_int64 fileID = Some (file_ID f)"
  shows "res_status (downloadFile nfc policy sha256 fmt prs F mtime c q fileID h') \<notin> {200, 206}"
proof
  let ?r = "downloadFile nfc policy sha256 fmt prs F mtime c q fileID h'"
  assume "res_status ?r \<in> {200, 206}"
  then have "res_status ?r = 200 \<or> res_status ?r = 206" by simp
  then obtain g d where g: "g \<in> set (db_files (hub_db h'))" "parse_int64 fileID = Some (file_ID g)"
    "st_objects (hub_store h') (file_ObjectKey g) = Some (Regular d)" "file_Size g = int (length d)"
    by (rule downloadFile_serves [OF refl])
  obtain row where row: "db_files (hub_db h') = db_files (hub_db h) @ [row]" "file_ObjectKey row = k" "file_Size row = 0"
    "st_objects (hub_store h') k = Some (Regular content)"
    using assms(1) by (auto simp: created_def created_row_def)
  have "g = f"
    using g(1,2) assms(3,4,6) same_row [of "db_files (hub_db h')" f g] by (simp add: objects_inv_def)
  moreover have "f = row"
    using assms(3,4,5) row(1,2) by (auto simp: objects_inv_def distinct_map dest: inj_onD)
  ultimately have "d = content" "int (length d) = 0" using g(3,4) row(2-4) by simp_all
  with assms(2) show False by simp
qed

end
