(* ===== verification/Requests.thy ===== *)
theory Requests
  imports Samples DbSite Checksum Endpoints "HOL-Library.Code_Target_Nat"
begin

text \<open>
  Small concrete requests, on which the witnesses run the handlers: the user of \<open>Samples\<close> may
  read, write, delete and archive below the root.
\<close>

definition sample_ctx :: request_context where
  "sample_ctx = \<lparr>rc_User = Some 1, rc_RequestID = ''r'', rc_SessionAuditID = ''s''\<rparr>"

definition grant :: "int \<Rightarrow> string \<Rightarrow> permission" where
  "grant i action = \<lparr>perm_ID = i, perm_UserID = 1, perm_RootID = 1, perm_PathPrefix = ''/'',
     perm_Action = action, perm_Allow = True, perm_CreatedAt = 0, perm_UpdatedAt = 0\<rparr>"

definition granted :: "hub \<Rightarrow> hub" where
  "granted h = h\<lparr>hub_db := (hub_db h)\<lparr>db_perms :=
     [grant 1 ''read'', grant 2 ''write'', grant 3 ''delete'', grant 4 ''archive'']\<rparr>\<rparr>"

text \<open>A hub with an upload whose part is complete, and one without sessions.\<close>

definition shared_hub :: hub where
  "shared_hub = granted (sample_hub ''abc'')"

definition empty_hub :: hub where
  "empty_hub = granted \<lparr>hub_db = sample_db, hub_store = \<lparr>st_open = True, st_staging = Some [], st_objects = Map.empty\<rparr>\<rparr>"

definition quiet_request :: pfaults where
  "quiet_request = (\<lambda>_. NoFault)"

definition create_request :: "string \<Rightarrow> string \<Rightarrow> file_request option" where
  "create_request p content = Some \<lparr>fr_RootID = 1, fr_Path = p, fr_Content = content\<rparr>"

definition sample_created :: "string \<Rightarrow> hub \<times> response" where
  "sample_created content = createFile id sample_policy quiet_request [] sample_random 5 True sample_ctx
     (create_request ''a'' content) empty_hub"

definition created_hub :: "string \<Rightarrow> hub" where
  "created_hub content = fst (sample_created content)"

lemma sample_created_201: "res_status (snd (sample_created ''hi'')) = 201"
  by code_simp

lemma sample_created_eq: "sample_created c = (created_hub c, snd (sample_created c))"
  by (simp add: created_hub_def)

text \<open>A stored file, and the state after a delete whose removal of the object failed.\<close>

definition stored_file :: file_row where
  "stored_file = sample_file\<lparr>file_LogicalPath := ''/a'', file_ObjectKey := object_key sample_random, file_Size := 2\<rparr>"

definition stored_hub :: hub where
  "stored_hub = \<lparr>hub_db = (hub_db empty_hub)\<lparr>db_files := [stored_file]\<rparr>,
     hub_store = (hub_store empty_hub)\<lparr>st_objects := Map.empty(object_key sample_random \<mapsto> Regular ''hi'')\<rparr>\<rparr>"

definition deleting_hub :: "io_fault \<Rightarrow> hub" where
  "deleting_hub x = fst (delete_steps (\<lambda>s. if s = PRemove then x else NoFault) 6 stored_file stored_hub)"

definition queued_db :: db where
  "queued_db = (hub_db stored_hub)\<lparr>db_files := [stored_file\<lparr>file_MD5Status := MD5Pending\<rparr>],
     db_tasks := [\<lparr>task_FileID = 1, task_Status = TaskPending, task_Attempts = 0, task_MaxAttempts = 3,
       task_AvailableAt = 0, task_ClaimedAt = None, task_CreatedAt = 0, task_UpdatedAt = 0\<rparr>]\<rparr>"

lemma md5_inv_queued: "md5_inv queued_db"
  by (simp add: md5_inv_def queued_db_def stored_file_def sample_file_def attempts_ok_def task_of_def row_at_def md5_statuses)

lemma split_triple: "x = (fst x, fst (snd x), snd (snd x))"
  by simp

lemma upload_inv_empty: "upload_inv empty_hub"
  by (simp add: upload_inv_def empty_hub_def granted_def sample_db_def sessions_ok_def files_ok_def session_def row_at_def)

lemma upload_inv_shared: "upload_inv shared_hub"
  using upload_inv_sample [of "''abc''"]
  by (simp add: upload_inv_def shared_hub_def granted_def sessions_ok_def files_ok_def row_ok_def session_def)

lemma objects_inv_empty: "objects_inv empty_hub"
  by (simp add: objects_inv_def empty_hub_def granted_def sample_db_def files_ok_def job_keys_def)

lemma objects_inv_shared: "objects_inv shared_hub"
  by (simp add: objects_inv_def shared_hub_def granted_def sample_hub_def sample_db_def files_ok_def job_keys_def)

lemma objects_inv_stored: "objects_inv stored_hub"
  by (simp add: objects_inv_def stored_hub_def stored_file_def sample_file_def empty_hub_def granted_def sample_db_def
      files_ok_def job_keys_def)

lemmas system_inv_samples = system_inv_def upload_inv_empty upload_inv_shared objects_inv_empty objects_inv_shared

lemma new_key_samples: "new_key sample_random empty_hub" "new_key sample_random shared_hub"
  by (simp_all add: new_key_def fresh_key_def sample_random_def empty_hub_def shared_hub_def granted_def
      sample_hub_def sample_db_def job_keys_def)

end
