(* ===== verification/Password.thy ===== *)
theory Password
  imports Prelude
begin

text \<open>
  Password hashes (\<open>internal/auth/password.go\<close>) and the unpadded base64 they and the session ids
  are written in.  Argon2id (\<open>golang.org/x/crypto\<close>) is a parameter: password, salt, iterations,
  memory, parallelism and key length to a key.
\<close>

section \<open>Unpadded base64\<close>

definition b64_digits :: "bool \<Rightarrow> string" where
  "b64_digits url = ''ABCDEFGHIJKLMNOPQRSTUVWXYZabcdefghijklmnopqrstuvwxyz0123456789''
     @ (if url then ''-_'' else ''+/'')"

definition b64_digit :: "bool \<Rightarrow> nat \<Rightarrow> char" where
  "b64_digit url n = b64_digits url ! n"

fun index_of :: "'a \<Rightarrow> 'a list \<Rightarrow> nat option" where
  "index_of x [] = None"
| "index_of x (y # ys) = (if x = y then Some 0 else map_option Suc (index_of x ys))"

definition b64_value :: "bool \<Rightarrow> char \<Rightarrow> nat option" where
  "b64_value url c = index_of c (b64_digits url)"

fun b64_encode :: "bool \<Rightarrow> string \<Rightarrow> string" where
  "b64_encode url [] = []"
| "b64_encode url [a] =
     (let x = of_char a in [b64_digit url (x div 4), b64_digit url (x mod 4 * 16)])"
| "b64_encode url [a, b] =
     (let x = of_char a; y = of_char b in
      [b64_digit url (x div 4), b64_digit url (x mod 4 * 16 + y div 16), b64_digit url (y mod 16 * 4)])"
| "b64_encode url (a # b # c # s) =
     (let x = of_char a; y = of_char b; z = of_char c in
      b64_digit url (x div 4) # b64_digit url (x mod 4 * 16 + y div 16)
      # b64_digit url (y mod 16 * 4 + z div 64) # b64_digit url (z mod 64) # b64_encode url s)"

text \<open>
  \<open>DecodeString\<close> skips line breaks, takes a last group of two or three digits, and ignores the
  bits of the last digit that fill no byte.
\<close>

fun b64_groups :: "nat list \<Rightarrow> string option" where
  "b64_groups [] = Some []"
| "b64_groups [_] = None"
| "b64_groups [x, y] = Some [char_of (x * 4 + y div 16)]"
| "b64_groups [x, y, z] = Some [char_of (x * 4 + y div 16), char_of (y mod 16 * 16 + z div 4)]"
| "b64_groups (x # y # z # v # s) =
     (case b64_groups s of
        None \<Rightarrow> None
      | Some t \<Rightarrow> Some (char_of (x * 4 + y div 16) # char_of (y mod 16 * 16 + z div 4)
                       # char_of (z mod 4 * 64 + v) # t))"

definition b64_decode :: "bool \<Rightarrow> string \<Rightarrow> string option" where
  "b64_decode url s =
     (case those (map (b64_value url) (filter (\<lambda>c. c \<notin> {CHR 0x0A, CHR 0x0D}) s)) of
        None \<Rightarrow> None
      | Some ds \<Rightarrow> b64_groups ds)"

definition b64_length :: "nat \<Rightarrow> nat" where
  "b64_length n = n div 3 * 4 + (n mod 3 * 8 + 5) div 6"

section \<open>Hashes\<close>

record argon2_params =
  ap_memory :: nat
  ap_iterations :: nat
  ap_parallelism :: nat
  ap_saltLength :: nat
  ap_keyLength :: nat

definition defaultArgon2 :: argon2_params where
  "defaultArgon2 = \<lparr>ap_memory = 64 * 1024, ap_iterations = 3, ap_parallelism = 1, ap_saltLength = 16,
     ap_keyLength = 32\<rparr>"

type_synonym kdf = "string \<Rightarrow> string \<Rightarrow> nat \<Rightarrow> nat \<Rightarrow> nat \<Rightarrow> nat \<Rightarrow> string"

definition params_text :: string where
  "params_text = ''m='' @ itoa (int (ap_memory defaultArgon2)) @ '',t='' @ itoa (int (ap_iterations defaultArgon2))
     @ '',p='' @ itoa (int (ap_parallelism defaultArgon2))"

text \<open>The salt is 16 random bytes; reading them can fail.\<close>

definition HashPassword :: "kdf \<Rightarrow> bool \<Rightarrow> string \<Rightarrow> string \<Rightarrow> err + string" where
  "HashPassword argon2 flt salt password =
     (if password = [] then Inl Invalid
      else if flt then Inl IoError
      else
        (let p = defaultArgon2;
             hash = argon2 password salt (ap_iterations p) (ap_memory p) (ap_parallelism p) (ap_keyLength p) in
         Inr (''$argon2id$v=19$'' @ params_text @ ''$'' @ b64_encode False salt @ ''$'' @ b64_encode False hash)))"

text \<open>
  The parameters are parsed and must print back as the default ones: what is left of the parse
  are the defaults.
\<close>

definition parseHash :: "string \<Rightarrow> (argon2_params \<times> string \<times> string) option" where
  "parseHash encoded =
     (let parts = split_on (CHR ''$'') encoded; p = defaultArgon2 in
      if length parts \<noteq> 6 \<or> parts ! 1 \<noteq> ''argon2id'' \<or> parts ! 2 \<noteq> ''v=19'' then None
      else if parts ! 3 \<noteq> params_text then None
      else if length (parts ! 4) > b64_length (ap_saltLength p) \<or> length (parts ! 5) > b64_length (ap_keyLength p)
      then None
      else
        (case b64_decode False (parts ! 4) of
           None \<Rightarrow> None
         | Some salt \<Rightarrow>
             if length salt \<noteq> ap_saltLength p then None
             else
               (case b64_decode False (parts ! 5) of
                  None \<Rightarrow> None
                | Some hash \<Rightarrow>
                    if length hash \<noteq> ap_keyLength p then None else Some (p, salt, hash))))"

definition VerifyPassword :: "kdf \<Rightarrow> string \<Rightarrow> string \<Rightarrow> bool" where
  "VerifyPassword argon2 encoded password =
     (case parseHash encoded of
        None \<Rightarrow> False
      | Some (p, salt, expected) \<Rightarrow>
          argon2 password salt (ap_iterations p) (ap_memory p) (ap_parallelism p) (length expected) = expected)"

section \<open>Round trips\<close>

lemma less_64_cases: "(n :: nat) < 64 \<Longrightarrow> P n" if "list_all P [0..<64]" for P
  using that by (simp add: list_all_iff)

lemma b64_value_digit [simp]: "n < 64 \<Longrightarrow> b64_value url (b64_digit url n) = Some n"
proof (rule less_64_cases [where P = "\<lambda>n. b64_value url (b64_digit url n) = Some n"])
  show "list_all (\<lambda>n. b64_value url (b64_digit url n) = Some n) [0..<64]"
    by (cases url) (simp only:, code_simp)+
qed

lemma b64_digit_plain [simp]: "n < 64 \<Longrightarrow> b64_digit url n \<notin> {CHR 0x0A, CHR 0x0D, CHR ''$''}"
proof (rule less_64_cases [where P = "\<lambda>n. b64_digit url n \<notin> {CHR 0x0A, CHR 0x0D, CHR ''$''}"])
  show "list_all (\<lambda>n. b64_digit url n \<notin> {CHR 0x0A, CHR 0x0D, CHR ''$''}) [0..<64]"
    by (cases url) (simp only:, code_simp)+
qed

lemma byte_bounds:
  fixes c :: char
  defines "x \<equiv> of_char c :: nat"
  shows "x div 4 < 64" "x mod 4 * 16 < 64" "x mod 16 * 4 < 64" "x mod 64 < 64"
    "x mod 4 * 16 + of_char d div 16 < 64" "x mod 16 * 4 + of_char d div 64 < 64"
proof -
  have "x < 256" "of_char d < (256 :: nat)" unfolding x_def by (simp_all add: of_char_less_256)
  then show "x div 4 < 64" "x mod 4 * 16 < 64" "x mod 16 * 4 < 64" "x mod 64 < 64"
    "x mod 4 * 16 + of_char d div 16 < 64" "x mod 16 * 4 + of_char d div 64 < 64"
    by linarith+
qed

text \<open>The digits of an encoding are below 64, and the groups give the bytes back.\<close>

fun b64_numbers :: "string \<Rightarrow> nat list" where
  "b64_numbers [] = []"
| "b64_numbers [a] = [of_char a div 4, of_char a mod 4 * 16]"
| "b64_numbers [a, b] = [of_char a div 4, of_char a mod 4 * 16 + of_char b div 16, of_char b mod 16 * 4]"
| "b64_numbers (a # b # c # s) =
     of_char a div 4 # (of_char a mod 4 * 16 + of_char b div 16) # (of_char b mod 16 * 4 + of_char c div 64)
     # of_char c mod 64 # b64_numbers s"

lemma b64_encode_numbers: "b64_encode url s = map (b64_digit url) (b64_numbers s)"
  by (induction s rule: b64_numbers.induct) (simp_all add: Let_def)

lemma b64_numbers_less: "n \<in> set (b64_numbers s) \<Longrightarrow> n < 64"
  by (induction s rule: b64_numbers.induct) (auto simp: byte_bounds)

lemma byte_parts:
  fixes c :: char and n m :: nat
  shows "m < 16 \<Longrightarrow> char_of (of_char c div 4 * 4 + (of_char c mod 4 * 16 + m) div 16) = c"
    "m < 4 \<Longrightarrow> n = of_char c div 16 \<Longrightarrow>
       char_of (n * 16 + (of_char c mod 16 * 4 + m) div 4) = c"
    "char_of (of_char c div 64 * 64 + of_char c mod 64) = c"
proof -
  have x: "(of_char c mod 4 * 16 + m) div 16 = (of_char c mod 4 :: nat)" if "m < 16" for m :: nat
    using that by simp
  have "of_char c div 4 * 4 + of_char c mod 4 = (of_char c :: nat)" by simp
  then show "m < 16 \<Longrightarrow> char_of (of_char c div 4 * 4 + (of_char c mod 4 * 16 + m) div 16) = c"
    using x by simp
  have "(of_char c mod 16 * 4 + m) div 4 = (of_char c mod 16 :: nat)" if "m < 4" using that by simp
  then show "m < 4 \<Longrightarrow> n = of_char c div 16 \<Longrightarrow> char_of (n * 16 + (of_char c mod 16 * 4 + m) div 4) = c"
    by simp
qed simp

lemma byte_divs:
  fixes c :: char
  shows "of_char c div 16 < (16 :: nat)" "of_char c div 64 < (4 :: nat)"
  using of_char_less_256 [of c] by linarith+

lemma b64_groups_numbers: "b64_groups (b64_numbers s) = Some s"
proof (induction s rule: b64_numbers.induct)
  case (2 a)
  then show ?case using byte_parts(1) [of 0 a] by simp
next
  case (3 a b)
  then show ?case
    using byte_parts(1) [of "of_char b div 16" a] byte_parts(2) [of 0 "of_char b div 16" b] byte_divs by simp
next
  case (4 a b c s)
  then show ?case
    using byte_parts(1) [of "of_char b div 16" a] byte_parts(2) [of "of_char c div 64" "of_char b div 16" b]
      byte_parts(3) [of c] byte_divs by simp
qed simp

lemma those_values: "\<forall>n \<in> set ns. n < 64 \<Longrightarrow> those (map (b64_value url) (map (b64_digit url) ns)) = Some ns"
  by (induction ns) simp_all

lemma b64_decode_encode [simp]: "b64_decode url (b64_encode url s) = Some s"
proof -
  have "filter (\<lambda>c. c \<notin> {CHR 0x0A, CHR 0x0D}) (b64_encode url s) = b64_encode url s"
    using b64_numbers_less b64_digit_plain
    by (intro filter_True) (fastforce simp: b64_encode_numbers)
  then show ?thesis
    using those_values [of "b64_numbers s" url] b64_numbers_less b64_groups_numbers
    by (simp add: b64_decode_def b64_encode_numbers)
qed

lemma length_b64: "length (b64_encode url s) = b64_length (length s)"
proof (induction s rule: b64_numbers.induct)
  case (4 a b c s)
  have "Suc (Suc (Suc n)) div 3 = Suc (n div 3)" "Suc (Suc (Suc n)) mod 3 = n mod 3" for n :: nat
    by presburger+
  then have "b64_length (Suc (Suc (Suc n))) = b64_length n + 4" for n
    by (simp add: b64_length_def)
  with 4 show ?case by (simp add: Let_def)
qed (simp_all add: b64_length_def Let_def)

lemma b64_encode_empty [simp]: "b64_encode url s = [] \<longleftrightarrow> s = []"
  by (induction s rule: b64_numbers.induct) (simp_all add: Let_def)

lemma b64_no_dollar: "CHR ''$'' \<notin> set (b64_encode url s)"
  using b64_numbers_less b64_digit_plain by (fastforce simp: b64_encode_numbers)

lemma parse_hash:
  assumes "length salt = 16" and "length hash = 32"
  shows "parseHash (''$argon2id$v=19$'' @ params_text @ ''$'' @ b64_encode False salt @ ''$'' @ b64_encode False hash)
    = Some (defaultArgon2, salt, hash)"
proof -
  let ?parts = "[[], ''argon2id'', ''v=19'', params_text, b64_encode False salt, b64_encode False hash]"
  have "CHR ''$'' \<notin> set (decimal n)" for n using decimal_digits by (fastforce simp: is_digit_def)
  then have "CHR ''$'' \<notin> set params_text" by (simp add: params_text_def itoa_def)
  then have "split_on (CHR ''$'') (join (CHR ''$'') ?parts) = ?parts"
    by (intro split_on_join) (auto simp: b64_no_dollar)
  moreover have "join (CHR ''$'') ?parts
      = ''$argon2id$v=19$'' @ params_text @ ''$'' @ b64_encode False salt @ ''$'' @ b64_encode False hash"
    by simp
  ultimately have "split_on (CHR ''$'') (''$argon2id$v=19$'' @ params_text @ ''$'' @ b64_encode False salt @ ''$''
      @ b64_encode False hash) = ?parts" by simp
  then show ?thesis
    using assms by (simp add: parseHash_def Let_def length_b64 defaultArgon2_def)
qed

text \<open>A stored hash accepts exactly the passwords with the same key.\<close>

lemma verify_hash:
  assumes "HashPassword argon2 flt salt password = Inr encoded" and "length salt = 16"
    and "\<And>q. length (argon2 q salt 3 65536 1 32) = 32"
  shows "VerifyPassword argon2 encoded q
    \<longleftrightarrow> argon2 q salt 3 65536 1 32 = argon2 password salt 3 65536 1 32"
proof -
  have e: "encoded = ''$argon2id$v=19$'' @ params_text @ ''$'' @ b64_encode False salt @ ''$''
      @ b64_encode False (argon2 password salt 3 65536 1 32)"
    using assms(1) by (auto simp: HashPassword_def Let_def defaultArgon2_def split: if_splits)
  have "parseHash encoded = Some (defaultArgon2, salt, argon2 password salt 3 65536 1 32)"
    unfolding e by (rule parse_hash [OF assms(2,3)])
  then show ?thesis using assms(3) by (simp add: VerifyPassword_def defaultArgon2_def)
qed

text \<open>What is stored decides nothing about the cost: only the default parameters are accepted.\<close>

lemma parse_hash_bounded:
  assumes "parseHash encoded = Some (p, salt, hash)"
  shows "p = defaultArgon2" "length salt = 16" "length hash = 32"
  using assms by (auto simp: parseHash_def Let_def defaultArgon2_def split: if_splits option.splits)

end
