(* ===== verification/Sessions.thy ===== *)
theory Sessions
  imports Password DbAdmin
begin

text \<open>
  Sessions (\<open>internal/auth/session.go\<close>): the in-memory store, the manager with its one background
  collector of expired sessions, and the service that checks a login.  A session is an opaque
  random id; times are nanoseconds.
\<close>

datatype auth_error = SessionNotFound | SessionExpired | InvalidCredentials | RandomFailed

section \<open>The store\<close>

record auth_session =
  as_ID :: string
  as_UserID :: int
  as_ExpiresAt :: int

type_synonym session_store = "string \<rightharpoonup> auth_session"

definition ms_Create :: "auth_session \<Rightarrow> session_store \<Rightarrow> session_store" where
  "ms_Create v s = s(as_ID v \<mapsto> v)"

definition ms_Lookup :: "string \<Rightarrow> session_store \<Rightarrow> auth_error + auth_session" where
  "ms_Lookup i s = (case s i of None \<Rightarrow> Inl SessionNotFound | Some v \<Rightarrow> Inr v)"

definition ms_Delete :: "string \<Rightarrow> session_store \<Rightarrow> session_store" where
  "ms_Delete i s = s(i := None)"

definition ms_DeleteForUser :: "int \<Rightarrow> session_store \<Rightarrow> session_store" where
  "ms_DeleteForUser uid s =
     (\<lambda>i. case s i of None \<Rightarrow> None | Some v \<Rightarrow> if as_UserID v = uid then None else Some v)"

text \<open>Iterating over a map visits its keys in any order: \<open>order\<close>.\<close>

fun delete_expired :: "int \<Rightarrow> nat \<Rightarrow> string list \<Rightarrow> nat \<Rightarrow> session_store \<Rightarrow> session_store \<times> nat" where
  "delete_expired now limit [] deleted s = (s, deleted)"
| "delete_expired now limit (i # order) deleted s =
     (case s i of
        None \<Rightarrow> delete_expired now limit order deleted s
      | Some v \<Rightarrow>
          if as_ExpiresAt v > now then delete_expired now limit order deleted s
          else if Suc deleted = limit then (s(i := None), Suc deleted)
          else delete_expired now limit order (Suc deleted) (s(i := None)))"

definition ms_DeleteExpired :: "int \<Rightarrow> int \<Rightarrow> string list \<Rightarrow> session_store \<Rightarrow> session_store \<times> nat" where
  "ms_DeleteExpired now limit order s =
     (if limit \<le> 0 then (s, 0) else delete_expired now (nat limit) order 0 s)"

section \<open>The manager\<close>

record session_config =
  sc_CookieName :: string
  sc_TTL :: int
  sc_InsecureCookie :: bool
  sc_SameSite :: int
  sc_GCDeleteTimeout :: int
  sc_ShutdownWaitTimeout :: int

definition sessionGCMaxDeletes :: int where
  "sessionGCMaxDeletes = 64"

definition seconds :: "int \<Rightarrow> int" where
  "seconds n = n * 1000000000"

text \<open>\<open>http.SameSiteLaxMode\<close> is 2.\<close>

definition default_session_config :: "session_config \<Rightarrow> session_config" where
  "default_session_config c =
     \<lparr>sc_CookieName = (if sc_CookieName c = [] then ''safefilehub_session'' else sc_CookieName c),
      sc_TTL = (if sc_TTL c \<le> 0 then seconds (24 * 60 * 60) else sc_TTL c),
      sc_InsecureCookie = sc_InsecureCookie c,
      sc_SameSite = (if sc_SameSite c = 0 then 2 else sc_SameSite c),
      sc_GCDeleteTimeout = (if sc_GCDeleteTimeout c \<le> 0 then seconds 5 else sc_GCDeleteTimeout c),
      sc_ShutdownWaitTimeout = (if sc_ShutdownWaitTimeout c \<le> 0 then seconds 5 else sc_ShutdownWaitTimeout c)\<rparr>"

text \<open>\<open>sm_gc\<close> is the time the running collector was started with.\<close>

record session_manager =
  sm_store :: session_store
  sm_config :: session_config
  sm_gc :: "int option"
  sm_closed :: bool

definition NewSessionManager :: "session_store \<Rightarrow> session_config \<Rightarrow> session_manager" where
  "NewSessionManager s c = \<lparr>sm_store = s, sm_config = default_session_config c, sm_gc = None, sm_closed = False\<rparr>"

definition scheduleGC :: "int \<Rightarrow> session_manager \<Rightarrow> session_manager" where
  "scheduleGC now m = (if sm_gc m \<noteq> None \<or> sm_closed m then m else m\<lparr>sm_gc := Some now\<rparr>)"

text \<open>Between scheduling the collector and storing the session the rest of the system may act.\<close>

definition sm_Create ::
    "bool \<Rightarrow> int \<Rightarrow> int \<Rightarrow> string \<Rightarrow> (session_manager \<Rightarrow> session_manager) \<Rightarrow> int \<Rightarrow> session_manager
     \<Rightarrow> session_manager \<times> (auth_error + string)" where
  "sm_Create flt now now' random env uid m =
     (let m1 = env (scheduleGC now m); i = b64_encode True random in
      if flt then (m1, Inl RandomFailed)
      else
        (m1\<lparr>sm_store := ms_Create \<lparr>as_ID = i, as_UserID = uid, as_ExpiresAt = now' + sc_TTL (sm_config m1)\<rparr>
              (sm_store m1)\<rparr>, Inr i))"

definition sm_Revoke :: "string \<Rightarrow> session_manager \<Rightarrow> session_manager" where
  "sm_Revoke i m = (if i = [] then m else m\<lparr>sm_store := ms_Delete i (sm_store m)\<rparr>)"

definition sm_Logout :: "string \<Rightarrow> session_manager \<Rightarrow> session_manager" where
  "sm_Logout i m = sm_Revoke i m"

definition sm_RevokeUser :: "int \<Rightarrow> session_manager \<Rightarrow> session_manager" where
  "sm_RevokeUser uid m = (if uid \<le> 0 then m else m\<lparr>sm_store := ms_DeleteForUser uid (sm_store m)\<rparr>)"

definition sm_UserID :: "int \<Rightarrow> string \<Rightarrow> session_manager \<Rightarrow> session_manager \<times> (auth_error + int)" where
  "sm_UserID now i m =
     (case ms_Lookup i (sm_store m) of
        Inl e \<Rightarrow> (m, Inl e)
      | Inr v \<Rightarrow>
          if \<not> now < as_ExpiresAt v then (m\<lparr>sm_store := ms_Delete i (sm_store m)\<rparr>, Inl SessionExpired)
          else (m, Inr (as_UserID v)))"

definition sm_GC :: "int \<Rightarrow> string list \<Rightarrow> session_manager \<Rightarrow> session_manager \<times> nat" where
  "sm_GC now order m =
     (case ms_DeleteExpired now sessionGCMaxDeletes order (sm_store m) of
        (s, n) \<Rightarrow> (m\<lparr>sm_store := s\<rparr>, n))"

text \<open>One pass of the collector: it ends after a pass that was not full.\<close>

definition gc_pass :: "string list \<Rightarrow> session_manager \<Rightarrow> session_manager" where
  "gc_pass order m =
     (case sm_gc m of
        None \<Rightarrow> m
      | Some now \<Rightarrow>
          (case sm_GC now order m of
             (m', n) \<Rightarrow> if int n < sessionGCMaxDeletes then m'\<lparr>sm_gc := None\<rparr> else m'))"

text \<open>
  The collector's loop: each turn is the order in which its pass visits the sessions and the steps
  others take after it.  \<open>None\<close> means that it is still running after the turns.
\<close>

type_synonym gc_turn = "string list \<times> (session_manager \<Rightarrow> session_manager)"

fun runGC :: "gc_turn list \<Rightarrow> session_manager \<Rightarrow> session_manager option" where
  "runGC [] m = None"
| "runGC ((order, env) # turns) m =
     (let m' = gc_pass order m in
      if sm_gc m' = None then Some m' else runGC turns (env m'))"

text \<open>
  \<open>Close\<close> stops the collector at the end of its current pass and starts no other; the wait for it
  is bounded.
\<close>

definition sm_Close :: "session_manager \<Rightarrow> session_manager" where
  "sm_Close m = m\<lparr>sm_closed := True\<rparr>"

record session_cookie =
  ck_Name :: string
  ck_Value :: string
  ck_Path :: string
  ck_Expires :: int
  ck_MaxAge :: int
  ck_Secure :: bool
  ck_HttpOnly :: bool
  ck_SameSite :: int

definition sm_SetCookie :: "int \<Rightarrow> string \<Rightarrow> session_manager \<Rightarrow> session_cookie" where
  "sm_SetCookie now i m =
     (let c = sm_config m in
      \<lparr>ck_Name = sc_CookieName c, ck_Value = i, ck_Path = ''/'', ck_Expires = now + sc_TTL c,
       ck_MaxAge = sc_TTL c div 1000000000, ck_Secure = (\<not> sc_InsecureCookie c), ck_HttpOnly = True,
       ck_SameSite = sc_SameSite c\<rparr>)"

definition sm_ClearSessionCookie :: "int \<Rightarrow> session_manager \<Rightarrow> session_cookie" where
  "sm_ClearSessionCookie now m =
     (let c = sm_config m in
      \<lparr>ck_Name = sc_CookieName c, ck_Value = [], ck_Path = ''/'', ck_Expires = now - seconds 1,
       ck_MaxAge = - 1, ck_Secure = (\<not> sc_InsecureCookie c), ck_HttpOnly = True,
       ck_SameSite = sc_SameSite c\<rparr>)"

section \<open>Checking a login\<close>

text \<open>An absent or disabled account costs a verification as well; its result is not used.\<close>

definition dummyPasswordHash :: string where
  "dummyPasswordHash =
     ''$argon2id$v=19$m=65536,t=3,p=1$HuMhhGn/0DHkTtaVeqF4Uw$e6aHIED4yL6VDXJ/G63RvTv+IhHE22Kz8RvrvDrkfJ8''"

definition Authenticate :: "kdf \<Rightarrow> bool \<Rightarrow> db \<Rightarrow> string \<Rightarrow> string \<Rightarrow> auth_error + user_row" where
  "Authenticate argon2 flt d username password =
     (case UserByUsername flt d username of
        Inl e \<Rightarrow> (let ignored = VerifyPassword argon2 dummyPasswordHash password in Inl InvalidCredentials)
      | Inr u \<Rightarrow>
          if user_Disabled u
          then (let ignored = VerifyPassword argon2 dummyPasswordHash password in Inl InvalidCredentials)
          else if \<not> VerifyPassword argon2 (user_PasswordHash u) password then Inl InvalidCredentials
          else Inr u)"

section \<open>The collector terminates\<close>

definition expired :: "int \<Rightarrow> session_store \<Rightarrow> string set" where
  "expired now s = {i. \<exists>v. s i = Some v \<and> as_ExpiresAt v \<le> now}"

text \<open>An iteration visits every key of the map.\<close>

definition visits :: "string list \<Rightarrow> session_store \<Rightarrow> bool" where
  "visits order s \<longleftrightarrow> dom s \<subseteq> set order"

lemma expired_delete: "expired now (s(i := None)) = expired now s - {i}"
  by (auto simp: expired_def)

text \<open>
  What a sweep does: it deletes expired sessions only, as many as it counts, at most \<open>limit\<close>; when
  it stops below the limit no visited session is expired.
\<close>

definition swept :: "int \<Rightarrow> nat \<Rightarrow> string list \<Rightarrow> session_store \<Rightarrow> session_store \<Rightarrow> nat \<Rightarrow> bool" where
  "swept now limit order s s' k \<longleftrightarrow>
     expired now s' \<subseteq> expired now s \<and> k + card (expired now s') = card (expired now s) \<and> k \<le> limit
     \<and> (k < limit \<longrightarrow> expired now s' \<inter> set order = {})
     \<and> (\<forall>i. i \<notin> expired now s \<longrightarrow> s' i = s i) \<and> s' \<subseteq>\<^sub>m s"

lemma swept_skip: "i \<notin> expired now s \<Longrightarrow> swept now limit order s s' k \<Longrightarrow> swept now limit (i # order) s s' k"
  by (auto simp: swept_def)

lemma swept_delete:
  assumes "i \<in> expired now s" and "finite (expired now s)" and "swept now limit order (s(i := None)) s' k"
  shows "swept now (Suc limit) (i # order) s s' (Suc k)"
proof -
  have "card (expired now s) = Suc (card (expired now (s(i := None))))"
    unfolding expired_delete by (rule card.remove [OF assms(2,1)])
  then have "Suc k + card (expired now s') = card (expired now s)" using assms(3) by (simp add: swept_def)
  moreover have "s' \<subseteq>\<^sub>m s"
    by (rule map_le_trans [of _ "s(i := None)"]) (use assms(3) in \<open>simp_all add: swept_def\<close>)
  moreover have "s' j = s j" if "j \<notin> expired now s" for j
  proof -
    have "j \<noteq> i" "j \<notin> expired now (s(i := None))" using that assms(1) by (auto simp: expired_delete)
    then show ?thesis using assms(3) by (simp add: swept_def)
  qed
  moreover have "expired now s' \<subseteq> expired now s - {i}" "k \<le> limit" "k < limit \<longrightarrow> expired now s' \<inter> set order = {}"
    using assms(3) by (simp_all add: swept_def expired_delete)
  ultimately show ?thesis unfolding swept_def by (intro conjI) auto
qed

lemma delete_expired_swept:
  "delete_expired now limit order deleted s = (s', n) \<Longrightarrow> deleted < limit \<Longrightarrow> finite (expired now s) \<Longrightarrow>
     deleted \<le> n \<and> swept now (limit - deleted) order s s' (n - deleted)"
proof (induction now limit order deleted s rule: delete_expired.induct)
  case (1 now limit deleted s)
  then show ?case by (simp add: swept_def)
next
  case (2 now limit i order deleted s)
  show ?case
  proof (cases "i \<in> expired now s")
    case False
    have "deleted \<le> n \<and> swept now (limit - deleted) order s s' (n - deleted)"
    proof (cases "s i")
      case None
      with "2.prems" show ?thesis by (intro "2.IH"(1)) simp_all
    next
      case (Some v)
      with False have "as_ExpiresAt v > now" by (simp add: expired_def)
      with Some "2.prems" show ?thesis by (intro "2.IH"(2) [OF Some]) simp_all
    qed
    with False show ?thesis by (blast intro: swept_skip)
  next
    case True
    then obtain v where v: "s i = Some v" "\<not> as_ExpiresAt v > now" by (auto simp: expired_def)
    have fin: "finite (expired now (s(i := None)))" using "2.prems"(3) by (simp add: expired_delete)
    show ?thesis
    proof (cases "Suc deleted = limit")
      case limit: True
      with v "2.prems"(1) have "s' = s(i := None)" "n = limit" by auto
      moreover have "swept now (Suc 0) (i # order) s (s(i := None)) (Suc 0)"
        by (rule swept_delete [OF True "2.prems"(3)]) (simp add: swept_def)
      moreover have "limit - deleted = Suc 0" "n - deleted = Suc 0" "deleted \<le> n"
        using limit \<open>n = limit\<close> by simp_all
      ultimately show ?thesis by (simp only: simp_thms)
    next
      case False
      with v "2.prems"(1) have step: "delete_expired now limit order (Suc deleted) (s(i := None)) = (s', n)"
        by simp
      have "Suc deleted \<le> n \<and> swept now (limit - Suc deleted) order (s(i := None)) s' (n - Suc deleted)"
        using step fin False "2.prems"(2) by (intro "2.IH"(3) [OF v(1,2) False]) (simp_all add: fun_upd_def)
      moreover have "limit - deleted = Suc (limit - Suc deleted)" using "2.prems"(2) by simp
      moreover have "n - deleted = Suc (n - Suc deleted)" if "Suc deleted \<le> n" using that by simp
      ultimately show ?thesis using swept_delete [OF True "2.prems"(3)] by simp
    qed
  qed
qed

text \<open>A pass of the collector.\<close>

lemma gc_pass_swept:
  assumes "sm_gc m = Some now" and "finite (expired now (sm_store m))" and "gc_pass order m = m'"
  obtains n where "swept now 64 order (sm_store m) (sm_store m') n"
    "sm_gc m' = (if n < 64 then None else Some now)" "sm_config m' = sm_config m" "sm_closed m' = sm_closed m"
proof -
  obtain s n where d: "delete_expired now 64 order 0 (sm_store m) = (s, n)" by fastforce
  have "swept now 64 order (sm_store m) s n"
    using delete_expired_swept [OF d _ assms(2)] by simp
  moreover have "m' = (if n < 64 then m\<lparr>sm_store := s, sm_gc := None\<rparr> else m\<lparr>sm_store := s\<rparr>)"
    using assms(1,3) d by (auto simp: gc_pass_def sm_GC_def ms_DeleteExpired_def sessionGCMaxDeletes_def)
  ultimately show thesis using that [of n] assms(1) by auto
qed

text \<open>
  Every pass visits all sessions, and the steps others take between the passes neither stop the
  collector nor add a session that had expired when it was started.
\<close>

fun gc_turns_ok :: "int \<Rightarrow> gc_turn list \<Rightarrow> session_manager \<Rightarrow> bool" where
  "gc_turns_ok now [] m \<longleftrightarrow> True"
| "gc_turns_ok now ((order, env) # turns) m \<longleftrightarrow>
     visits order (sm_store m) \<and>
     (let m' = gc_pass order m in
      sm_gc m' = Some now \<longrightarrow>
        sm_gc (env m') = Some now \<and> expired now (sm_store (env m')) \<subseteq> expired now (sm_store m')
        \<and> gc_turns_ok now turns (env m'))"

lemma runGC_ends:
  "sm_gc m = Some now \<Longrightarrow> finite (expired now (sm_store m)) \<Longrightarrow> gc_turns_ok now turns m \<Longrightarrow>
     card (expired now (sm_store m)) < 64 * length turns \<Longrightarrow>
     \<exists>m'. runGC turns m = Some m' \<and> sm_gc m' = None \<and> expired now (sm_store m') = {}"
proof (induction turns arbitrary: m)
  case (Cons turn turns)
  obtain order env where turn: "turn = (order, env)" by fastforce
  obtain n where p: "swept now 64 order (sm_store m) (sm_store (gc_pass order m)) n"
    "sm_gc (gc_pass order m) = (if n < 64 then None else Some now)"
    using gc_pass_swept [OF Cons.prems(1,2) refl] by metis
  let ?k = "gc_pass order m"
  show ?case
  proof (cases "n < 64")
    case True
    have "expired now (sm_store ?k) \<subseteq> set order"
      using p(1) Cons.prems(3) turn by (auto simp: swept_def expired_def visits_def map_le_def dom_def)
    with True p turn show ?thesis by (auto simp: Let_def swept_def)
  next
    case False
    then have gc: "sm_gc ?k = Some now" using p(2) by simp
    have "n = 64" using p(1) False by (simp add: swept_def)
    then have less: "card (expired now (sm_store ?k)) + 64 = card (expired now (sm_store m))"
      using p(1) by (simp add: swept_def)
    have fin: "finite (expired now (sm_store ?k))"
      using p(1) Cons.prems(2) by (auto simp: swept_def intro: finite_subset)
    have e: "sm_gc (env ?k) = Some now" "expired now (sm_store (env ?k)) \<subseteq> expired now (sm_store ?k)"
      "gc_turns_ok now turns (env ?k)"
      using Cons.prems(3) gc turn by (simp_all add: Let_def)
    from card_mono [OF fin e(2)] less Cons.prems(4)
    have "card (expired now (sm_store (env ?k))) < 64 * length turns" by simp
    from Cons.IH [OF e(1) finite_subset [OF e(2) fin] e(3) this] gc turn show ?thesis by (simp add: Let_def)
  qed
qed simp

section \<open>A revoked user stays out\<close>

text \<open>The steps of the manager; \<open>uid\<close> is the user a session is created for.\<close>

inductive manager_step :: "int option \<Rightarrow> session_manager \<Rightarrow> session_manager \<Rightarrow> bool" where
  mgr_create: "sm_Create flt now now' random (\<lambda>k. k) uid m = (m', r) \<Longrightarrow> manager_step (Some uid) m m'"
| mgr_schedule: "manager_step None m (scheduleGC now m)"
| mgr_revoke: "manager_step None m (sm_Revoke i m)"
| mgr_revoke_user: "manager_step None m (sm_RevokeUser u m)"
| mgr_lookup: "sm_UserID now i m = (m', r2) \<Longrightarrow> manager_step None m m'"
| mgr_gc: "sm_GC now order m = (m', n) \<Longrightarrow> manager_step None m m'"
| mgr_pass: "manager_step None m (gc_pass order m)"
| mgr_close: "manager_step None m (sm_Close m)"

definition locked_out :: "int \<Rightarrow> session_manager \<Rightarrow> bool" where
  "locked_out uid m \<longleftrightarrow> (\<forall>i v. sm_store m i = Some v \<longrightarrow> as_UserID v \<noteq> uid)"

lemma delete_expired_sub: "delete_expired now limit order k s = (s', n) \<Longrightarrow> s' \<subseteq>\<^sub>m s"
proof (induction now limit order k s rule: delete_expired.induct)
  case (2 now limit i order k s)
  have del: "s(i := None) \<subseteq>\<^sub>m s" by (simp add: map_le_def)
  show ?case
  proof (cases "s i")
    case None
    with 2 show ?thesis by simp
  next
    case (Some v)
    with 2 del show ?thesis
      by (auto split: if_splits simp: fun_upd_def intro: map_le_trans)
  qed
qed simp

lemma sm_GC_sub: "sm_GC now order m = (m', n) \<Longrightarrow> sm_store m' \<subseteq>\<^sub>m sm_store m"
  by (auto simp: sm_GC_def ms_DeleteExpired_def dest: delete_expired_sub split: if_splits prod.splits)

lemma locked_out_sub: "sm_store m' \<subseteq>\<^sub>m sm_store m \<Longrightarrow> locked_out uid m \<Longrightarrow> locked_out uid m'"
  unfolding locked_out_def map_le_def by (metis domI)

lemma locked_out_step:
  "manager_step l m m' \<Longrightarrow> l \<noteq> Some uid \<Longrightarrow> locked_out uid m \<Longrightarrow> locked_out uid m'"
proof (induction rule: manager_step.induct)
  case (mgr_pass m order)
  have "sm_store (gc_pass order m) \<subseteq>\<^sub>m sm_store m"
    by (auto simp: gc_pass_def dest: sm_GC_sub split: option.splits prod.splits)
  with mgr_pass show ?case by (blast intro: locked_out_sub)
next
  case (mgr_gc now order m m' n)
  then show ?case by (blast intro: locked_out_sub sm_GC_sub)
qed (auto simp: locked_out_def sm_Create_def scheduleGC_def sm_Revoke_def sm_RevokeUser_def sm_UserID_def
    ms_Create_def ms_Delete_def ms_DeleteForUser_def ms_Lookup_def sm_Close_def Let_def
    split: if_splits option.splits, blast+)

definition others_step :: "int \<Rightarrow> session_manager \<Rightarrow> session_manager \<Rightarrow> bool" where
  "others_step uid m m' \<longleftrightarrow> (\<exists>l. l \<noteq> Some uid \<and> manager_step l m m')"

interpretation lockout: invariant_system "others_step uid" "locked_out uid" for uid
  by unfold_locales (auto simp: others_step_def intro: locked_out_step)

lemma RevokeUser_locks_out: "0 < uid \<Longrightarrow> locked_out uid (sm_RevokeUser uid m)"
  by (auto simp: locked_out_def sm_RevokeUser_def ms_DeleteForUser_def split: option.splits if_splits)

lemma locked_outD: "locked_out uid m \<Longrightarrow> snd (sm_UserID now i m) \<noteq> Inr uid"
  by (auto simp: locked_out_def sm_UserID_def ms_Lookup_def split: option.splits)

end
