(* ===== verification/Admin.thy ===== *)
theory Admin
  imports Http Sessions
begin

text \<open>
  Logging in and out (\<open>internal/httpapi/server.go\<close>) and the administration of users, permissions
  and audit events (\<open>admin.go\<close>).  The state is the database and the session manager.  A handler
  makes several calls; what the rest of the system does between two of them is \<open>mid\<close>.
\<close>

record site =
  si_db :: db
  si_sessions :: session_manager

section \<open>Login and logout\<close>

record login_request =
  lg_Username :: string
  lg_Password :: string

definition login ::
    "kdf \<Rightarrow> bool \<Rightarrow> bool \<Rightarrow> int \<Rightarrow> string \<Rightarrow> (site \<Rightarrow> site) \<Rightarrow> login_request option \<Rightarrow> site
     \<Rightarrow> site \<times> response \<times> session_cookie option" where
  "login argon2 flt rflt now random mid req st =
     (case req of
        None \<Rightarrow> (st, http_error ''invalid credentials'' 401, None)
      | Some r \<Rightarrow>
          (case Authenticate argon2 flt (si_db st) (lg_Username r) (lg_Password r) of
             Inl e \<Rightarrow> (st, http_error ''invalid credentials'' 401, None)
           | Inr u \<Rightarrow>
               (let st1 = mid st in
                case sm_Create rflt now now random (\<lambda>k. k) (user_ID u) (si_sessions st1) of
                  (m, Inl e) \<Rightarrow> (st1\<lparr>si_sessions := m\<rparr>, http_error ''create session'' 500, None)
                | (m, Inr i) \<Rightarrow>
                    (st1\<lparr>si_sessions := m\<rparr>, reply 204 NoContent, Some (sm_SetCookie now i m)))))"

definition logout :: "int \<Rightarrow> string option \<Rightarrow> site \<Rightarrow> site \<times> response \<times> session_cookie option" where
  "logout now cookie st =
     (let m = (case cookie of None \<Rightarrow> si_sessions st | Some v \<Rightarrow> sm_Logout v (si_sessions st)) in
      (st\<lparr>si_sessions := m\<rparr>, reply 204 NoContent, Some (sm_ClearSessionCookie now m)))"

text \<open>The identity of a request: the cookie's session, or the refusing response.\<close>

definition requireSession :: "int \<Rightarrow> string option \<Rightarrow> site \<Rightarrow> site \<times> (response + int)" where
  "requireSession now cookie st =
     (case cookie of
        None \<Rightarrow> (st, Inl (http_error ''unauthorized'' 401))
      | Some v \<Rightarrow>
          if v = [] then (st, Inl (http_error ''unauthorized'' 401))
          else
            (case sm_UserID now v (si_sessions st) of
               (m, Inl e) \<Rightarrow> (st\<lparr>si_sessions := m\<rparr>, Inl (http_error ''unauthorized'' 401))
             | (m, Inr uid) \<Rightarrow>
                 (st\<lparr>si_sessions := m\<rparr>, if uid \<le> 0 then Inl (http_error ''forbidden'' 403) else Inr uid)))"

section \<open>Who is an administrator\<close>

definition isAdmin :: "string list \<Rightarrow> user_row \<Rightarrow> bool \<Rightarrow> bool" where
  "isAdmin names u bootstrap \<longleftrightarrow> bootstrap \<or> user_Username u \<in> set names"

definition requireAdmin :: "string list \<Rightarrow> bool \<Rightarrow> bool \<Rightarrow> db \<Rightarrow> int \<Rightarrow> bool" where
  "requireAdmin names flt bflt d uid =
     (case UserByID flt d uid of
        Inl e \<Rightarrow> False
      | Inr u \<Rightarrow> (case IsBootstrapAdmin bflt d uid of Inl e \<Rightarrow> False | Inr b \<Rightarrow> isAdmin names u b))"

text \<open>Every administrative route is behind both checks; the handler gets the acting user.\<close>

definition guard_admin ::
    "string list \<Rightarrow> bool \<Rightarrow> bool \<Rightarrow> int \<Rightarrow> string option \<Rightarrow> (int \<Rightarrow> site \<Rightarrow> site \<times> response) \<Rightarrow> site
     \<Rightarrow> site \<times> response" where
  "guard_admin names flt bflt now cookie handler st =
     (case requireSession now cookie st of
        (st1, Inl resp) \<Rightarrow> (st1, resp)
      | (st1, Inr uid) \<Rightarrow>
          if requireAdmin names flt bflt (si_db st1) uid then handler uid st1
          else (st1, http_error ''forbidden'' 403))"

section \<open>The handlers\<close>

record admin_faults =
  am_load :: bool
  am_root :: bool
  am_random :: bool
  am_update :: bool
  am_audit :: bool

definition adminTargetID :: "string \<Rightarrow> int option" where
  "adminTargetID raw = (case parse_int64 raw of None \<Rightarrow> None | Some i \<Rightarrow> if i \<le> 0 then None else Some i)"

definition auditAdmin :: "bool \<Rightarrow> int \<Rightarrow> int \<Rightarrow> int \<Rightarrow> string \<Rightarrow> string \<Rightarrow> db \<Rightarrow> db \<times> bool" where
  "auditAdmin flt now actor target action path d =
     (case CreateAuditEvent flt now d
        \<lparr>ae_ID = 0, ae_UserID = actor, ae_RootID = 0, ae_Action = action, ae_LogicalPath = path,
         ae_Detail = ''target_user_id='' @ itoa target, ae_Status = 0, ae_CreatedAt = zero_time\<rparr> of
        (d', Inl e) \<Rightarrow> (d', False)
      | (d', Inr e) \<Rightarrow> (d', True))"

text \<open>The change is made before its audit event; a failing event does not take it back.\<close>

definition audited_reply ::
    "admin_faults \<Rightarrow> int \<Rightarrow> int \<Rightarrow> int \<Rightarrow> string \<Rightarrow> string \<Rightarrow> response \<Rightarrow> site \<Rightarrow> site \<times> response" where
  "audited_reply F now actor target action path resp st =
     (case auditAdmin (am_audit F) now actor target action path (si_db st) of
        (d, ok) \<Rightarrow> (st\<lparr>si_db := d\<rparr>, if ok then resp else http_error ''audit'' 500))"

definition createAdminUser ::
    "kdf \<Rightarrow> admin_faults \<Rightarrow> int \<Rightarrow> string \<Rightarrow> login_request option \<Rightarrow> int \<Rightarrow> site \<Rightarrow> site \<times> response" where
  "createAdminUser argon2 F now salt req actor st =
     (case req of
        None \<Rightarrow> (st, http_error ''invalid user'' 400)
      | Some r \<Rightarrow>
          if trim_space (lg_Username r) = [] \<or> lg_Password r = [] then (st, http_error ''invalid user'' 400)
          else
            (case HashPassword argon2 (am_random F) salt (lg_Password r) of
               Inl e \<Rightarrow> (st, http_error ''invalid user'' 400)
             | Inr hash \<Rightarrow>
                 (case CreateUser (am_update F) now (si_db st)
                         \<lparr>user_ID = 0, user_Username = trim_space (lg_Username r), user_PasswordHash = hash,
                          user_Disabled = False, user_CreatedAt = zero_time, user_UpdatedAt = zero_time\<rparr> of
                    (d, Inl e) \<Rightarrow>
                      (st\<lparr>si_db := d\<rparr>, if e = DbConflict then http_error ''user exists'' 409
                                      else http_error ''create user'' 500)
                  | (d, Inr u) \<Rightarrow>
                      audited_reply F now actor (user_ID u) ''admin.user.create'' ''/''
                        (reply 201 (UserInfo (user_ID u) (user_Username u) (user_Disabled u))) (st\<lparr>si_db := d\<rparr>))))"

text \<open>Both credential handlers write back the half of the row they do not change as they read it.\<close>

definition setUserDisabled ::
    "admin_faults \<Rightarrow> int \<Rightarrow> (site \<Rightarrow> site) \<Rightarrow> (site \<Rightarrow> site) \<Rightarrow> string \<Rightarrow> bool option \<Rightarrow> int \<Rightarrow> site
     \<Rightarrow> site \<times> response" where
  "setUserDisabled F now mid mid' userID req actor st =
     (case adminTargetID userID of
        None \<Rightarrow> (st, http_error ''invalid user'' 400)
      | Some i \<Rightarrow>
          (case req of
             None \<Rightarrow> (st, http_error ''invalid request'' 400)
           | Some disabled \<Rightarrow>
               (case UserByID (am_load F) (si_db st) i of
                  Inl e \<Rightarrow> (st, http_error ''not found'' 404)
                | Inr u \<Rightarrow>
                    (let st1 = mid st in
                     case UpdateUserCredentials (am_update F) now (si_db st1) i (user_PasswordHash u) disabled of
                       (d, Inl e) \<Rightarrow> (st1\<lparr>si_db := d\<rparr>, http_error ''update user'' 500)
                     | (d, Inr ()) \<Rightarrow>
                         (let st2 = mid' (st1\<lparr>si_db := d\<rparr>);
                              st3 = (if disabled
                                     then st2\<lparr>si_sessions := sm_RevokeUser i (si_sessions st2)\<rparr> else st2) in
                          audited_reply F now actor i ''admin.user.disabled'' ''/'' (reply 204 NoContent) st3)))))"

definition resetUserPassword ::
    "kdf \<Rightarrow> admin_faults \<Rightarrow> int \<Rightarrow> string \<Rightarrow> (site \<Rightarrow> site) \<Rightarrow> (site \<Rightarrow> site) \<Rightarrow> string \<Rightarrow> string option \<Rightarrow> int
     \<Rightarrow> site \<Rightarrow> site \<times> response" where
  "resetUserPassword argon2 F now salt mid mid' userID req actor st =
     (case adminTargetID userID of
        None \<Rightarrow> (st, http_error ''invalid user'' 400)
      | Some i \<Rightarrow>
          (case req of
             None \<Rightarrow> (st, http_error ''invalid request'' 400)
           | Some password \<Rightarrow>
               if password = [] then (st, http_error ''invalid request'' 400)
               else
                 (case UserByID (am_load F) (si_db st) i of
                    Inl e \<Rightarrow> (st, http_error ''not found'' 404)
                  | Inr u \<Rightarrow>
                      (case HashPassword argon2 (am_random F) salt password of
                         Inl e \<Rightarrow> (st, http_error ''invalid request'' 400)
                       | Inr hash \<Rightarrow>
                           (let st1 = mid st in
                            case UpdateUserCredentials (am_update F) now (si_db st1) i hash (user_Disabled u) of
                              (d, Inl e) \<Rightarrow> (st1\<lparr>si_db := d\<rparr>, http_error ''update user'' 500)
                            | (d, Inr ()) \<Rightarrow>
                                (let st2 = mid' (st1\<lparr>si_db := d\<rparr>);
                                     st3 = st2\<lparr>si_sessions := sm_RevokeUser i (si_sessions st2)\<rparr> in
                                 audited_reply F now actor i ''admin.user.password_reset'' ''/''
                                   (reply 204 NoContent) st3))))))"

record permission_request =
  pq_RootID :: int
  pq_PathPrefix :: string
  pq_Action :: string
  pq_Allow :: bool

definition canonicalAdminPrefix :: "(string \<Rightarrow> string) \<Rightarrow> string \<Rightarrow> name_policy \<Rightarrow> err + string" where
  "canonicalAdminPrefix nfc value policy =
     (if value = ''/'' then Inr ''/''
      else if \<not> has_prefix value ''/'' then Inl Invalid
      else
        (case ParseEscapedPath nfc (trim_prefix value ''/'') policy of
           Inl e \<Rightarrow> Inl Invalid
         | Inr p \<Rightarrow> if Canonical p \<noteq> value then Inl Invalid else Inr (Canonical p)))"

definition setUserPermission ::
    "(string \<Rightarrow> string) \<Rightarrow> name_policy \<Rightarrow> admin_faults \<Rightarrow> int \<Rightarrow> string \<Rightarrow> permission_request option \<Rightarrow> int
     \<Rightarrow> site \<Rightarrow> site \<times> response" where
  "setUserPermission nfc policy F now userID req actor st =
     (case adminTargetID userID of
        None \<Rightarrow> (st, http_error ''invalid user'' 400)
      | Some i \<Rightarrow>
          (case req of
             None \<Rightarrow> (st, http_error ''invalid permission'' 400)
           | Some r \<Rightarrow>
               if pq_RootID r \<le> 0 then (st, http_error ''invalid permission'' 400)
               else
                 (case UserByID (am_load F) (si_db st) i of
                    Inl e \<Rightarrow> (st, http_error ''not found'' 404)
                  | Inr u \<Rightarrow>
                      (case StorageRootByID (am_root F) (si_db st) (pq_RootID r) of
                         Inl e \<Rightarrow> (st, http_error ''not found'' 404)
                       | Inr x \<Rightarrow>
                           (case canonicalAdminPrefix nfc (pq_PathPrefix r) policy of
                              Inl e \<Rightarrow> (st, http_error ''invalid path prefix'' 400)
                            | Inr pfx \<Rightarrow>
                                (case CreatePermission (am_update F) now (si_db st)
                                        \<lparr>perm_ID = 0, perm_UserID = i, perm_RootID = pq_RootID r,
                                         perm_PathPrefix = pfx, perm_Action = pq_Action r,
                                         perm_Allow = pq_Allow r, perm_CreatedAt = zero_time,
                                         perm_UpdatedAt = zero_time\<rparr> of
                                   (d, Inl e) \<Rightarrow> (st\<lparr>si_db := d\<rparr>, http_error ''invalid permission'' 400)
                                 | (d, Inr p) \<Rightarrow>
                                     audited_reply F now actor i ''admin.permission.set'' pfx (reply 204 NoContent)
                                       (st\<lparr>si_db := d\<rparr>)))))))"

text \<open>The audit list leaves out the detail of the events.\<close>

definition audit_line :: "audit_event \<Rightarrow> int \<times> string \<times> string \<times> int \<times> int" where
  "audit_line e = (ae_UserID e, ae_Action e, ae_LogicalPath e, ae_Status e, ae_CreatedAt e)"

definition listAuditEvents :: "bool \<Rightarrow> string \<Rightarrow> int \<Rightarrow> site \<Rightarrow> site \<times> response" where
  "listAuditEvents flt raw actor st =
     (case (if raw = [] then Some 100
            else (case parse_int64 raw of
                    None \<Rightarrow> None | Some n \<Rightarrow> if n < 1 \<or> n > 100 then None else Some n)) of
        None \<Rightarrow> (st, http_error ''invalid limit'' 400)
      | Some limit \<Rightarrow>
          (case AuditEvents flt (si_db st) limit of
             Inl e \<Rightarrow> (st, http_error ''audit'' 500)
           | Inr events \<Rightarrow> (st, reply 200 (AuditLog (map audit_line events)))))"

section \<open>Only administrators\<close>

lemma sm_UserID_Inr:
  assumes "sm_UserID now v m = (m', Inr uid)"
  shows "m' = m" "\<exists>x. sm_store m v = Some x \<and> as_UserID x = uid \<and> now < as_ExpiresAt x"
  using assms by (auto simp: sm_UserID_def ms_Lookup_def split: sum.splits option.splits if_splits)

lemma requireSession_Inr:
  assumes "requireSession now cookie st = (st', Inr uid)"
  shows "st' = st" "0 < uid" "\<exists>v x. cookie = Some v \<and> sm_store (si_sessions st) v = Some x
    \<and> as_UserID x = uid \<and> now < as_ExpiresAt x"
  using assms sm_UserID_Inr
  by (auto simp: requireSession_def split: option.splits if_splits sum.splits prod.splits)

lemma requireSession_Inl:
  "requireSession now cookie st = (st', Inl resp) \<Longrightarrow> si_db st' = si_db st \<and> res_status resp \<in> {401, 403}"
  by (auto simp: requireSession_def split: option.splits if_splits sum.splits prod.splits)

lemma requireAdmin_iff:
  "requireAdmin names flt bflt d uid \<Longrightarrow>
     \<exists>u \<in> set (db_users d). user_ID u = uid \<and> (db_bootstrap d = Some uid \<or> user_Username u \<in> set names)"
  by (auto simp: requireAdmin_def isAdmin_def UserByID_def IsBootstrapAdmin_def query_row_def
      split: sum.splits option.splits if_splits dest: find_SomeD)

lemma guard_admin_cases:
  assumes "guard_admin names flt bflt now cookie handler st = (st', resp)"
  obtains (refused) "si_db st' = si_db st" "res_status resp \<in> {401, 403}"
    | (ran) v x u where "cookie = Some v" "sm_store (si_sessions st) v = Some x" "now < as_ExpiresAt x"
        "u \<in> set (db_users (si_db st))" "user_ID u = as_UserID x"
        "db_bootstrap (si_db st) = Some (user_ID u) \<or> user_Username u \<in> set names"
        "handler (user_ID u) st = (st', resp)"
proof -
  obtain st1 r where s: "requireSession now cookie st = (st1, r)" by fastforce
  show thesis
  proof (cases r)
    case (Inl e)
    with s assms show thesis using refused requireSession_Inl by (fastforce simp: guard_admin_def)
  next
    case (Inr uid)
    with s have st1: "st1 = st" and "0 < uid" and x: "\<exists>v x. cookie = Some v \<and> sm_store (si_sessions st) v = Some x
        \<and> as_UserID x = uid \<and> now < as_ExpiresAt x"
      using requireSession_Inr by blast+
    show thesis
    proof (cases "requireAdmin names flt bflt (si_db st) uid")
      case True
      from requireAdmin_iff [OF this] x s Inr st1 True assms show thesis
        using ran by (fastforce simp: guard_admin_def)
    next
      case False
      with s Inr st1 assms show thesis using refused by (auto simp: guard_admin_def)
    qed
  qed
qed

section \<open>A disabled account\<close>

definition disabled_out :: "int \<Rightarrow> site \<Rightarrow> bool" where
  "disabled_out i st \<longleftrightarrow> (\<forall>u \<in> set (db_users (si_db st)). user_ID u = i \<longrightarrow> user_Disabled u)
     \<and> locked_out i (si_sessions st)"

lemma audited_reply_cases:
  assumes "audited_reply F now actor target action path resp0 st = (st', resp)"
  shows "db_users (si_db st') = db_users (si_db st)" "si_sessions st' = si_sessions st"
    "res_status resp = res_status resp0 \<or> res_status resp = 500"
proof -
  obtain d r where a: "CreateAuditEvent (am_audit F) now (si_db st)
    \<lparr>ae_ID = 0, ae_UserID = actor, ae_RootID = 0, ae_Action = action, ae_LogicalPath = path,
     ae_Detail = ''target_user_id='' @ itoa target, ae_Status = 0, ae_CreatedAt = zero_time\<rparr> = (d, r)" by fastforce
  then have "db_users d = db_users (si_db st)"
    by (auto simp: CreateAuditEvent_def Let_def dest: insert_audit_Inr(1) split: if_splits sum.splits prod.splits)
  with a assms show "db_users (si_db st') = db_users (si_db st)" "si_sessions st' = si_sessions st"
    "res_status resp = res_status resp0 \<or> res_status resp = 500"
    by (auto simp: audited_reply_def auditAdmin_def split: sum.splits)
qed

lemma credentials_users:
  assumes "UpdateUserCredentials flt now d i hash disabled = (d', r)" and "u \<in> set (db_users d')"
  shows "\<exists>v \<in> set (db_users d). user_ID v = user_ID u \<and> user_Username v = user_Username u
    \<and> (if flt then u = v else user_Disabled u = (if user_ID u = i then disabled else user_Disabled v))"
proof (cases flt)
  case True
  with assms show ?thesis by (auto simp: UpdateUserCredentials_def)
next
  case False
  with assms(1) have "db_users d' = update_rows (\<lambda>u. user_ID u = i)
      (\<lambda>u. u\<lparr>user_PasswordHash := hash, user_Disabled := disabled, user_UpdatedAt := now\<rparr>) (db_users d)"
    by (auto simp: UpdateUserCredentials_def Let_def)
  with assms(2) have "u \<in> set (update_rows (\<lambda>u. user_ID u = i)
      (\<lambda>u. u\<lparr>user_PasswordHash := hash, user_Disabled := disabled, user_UpdatedAt := now\<rparr>) (db_users d))"
    by simp
  from update_rowsD [OF this] obtain v where "v \<in> set (db_users d)"
    "u = (if user_ID v = i then v\<lparr>user_PasswordHash := hash, user_Disabled := disabled, user_UpdatedAt := now\<rparr> else v)"
    by blast
  with False show ?thesis by (intro bexI [of _ v]) auto
qed

lemma credentials_ids:
  assumes "UpdateUserCredentials flt now d i hash disabled = (d', r)"
  shows "user_ID ` set (db_users d') = user_ID ` set (db_users d)"
proof -
  let ?f = "\<lambda>u. u\<lparr>user_PasswordHash := hash, user_Disabled := disabled, user_UpdatedAt := now\<rparr>"
  have "db_users d' = db_users d \<or> db_users d' = update_rows (\<lambda>u. user_ID u = i) ?f (db_users d)"
    using assms by (auto simp: UpdateUserCredentials_def Let_def split: if_splits)
  then show ?thesis
    using image_update_rows [of "\<lambda>u. user_ID u = i" user_ID ?f "db_users d"] by auto
qed

lemma credentials_fault: "UpdateUserCredentials flt now d i hash disabled = (d', Inr ()) \<Longrightarrow> \<not> flt"
  by (auto simp: UpdateUserCredentials_def)

text \<open>Disabling ends every access: the row is disabled and the sessions are gone.\<close>

lemma setUserDisabled_cases:
  assumes op: "setUserDisabled F now mid mid' userID req actor st = (st', resp)"
  obtains (same) "st' = st" "res_status resp \<noteq> 204"
    | (failed) i u b d e where "adminTargetID userID = Some i" "req = Some b" "UserByID (am_load F) (si_db st) i = Inr u"
        "UpdateUserCredentials (am_update F) now (si_db (mid st)) i (user_PasswordHash u) b = (d, Inl e)"
        "st' = (mid st)\<lparr>si_db := d\<rparr>" "res_status resp \<noteq> 204"
    | (changed) i u b d st2 where "adminTargetID userID = Some i" "req = Some b" "UserByID (am_load F) (si_db st) i = Inr u"
        "UpdateUserCredentials (am_update F) now (si_db (mid st)) i (user_PasswordHash u) b = (d, Inr ())"
        "st2 = mid' ((mid st)\<lparr>si_db := d\<rparr>)" "db_users (si_db st') = db_users (si_db st2)"
        "si_sessions st' = (if b then sm_RevokeUser i (si_sessions st2) else si_sessions st2)"
proof (cases "adminTargetID userID")
  case None
  with op same show thesis by (auto simp: setUserDisabled_def)
next
  case id: (Some i)
  show thesis
  proof (cases req)
    case None
    with op id same show thesis by (auto simp: setUserDisabled_def)
  next
    case req: (Some b)
    show thesis
    proof (cases "UserByID (am_load F) (si_db st) i")
      case (Inl e)
      with op id req same show thesis by (auto simp: setUserDisabled_def)
    next
      case u: (Inr u)
      obtain d r where c: "UpdateUserCredentials (am_update F) now (si_db (mid st)) i (user_PasswordHash u) b = (d, r)"
        by fastforce
      show thesis
      proof (cases r)
        case (Inl e)
        with op id req u c show thesis by (intro failed [OF id req u]) (auto simp: setUserDisabled_def Let_def)
      next
        case (Inr x)
        let ?st2 = "mid' ((mid st)\<lparr>si_db := d\<rparr>)"
        let ?st3 = "if b then ?st2\<lparr>si_sessions := sm_RevokeUser i (si_sessions ?st2)\<rparr> else ?st2"
        have "audited_reply F now actor i ''admin.user.disabled'' ''/'' (reply 204 NoContent) ?st3 = (st', resp)"
          using op id req u c Inr by (simp add: setUserDisabled_def Let_def)
        from audited_reply_cases(1,2) [OF this] show thesis
          using c Inr by (intro changed [OF id req u, of d ?st2]) auto
      qed
    qed
  qed
qed

lemma setUserDisabled_out:
  assumes op: "setUserDisabled F now mid (\<lambda>k. k) userID (Some True) actor st = (st', resp)"
    and ok: "res_status resp = 204" and id: "adminTargetID userID = Some i"
  shows "disabled_out i st'"
  using op
proof (cases rule: setUserDisabled_cases)
  case (changed j u b d st2)
  then have j: "j = i" "b" and "0 < i" using id by (auto simp: adminTargetID_def split: option.splits if_splits)
  then have "locked_out i (si_sessions st')" using changed RevokeUser_locks_out by simp
  moreover have "user_Disabled v" if "v \<in> set (db_users (si_db st'))" "user_ID v = i" for v
    using credentials_users [OF changed(4), of v] credentials_fault [OF changed(4)] that changed(5,6) j by auto
  ultimately show ?thesis by (simp add: disabled_out_def)
qed (use ok in auto)

lemma resetUserPassword_cases:
  assumes op: "resetUserPassword argon2 F now salt mid mid' userID req actor st = (st', resp)"
  obtains (same) "st' = st" "res_status resp \<noteq> 204"
    | (failed) i u hash d e where "adminTargetID userID = Some i" "UserByID (am_load F) (si_db st) i = Inr u"
        "UpdateUserCredentials (am_update F) now (si_db (mid st)) i hash (user_Disabled u) = (d, Inl e)"
        "st' = (mid st)\<lparr>si_db := d\<rparr>" "res_status resp \<noteq> 204"
    | (changed) i u hash d st2 where "adminTargetID userID = Some i" "UserByID (am_load F) (si_db st) i = Inr u"
        "UpdateUserCredentials (am_update F) now (si_db (mid st)) i hash (user_Disabled u) = (d, Inr ())"
        "st2 = mid' ((mid st)\<lparr>si_db := d\<rparr>)" "db_users (si_db st') = db_users (si_db st2)"
        "si_sessions st' = sm_RevokeUser i (si_sessions st2)"
proof (cases "adminTargetID userID")
  case None
  with op same show thesis by (auto simp: resetUserPassword_def)
next
  case id: (Some i)
  show thesis
  proof (cases "\<exists>p. req = Some p \<and> p \<noteq> []")
    case False
    with op id same show thesis by (auto simp: resetUserPassword_def split: option.splits if_splits)
  next
    case True
    then obtain p where req: "req = Some p" "p \<noteq> []" by blast
    show thesis
    proof (cases "UserByID (am_load F) (si_db st) i")
      case (Inl e)
      with op id req same show thesis by (auto simp: resetUserPassword_def)
    next
      case u: (Inr u)
      show thesis
      proof (cases "HashPassword argon2 (am_random F) salt p")
        case (Inl e)
        with op id req u same show thesis by (auto simp: resetUserPassword_def)
      next
        case hash: (Inr hash)
        obtain d r where c: "UpdateUserCredentials (am_update F) now (si_db (mid st)) i hash (user_Disabled u) = (d, r)"
          by fastforce
        show thesis
        proof (cases r)
          case (Inl e)
          with op id req u hash c show thesis
            by (intro failed [OF id u]) (auto simp: resetUserPassword_def Let_def)
        next
          case (Inr x)
          let ?st2 = "mid' ((mid st)\<lparr>si_db := d\<rparr>)"
          have "audited_reply F now actor i ''admin.user.password_reset'' ''/'' (reply 204 NoContent)
              (?st2\<lparr>si_sessions := sm_RevokeUser i (si_sessions ?st2)\<rparr>) = (st', resp)"
            using op id req u hash c Inr by (simp add: resetUserPassword_def Let_def)
          from audited_reply_cases(1,2) [OF this] show thesis
            using c Inr by (intro changed [OF id u, of hash d ?st2]) auto
        qed
      qed
    qed
  qed
qed

lemma UserByID_Inr: "UserByID flt d i = Inr u \<Longrightarrow> u \<in> set (db_users d) \<and> user_ID u = i"
  by (auto simp: UserByID_def query_row_def split: if_splits option.splits dest: find_SomeD)

lemma Authenticate_Inr:
  "Authenticate argon2 flt d name pw = Inr u \<Longrightarrow> u \<in> set (db_users d) \<and> user_Username u = name
     \<and> \<not> user_Disabled u \<and> VerifyPassword argon2 (user_PasswordHash u) pw"
  by (auto simp: Authenticate_def UserByUsername_def query_row_def split: if_splits option.splits sum.splits
      dest: find_SomeD)

lemma CreateUser_users:
  assumes "CreateUser flt now d u = (d', r)"
  shows "db_users d' = db_users d \<or> (\<exists>v. db_users d' = db_users d @ [v] \<and> user_ID v \<notin> user_ID ` set (db_users d))"
proof (cases "insert_user now d u")
  case (Inl e)
  with assms show ?thesis by (auto simp: CreateUser_def split: if_splits)
next
  case (Inr y)
  then obtain v d2 where "insert_user now d u = Inr (v, d2)" by (cases y) auto
  with insert_user_Inr(1,2) [OF this] assms show ?thesis by (auto simp: CreateUser_def split: if_splits)
qed

text \<open>The uses of accounts by others: whole requests, and no request that enables the account again.\<close>

inductive account_use :: "int \<Rightarrow> site \<Rightarrow> site \<Rightarrow> bool" for i where
  use_login: "login argon2 flt rflt now random (\<lambda>k. k) req st = (st', resp, c) \<Longrightarrow> account_use i st st'"
| use_logout: "logout now cookie st = (st', resp, c) \<Longrightarrow> account_use i st st'"
| use_session: "requireSession now cookie st = (st', r) \<Longrightarrow> account_use i st st'"
| use_collector: "others_step i (si_sessions st) m \<Longrightarrow> account_use i st (st\<lparr>si_sessions := m\<rparr>)"
| use_create: "createAdminUser argon2 F now salt creq actor st = (st', resp) \<Longrightarrow> account_use i st st'"
| use_disable: "setUserDisabled F now (\<lambda>k. k) (\<lambda>k. k) userID dreq actor st = (st', resp) \<Longrightarrow>
    adminTargetID userID = Some i \<longrightarrow> dreq \<noteq> Some False \<Longrightarrow> account_use i st st'"
| use_reset: "resetUserPassword argon2 F now salt (\<lambda>k. k) (\<lambda>k. k) userID preq actor st = (st', resp) \<Longrightarrow>
    account_use i st st'"
| use_permission: "setUserPermission nfc policy F now userID qreq actor st = (st', resp) \<Longrightarrow> account_use i st st'"
| use_audit: "listAuditEvents flt raw actor st = (st', resp) \<Longrightarrow> account_use i st st'"

definition shut_out :: "int \<Rightarrow> site \<Rightarrow> bool" where
  "shut_out i st \<longleftrightarrow> disabled_out i st \<and> i \<in> user_ID ` set (db_users (si_db st))"

lemma shut_out_sessions:
  "shut_out i st \<Longrightarrow> others_step i (si_sessions st) m \<Longrightarrow> shut_out i (st\<lparr>si_sessions := m\<rparr>)"
  using lockout.step_inv [of i "si_sessions st" m] by (simp add: shut_out_def disabled_out_def)

lemma shut_out_users:
  "shut_out i st \<Longrightarrow> si_sessions st' = si_sessions st \<Longrightarrow> db_users (si_db st') = db_users (si_db st) \<Longrightarrow> shut_out i st'"
  by (simp add: shut_out_def disabled_out_def)

lemma shut_out_login:
  assumes "shut_out i st" and "login argon2 flt rflt now random (\<lambda>k. k) req st = (st', resp, c)"
  shows "shut_out i st'"
proof (cases "\<exists>r u. req = Some r \<and> Authenticate argon2 flt (si_db st) (lg_Username r) (lg_Password r) = Inr u")
  case False
  with assms show ?thesis by (auto simp: login_def split: option.splits sum.splits)
next
  case True
  then obtain r u where r: "req = Some r" "Authenticate argon2 flt (si_db st) (lg_Username r) (lg_Password r) = Inr u"
    by blast
  obtain m x where c: "sm_Create rflt now now random (\<lambda>k. k) (user_ID u) (si_sessions st) = (m, x)" by fastforce
  have "user_ID u \<noteq> i" using Authenticate_Inr [OF r(2)] assms(1) by (auto simp: shut_out_def disabled_out_def)
  then have "others_step i (si_sessions st) m"
    using mgr_create [OF c] by (auto simp: others_step_def)
  from shut_out_sessions [OF assms(1) this] r c assms(2) show ?thesis
    by (cases x) (auto simp: login_def Let_def)
qed

lemma RevokeUser_other: "others_step i m (sm_RevokeUser j m)"
  using mgr_revoke_user by (auto simp: others_step_def)

lemma credentials_shut_out:
  assumes "UpdateUserCredentials flt now (si_db st) j hash b = (d, r)" and "j = i \<longrightarrow> b" and "shut_out i st"
  shows "shut_out i (st\<lparr>si_db := d\<rparr>)"
proof -
  have "user_Disabled u" if u: "u \<in> set (db_users d)" "user_ID u = i" for u
  proof -
    obtain v where v: "v \<in> set (db_users (si_db st))" "user_ID v = i"
      "if flt then u = v else user_Disabled u = (if user_ID u = j then b else user_Disabled v)"
      using credentials_users [OF assms(1) u(1)] u(2) by blast
    then have "user_Disabled v" using assms(3) by (simp add: shut_out_def disabled_out_def)
    with v(3) u(2) assms(2) show ?thesis by (cases flt; cases "i = j") auto
  qed
  with assms(3) credentials_ids [OF assms(1)] show ?thesis by (simp add: shut_out_def disabled_out_def)
qed

lemma account_use_shut_out: "account_use i st st' \<Longrightarrow> shut_out i st \<Longrightarrow> shut_out i st'"
proof (induction rule: account_use.induct)
  case (use_login argon2 flt rflt now random req st st' resp c)
  then show ?case by (blast intro: shut_out_login)
next
  case (use_logout now cookie st st' resp c)
  have "others_step i (si_sessions st) (sm_Logout v (si_sessions st))" for v
    using mgr_revoke by (auto simp: others_step_def sm_Logout_def)
  with use_logout shut_out_sessions [OF use_logout.prems] show ?case
    by (auto simp: logout_def Let_def split: option.splits)
next
  case (use_session now cookie st st' r)
  have "others_step i (si_sessions st) m" if "sm_UserID now v (si_sessions st) = (m, x)" for v m x
    using mgr_lookup [OF that] by (auto simp: others_step_def)
  with use_session shut_out_sessions [OF use_session.prems] show ?case
    by (auto simp: requireSession_def split: option.splits if_splits sum.splits prod.splits)
next
  case (use_collector st m)
  then show ?case by (blast intro: shut_out_sessions)
next
  case (use_create argon2 F now salt creq actor st st' resp)
  show ?case
  proof (cases "st' = st")
    case False
    with use_create.hyps obtain r hash where r: "creq = Some r" "HashPassword argon2 (am_random F) salt (lg_Password r) = Inr hash"
      "\<not> (trim_space (lg_Username r) = [] \<or> lg_Password r = [])"
      by (auto simp: createAdminUser_def split: option.splits if_splits sum.splits)
    let ?u = "\<lparr>user_ID = 0, user_Username = trim_space (lg_Username r), user_PasswordHash = hash,
      user_Disabled = False, user_CreatedAt = zero_time, user_UpdatedAt = zero_time\<rparr>"
    obtain d x where c: "CreateUser (am_update F) now (si_db st) ?u = (d, x)" by fastforce
    have "db_users d = db_users (si_db st) \<or> (\<exists>v. db_users d = db_users (si_db st) @ [v] \<and> user_ID v \<notin> user_ID ` set (db_users (si_db st)))"
      by (rule CreateUser_users [OF c])
    moreover have "db_users (si_db st') = db_users d" "si_sessions st' = si_sessions st"
      using use_create.hyps r c audited_reply_cases(1,2)
      by (cases x; fastforce simp: createAdminUser_def)+
    ultimately show ?thesis using use_create.prems
      by (auto simp: shut_out_def disabled_out_def)
  qed (use use_create in simp)
next
  case (use_disable F now userID dreq actor st st' resp)
  from use_disable.hyps(1) show ?case
  proof (cases rule: setUserDisabled_cases)
    case (changed j u b d st2)
    have "shut_out i (st\<lparr>si_db := d\<rparr>)"
      using changed(1,2,4) use_disable.hyps(2) use_disable.prems by (intro credentials_shut_out) auto
    moreover from shut_out_sessions [OF this RevokeUser_other] have "shut_out i (st\<lparr>si_db := d, si_sessions := sm_RevokeUser j (si_sessions st)\<rparr>)"
      by simp
    ultimately show ?thesis using changed(5-7) by (auto simp: shut_out_def disabled_out_def split: if_splits)
  next
    case (failed j u b d e)
    then show ?thesis
      using use_disable by (auto intro!: credentials_shut_out)
  qed (use use_disable in simp)
next
  case (use_reset argon2 F now salt userID preq actor st st' resp)
  from use_reset.hyps(1) show ?case
  proof (cases rule: resetUserPassword_cases)
    case (changed j u hash d st2)
    have "j = i \<longrightarrow> user_Disabled u"
      using UserByID_Inr [OF changed(2)] use_reset.prems by (auto simp: shut_out_def disabled_out_def)
    then have "shut_out i (st\<lparr>si_db := d\<rparr>)"
      using changed(3) use_reset.prems by (intro credentials_shut_out) auto
    from shut_out_sessions [OF this RevokeUser_other] show ?thesis
      using changed(4-6) by (simp add: shut_out_def disabled_out_def)
  next
    case (failed j u hash d e)
    have "j = i \<longrightarrow> user_Disabled u"
      using UserByID_Inr [OF failed(2)] use_reset.prems by (auto simp: shut_out_def disabled_out_def)
    with failed use_reset.prems show ?thesis by (auto intro!: credentials_shut_out)
  qed (use use_reset in simp)
next
  case (use_permission nfc policy F now userID qreq actor st st' resp)
  have "db_users d = db_users (si_db st)" if "CreatePermission flt now (si_db st) p = (d, x)" for flt p d x
    using that by (auto simp: CreatePermission_def Let_def split: if_splits)
  then have "db_users (si_db st') = db_users (si_db st) \<and> si_sessions st' = si_sessions st"
    using use_permission.hyps audited_reply_cases(1,2)
    by (fastforce simp: setUserPermission_def split: option.splits if_splits sum.splits prod.splits)
  with use_permission.prems show ?case by (blast intro: shut_out_users)
next
  case (use_audit flt raw actor st st' resp)
  then show ?case by (auto simp: listAuditEvents_def split: option.splits if_splits sum.splits)
qed

interpretation shut: invariant_system "account_use i" "shut_out i" for i
  by unfold_locales (rule account_use_shut_out)

lemma shut_out_refused: "shut_out i st \<Longrightarrow> snd (requireSession now cookie st) \<noteq> Inr i"
proof
  assume "shut_out i st" and "snd (requireSession now cookie st) = Inr i"
  then have "requireSession now cookie st = (fst (requireSession now cookie st), Inr i)" by (metis prod.collapse)
  from requireSession_Inr(3) [OF this] \<open>shut_out i st\<close> show False
    by (auto simp: shut_out_def disabled_out_def locked_out_def)
qed

lemma setUserDisabled_shut_out:
  assumes "setUserDisabled F now mid (\<lambda>k. k) userID (Some True) actor st = (st', resp)"
    and "res_status resp = 204" and "adminTargetID userID = Some i"
  shows "shut_out i st'"
proof -
  have "i \<in> user_ID ` set (db_users (si_db st'))"
    using assms(1)
  proof (cases rule: setUserDisabled_cases)
    case (changed j u b d st2)
    let ?P = "\<lambda>u. user_ID u = i"
    have "affected ?P (db_users (si_db (mid st))) = 1"
      using changed(1,4) assms(3) by (auto simp: UpdateUserCredentials_def Let_def split: if_splits)
    from affected_pos [OF this] have "i \<in> user_ID ` set (db_users (si_db (mid st)))" by blast
    with changed credentials_ids [OF changed(4)] show ?thesis by simp
  qed (use assms(2) in auto)
  with setUserDisabled_out [OF assms] show ?thesis by (simp add: shut_out_def)
qed

section \<open>What interleaving does to it\<close>

text \<open>
  A login that has checked the password before the account is disabled stores its session after
  the sessions were revoked: the disabled user stays logged in.
\<close>

lemma session_after_create:
  assumes "sm_Create False now now random (\<lambda>k. k) uid m = (m', Inr i)" and "0 < sc_TTL (sm_config m)"
  shows "sm_UserID now i m' = (m', Inr uid)" "i = b64_encode True random"
  using assms by (auto simp: sm_Create_def Let_def sm_UserID_def ms_Lookup_def ms_Create_def scheduleGC_def)

lemma login_races_disable:
  assumes "Authenticate argon2 False (si_db st) name pw = Inr u" and "0 < user_ID u"
    and "setUserDisabled F now (\<lambda>k. k) (\<lambda>k. k) userID (Some True) actor st = (st1, resp1)"
    and "res_status resp1 = 204" and "adminTargetID userID = Some (user_ID u)"
    and "login argon2 False False now random (\<lambda>_. st1) (Some \<lparr>lg_Username = name, lg_Password = pw\<rparr>) st = (st', resp, c)"
    and "random \<noteq> []" and "0 < sc_TTL (sm_config (si_sessions st1))"
  shows "res_status resp = 204" "requireSession now (map_option ck_Value c) st' = (st', Inr (user_ID u))"
    "v \<in> set (db_users (si_db st')) \<Longrightarrow> user_ID v = user_ID u \<Longrightarrow> user_Disabled v"
proof -
  obtain m i where c: "sm_Create False now now random (\<lambda>k. k) (user_ID u) (si_sessions st1) = (m, Inr i)"
    by (simp add: sm_Create_def Let_def)
  have st': "st' = st1\<lparr>si_sessions := m\<rparr>" "resp = reply 204 NoContent" "c = Some (sm_SetCookie now i m)"
    using assms(1,6) c by (simp_all add: login_def Let_def)
  have i: "sm_UserID now i m = (m, Inr (user_ID u))" "i \<noteq> []"
    using session_after_create [OF c assms(8)] assms(7) by simp_all
  show "res_status resp = 204" using st' by simp
  show "requireSession now (map_option ck_Value c) st' = (st', Inr (user_ID u))"
    using st' i assms(2) by (simp add: requireSession_def sm_SetCookie_def Let_def)
  show "user_Disabled v" if "v \<in> set (db_users (si_db st'))" "user_ID v = user_ID u"
    using setUserDisabled_out [OF assms(3-5)] that st'(1) by (simp add: disabled_out_def)
qed

text \<open>
  A password reset writes back the flag it read: an account that is disabled in between is
  enabled again.
\<close>

lemma reset_reenables:
  assumes "UserByID (am_load F) (si_db st) i = Inr u" and "\<not> user_Disabled u" and "adminTargetID userID = Some i"
    and "resetUserPassword argon2 F now salt
      (\<lambda>st. fst (setUserDisabled F now (\<lambda>k. k) (\<lambda>k. k) userID (Some True) actor' st)) (\<lambda>k. k) userID req actor st
      = (st', resp)"
    and "res_status resp = 204" and "v \<in> set (db_users (si_db st'))" and "user_ID v = i"
  shows "\<not> user_Disabled v"
  using assms(4)
proof (cases rule: resetUserPassword_cases)
  case (changed j w hash d st2)
  then have "v \<in> set (db_users d)" "j = i" "w = u" using assms(1,3,6) by simp_all
  with credentials_users [OF changed(3), of v] credentials_fault [OF changed(3)] assms(2,7) show ?thesis by auto
qed (use assms(5) in auto)

end
