(* ===== verification/Archive.thy ===== *)
theory Archive
  imports Pathpolicy "HOL-Library.AList"
begin

text \<open>
  Archive jobs (\<open>internal/archive/archive.go\<close>): a bounded queue of tasks, workers that write a ZIP
  file per task into a private directory, and the jobs that own the finished files.  The state
  holds what the manager and its goroutines hold; each definition is one critical section or one
  step of a goroutine.  The ZIP format is the parameter \<open>zipped\<close>, from the members to the bytes.
\<close>

datatype job_status = Running | Finished | Aborted | Failed
  \<comment> \<open>\<open>Running\<close>, \<open>Complete\<close>, \<open>Cancelled\<close>, \<open>Failed\<close>\<close>

record archive_entry =
  en_LogicalPath :: string
  en_ObjectKey :: string
  en_Size :: int

record archive_options =
  op_Workers :: int
  op_MaxFiles :: int
  op_MaxBytes :: int
  op_TTL :: int
  op_TempDir :: string

text \<open>A managed job: \<open>jb_cancelled\<close> is its context, \<open>jb_file\<close> its artifact.\<close>

record archive_job =
  jb_UserID :: int
  jb_Status :: job_status
  jb_CreatedAt :: int
  jb_ExpiresAt :: int
  jb_Size :: int
  jb_Err :: "err option"
  jb_file :: string
  jb_cancelled :: bool

type_synonym archive_task = "string \<times> archive_entry list"

text \<open>
  \<open>ar_sending\<close> are the tasks whose creators wait to send them on the channel \<open>ar_tasks\<close>;
  \<open>ar_building\<close> are the tasks the workers have taken, each with the name of its temporary file if
  it could be created; \<open>ar_files\<close> is the private directory.
\<close>

record archive_manager =
  ar_options :: archive_options
  ar_sending :: "archive_task list"
  ar_tasks :: "archive_task list"
  ar_building :: "(archive_task \<times> string option) list"
  ar_jobs :: "(string \<times> archive_job) list"
  ar_files :: "(string \<times> string) list"
  ar_closed :: bool

definition NewArchiveManager :: "bool \<Rightarrow> archive_options \<Rightarrow> err + archive_manager" where
  "NewArchiveManager mkdir_fails o1 =
     (if op_Workers o1 \<le> 0 \<or> op_MaxFiles o1 \<le> 0 \<or> op_MaxBytes o1 \<le> 0 \<or> op_TTL o1 \<le> 0 \<or> op_TempDir o1 = []
      then Inl Invalid
      else if mkdir_fails then Inl IoError
      else Inr \<lparr>ar_options = o1, ar_sending = [], ar_tasks = [], ar_building = [], ar_jobs = [], ar_files = [],
                ar_closed = False\<rparr>)"

section \<open>What may be archived\<close>

text \<open>\<open>path.Clean\<close> of a rooted path.\<close>

fun clean_segments :: "string list \<Rightarrow> string list \<Rightarrow> string list" where
  "clean_segments acc [] = rev acc"
| "clean_segments acc (s # ss) =
     (if s = [] \<or> s = ''.'' then clean_segments acc ss
      else if s = ''..'' then clean_segments (tl acc) ss
      else clean_segments (s # acc) ss)"

definition path_clean :: "string \<Rightarrow> string" where
  "path_clean v = CHR ''/'' # join (CHR ''/'') (clean_segments [] (split_on (CHR ''/'') v))"

definition safeLogical :: "string \<Rightarrow> bool" where
  "safeLogical v \<longleftrightarrow>
     has_prefix v ''/'' \<and> backslash \<notin> set v \<and> CHR 0x00 \<notin> set v
     \<and> list_all (\<lambda>s. \<not> (s = [] \<and> v \<noteq> ''/'') \<and> s \<noteq> ''.'' \<and> s \<noteq> ''..'') (split_on (CHR ''/'') (trim_prefix v ''/''))
     \<and> path_clean v = v"

definition within :: "string \<Rightarrow> string \<Rightarrow> bool" where
  "within root p \<longleftrightarrow> root = ''/'' \<or> p = root \<or> has_prefix p (root @ ''/'')"

fun validate_entries :: "string \<Rightarrow> int \<Rightarrow> int \<Rightarrow> archive_entry list \<Rightarrow> err option" where
  "validate_entries root maxBytes used [] = None"
| "validate_entries root maxBytes used (e # es) =
     (if \<not> safeLogical (en_LogicalPath e) \<or> \<not> within root (en_LogicalPath e) \<or> en_ObjectKey e = [] \<or> en_Size e < 0
      then Some Invalid
      else if en_Size e > wrap64 (maxBytes - used) then Some Invalid
      else validate_entries root maxBytes (wrap64 (used + en_Size e)) es)"

definition validate_archive :: "string \<Rightarrow> archive_entry list \<Rightarrow> archive_options \<Rightarrow> err option" where
  "validate_archive root es o1 =
     (if \<not> safeLogical root \<or> es = [] \<or> int (length es) > op_MaxFiles o1 then Some Invalid
      else validate_entries root (op_MaxBytes o1) 0 es)"

section \<open>Creating a job\<close>

fun all_allowed :: "(string \<Rightarrow> err + bool) \<Rightarrow> archive_entry list \<Rightarrow> err option" where
  "all_allowed allow [] = None"
| "all_allowed allow (e # es) =
     (case allow (en_LogicalPath e) of
        Inl x \<Rightarrow> Some x
      | Inr False \<Rightarrow> Some Forbidden
      | Inr True \<Rightarrow> all_allowed allow es)"

definition put_job :: "string \<Rightarrow> archive_job \<Rightarrow> archive_manager \<Rightarrow> archive_manager" where
  "put_job i j m = m\<lparr>ar_jobs := AList.update i j (ar_jobs m)\<rparr>"

text \<open>The first critical section registers the job; its id is 16 random bytes in hex.\<close>

definition register_job ::
    "bool \<Rightarrow> int \<Rightarrow> string \<Rightarrow> int \<Rightarrow> string \<Rightarrow> archive_entry list \<Rightarrow> (string \<Rightarrow> err + bool) \<Rightarrow> archive_manager
     \<Rightarrow> archive_manager \<times> (err + string)" where
  "register_job flt now random uid root es allow m =
     (case validate_archive root es (ar_options m) of
        Some e \<Rightarrow> (m, Inl e)
      | None \<Rightarrow>
          (case all_allowed allow es of
             Some e \<Rightarrow> (m, Inl e)
           | None \<Rightarrow>
               if flt then (m, Inl IoError)
               else if ar_closed m then (m, Inl Closed)
               else
                 ((put_job (hex_encode random)
                     \<lparr>jb_UserID = uid, jb_Status = Running, jb_CreatedAt = now,
                      jb_ExpiresAt = now + op_TTL (ar_options m), jb_Size = 0, jb_Err = None, jb_file = [],
                      jb_cancelled = False\<rparr> m)\<lparr>ar_sending := ar_sending m @ [(hex_encode random, es)]\<rparr>,
                  Inr (hex_encode random))))"

definition ar_Cancel :: "string \<Rightarrow> archive_manager \<Rightarrow> archive_manager \<times> (err + unit)" where
  "ar_Cancel i m =
     (case map_of (ar_jobs m) i of
        None \<Rightarrow> (m, Inl NotExist)
      | Some j \<Rightarrow>
          (if jb_Status j = Running then (put_job i (j\<lparr>jb_cancelled := True\<rparr>) m) else m, Inr ()))"

text \<open>Then the creator sends the task; it waits for room unless it gives up or the manager closes.\<close>

datatype send = Sent | GaveUp | SawClosed

definition can_send :: "send \<Rightarrow> archive_manager \<Rightarrow> bool" where
  "can_send c m = (case c of
       Sent \<Rightarrow> int (length (ar_tasks m)) < op_Workers (ar_options m)
     | GaveUp \<Rightarrow> True
     | SawClosed \<Rightarrow> ar_closed m)"

definition send_task :: "send \<Rightarrow> string \<Rightarrow> archive_manager \<Rightarrow> archive_manager \<times> (err + string)" where
  "send_task c i m =
     (case map_of (ar_sending m) i of
        None \<Rightarrow> (m, Inl NotExist)
      | Some es \<Rightarrow>
          (let m1 = m\<lparr>ar_sending := AList.delete i (ar_sending m)\<rparr> in
           case c of
             Sent \<Rightarrow> (m1\<lparr>ar_tasks := ar_tasks m @ [(i, es)]\<rparr>, Inr i)
           | GaveUp \<Rightarrow> (fst (ar_Cancel i m1), Inl Cancelled)
           | SawClosed \<Rightarrow> (fst (ar_Cancel i m1), Inl Closed)))"

definition ar_CreateForUser ::
    "bool \<Rightarrow> int \<Rightarrow> string \<Rightarrow> send \<Rightarrow> (archive_manager \<Rightarrow> archive_manager) \<Rightarrow> int \<Rightarrow> string
     \<Rightarrow> archive_entry list \<Rightarrow> (string \<Rightarrow> err + bool) \<Rightarrow> archive_manager \<Rightarrow> archive_manager \<times> (err + string)" where
  "ar_CreateForUser flt now random c mid uid root es allow m =
     (if uid \<le> 0 then (m, Inl Invalid)
      else
        (case register_job flt now random uid root es allow m of
           (m1, Inl e) \<Rightarrow> (m1, Inl e)
         | (m1, Inr i) \<Rightarrow> send_task c i (mid m1)))"

section \<open>Building\<close>

text \<open>A worker takes the next task and creates its temporary file, under a name not in use.\<close>

definition take_task :: "string option \<Rightarrow> archive_manager \<Rightarrow> archive_manager" where
  "take_task name m =
     (case ar_tasks m of
        [] \<Rightarrow> m
      | t # ts \<Rightarrow>
          m\<lparr>ar_tasks := ts, ar_building := ar_building m @ [(t, name)],
            ar_files := (case name of None \<Rightarrow> ar_files m | Some f \<Rightarrow> AList.update f [] (ar_files m))\<rparr>)"

text \<open>What happens while one member is written.\<close>

record member_events =
  me_cancelled :: bool
  me_create_fails :: bool
  me_open :: "err + string"
  me_copy_fails :: bool
  me_close_fails :: bool

fun writeZip :: "(string \<Rightarrow> member_events) \<Rightarrow> archive_entry list \<Rightarrow> err + (string \<times> string) list" where
  "writeZip ev [] = Inr []"
| "writeZip ev (e # es) =
     (let v = ev (en_ObjectKey e) in
      if me_cancelled v then Inl Cancelled
      else if me_create_fails v then Inl IoError
      else
        (case me_open v of
           Inl x \<Rightarrow> Inl x
         | Inr content \<Rightarrow>
             if me_copy_fails v then Inl IoError
             else if me_close_fails v then Inl IoError
             else
               (case writeZip ev es of
                  Inl x \<Rightarrow> Inl x
                | Inr ms \<Rightarrow> Inr ((trim_prefix (en_LogicalPath e) ''/'', content) # ms))))"

definition remove_file :: "string option \<Rightarrow> archive_manager \<Rightarrow> archive_manager" where
  "remove_file name m = (case name of None \<Rightarrow> m | Some f \<Rightarrow> m\<lparr>ar_files := AList.delete f (ar_files m)\<rparr>)"

text \<open>
  The end of \<open>build\<close>: what the job becomes and what happens to the file.  \<open>result\<close> is what writing
  (and closing) the file gave; it is an error when no file could be created.
\<close>

definition finish_job ::
    "((string \<times> string) list \<Rightarrow> string) \<Rightarrow> bool \<Rightarrow> string \<Rightarrow> string option \<Rightarrow> err + (string \<times> string) list
     \<Rightarrow> archive_manager \<Rightarrow> archive_manager" where
  "finish_job zipped stat_fails i name result m =
     (case map_of (ar_jobs m) i of
        None \<Rightarrow> remove_file name m
      | Some j \<Rightarrow>
          if jb_cancelled j
          then remove_file name (put_job i (j\<lparr>jb_Status := Aborted\<rparr>) m)
          else
            (case (result, name) of
               (Inr ms, Some f) \<Rightarrow>
                 (let m1 = m\<lparr>ar_files := AList.update f (zipped ms) (ar_files m)\<rparr> in
                  if stat_fails then put_job i (j\<lparr>jb_Status := Failed, jb_Err := Some IoError\<rparr>) m1
                  else put_job i (j\<lparr>jb_file := f, jb_Size := int (length (zipped ms)), jb_Status := Finished\<rparr>) m1)
             | (Inl e, _) \<Rightarrow>
                 remove_file name (put_job i (j\<lparr>jb_Status := Failed, jb_Err := Some e\<rparr>) m)
             | (Inr ms, None) \<Rightarrow>
                 (put_job i (j\<lparr>jb_Status := Failed, jb_Err := Some IoError\<rparr>) m)))"

text \<open>The build at position \<open>n\<close> ends.\<close>

definition finish_build ::
    "((string \<times> string) list \<Rightarrow> string) \<Rightarrow> bool \<Rightarrow> bool \<Rightarrow> (string \<Rightarrow> member_events) \<Rightarrow> nat \<Rightarrow> archive_manager
     \<Rightarrow> archive_manager" where
  "finish_build zipped stat_fails close_fails ev n m =
     (if n < length (ar_building m) then
        (case ar_building m ! n of
           ((i, es), name) \<Rightarrow>
             (let result = (if name = None then Inl IoError
                            else (case writeZip ev es of
                                    Inl e \<Rightarrow> Inl e
                                  | Inr ms \<Rightarrow> if close_fails then Inl IoError else Inr ms)) in
              (finish_job zipped stat_fails i name result m)
                \<lparr>ar_building := take n (ar_building m) @ drop (Suc n) (ar_building m)\<rparr>))
      else m)"

section \<open>Using jobs\<close>

definition ar_Job :: "string \<Rightarrow> archive_manager \<Rightarrow> err + archive_job" where
  "ar_Job i m = (case map_of (ar_jobs m) i of None \<Rightarrow> Inl NotExist | Some j \<Rightarrow> Inr j)"

definition OwnedBy :: "string \<Rightarrow> int \<Rightarrow> archive_manager \<Rightarrow> bool" where
  "OwnedBy i uid m = (case map_of (ar_jobs m) i of None \<Rightarrow> False | Some j \<Rightarrow> jb_UserID j = uid \<and> uid > 0)"

definition ar_Open :: "string \<Rightarrow> archive_manager \<Rightarrow> err + string" where
  "ar_Open i m =
     (case map_of (ar_jobs m) i of
        None \<Rightarrow> Inl NotExist
      | Some j \<Rightarrow>
          if jb_Status j \<noteq> Finished \<or> jb_file j = [] then Inl NotExist
          else (case map_of (ar_files m) (jb_file j) of None \<Rightarrow> Inl IoError | Some c \<Rightarrow> Inr c))"

definition collectable :: "int \<Rightarrow> archive_job \<Rightarrow> bool" where
  "collectable now j \<longleftrightarrow> \<not> now < jb_ExpiresAt j \<and> jb_Status j \<noteq> Running"

text \<open>The files of the jobs that satisfy \<open>P\<close> are removed.\<close>

definition drop_files :: "(archive_job \<Rightarrow> bool) \<Rightarrow> archive_manager \<Rightarrow> (string \<times> string) list" where
  "drop_files P m =
     filter (\<lambda>e. \<not> list_ex (\<lambda>j. P (snd j) \<and> jb_file (snd j) \<noteq> [] \<and> jb_file (snd j) = fst e) (ar_jobs m)) (ar_files m)"

definition ar_Cleanup :: "int \<Rightarrow> archive_manager \<Rightarrow> archive_manager \<times> nat" where
  "ar_Cleanup now m =
     (m\<lparr>ar_files := drop_files (collectable now) m,
        ar_jobs := filter (\<lambda>j. \<not> collectable now (snd j)) (ar_jobs m)\<rparr>,
      length (filter (\<lambda>j. collectable now (snd j)) (ar_jobs m)))"

section \<open>Closing\<close>

definition close_begin :: "archive_manager \<Rightarrow> archive_manager" where
  "close_begin m =
     (if ar_closed m then m
      else m\<lparr>ar_closed := True, ar_jobs := map (\<lambda>(i, j). (i, j\<lparr>jb_cancelled := True\<rparr>)) (ar_jobs m)\<rparr>)"

text \<open>Once the workers have ended, the artifacts and the jobs go.\<close>

definition close_end :: "archive_manager \<Rightarrow> archive_manager" where
  "close_end m =
     (if ar_building m = [] then m\<lparr>ar_files := drop_files (\<lambda>_. True) m, ar_jobs := []\<rparr> else m)"

end
