(* ===== verification/ArchiveInv.thy ===== *)
theory ArchiveInv
  imports Archive
begin

text \<open>
  What holds of the archive manager in every reachable state: who owns what, and that every file
  of the private directory belongs to a build in progress or to a finished job.
\<close>

section \<open>The invariant\<close>

definition job_of :: "archive_manager \<Rightarrow> string \<Rightarrow> archive_job option" where
  "job_of m i = map_of (ar_jobs m) i"

definition pending :: "archive_manager \<Rightarrow> archive_task list" where
  "pending m = ar_sending m @ ar_tasks m @ map fst (ar_building m)"

fun names_of :: "(archive_task \<times> string option) list \<Rightarrow> string list" where
  "names_of [] = []"
| "names_of ((t, None) # bs) = names_of bs"
| "names_of ((t, Some f) # bs) = f # names_of bs"

text \<open>
  \<open>ok uid p\<close> says that the user may archive the path, \<open>reads k c\<close> that the object \<open>k\<close> was read as
  \<open>c\<close>.  A member has the name of an allowed path and the content of its object.
\<close>

definition members_ok ::
    "(int \<Rightarrow> string \<Rightarrow> bool) \<Rightarrow> (string \<Rightarrow> string \<Rightarrow> bool) \<Rightarrow> int \<Rightarrow> (string \<times> string) list \<Rightarrow> bool" where
  "members_ok ok reads uid ms \<longleftrightarrow>
     (\<forall>x \<in> set ms. \<exists>e :: archive_entry. ok uid (en_LogicalPath e) \<and> fst x = trim_prefix (en_LogicalPath e) ''/''
        \<and> reads (en_ObjectKey e) (snd x))"

definition artifact_ok ::
    "(int \<Rightarrow> string \<Rightarrow> bool) \<Rightarrow> (string \<Rightarrow> string \<Rightarrow> bool) \<Rightarrow> ((string \<times> string) list \<Rightarrow> string)
     \<Rightarrow> (string \<times> string) list \<Rightarrow> archive_job \<Rightarrow> bool" where
  "artifact_ok ok reads zipped files j \<longleftrightarrow>
     (if jb_Status j = Finished
      then jb_file j \<noteq> [] \<and> (\<exists>ms. map_of files (jb_file j) = Some (zipped ms)
             \<and> jb_Size j = int (length (zipped ms)) \<and> members_ok ok reads (jb_UserID j) ms)
      else jb_file j = [])"

definition task_ok :: "(int \<Rightarrow> string \<Rightarrow> bool) \<Rightarrow> archive_manager \<Rightarrow> archive_task \<Rightarrow> bool" where
  "task_ok ok m t \<longleftrightarrow>
     (\<forall>j. job_of m (fst t) = Some j \<longrightarrow>
        jb_Status j = Running \<and> (\<forall>e \<in> set (snd t). ok (jb_UserID j) (en_LogicalPath e)))"

definition own_file :: "archive_manager \<Rightarrow> string \<Rightarrow> string \<Rightarrow> bool" where
  "own_file m i f \<longleftrightarrow> f \<noteq> [] \<and> (\<exists>j. job_of m i = Some j \<and> jb_file j = f)"

definition arch_inv ::
    "(int \<Rightarrow> string \<Rightarrow> bool) \<Rightarrow> (string \<Rightarrow> string \<Rightarrow> bool) \<Rightarrow> ((string \<times> string) list \<Rightarrow> string)
     \<Rightarrow> archive_manager \<Rightarrow> bool" where
  "arch_inv ok reads zipped m \<longleftrightarrow>
     distinct (map fst (ar_jobs m)) \<and> distinct (map fst (pending m)) \<and> distinct (names_of (ar_building m))
     \<and> [] \<notin> set (names_of (ar_building m))
     \<and> (\<forall>t \<in> set (pending m). task_ok ok m t)
     \<and> (\<forall>i j. job_of m i = Some j \<longrightarrow> artifact_ok ok reads zipped (ar_files m) j \<and> 0 < jb_UserID j)
     \<and> (\<forall>i f. own_file m i f \<longrightarrow> f \<notin> set (names_of (ar_building m)))
     \<and> (\<forall>i k f. own_file m i f \<longrightarrow> own_file m k f \<longrightarrow> i = k)
     \<and> (\<forall>f. f \<in> fst ` set (ar_files m) \<longleftrightarrow> f \<in> set (names_of (ar_building m)) \<or> (\<exists>i. own_file m i f))"

lemma arch_invD:
  assumes "arch_inv ok reads zipped m"
  shows "distinct (map fst (ar_jobs m))" "distinct (map fst (pending m))" "distinct (names_of (ar_building m))"
    "[] \<notin> set (names_of (ar_building m))" "\<And>t. t \<in> set (pending m) \<Longrightarrow> task_ok ok m t"
    "\<And>i j. job_of m i = Some j \<Longrightarrow> artifact_ok ok reads zipped (ar_files m) j"
    "\<And>i j. job_of m i = Some j \<Longrightarrow> 0 < jb_UserID j"
    "\<And>i f. own_file m i f \<Longrightarrow> f \<notin> set (names_of (ar_building m))"
    "\<And>i k f. own_file m i f \<Longrightarrow> own_file m k f \<Longrightarrow> i = k"
    "\<And>f. f \<in> fst ` set (ar_files m) \<longleftrightarrow> f \<in> set (names_of (ar_building m)) \<or> (\<exists>i. own_file m i f)"
  using assms unfolding arch_inv_def by blast+

lemma arch_invI:
  assumes "distinct (map fst (ar_jobs m))" "distinct (map fst (pending m))" "distinct (names_of (ar_building m))"
    "[] \<notin> set (names_of (ar_building m))" "\<And>t. t \<in> set (pending m) \<Longrightarrow> task_ok ok m t"
    "\<And>i j. job_of m i = Some j \<Longrightarrow> artifact_ok ok reads zipped (ar_files m) j"
    "\<And>i j. job_of m i = Some j \<Longrightarrow> 0 < jb_UserID j"
    "\<And>i f. own_file m i f \<Longrightarrow> f \<notin> set (names_of (ar_building m))"
    "\<And>i k f. own_file m i f \<Longrightarrow> own_file m k f \<Longrightarrow> i = k"
    "\<And>f. f \<in> fst ` set (ar_files m) \<longleftrightarrow> f \<in> set (names_of (ar_building m)) \<or> (\<exists>i. own_file m i f)"
  shows "arch_inv ok reads zipped m"
  using assms unfolding arch_inv_def by blast

section \<open>Changing one job\<close>

lemma put_job_simps [simp]:
  "job_of (put_job i j m) = (job_of m)(i \<mapsto> j)" "ar_files (put_job i j m) = ar_files m"
  "ar_building (put_job i j m) = ar_building m" "pending (put_job i j m) = pending m"
  "ar_sending (put_job i j m) = ar_sending m" "ar_tasks (put_job i j m) = ar_tasks m"
  "ar_options (put_job i j m) = ar_options m" "ar_closed (put_job i j m) = ar_closed m"
  by (simp_all add: put_job_def job_of_def pending_def update_conv' fun_eq_iff)

lemma distinct_put_job: "distinct (map fst (ar_jobs m)) \<Longrightarrow> distinct (map fst (ar_jobs (put_job i j m)))"
  by (simp add: put_job_def distinct_update)

text \<open>A job that keeps its owner, status and file changes nothing.\<close>

lemma arch_inv_same_job:
  assumes inv: "arch_inv ok reads zipped m" and j: "job_of m i = Some j"
    and same: "jb_Status j' = jb_Status j" "jb_file j' = jb_file j" "jb_UserID j' = jb_UserID j" "jb_Size j' = jb_Size j"
  shows "arch_inv ok reads zipped (put_job i j' m)"
proof -
  have own: "own_file (put_job i j' m) k f = own_file m k f" for k f
    using j same by (auto simp: own_file_def)
  have task: "task_ok ok (put_job i j' m) t" if "task_ok ok m t" for t
    using that j same by (auto simp: task_ok_def)
  have art: "artifact_ok ok reads zipped (ar_files m) j'"
    using arch_invD(6) [OF inv j] same by (simp add: artifact_ok_def)
  show ?thesis
    using arch_invD [OF inv] j same art
    by (intro arch_invI) (auto simp: own task distinct_put_job split: if_splits)
qed

lemma cancel_inv: "arch_inv ok reads zipped m \<Longrightarrow> arch_inv ok reads zipped (fst (ar_Cancel i m))"
  by (auto simp: ar_Cancel_def job_of_def split: option.splits intro!: arch_inv_same_job)

text \<open>What the invariant looks at.\<close>

lemma arch_inv_view:
  assumes inv: "arch_inv ok reads zipped m" and jobs: "ar_jobs m' = ar_jobs m"
    and files: "map_of (ar_files m') = map_of (ar_files m)"
    and names: "names_of (ar_building m') = names_of (ar_building m)"
    and tasks: "distinct (map fst (pending m'))" "set (pending m') \<subseteq> set (pending m)"
  shows "arch_inv ok reads zipped m'"
proof -
  have job: "job_of m' = job_of m" by (simp add: job_of_def fun_eq_iff jobs)
  have own: "own_file m' i f = own_file m i f" for i f by (simp add: own_file_def job)
  have task: "task_ok ok m' t" if "t \<in> set (pending m')" for t
    using arch_invD(5) [OF inv, of t] that tasks(2) by (auto simp: task_ok_def job)
  have art: "artifact_ok ok reads zipped (ar_files m') j = artifact_ok ok reads zipped (ar_files m) j" for j
    by (simp add: artifact_ok_def files)
  have dom: "fst ` set (ar_files m') = fst ` set (ar_files m)"
    using arg_cong [OF files, of dom] by (simp add: dom_map_of_conv_image_fst)
  show ?thesis
    using arch_invD [OF inv] tasks(1)
    by (intro arch_invI) (simp_all add: own job art dom names jobs task)
qed

lemma distinct_delete_fst: "distinct (map fst xs) \<Longrightarrow> distinct (map fst (AList.delete k xs))"
  by (simp add: AList.delete_eq distinct_map_filter)

lemma set_delete_fst: "set (AList.delete k xs) = {x \<in> set xs. fst x \<noteq> k}"
  by (auto simp: AList.delete_eq)

section \<open>Creating\<close>

lemma register_inv:
  assumes inv: "arch_inv ok reads zipped m" and op: "register_job flt now random uid root es allow m = (m', r)"
    and new: "job_of m (hex_encode random) = None" "hex_encode random \<notin> fst ` set (pending m)" and uid: "0 < uid"
    and ok: "\<And>p. allow p = Inr True \<Longrightarrow> ok uid p"
  shows "arch_inv ok reads zipped m'"
proof (cases r)
  case (Inl e)
  with op inv show ?thesis by (auto simp: register_job_def split: option.splits if_splits)
next
  case (Inr i)
  let ?i = "hex_encode random"
  define j where "j = \<lparr>jb_UserID = uid, jb_Status = Running, jb_CreatedAt = now,
    jb_ExpiresAt = now + op_TTL (ar_options m), jb_Size = 0, jb_Err = None, jb_file = [], jb_cancelled = False\<rparr>"
  then have j: "jb_UserID j = uid" "jb_Status j = Running" "jb_file j = []" by simp_all
  have m': "m' = (put_job ?i j m)\<lparr>ar_sending := ar_sending m @ [(?i, es)]\<rparr>" and all: "all_allowed allow es = None"
    using op Inr by (auto simp: register_job_def j_def split: option.splits if_splits)
  have allowed: "\<forall>e \<in> set es. allow (en_LogicalPath e) = Inr True"
    using all by (induction es) (auto split: sum.splits bool.splits)
  have job: "job_of m' = (job_of m)(?i \<mapsto> j)" "ar_files m' = ar_files m" "ar_building m' = ar_building m"
    "set (pending m') = insert (?i, es) (set (pending m))"
    using m' by (auto simp: job_of_def put_job_def pending_def update_conv' fun_eq_iff)
  have dist: "distinct (map fst (pending m'))"
    using arch_invD(2) [OF inv] new(2) m' by (auto simp: pending_def)
  have own: "own_file m' k f = own_file m k f" for k f
    using new(1) j by (auto simp: own_file_def job)
  have task: "task_ok ok m' t" if "t \<in> set (pending m')" for t
  proof (cases "t = (?i, es)")
    case True
    with j allowed ok show ?thesis by (simp add: task_ok_def job)
  next
    case False
    with that job(4) have t: "t \<in> set (pending m)" by simp
    with new(2) have "fst t \<noteq> ?i" by (metis imageI)
    with arch_invD(5) [OF inv t] show ?thesis by (simp add: task_ok_def job)
  qed
  have "distinct (map fst (ar_jobs m'))"
    using arch_invD(1) [OF inv] m' by (simp add: put_job_def distinct_update)
  moreover have "artifact_ok ok reads zipped (ar_files m') k \<and> 0 < jb_UserID k" if "job_of m' l = Some k" for l k
    using that arch_invD(6,7) [OF inv] j uid by (auto simp: job artifact_ok_def split: if_splits)
  ultimately show ?thesis
    using arch_invD [OF inv] dist task
    by (intro arch_invI) (simp_all add: own job(2,3))
qed

lemma send_inv:
  assumes inv: "arch_inv ok reads zipped m" and op: "send_task c i m = (m', r)"
  shows "arch_inv ok reads zipped m'"
proof (cases "map_of (ar_sending m) i")
  case None
  with op inv show ?thesis by (simp add: send_task_def)
next
  case (Some es)
  let ?m1 = "m\<lparr>ar_sending := AList.delete i (ar_sending m)\<rparr>"
  have es: "(i, es) \<in> set (ar_sending m)" using Some by (rule map_of_SomeD)
  let ?rest = "ar_tasks m @ map fst (ar_building m)"
  have d: "distinct (map fst (ar_sending m))" "distinct (map fst ?rest)"
    "fst ` set (ar_sending m) \<inter> fst ` set ?rest = {}"
    using arch_invD(2) [OF inv] unfolding pending_def map_append [of fst "ar_sending m"] distinct_append set_map
    by blast+
  have "i \<in> fst ` set (ar_sending m)" using imageI [OF es, of fst] by simp
  with d(3) have i: "i \<notin> fst ` set ?rest" by blast
  have sub: "fst ` set (AList.delete i (ar_sending m)) \<subseteq> fst ` set (ar_sending m) - {i}"
    by (auto simp: set_delete_fst)
  have sub2: "set (AList.delete i (ar_sending m)) \<subseteq> set (ar_sending m)" by (auto simp: set_delete_fst)
  have "fst ` set (AList.delete i (ar_sending m)) \<inter> fst ` set ?rest = {}" using d(3) sub by blast
  then have dist: "distinct (map fst (AList.delete i (ar_sending m) @ ?rest))"
    using d(2) distinct_delete_fst [OF d(1)] by (simp only: map_append [of fst "AList.delete i (ar_sending m)"] distinct_append set_map simp_thms)
  have noti: "i \<notin> fst ` set (AList.delete i (ar_sending m) @ ?rest)"
    using sub i unfolding set_append [of "AList.delete i (ar_sending m)"] image_Un by blast
  have m1: "arch_inv ok reads zipped ?m1"
    by (rule arch_inv_view [OF inv]) (use dist sub2 in \<open>auto simp: pending_def\<close>)
  show ?thesis
  proof (cases c)
    case Sent
    then have m': "m' = ?m1\<lparr>ar_tasks := ar_tasks m @ [(i, es)]\<rparr>" using op Some by (simp add: send_task_def)
    show ?thesis unfolding m'
      by (rule arch_inv_view [OF inv]) (use dist noti sub2 es in \<open>auto simp: pending_def\<close>)
  qed (use op Some cancel_inv [OF m1] in \<open>auto simp: send_task_def\<close>)
qed

section \<open>Building\<close>

lemma names_of_append [simp]: "names_of (xs @ ys) = names_of xs @ names_of ys"
  by (induction xs rule: names_of.induct) auto

lemma take_inv:
  assumes inv: "arch_inv ok reads zipped m"
    and name: "\<And>f. name = Some f \<Longrightarrow> f \<noteq> [] \<and> f \<notin> fst ` set (ar_files m)"
  shows "arch_inv ok reads zipped (take_task name m)"
proof (cases "ar_tasks m")
  case Nil
  with inv show ?thesis by (simp add: take_task_def)
next
  case (Cons t ts)
  define k where "k = take_task name m"
  have m: "ar_tasks k = ts" "ar_building k = ar_building m @ [(t, name)]" "ar_sending k = ar_sending m"
    "ar_jobs k = ar_jobs m" using Cons by (simp_all add: k_def take_task_def)
  have dist: "distinct (map fst (pending k))" and set: "set (pending k) = set (pending m)"
    using arch_invD(2) [OF inv] m Cons by (auto simp: pending_def)
  show ?thesis
  proof (cases name)
    case None
    show ?thesis
      unfolding k_def [symmetric]
      by (rule arch_inv_view [OF inv]) (use dist set m None Cons in \<open>simp_all add: k_def take_task_def\<close>)
  next
    case (Some f)
    have f: "f \<noteq> []" "f \<notin> fst ` set (ar_files m)" using name Some by blast+
    have files: "ar_files k = AList.update f [] (ar_files m)" using Cons Some by (simp add: k_def take_task_def)
    have job: "job_of k = job_of m" by (simp add: job_of_def fun_eq_iff m)
    have own: "own_file k i g = own_file m i g" for i g by (simp add: own_file_def job)
    have no: "\<not> own_file m i f" "f \<notin> set (names_of (ar_building m))" for i
      using arch_invD(10) [OF inv, of f] f by blast+
    have art: "artifact_ok ok reads zipped (ar_files k) j" if "job_of m i = Some j" for i j
      using arch_invD(6) [OF inv that] no(1) [of i] that f(1)
      by (auto simp: artifact_ok_def files update_conv' own_file_def split: if_splits)
    have dom: "fst ` set (ar_files k) = insert f (fst ` set (ar_files m))"
      by (simp add: files dom_update)
    have task: "task_ok ok k t" if "t \<in> set (pending k)" for t
      using arch_invD(5) [OF inv, of t] that set by (simp add: task_ok_def job)
    have names: "names_of (ar_building k) = names_of (ar_building m) @ [f]" by (simp add: m Some)
    show ?thesis
      unfolding k_def [symmetric] using arch_invD [OF inv] dist art task f no
      by (intro arch_invI) (auto simp: own job m(4) names dom simp del: split_paired_All split_paired_all)
  qed
qed

text \<open>A build leaves the list, and its file the directory.\<close>

lemma drop_build_inv:
  assumes inv: "arch_inv ok reads zipped m" and b: "ar_building m = xs @ (t, name) # ys"
    and k: "k = (remove_file name m)\<lparr>ar_building := xs @ ys\<rparr>"
  shows "arch_inv ok reads zipped k" "fst t \<notin> fst ` set (pending k)" "job_of k = job_of m"
    "name = Some f \<Longrightarrow> f \<noteq> [] \<and> f \<notin> fst ` set (ar_files k) \<and> f \<notin> set (names_of (ar_building k))
       \<and> (\<forall>i. \<not> own_file k i f)"
proof -
  have m: "ar_jobs k = ar_jobs m" "ar_building k = xs @ ys" "ar_sending k = ar_sending m" "ar_tasks k = ar_tasks m"
    using k by (simp_all add: remove_file_def split: option.splits)
  show job: "job_of k = job_of m" by (simp add: job_of_def fun_eq_iff m)
  have own: "own_file k i g = own_file m i g" for i g by (simp add: own_file_def job)
  let ?p = "map fst (ar_sending m) @ map fst (ar_tasks m) @ map (fst \<circ> fst) xs"
  have "map fst (pending m) = ?p @ fst t # map (fst \<circ> fst) ys" and keys: "map fst (pending k) = ?p @ map (fst \<circ> fst) ys"
    by (simp_all add: pending_def m b)
  then have dist: "distinct (map fst (pending k))" and "fst t \<notin> set (map fst (pending k))"
    using arch_invD(2) [OF inv] unfolding keys by simp_all
  then have t: "fst t \<notin> fst ` set (pending k)" by simp
  have sub: "set (pending k) \<subseteq> set (pending m)" by (auto simp: pending_def m b)
  have task: "task_ok ok k u" if "u \<in> set (pending k)" for u
    using arch_invD(5) [OF inv, of u] that sub by (auto simp: task_ok_def job)
  have names: "set (names_of (ar_building k)) = set (names_of (ar_building m)) - set_option name"
    "distinct (names_of (ar_building k))"
    using arch_invD(3) [OF inv] by (cases name; auto simp: m b)+
  have notin: "\<not> own_file m i g" if "name = Some g" for i g
    using arch_invD(8) [OF inv, of i g] that b by auto
  have files: "map_of (ar_files k) g = (if name = Some g then None else map_of (ar_files m) g)" for g
    using k by (auto simp: remove_file_def AList.delete_conv' split: option.splits)
  have dom: "g \<in> fst ` set (ar_files k) \<longleftrightarrow> g \<in> fst ` set (ar_files m) \<and> name \<noteq> Some g" for g
    using files [of g] by (metis map_of_eq_None_iff)
  have art: "artifact_ok ok reads zipped (ar_files k) j" if "job_of m i = Some j" for i j
    using arch_invD(6) [OF inv that] notin [of "jb_file j" i] that
    by (auto simp: artifact_ok_def files own_file_def split: if_splits)
  show "arch_inv ok reads zipped k"
  proof (rule arch_invI)
    show "g \<in> fst ` set (ar_files k) \<longleftrightarrow> g \<in> set (names_of (ar_building k)) \<or> (\<exists>i. own_file k i g)" for g
      using arch_invD(10) [OF inv, of g] notin [of g] by (auto simp: dom names own)
  qed (use arch_invD [OF inv] dist task art names in \<open>auto simp: own job m(1) simp del: split_paired_all\<close>)
  show "fst t \<notin> fst ` set (pending k)" by (rule t)
  show "f \<noteq> [] \<and> f \<notin> fst ` set (ar_files k) \<and> f \<notin> set (names_of (ar_building k)) \<and> (\<forall>i. \<not> own_file k i f)"
    if "name = Some f"
  proof (intro conjI allI)
    show "f \<noteq> []" using arch_invD(4) [OF inv] that b by auto
  qed (use that notin in \<open>simp_all add: dom names own\<close>)
qed

text \<open>A job without a task settles: without an artifact, or with a new one.\<close>

lemma settle_inv:
  assumes inv: "arch_inv ok reads zipped k" and t: "i \<notin> fst ` set (pending k)" and j: "job_of k i = Some j"
    and nofile: "jb_file j = []" and j': "jb_UserID j' = jb_UserID j" "jb_file j' = []" "jb_Status j' \<noteq> Finished"
  shows "arch_inv ok reads zipped (put_job i j' k)"
proof -
  have own: "own_file (put_job i j' k) l f = own_file k l f" for l f
    using j nofile j'(2) by (auto simp: own_file_def)
  have task: "task_ok ok (put_job i j' k) u" if u: "u \<in> set (pending k)" for u
  proof -
    have "fst u \<noteq> i" using t u by (metis imageI)
    with arch_invD(5) [OF inv u] show ?thesis by (simp add: task_ok_def)
  qed
  have "artifact_ok ok reads zipped (ar_files k) l \<and> 0 < jb_UserID l" if "((job_of k)(i \<mapsto> j')) n = Some l" for n l
    using that arch_invD(6,7) [OF inv] j j' by (auto simp: artifact_ok_def split: if_splits)
  with arch_invD [OF inv] task show ?thesis
    by (intro arch_invI) (auto simp: own distinct_put_job simp del: split_paired_all fun_upd_apply)
qed

lemma artifact_inv:
  assumes inv: "arch_inv ok reads zipped k" and t: "i \<notin> fst ` set (pending k)" and j: "job_of k i = Some j"
    and nofile: "jb_file j = []"
    and f: "f \<noteq> []" "f \<notin> set (names_of (ar_building k))" "\<forall>l. \<not> own_file k l f"
    and ms: "members_ok ok reads (jb_UserID j) ms"
    and j': "jb_UserID j' = jb_UserID j" "jb_file j' = f" "jb_Status j' = Finished"
      "jb_Size j' = int (length (zipped ms))"
    and n: "n = put_job i j' (k\<lparr>ar_files := fs\<rparr>)" and fs: "map_of fs = (map_of (ar_files k))(f \<mapsto> zipped ms)"
  shows "arch_inv ok reads zipped n"
proof -
  have m: "ar_building n = ar_building k" "pending n = pending k" "ar_files n = fs"
    using n by (simp_all add: pending_def)
  have job: "job_of n = (job_of k)(i \<mapsto> j')"
    using n by (simp add: job_of_def put_job_def update_conv' fun_eq_iff)
  have own: "own_file n l g \<longleftrightarrow> own_file k l g \<or> l = i \<and> g = f" for l g
    using j nofile j'(2) f(1) by (auto simp: own_file_def job)
  have dist: "distinct (map fst (ar_jobs n))"
    using arch_invD(1) [OF inv] n by (simp add: put_job_def distinct_update)
  have task: "task_ok ok n u" if u: "u \<in> set (pending k)" for u
  proof -
    have "fst u \<noteq> i" using t u by (metis imageI)
    with arch_invD(5) [OF inv u] show ?thesis by (simp add: task_ok_def job)
  qed
  have art: "artifact_ok ok reads zipped fs l" if "job_of n q = Some l" for q l
  proof (cases "q = i")
    case True
    with that have "l = j'" by (simp add: job)
    with j' ms f(1) fs show ?thesis by (auto simp: artifact_ok_def)
  next
    case False
    with that have q: "job_of k q = Some l" by (simp add: job)
    with f(3) f(1) have "jb_file l \<noteq> f" by (auto simp: own_file_def)
    with arch_invD(6) [OF inv q] fs show ?thesis by (simp add: artifact_ok_def)
  qed
  have uid: "0 < jb_UserID l" if "job_of n q = Some l" for q l
    using that arch_invD(7) [OF inv] j j'(1) by (auto simp: job split: if_splits)
  have dom: "g \<in> fst ` set fs \<longleftrightarrow> g = f \<or> g \<in> fst ` set (ar_files k)" for g
    using arg_cong [OF fs, of dom] by (auto simp: dom_map_of_conv_image_fst)
  show ?thesis
  proof (rule arch_invI)
    show "g \<in> fst ` set (ar_files n) \<longleftrightarrow> g \<in> set (names_of (ar_building n)) \<or> (\<exists>l. own_file n l g)" for g
      using arch_invD(10) [OF inv, of g] by (auto simp: m dom own)
    show "l = q" if "own_file n l g" "own_file n q g" for l q g
      using that f(3) arch_invD(9) [OF inv] by (auto simp: own)
  qed (use arch_invD [OF inv] dist task art uid f in \<open>auto simp: own m simp del: split_paired_all\<close>)
qed

lemma writeZip_members:
  assumes "writeZip ev es = Inr ms" and "\<forall>e \<in> set es. ok uid (en_LogicalPath e)"
    and "\<And>k c. me_open (ev k) = Inr c \<Longrightarrow> reads k c"
  shows "members_ok ok reads uid ms
    \<and> map fst ms = map (\<lambda>e. trim_prefix (en_LogicalPath e) ''/'') es"
  using assms(1,2)
proof (induction es arbitrary: ms)
  case (Cons e es)
  from Cons.prems(1) obtain c ms' where c: "me_open (ev (en_ObjectKey e)) = Inr c" "writeZip ev es = Inr ms'"
    "ms = (trim_prefix (en_LogicalPath e) ''/'', c) # ms'"
    by (auto simp: Let_def split: if_splits sum.splits)
  from Cons.IH [OF c(2)] Cons.prems(2) c assms(3) [OF c(1)] show ?case
    by (auto simp: members_ok_def)
qed (simp add: members_ok_def)

lemma finish_inv:
  assumes inv: "arch_inv ok reads zipped m" and reads: "\<And>k c. me_open (ev k) = Inr c \<Longrightarrow> reads k c"
  shows "arch_inv ok reads zipped (finish_build zipped False cf ev n m)"
proof (cases "n < length (ar_building m)")
  case False
  with inv show ?thesis by (simp add: finish_build_def)
next
  case True
  let ?xs = "take n (ar_building m)" and ?ys = "drop (Suc n) (ar_building m)"
  obtain i es name where b: "ar_building m ! n = ((i, es), name)" by (metis prod.collapse)
  have split: "ar_building m = ?xs @ ((i, es), name) # ?ys" using id_take_nth_drop [OF True] b by simp
  define k where "k = (remove_file name m)\<lparr>ar_building := ?xs @ ?ys\<rparr>"
  have k: "arch_inv ok reads zipped k" "i \<notin> fst ` set (pending k)" "job_of k = job_of m"
    using drop_build_inv(1-3) [OF inv split k_def] by simp_all
  define res where "res = (if name = None then Inl IoError
    else (case writeZip ev es of Inl e \<Rightarrow> Inl e | Inr ms \<Rightarrow> if cf then Inl IoError else Inr ms))"
  define r where "r = finish_build zipped False cf ev n m"
  have r: "r = (finish_job zipped False i name res m)\<lparr>ar_building := ?xs @ ?ys\<rparr>"
    using True b by (simp add: finish_build_def res_def r_def Let_def)
  have settle: "(remove_file name (put_job i j m))\<lparr>ar_building := ?xs @ ?ys\<rparr> = put_job i j k" for j
    by (simp add: k_def put_job_def remove_file_def split: option.splits)
  have "arch_inv ok reads zipped r"
  proof (cases "job_of m i")
    case None
    then have "r = k" by (simp add: r finish_job_def job_of_def k_def)
    with k(1) show ?thesis by simp
  next
    case (Some j)
    have "((i, es), name) \<in> set (ar_building m)" using True b by (metis nth_mem)
    then have "(i, es) \<in> set (pending m)" by (force simp: pending_def)
    from arch_invD(5) [OF inv this] Some have run: "jb_Status j = Running"
      "\<forall>e \<in> set es. ok (jb_UserID j) (en_LogicalPath e)" by (simp_all add: task_ok_def)
    with arch_invD(6) [OF inv Some] have nofile: "jb_file j = []" by (simp add: artifact_ok_def)
    have j: "job_of k i = Some j" using Some k(3) by simp
    show ?thesis
    proof (cases "\<not> jb_cancelled j \<and> (\<exists>ms. res = Inr ms)")
      case False
      then have "\<exists>j'. r = put_job i j' k \<and> jb_UserID j' = jb_UserID j \<and> jb_file j' = [] \<and> jb_Status j' \<noteq> Finished"
        using Some nofile by (cases res) (auto simp: r finish_job_def job_of_def settle)
      with settle_inv [OF k(1,2) j nofile] show ?thesis by blast
    next
      case True
      then obtain ms where ms: "res = Inr ms" "\<not> jb_cancelled j" by blast
      then obtain f where f: "name = Some f" "writeZip ev es = Inr ms"
        by (auto simp: res_def split: if_splits sum.splits)
      let ?j = "j\<lparr>jb_file := f, jb_Size := int (length (zipped ms)), jb_Status := Finished\<rparr>"
      let ?fs = "AList.update f (zipped ms) (ar_files m)"
      have "r = put_job i ?j (k\<lparr>ar_files := ?fs\<rparr>)"
        using Some ms f(1) by (simp add: r finish_job_def job_of_def k_def put_job_def remove_file_def)
      moreover have "map_of ?fs = (map_of (ar_files k))(f \<mapsto> zipped ms)"
        using f(1) by (simp add: k_def remove_file_def update_conv' AList.delete_conv')
      moreover have "f \<noteq> []" "f \<notin> set (names_of (ar_building k))" "\<forall>l. \<not> own_file k l f"
        using drop_build_inv(4) [OF inv split k_def f(1)] by simp_all
      moreover have "members_ok ok reads (jb_UserID j) ms"
        using writeZip_members [where reads = reads and ok = ok, OF f(2) run(2)] reads by blast
      ultimately show ?thesis
        by (intro artifact_inv [OF k(1,2) j nofile, of f ms ?j r ?fs]) simp_all
    qed
  qed
  then show ?thesis by (simp add: r_def)
qed

section \<open>Cleaning up and closing\<close>

lemma drop_jobs_inv:
  assumes inv: "arch_inv ok reads zipped m"
  shows "arch_inv ok reads zipped
    (m\<lparr>ar_files := drop_files P m, ar_jobs := filter (\<lambda>j. \<not> P (snd j)) (ar_jobs m)\<rparr>)"
proof -
  define k where "k = m\<lparr>ar_files := drop_files P m, ar_jobs := filter (\<lambda>j. \<not> P (snd j)) (ar_jobs m)\<rparr>"
  have m: "ar_building k = ar_building m" "pending k = pending m" by (simp_all add: k_def pending_def)
  have dist: "distinct (map fst (ar_jobs m))" by (rule arch_invD(1) [OF inv])
  have in_jobs: "job_of m i = Some j \<longleftrightarrow> (i, j) \<in> set (ar_jobs m)" for i j
    using dist by (simp add: job_of_def map_of_eq_Some_iff)
  have distk: "distinct (map fst (ar_jobs k))" using dist by (simp add: k_def distinct_map_filter)
  have job: "job_of k i = Some j \<longleftrightarrow> job_of m i = Some j \<and> \<not> P j" for i j
    using distk in_jobs by (auto simp: job_of_def k_def map_of_eq_Some_iff)
  have own: "own_file k i f \<longleftrightarrow> own_file m i f \<and> \<not> (\<exists>l j. job_of m l = Some j \<and> P j \<and> jb_file j = f)" for i f
  proof
    assume o: "own_file k i f"
    then obtain j where j: "job_of m i = Some j" "\<not> P j" "jb_file j = f" "f \<noteq> []" by (auto simp: own_file_def job)
    then have "own_file m i f" by (simp add: own_file_def)
    moreover have False if "job_of m l = Some j'" "P j'" "jb_file j' = f" for l j'
    proof -
      have "own_file m l f" using that j(4) by (simp add: own_file_def)
      with arch_invD(9) [OF inv] \<open>own_file m i f\<close> have "l = i" by blast
      with that j show False by simp
    qed
    ultimately show "own_file m i f \<and> \<not> (\<exists>l j. job_of m l = Some j \<and> P j \<and> jb_file j = f)" by blast
  qed (auto simp: own_file_def job)
  have entry: "e \<in> set (ar_files k) \<longleftrightarrow> e \<in> set (ar_files m)
      \<and> \<not> (\<exists>l j. job_of m l = Some j \<and> P j \<and> jb_file j = fst e \<and> fst e \<noteq> [])" for e
    by (auto simp: k_def drop_files_def list_ex_iff in_jobs)
  have lookup: "map_of (ar_files k) f = map_of (ar_files m) f" if "own_file k i f" for i f
  proof -
    let ?Q = "\<lambda>g. \<not> list_ex (\<lambda>j. P (snd j) \<and> jb_file (snd j) \<noteq> [] \<and> jb_file (snd j) = g) (ar_jobs m)"
    have "\<not> (\<exists>l j. job_of m l = Some j \<and> P j \<and> jb_file j = f)" using that own [of i f] by blast
    then have "?Q f" unfolding list_ex_iff in_jobs by (metis surjective_pairing)
    moreover have "map_of (filter (\<lambda>e. Q (fst e)) xs) f = map_of xs f" if "Q f" for Q and xs :: "(string \<times> string) list"
      using that by (induction xs) auto
    ultimately show ?thesis by (simp add: k_def drop_files_def)
  qed
  have art: "artifact_ok ok reads zipped (ar_files k) j" if "job_of k i = Some j" for i j
  proof -
    have a: "artifact_ok ok reads zipped (ar_files m) j" using that arch_invD(6) [OF inv] job by blast
    show ?thesis
    proof (cases "jb_Status j = Finished")
      case True
      with a that have "own_file k i (jb_file j)" by (auto simp: artifact_ok_def own_file_def)
      from lookup [OF this] a show ?thesis by (simp add: artifact_ok_def)
    qed (use a in \<open>simp add: artifact_ok_def\<close>)
  qed
  have task: "task_ok ok k t" if "t \<in> set (pending k)" for t
    using arch_invD(5) [OF inv, of t] that by (auto simp: task_ok_def job m)
  have "arch_inv ok reads zipped k"
  proof (rule arch_invI)
    show "f \<in> fst ` set (ar_files k) \<longleftrightarrow> f \<in> set (names_of (ar_building k)) \<or> (\<exists>i. own_file k i f)" for f
    proof -
      have "f \<in> fst ` set (ar_files k) \<longleftrightarrow> f \<in> fst ` set (ar_files m)
          \<and> \<not> (\<exists>l j. job_of m l = Some j \<and> P j \<and> jb_file j = f \<and> f \<noteq> [])"
        unfolding image_iff using entry by (metis fst_conv)
      moreover have "f \<noteq> [] \<and> \<not> (\<exists>l j. job_of m l = Some j \<and> jb_file j = f)" if "f \<in> set (names_of (ar_building m))"
        using that arch_invD(4,8) [OF inv] by (metis own_file_def)
      ultimately show ?thesis
        using arch_invD(10) [OF inv, of f] unfolding own m(1) by (metis own_file_def)
    qed
  qed (use arch_invD [OF inv] distk art task in \<open>auto simp: own m job simp del: split_paired_all\<close>)
  then show ?thesis by (simp add: k_def)
qed

lemma ar_cleanup_inv: "arch_inv ok reads zipped m \<Longrightarrow> arch_inv ok reads zipped (fst (ar_Cleanup now m))"
  by (simp add: ar_Cleanup_def drop_jobs_inv)

lemma close_end_inv: "arch_inv ok reads zipped m \<Longrightarrow> arch_inv ok reads zipped (close_end m)"
  using drop_jobs_inv [of ok reads zipped m "\<lambda>_. True"] by (simp add: close_end_def)

lemma close_begin_inv:
  assumes inv: "arch_inv ok reads zipped m"
  shows "arch_inv ok reads zipped (close_begin m)"
proof (cases "ar_closed m")
  case False
  define k where "k = close_begin m"
  have m: "pending k = pending m" "ar_building k = ar_building m" "ar_files k = ar_files m"
    "ar_jobs k = map (\<lambda>(i, j). (i, j\<lparr>jb_cancelled := True\<rparr>)) (ar_jobs m)"
    using False by (simp_all add: k_def close_begin_def pending_def)
  have job: "job_of k i = map_option (\<lambda>j. j\<lparr>jb_cancelled := True\<rparr>) (job_of m i)" for i
    by (simp add: job_of_def m(4) map_of_map)
  have own: "own_file k i f = own_file m i f" for i f by (auto simp: own_file_def job)
  have task: "task_ok ok k t" if "task_ok ok m t" for t using that by (auto simp: task_ok_def job)
  have art: "artifact_ok ok reads zipped (ar_files m) (j\<lparr>jb_cancelled := True\<rparr>)"
    if "artifact_ok ok reads zipped (ar_files m) j" for j using that by (simp add: artifact_ok_def)
  have keys: "map fst (ar_jobs k) = map fst (ar_jobs m)" by (simp add: m case_prod_unfold)
  have "arch_inv ok reads zipped k"
    using arch_invD [OF inv] task art keys
    by (intro arch_invI) (auto simp: own m(1-3) job)
  then show ?thesis by (simp add: k_def)
qed (use inv in \<open>simp add: close_begin_def\<close>)

section \<open>The steps\<close>

text \<open>
  The steps of the requests and of the workers, in any order.  A job's id and a temporary file's
  name are new, \<open>allow\<close> says yes only where the user may archive, and what a build reads are
  contents of objects.
\<close>

inductive arch_step ::
    "(int \<Rightarrow> string \<Rightarrow> bool) \<Rightarrow> (string \<Rightarrow> string \<Rightarrow> bool) \<Rightarrow> ((string \<times> string) list \<Rightarrow> string)
     \<Rightarrow> archive_manager \<Rightarrow> archive_manager \<Rightarrow> bool" for ok reads zipped where
  as_register: "register_job flt now random uid root es allow m = (m', r) \<Longrightarrow> 0 < uid \<Longrightarrow>
    map_of (ar_jobs m) (hex_encode random) = None \<Longrightarrow> hex_encode random \<notin> fst ` set (pending m) \<Longrightarrow>
    (\<And>p. allow p = Inr True \<Longrightarrow> ok uid p) \<Longrightarrow> arch_step ok reads zipped m m'"
| as_send: "can_send c m \<Longrightarrow> send_task c i m = (m', r) \<Longrightarrow> arch_step ok reads zipped m m'"
| as_take: "int (length (ar_building m)) < op_Workers (ar_options m) \<Longrightarrow>
    (\<And>f. name = Some f \<Longrightarrow> f \<noteq> [] \<and> f \<notin> fst ` set (ar_files m)) \<Longrightarrow>
    arch_step ok reads zipped m (take_task name m)"
| as_finish: "(\<And>k c. me_open (ev k) = Inr c \<Longrightarrow> reads k c) \<Longrightarrow>
    arch_step ok reads zipped m (finish_build zipped False cf ev n m)"
| as_cancel: "arch_step ok reads zipped m (fst (ar_Cancel i m))"
| as_cleanup: "arch_step ok reads zipped m (fst (ar_Cleanup now m))"
| as_close: "arch_step ok reads zipped m (close_begin m)"
| as_closed: "arch_step ok reads zipped m (close_end m)"

lemma arch_step_inv: "arch_step ok reads zipped m m' \<Longrightarrow> arch_inv ok reads zipped m \<Longrightarrow> arch_inv ok reads zipped m'"
proof (induction rule: arch_step.induct)
  case (as_register flt now random uid root es allow m m' r)
  then show ?case by (intro register_inv [OF as_register.prems as_register.hyps(1)]) (auto simp: job_of_def)
next
  case (as_send c m i m' r)
  then show ?case by (blast intro: send_inv)
next
  case (as_take m name)
  then show ?case by (blast intro: take_inv)
next
  case (as_finish ev m cf n)
  then show ?case by (blast intro: finish_inv)
qed (simp_all add: cancel_inv ar_cleanup_inv close_begin_inv close_end_inv)

interpretation arch: invariant_system "arch_step ok reads zipped" "arch_inv ok reads zipped" for ok reads zipped
  by unfold_locales (rule arch_step_inv)

lemma new_manager_inv: "NewArchiveManager mk o1 = Inr m \<Longrightarrow> arch_inv ok reads zipped m"
  by (auto simp: NewArchiveManager_def arch_inv_def pending_def job_of_def own_file_def split: if_splits)

section \<open>What follows\<close>

text \<open>What the creator downloads was allowed when it asked, and is the content of the objects.\<close>

lemma open_members:
  assumes inv: "arch_inv ok reads zipped m" and op: "ar_Open i m = Inr c" and j: "ar_Job i m = Inr j"
  shows "\<exists>ms. c = zipped ms \<and> jb_Size j = int (length c) \<and> members_ok ok reads (jb_UserID j) ms"
proof -
  have job: "job_of m i = Some j" using j by (auto simp: ar_Job_def job_of_def split: option.splits)
  with op have "jb_Status j = Finished" "map_of (ar_files m) (jb_file j) = Some c"
    by (auto simp: ar_Open_def job_of_def split: option.splits if_splits)
  with arch_invD(6) [OF inv job] show ?thesis by (auto simp: artifact_ok_def)
qed

text \<open>A finished job can be opened.\<close>

lemma finished_opens:
  assumes inv: "arch_inv ok reads zipped m" and j: "ar_Job i m = Inr j" and fin: "jb_Status j = Finished"
  shows "\<exists>c. ar_Open i m = Inr c"
proof -
  have job: "job_of m i = Some j" using j by (auto simp: ar_Job_def job_of_def split: option.splits)
  with arch_invD(6) [OF inv job] fin show ?thesis by (auto simp: artifact_ok_def ar_Open_def job_of_def)
qed

text \<open>The selection's sizes stay within the bound; no sum overflows.\<close>

lemma validate_entries_bound:
  assumes "validate_entries root mx used es = None" and "0 \<le> used" "used \<le> mx" "mx < 2 ^ 63"
  shows "used + sum_list (map en_Size es) \<le> mx \<and> (\<forall>e \<in> set es. within root (en_LogicalPath e) \<and> 0 \<le> en_Size e)"
  using assms(1-3)
proof (induction es arbitrary: used)
  case (Cons e es)
  from Cons.prems have sz: "wrap64 (mx - used) = mx - used" using assms(4) by (intro wrap64_id) (auto simp: int64_def)
  from Cons.prems(1) sz have e: "within root (en_LogicalPath e)" "0 \<le> en_Size e" "en_Size e \<le> mx - used"
    "validate_entries root mx (wrap64 (used + en_Size e)) es = None" by (auto split: if_splits)
  moreover have "wrap64 (used + en_Size e) = used + en_Size e" using e Cons.prems assms(4) by (intro wrap64_id) (auto simp: int64_def)
  ultimately show ?case using Cons.IH [of "used + en_Size e"] Cons.prems by auto
qed simp

text \<open>A closed manager whose workers have ended leaves nothing behind.\<close>

lemma closed_is_empty:
  assumes inv: "arch_inv ok reads zipped m" and "ar_building m = []"
  shows "ar_files (close_end m) = [] \<and> ar_jobs (close_end m) = []"
proof -
  have k: "arch_inv ok reads zipped (close_end m)" by (rule close_end_inv [OF inv])
  have e: "ar_building (close_end m) = []" "ar_jobs (close_end m) = []" using assms(2) by (simp_all add: close_end_def)
  then have "f \<notin> fst ` set (ar_files (close_end m))" for f
    using arch_invD(10) [OF k, of f] by (simp add: own_file_def job_of_def)
  then have "set (ar_files (close_end m)) = {}" by (metis all_not_in_conv image_eqI)
  with e(2) show ?thesis by simp
qed

text \<open>No step changes the owner of a job, and none changes a finished one but to remove it.\<close>

definition job_kept :: "string \<Rightarrow> archive_job \<Rightarrow> archive_manager \<Rightarrow> bool" where
  "job_kept i j m \<longleftrightarrow>
     (case job_of m i of
        None \<Rightarrow> True
      | Some j' \<Rightarrow> jb_UserID j' = jb_UserID j
          \<and> (jb_Status j = Running \<or> jb_Status j' = jb_Status j \<and> jb_Size j' = jb_Size j \<and> jb_file j' = jb_file j))"

lemma job_kept_same: "job_of m i = Some j \<Longrightarrow> job_of m' i = Some j' \<Longrightarrow> jb_UserID j' = jb_UserID j \<Longrightarrow>
    jb_Status j = Running \<or> jb_Status j' = jb_Status j \<and> jb_Size j' = jb_Size j \<and> jb_file j' = jb_file j \<Longrightarrow> job_kept i j m'"
  by (simp add: job_kept_def)

lemma job_kept_refl: "job_of m i = Some j \<Longrightarrow> job_kept i j m"
  by (simp add: job_kept_def)

lemma job_kept_eq: "job_of m' i = job_of m i \<Longrightarrow> job_of m i = Some j \<Longrightarrow> job_kept i j m'"
  by (simp add: job_kept_def)

lemma job_kept_cancel: "job_of m i = Some j \<Longrightarrow> job_kept i j (fst (ar_Cancel k m))"
  by (auto simp: ar_Cancel_def job_kept_def job_of_def [symmetric] split: option.splits)

lemma job_of_sending [simp]: "job_of (m\<lparr>ar_sending := x\<rparr>) = job_of m" "job_of (m\<lparr>ar_tasks := x\<rparr>) = job_of m"
  "job_of (m\<lparr>ar_building := b\<rparr>) = job_of m" "job_of (m\<lparr>ar_files := f\<rparr>) = job_of m"
  by (simp_all add: job_of_def fun_eq_iff)

lemma job_of_remove_file [simp]: "job_of (remove_file name m) = job_of m"
  by (simp add: remove_file_def split: option.splits)

lemma finish_job_of:
  assumes "job_of m i = Some j"
  shows "\<exists>j'. job_of (finish_job zipped sf k name r m) i = Some j' \<and> jb_UserID j' = jb_UserID j
    \<and> (k \<noteq> i \<longrightarrow> j' = j)"
  using assms by (auto simp: finish_job_def job_of_def [symmetric] Let_def split: option.splits sum.splits)

lemma job_after:
  assumes "arch_step ok reads zipped m m'" and inv: "arch_inv ok reads zipped m" and j: "job_of m i = Some j"
  shows "job_kept i j m'"
  using assms(1)
proof (cases rule: arch_step.cases)
  case (as_register flt now random uid root es allow r)
  then have "job_of m' i = job_of m i" if "i \<noteq> hex_encode random"
    using that by (auto simp: register_job_def split: option.splits if_splits)
  moreover have "i \<noteq> hex_encode random" using as_register(3) j by (auto simp: job_of_def)
  ultimately show ?thesis using j by (intro job_kept_eq) simp_all
next
  case (as_send c k r)
  show ?thesis
  proof (cases "map_of (ar_sending m) k")
    case None
    with as_send j show ?thesis by (simp add: send_task_def job_kept_refl)
  next
    case (Some es)
    let ?m1 = "m\<lparr>ar_sending := AList.delete k (ar_sending m)\<rparr>"
    have "job_kept i j (fst (ar_Cancel k ?m1))" using j by (intro job_kept_cancel) simp
    with Some as_send j show ?thesis by (cases c) (auto simp: send_task_def job_kept_def)
  qed
next
  case (as_take name)
  have "job_of (take_task name m) = job_of m" by (simp add: take_task_def job_of_def fun_eq_iff split: list.splits)
  with as_take j show ?thesis by (simp add: job_kept_refl)
next
  case (as_finish ev cf n)
  show ?thesis
  proof (cases "n < length (ar_building m)")
    case False
    with as_finish j show ?thesis by (simp add: finish_build_def job_kept_refl)
  next
    case True
    obtain k es name where b: "ar_building m ! n = ((k, es), name)" by (metis prod.collapse)
    with True have "((k, es), name) \<in> set (ar_building m)" by (metis nth_mem)
    then have "(k, es) \<in> set (pending m)" by (force simp: pending_def)
    with arch_invD(5) [OF inv this] j have run: "k = i \<longrightarrow> jb_Status j = Running" by (auto simp: task_ok_def)
    obtain r where r: "job_of m' = job_of (finish_job zipped False k name r m)"
      using True b as_finish(1) by (simp add: finish_build_def Let_def)
    obtain j' where "job_of m' i = Some j'" "jb_UserID j' = jb_UserID j" "k \<noteq> i \<longrightarrow> j' = j"
      using finish_job_of [OF j, of zipped False k name r] r by auto
    with run show ?thesis by (auto simp: job_kept_def)
  qed
next
  case (as_cancel k)
  with j show ?thesis by (simp add: job_kept_cancel)
next
  case (as_cleanup now)
  show ?thesis
  proof (cases "job_of m' i")
    case (Some j')
    then have "(i, j') \<in> set (ar_jobs m)"
      using as_cleanup by (auto simp: job_of_def ar_Cleanup_def dest: map_of_SomeD)
    with arch_invD(1) [OF inv] have "job_of m i = Some j'" by (simp add: job_of_def)
    with Some j show ?thesis by (simp add: job_kept_def)
  qed (simp add: job_kept_def)
next
  case as_close
  have "job_of m' i = Some j \<or> job_of m' i = Some (j\<lparr>jb_cancelled := True\<rparr>)"
    using as_close j by (simp add: job_of_def close_begin_def map_of_map)
  then show ?thesis by (auto simp: job_kept_def)
next
  case as_closed
  with j show ?thesis by (auto simp: close_end_def job_kept_def job_of_def)
qed

text \<open>The queue and the workers are bounded.\<close>

definition arch_bounded :: "archive_options \<Rightarrow> archive_manager \<Rightarrow> bool" where
  "arch_bounded o1 m \<longleftrightarrow> ar_options m = o1 \<and> int (length (ar_tasks m)) \<le> op_Workers o1
     \<and> int (length (ar_building m)) \<le> op_Workers o1"

lemma same_queues:
  "register_job flt now random uid root es allow m = (m', r) \<Longrightarrow>
    ar_options m' = ar_options m \<and> ar_tasks m' = ar_tasks m \<and> ar_building m' = ar_building m"
  by (auto simp: register_job_def split: option.splits if_splits)

lemma finish_job_queues:
  "ar_options (finish_job zipped sf i name res m) = ar_options m" "ar_tasks (finish_job zipped sf i name res m) = ar_tasks m"
  by (auto simp: finish_job_def remove_file_def Let_def split: option.splits sum.splits)

lemma cancel_queues:
  "ar_options (fst (ar_Cancel i m)) = ar_options m" "ar_tasks (fst (ar_Cancel i m)) = ar_tasks m"
  "ar_building (fst (ar_Cancel i m)) = ar_building m"
  by (auto simp: ar_Cancel_def split: option.splits)

lemma arch_step_bounded: "arch_step ok reads zipped m m' \<Longrightarrow> arch_bounded o1 m \<Longrightarrow> arch_bounded o1 m'"
proof (induction rule: arch_step.induct)
  case (as_register flt now random uid root es allow m m' r)
  then show ?case using same_queues by (fastforce simp: arch_bounded_def)
next
  case (as_send c m i m' r)
  then show ?case
    by (cases c) (auto simp: send_task_def can_send_def arch_bounded_def Let_def cancel_queues split: option.splits)
next
  case (as_take m name)
  then show ?case by (auto simp: take_task_def arch_bounded_def split: list.splits)
next
  case (as_finish ev m cf n)
  then show ?case by (auto simp: finish_build_def Let_def arch_bounded_def finish_job_queues split: prod.splits)
next
  case (as_cancel m i)
  then show ?case by (simp add: cancel_queues arch_bounded_def)
qed (auto simp: ar_Cleanup_def close_begin_def close_end_def arch_bounded_def)

interpretation arch_limits: invariant_system "arch_step ok reads zipped" "arch_bounded o1" for ok reads zipped o1
  by unfold_locales (rule arch_step_bounded)

text \<open>
  A creator that gives up while it waits for room leaves a running job without a task: no step
  but the end of \<open>Close\<close> removes it.
\<close>

definition abandoned :: "string \<Rightarrow> archive_manager \<Rightarrow> bool" where
  "abandoned i m \<longleftrightarrow> (\<exists>j. job_of m i = Some j \<and> jb_Status j = Running) \<and> i \<notin> fst ` set (pending m)"

lemma cleanup_keeps_abandoned: "abandoned i m \<Longrightarrow> abandoned i (fst (ar_Cleanup now m))"
proof -
  assume a: "abandoned i m"
  then obtain j where j: "job_of m i = Some j" "jb_Status j = Running" by (auto simp: abandoned_def)
  have "map_of (filter (\<lambda>j. \<not> collectable now (snd j)) xs) i = Some j" if "map_of xs i = Some j" for xs
    using that j(2) by (induction xs) (auto simp: collectable_def split: if_splits)
  with j have "job_of (fst (ar_Cleanup now m)) i = Some j" by (simp add: ar_Cleanup_def job_of_def)
  moreover have "pending (fst (ar_Cleanup now m)) = pending m" by (simp add: ar_Cleanup_def pending_def)
  ultimately show ?thesis using a j(2) by (simp add: abandoned_def)
qed

lemma gave_up_abandons:
  assumes inv: "arch_inv ok reads zipped m" and i: "i \<in> fst ` set (ar_sending m)" and j: "job_of m i \<noteq> None"
    and op: "send_task GaveUp i m = (m', r)"
  shows "abandoned i m' \<and> r = Inl Cancelled"
proof -
  let ?m1 = "m\<lparr>ar_sending := AList.delete i (ar_sending m)\<rparr>"
  from i obtain es where es: "map_of (ar_sending m) i = Some es"
    using map_of_eq_None_iff [of "ar_sending m" i] by (cases "map_of (ar_sending m) i") auto
  then have m': "m' = fst (ar_Cancel i ?m1)" and r: "r = Inl Cancelled"
    using op by (simp_all add: send_task_def)
  have "(i, es) \<in> set (pending m)" using map_of_SomeD [OF es] by (simp add: pending_def)
  from arch_invD(5) [OF inv this] j obtain q where q: "job_of m i = Some q" "jb_Status q = Running"
    by (auto simp: task_ok_def)
  then have "job_of m' i = Some (q\<lparr>jb_cancelled := True\<rparr>)" and "pending m' = pending ?m1"
    using m' by (simp_all add: ar_Cancel_def job_of_def [symmetric])
  moreover have "i \<notin> fst ` set (ar_tasks m @ map fst (ar_building m))"
    using arch_invD(2) [OF inv] i
    unfolding pending_def map_append [of fst "ar_sending m"] distinct_append set_map by blast
  then have "i \<notin> fst ` set (pending ?m1)" by (auto simp: pending_def set_delete_fst)
  ultimately show ?thesis using q(2) r by (simp add: abandoned_def)
qed

end
