(* ===== verification/ArchiveApi.thy ===== *)
theory ArchiveApi
  imports Http ArchiveInv
begin

text \<open>
  The archive endpoints (\<open>internal/httpapi/archives.go\<close>) over the archive manager.  \<open>dbs p\<close> is
  the database as the check of the path \<open>p\<close> sees it, and \<open>mid\<close> what the rest of the system
  does between two calls of a handler.
\<close>

record archive_request =
  aq_Path :: string
  aq_FileIDs :: "int list"

record archive_faults =
  cf_root :: bool
  cf_files :: bool
  cf_auth :: "string \<Rightarrow> bool"
  cf_random :: bool

section \<open>Creating\<close>

text \<open>The decoded path of a request: without a path the whole root.\<close>

definition requested_path :: "string \<Rightarrow> string" where
  "requested_path p =
     (let p1 = (if p = [] then ''/'' else p) in if p1 = ''/'' then ''/'' else trim_prefix p1 ''/'')"

text \<open>The explicit ids must be positive and different.\<close>

fun requested_ids :: "int list \<Rightarrow> int list \<Rightarrow> int list option" where
  "requested_ids requested [] = Some requested"
| "requested_ids requested (i # is) =
     (if i \<le> 0 then None else if i \<in> set requested then None else requested_ids (i # requested) is)"

definition selects :: "string \<Rightarrow> int list \<Rightarrow> file_row \<Rightarrow> bool" where
  "selects p ids f \<longleftrightarrow>
     (if ids = [] then file_LogicalPath f = p \<or> has_prefix (file_LogicalPath f) (trim_suffix p ''/'' @ ''/'')
      else file_ID f \<in> set ids)"

definition entry_of :: "file_row \<Rightarrow> archive_entry" where
  "entry_of f = \<lparr>en_LogicalPath = file_LogicalPath f, en_ObjectKey = file_ObjectKey f, en_Size = file_Size f\<rparr>"

definition select_files :: "int \<Rightarrow> string \<Rightarrow> int list \<Rightarrow> file_row list \<Rightarrow> file_row list" where
  "select_files rid p ids files = filter (\<lambda>f. selects p ids f \<and> (ids = [] \<or> file_RootID f = rid)) files"

definition Allow ::
    "(string \<Rightarrow> string) \<Rightarrow> name_policy \<Rightarrow> (string \<Rightarrow> bool) \<Rightarrow> (string \<Rightarrow> db) \<Rightarrow> int \<Rightarrow> int \<Rightarrow> string \<Rightarrow> err + bool" where
  "Allow nfc policy flt dbs uid rid p = authorized nfc policy (flt p) (dbs p) uid rid p ''archive''"

definition createArchive ::
    "(string \<Rightarrow> string) \<Rightarrow> name_policy \<Rightarrow> archive_faults \<Rightarrow> int \<Rightarrow> string \<Rightarrow> send
     \<Rightarrow> (archive_manager \<Rightarrow> archive_manager) \<Rightarrow> (string \<Rightarrow> db) \<Rightarrow> request_context \<Rightarrow> string
     \<Rightarrow> archive_request option \<Rightarrow> db \<Rightarrow> archive_manager \<Rightarrow> archive_manager \<times> response" where
  "createArchive nfc policy F now random c mid dbs ctx rootID req d m =
     (case parse_int64 rootID of
        None \<Rightarrow> (m, http_error ''invalid root'' 400)
      | Some rid \<Rightarrow>
          if rid \<le> 0 then (m, http_error ''invalid root'' 400)
          else
            (case req of
               None \<Rightarrow> (m, http_error ''invalid archive request'' 400)
             | Some q \<Rightarrow>
                 (case ParseDecodedPath nfc (requested_path (aq_Path q)) policy of
                    Inl e \<Rightarrow> (m, http_error ''invalid path'' 400)
                  | Inr p \<Rightarrow>
                      (case session_user ctx of
                         None \<Rightarrow> (m, http_error ''unauthorized'' 401)
                       | Some uid \<Rightarrow>
                           (case StorageRootByID (cf_root F) d rid of
                              Inl e \<Rightarrow> (m, not_found)
                            | Inr _ \<Rightarrow>
                                (case FilesUnderRoot (cf_files F) d rid of
                                   Inl e \<Rightarrow> (m, http_error ''load files'' 500)
                                 | Inr files \<Rightarrow>
                                     (case requested_ids [] (aq_FileIDs q) of
                                        None \<Rightarrow> (m, http_error ''invalid archive selection'' 400)
                                      | Some requested \<Rightarrow>
                                          (let chosen = select_files rid (Canonical p) (aq_FileIDs q) files in
                                           if requested \<noteq> []
                                              \<and> length (remdups (map file_ID chosen)) \<noteq> length requested
                                           then (m, http_error ''archive file not found'' 404)
                                           else
                                             (case ar_CreateForUser (cf_random F) now random c mid uid (Canonical p)
                                                     (map entry_of chosen)
                                                     (Allow nfc policy (cf_auth F) dbs uid rid) m of
                                                (m', Inl e) \<Rightarrow>
                                                  (m', if e = Forbidden then http_error ''forbidden'' 403
                                                       else http_error ''cannot create archive'' 400)
                                              | (m', Inr i) \<Rightarrow> (m', reply 202 (JobInfo i)))))))))))"

section \<open>Downloading and cancelling\<close>

definition requester :: "request_context \<Rightarrow> int" where
  "requester ctx = (case rc_User ctx of None \<Rightarrow> 0 | Some uid \<Rightarrow> uid)"

definition downloadArchive ::
    "(archive_manager \<Rightarrow> archive_manager) \<Rightarrow> (archive_manager \<Rightarrow> archive_manager) \<Rightarrow> request_context \<Rightarrow> string
     \<Rightarrow> archive_manager \<Rightarrow> archive_manager \<times> response" where
  "downloadArchive mid1 mid2 ctx i m =
     (if \<not> OwnedBy i (requester ctx) m then (m, not_found)
      else
        (let m1 = mid1 m in
         case ar_Job i m1 of
           Inl e \<Rightarrow> (m1, not_found)
         | Inr j \<Rightarrow>
             if jb_Status j = Running
             then (m1, with_headers [(''Retry-After'', ''1'')] (http_error ''archive pending'' 202))
             else if jb_Status j \<noteq> Finished then (m1, not_found)
             else
               (let m2 = mid2 m1 in
                case ar_Open i m2 of
                  Inl e \<Rightarrow> (m2, not_found)
                | Inr c \<Rightarrow>
                    (m2, with_headers [(''Content-Type'', ''application/zip''), (''Content-Length'', itoa (jb_Size j)),
                            (''Content-Disposition'', ''attachment; filename=\"archive.zip\"'')]
                           (reply 200 (Data c))))))"

definition cancelArchive ::
    "(archive_manager \<Rightarrow> archive_manager) \<Rightarrow> request_context \<Rightarrow> string \<Rightarrow> archive_manager
     \<Rightarrow> archive_manager \<times> response" where
  "cancelArchive mid ctx i m =
     (if \<not> OwnedBy i (requester ctx) m then (m, not_found)
      else
        (case ar_Cancel i (mid m) of
           (m', Inl e) \<Rightarrow> (m', not_found)
         | (m', Inr ()) \<Rightarrow> (m', reply 204 NoContent)))"

section \<open>What a request gets\<close>

lemma CreateForUser_Inr:
  assumes "ar_CreateForUser flt now random c mid uid root es allow m = (m', Inr i)"
  obtains m1 where "register_job flt now random uid root es allow m = (m1, Inr i)" "c = Sent" "0 < uid"
    "i = hex_encode random" "send_task Sent i (mid m1) = (m', Inr i)"
proof -
  obtain m1 r where reg: "register_job flt now random uid root es allow m = (m1, r)" by fastforce
  from assms reg obtain k where k: "r = Inr k" "0 < uid" "send_task c k (mid m1) = (m', Inr i)"
    by (cases r) (auto simp: ar_CreateForUser_def split: if_splits)
  then have "c = Sent" "k = i" by (auto simp: send_task_def Let_def split: option.splits send.splits)
  moreover have "k = hex_encode random"
    using reg k(1) by (auto simp: register_job_def split: option.splits if_splits)
  ultimately show thesis using that reg k by blast
qed

lemma register_Inr:
  assumes "register_job flt now random uid root es allow m = (m', Inr i)"
  shows "validate_archive root es (ar_options m) = None" "\<forall>e \<in> set es. allow (en_LogicalPath e) = Inr True"
    "\<not> ar_closed m" "job_of m' i = Some \<lparr>jb_UserID = uid, jb_Status = Running, jb_CreatedAt = now,
      jb_ExpiresAt = now + op_TTL (ar_options m), jb_Size = 0, jb_Err = None, jb_file = [], jb_cancelled = False\<rparr>"
    "ar_sending m' = ar_sending m @ [(i, es)]"
proof -
  have all: "all_allowed allow es = None" and v: "validate_archive root es (ar_options m) = None" "\<not> ar_closed m"
    using assms by (auto simp: register_job_def split: option.splits if_splits)
  from all show "\<forall>e \<in> set es. allow (en_LogicalPath e) = Inr True"
    by (induction es) (auto split: sum.splits bool.splits)
  show "validate_archive root es (ar_options m) = None" "\<not> ar_closed m" using v by blast+
  show "job_of m' i = Some \<lparr>jb_UserID = uid, jb_Status = Running, jb_CreatedAt = now,
      jb_ExpiresAt = now + op_TTL (ar_options m), jb_Size = 0, jb_Err = None, jb_file = [], jb_cancelled = False\<rparr>"
    and "ar_sending m' = ar_sending m @ [(i, es)]"
    using assms by (auto simp: register_job_def job_of_def put_job_def update_conv' split: option.splits if_splits)
qed

lemma createArchive_202:
  assumes "createArchive nfc policy F now random c mid dbs ctx rootID req d m = (m', resp)" and "res_status resp = 202"
  obtains rid q p uid i where "parse_int64 rootID = Some rid" "req = Some q"
    "ParseDecodedPath nfc (requested_path (aq_Path q)) policy = Inr p" "session_user ctx = Some uid"
    "requested_ids [] (aq_FileIDs q) \<noteq> None" "resp = reply 202 (JobInfo i)"
    "ar_CreateForUser (cf_random F) now random c mid uid (Canonical p)
       (map entry_of (select_files rid (Canonical p) (aq_FileIDs q)
          (map (\<lambda>f. f\<lparr>file_MD5Status := [], file_MD5Digest := [], file_MD5Error := []\<rparr>)
             (sort_key file_LogicalPath (filter (\<lambda>f. file_RootID f = rid) (db_files d))))))
       (Allow nfc policy (cf_auth F) dbs uid rid) m = (m', Inr i)"
proof -
  have "\<exists>rid q p uid i. parse_int64 rootID = Some rid \<and> req = Some q
    \<and> ParseDecodedPath nfc (requested_path (aq_Path q)) policy = Inr p \<and> session_user ctx = Some uid
    \<and> requested_ids [] (aq_FileIDs q) \<noteq> None \<and> resp = reply 202 (JobInfo i)
    \<and> (\<exists>files. FilesUnderRoot (cf_files F) d rid = Inr files
        \<and> ar_CreateForUser (cf_random F) now random c mid uid (Canonical p)
            (map entry_of (select_files rid (Canonical p) (aq_FileIDs q) files))
            (Allow nfc policy (cf_auth F) dbs uid rid) m = (m', Inr i))"
    using assms unfolding createArchive_def Let_def
    by (auto split: option.splits sum.splits if_splits prod.splits)
  then show thesis using that by (auto simp: FilesUnderRoot_def split: if_splits)
qed

text \<open>An accepted archive: every member is a row of the root the user may archive.\<close>

lemma createArchive_authorized:
  assumes op: "createArchive nfc policy F now random c mid dbs ctx rootID req d m = (m', resp)" and "res_status resp = 202"
    and opts: "0 \<le> op_MaxBytes (ar_options m)" "op_MaxBytes (ar_options m) < 2 ^ 63"
    and new: "hex_encode random \<notin> fst ` set (ar_sending m)"
    and mid: "\<And>k. map_of (ar_sending (mid k)) (hex_encode random) = map_of (ar_sending k) (hex_encode random)"
  shows "\<exists>rid uid i es. parse_int64 rootID = Some rid \<and> session_user ctx = Some uid
    \<and> res_body resp = JobInfo i \<and> (i, es) \<in> set (ar_tasks m') \<and> es \<noteq> []
    \<and> int (length es) \<le> op_MaxFiles (ar_options m) \<and> sum_list (map en_Size es) \<le> op_MaxBytes (ar_options m)
    \<and> (\<forall>e \<in> set es. authorized nfc policy False (dbs (en_LogicalPath e)) uid rid (en_LogicalPath e) ''archive'' = Inr True
         \<and> (\<exists>f \<in> set (db_files d). file_RootID f = rid \<and> entry_of f = e))"
  using op assms(2)
proof (cases rule: createArchive_202)
  case (1 rid q p uid i)
  let ?es = "map entry_of (select_files rid (Canonical p) (aq_FileIDs q)
      (map (\<lambda>f. f\<lparr>file_MD5Status := [], file_MD5Digest := [], file_MD5Error := []\<rparr>)
         (sort_key file_LogicalPath (filter (\<lambda>f. file_RootID f = rid) (db_files d)))))"
  from CreateForUser_Inr [OF 1(7)] obtain m1 where m1:
    "register_job (cf_random F) now random uid (Canonical p) ?es (Allow nfc policy (cf_auth F) dbs uid rid) m = (m1, Inr i)"
    "i = hex_encode random" "send_task Sent i (mid m1) = (m', Inr i)" by metis
  note reg = register_Inr [OF m1(1)]
  have v: "validate_entries (Canonical p) (op_MaxBytes (ar_options m)) 0 ?es = None" "?es \<noteq> []"
    "int (length ?es) \<le> op_MaxFiles (ar_options m)"
    using reg(1) by (auto simp: validate_archive_def split: if_splits)
  have "map_of (ar_sending (mid m1)) i = Some ?es"
    using new mid [of m1] m1(2) reg(5) by (simp add: map_add_def map_of_eq_None_iff [THEN iffD2])
  then have queued: "(i, ?es) \<in> set (ar_tasks m')"
    using m1(3) by (auto simp: send_task_def Let_def)
  have sizes: "sum_list (map en_Size ?es) \<le> op_MaxBytes (ar_options m)"
    using validate_entries_bound [OF v(1) _ opts] by simp
  have member: "authorized nfc policy False (dbs (en_LogicalPath e)) uid rid (en_LogicalPath e) ''archive'' = Inr True
      \<and> (\<exists>f \<in> set (db_files d). file_RootID f = rid \<and> entry_of f = e)" if e: "e \<in> set ?es" for e
  proof
    from reg(2) e have "Allow nfc policy (cf_auth F) dbs uid rid (en_LogicalPath e) = Inr True" by blast
    then show "authorized nfc policy False (dbs (en_LogicalPath e)) uid rid (en_LogicalPath e) ''archive'' = Inr True"
      unfolding Allow_def by (rule authorized_quiet)
    show "\<exists>f \<in> set (db_files d). file_RootID f = rid \<and> entry_of f = e"
      using e by (auto simp: select_files_def entry_of_def)
  qed
  show ?thesis
    using 1(1,4,6) queued v(2,3) sizes member by (intro exI [of _ rid] exI [of _ uid] exI [of _ i] exI [of _ ?es]) simp
qed

section \<open>Downloads\<close>

text \<open>While a request is served, its job is not registered anew.\<close>

definition serving_step ::
    "(int \<Rightarrow> string \<Rightarrow> bool) \<Rightarrow> (string \<Rightarrow> string \<Rightarrow> bool) \<Rightarrow> ((string \<times> string) list \<Rightarrow> string) \<Rightarrow> string
     \<Rightarrow> archive_manager \<Rightarrow> archive_manager \<Rightarrow> bool" where
  "serving_step ok reads zipped i m m' \<longleftrightarrow>
     arch_step ok reads zipped m m' \<and> (job_of m i = None \<longrightarrow> job_of m' i = None)"

lemma serving_step_inv:
  assumes "arch_inv ok reads zipped m \<and> job_kept i j m" and "serving_step ok reads zipped i m m'"
  shows "arch_inv ok reads zipped m' \<and> job_kept i j m'"
proof
  have step: "arch_step ok reads zipped m m'" using assms(2) by (simp add: serving_step_def)
  show "arch_inv ok reads zipped m'" using arch_step_inv [OF step] assms(1) by blast
  show "job_kept i j m'"
  proof (cases "job_of m i")
    case None
    with assms(2) show ?thesis by (simp add: serving_step_def job_kept_def)
  next
    case (Some j1)
    with job_after [OF step, of i j1] assms(1) show ?thesis
      by (auto simp: job_kept_def split: option.splits)
  qed
qed

interpretation serving: invariant_system "serving_step ok reads zipped i" "\<lambda>m. arch_inv ok reads zipped m \<and> job_kept i j m"
  for ok reads zipped i j
  by unfold_locales (rule serving_step_inv)

lemma downloadArchive_200:
  assumes inv: "arch_inv ok reads zipped m"
    and mid: "\<And>k. run (serving_step ok reads zipped i) k (mid1 k)" "\<And>k. run (serving_step ok reads zipped i) k (mid2 k)"
    and op: "downloadArchive mid1 mid2 ctx i m = (m', resp)" and st: "res_status resp = 200"
  shows "\<exists>uid ms. rc_User ctx = Some uid \<and> 0 < uid \<and> res_body resp = Data (zipped ms)
    \<and> members_ok ok reads uid ms \<and> header_of ''Content-Length'' resp = Some (itoa (int (length (zipped ms))))"
proof -
  from op st have owned: "OwnedBy i (requester ctx) m" by (auto simp: downloadArchive_def split: if_splits)
  then obtain j where j: "job_of m i = Some j" "jb_UserID j = requester ctx" "0 < requester ctx"
    by (auto simp: OwnedBy_def job_of_def split: option.splits)
  have m1: "arch_inv ok reads zipped (mid1 m)" "job_kept i j (mid1 m)"
    using serving.run_inv [OF mid(1), where j = j] inv job_kept_refl [OF j(1)] by blast+
  obtain j1 c where j1: "ar_Job i (mid1 m) = Inr j1" "jb_Status j1 = Finished"
    and c: "ar_Open i (mid2 (mid1 m)) = Inr c"
    and resp: "resp = with_headers [(''Content-Type'', ''application/zip''), (''Content-Length'', itoa (jb_Size j1)),
      (''Content-Disposition'', ''attachment; filename=\"archive.zip\"'')] (reply 200 (Data c))"
    using op st owned by (auto simp: downloadArchive_def Let_def split: if_splits sum.splits)
  then have k1: "job_of (mid1 m) i = Some j1" by (auto simp: ar_Job_def job_of_def split: option.splits)
  with m1(2) j(2) have u1: "jb_UserID j1 = requester ctx" by (simp add: job_kept_def)
  have m2: "arch_inv ok reads zipped (mid2 (mid1 m))" "job_kept i j1 (mid2 (mid1 m))"
    using serving.run_inv [OF mid(2), where j = j1] m1(1) job_kept_refl [OF k1] by blast+
  from c obtain j2 where j2: "ar_Job i (mid2 (mid1 m)) = Inr j2" "job_of (mid2 (mid1 m)) i = Some j2"
    by (auto simp: ar_Open_def ar_Job_def job_of_def split: option.splits)
  with m2(2) j1(2) u1 have same: "jb_UserID j2 = requester ctx" "jb_Size j2 = jb_Size j1"
    by (simp_all add: job_kept_def)
  obtain uid where uid: "rc_User ctx = Some uid" "requester ctx = uid"
    using j(3) by (cases "rc_User ctx") (simp_all add: requester_def)
  with open_members [OF m2(1) c j2(1)] same j(3) show ?thesis by (auto simp: resp header_of_def)
qed

text \<open>A request for another user's job is answered as for none.\<close>

lemma archive_hidden:
  assumes "\<not> OwnedBy i (requester ctx) m"
  shows "downloadArchive mid1 mid2 ctx i m = (m, not_found)" "cancelArchive mid ctx i m = (m, not_found)"
  using assms by (simp_all add: downloadArchive_def cancelArchive_def)

text \<open>No step looks at the time of a job: an expired artifact is served until it is collected.\<close>

lemma expired_is_served:
  assumes inv: "arch_inv ok reads zipped m" and j: "ar_Job i m = Inr j" and "jb_Status j = Finished"
    and user: "rc_User ctx = Some (jb_UserID j)" and "jb_ExpiresAt j \<le> now"
  shows "res_status (snd (downloadArchive (\<lambda>k. k) (\<lambda>k. k) ctx i m)) = 200"
proof -
  have "job_of m i = Some j" using j by (auto simp: ar_Job_def job_of_def split: option.splits)
  with arch_invD(7) [OF inv this] user have "OwnedBy i (requester ctx) m"
    by (simp add: OwnedBy_def job_of_def requester_def)
  with finished_opens [OF inv j assms(3)] j assms(3) show ?thesis
    by (auto simp: downloadArchive_def Let_def)
qed

end
