(* ===== verification/AssetStore.thy ===== *)
theory AssetStore
  imports GoText
begin

text \<open>
  The files of the branding images (\<open>internal/siteassets/store.go\<close>): what is accepted as an
  image, and the three operations of the store.  The decoders of package \<open>image\<close> are the
  parameter \<open>decode_config\<close>, from the bytes to format, width and height; the ICO directory is
  read by the program itself.
\<close>

record asset =
  as_Key :: string
  as_ContentType :: string
  as_Size :: int
  as_Width :: int
  as_Height :: int

text \<open>The limits, and the files of the directory by their key.\<close>

record asset_store =
  ax_MaxBytes :: int
  ax_MaxPixels :: int
  ax_files :: "string \<Rightarrow> string option"

definition NewAssetStore :: "bool \<Rightarrow> int \<Rightarrow> int \<Rightarrow> err + asset_store" where
  "NewAssetStore flt maxBytes maxPixels =
     (if maxBytes \<le> 0 \<or> maxPixels \<le> 0 then Inl Invalid
      else if flt then Inl IoError
      else Inr \<lparr>ax_MaxBytes = maxBytes, ax_MaxPixels = maxPixels, ax_files = Map.empty\<rparr>)"

section \<open>Names and keys\<close>

text \<open>\<open>filepath.Ext\<close>: from the last dot of the last element.\<close>

definition path_ext :: "string \<Rightarrow> string" where
  "path_ext s =
     (let parts = split_on (CHR ''.'') (last (split_on (CHR ''/'') s)) in
      if length parts \<le> 1 then [] else CHR ''.'' # last parts)"

text \<open>\<open>strings.Contains (name, "..")\<close>.\<close>

fun has_dots :: "string \<Rightarrow> bool" where
  "has_dots (a # b # s) \<longleftrightarrow> a = CHR ''.'' \<and> b = CHR ''.'' \<or> has_dots (b # s)"
| "has_dots _ \<longleftrightarrow> False"

text \<open>A name is its own \<open>filepath.Base\<close> when it has no slash, or is the slash itself.\<close>

definition is_base :: "string \<Rightarrow> bool" where
  "is_base name \<longleftrightarrow> CHR ''/'' \<notin> set name \<or> name = ''/''"

definition safeExtension :: "string \<Rightarrow> string option" where
  "safeExtension name =
     (if name = [] \<or> \<not> is_base name \<or> CHR 0x5C \<in> set name \<or> has_dots name then None
      else
        (let ext1 = trim_prefix (to_lower (path_ext name)) ''.'';
             ext = (if ext1 = ''jpg'' then ''jpeg'' else ext1) in
         if ext \<noteq> ''png'' \<and> ext \<noteq> ''jpeg'' \<and> ext \<noteq> ''gif'' \<and> ext \<noteq> ''ico'' then None else Some ext))"

definition validKey :: "string \<Rightarrow> bool" where
  "validKey key \<longleftrightarrow>
     (case split_on (CHR ''/'') key of
        [d, name] \<Rightarrow>
          (let stem = trim_suffix name (path_ext name) in
           d = ''site'' \<and> length stem = 64 \<and> list_all is_lower_hex_char stem \<and> safeExtension name \<noteq> None)
      | _ \<Rightarrow> False)"

section \<open>Images\<close>

text \<open>Bytes at a position, little and big endian.\<close>

definition byte_at :: "string \<Rightarrow> nat \<Rightarrow> int" where
  "byte_at s i = (if i < length s then int (of_char (s ! i)) else 0)"

definition le32 :: "string \<Rightarrow> nat \<Rightarrow> int" where
  "le32 s i = byte_at s i + 256 * byte_at s (i + 1) + 65536 * byte_at s (i + 2) + 16777216 * byte_at s (i + 3)"

definition be32 :: "string \<Rightarrow> nat \<Rightarrow> int" where
  "be32 s i = 16777216 * byte_at s i + 65536 * byte_at s (i + 1) + 256 * byte_at s (i + 2) + byte_at s (i + 3)"

definition png_signature :: string where
  "png_signature = map char_of [137 :: nat, 80, 78, 71, 13, 10, 26, 10]"

definition validICOImagePayload :: "string \<Rightarrow> int \<Rightarrow> int \<Rightarrow> bool" where
  "validICOImagePayload payload width height \<longleftrightarrow>
     (if 24 \<le> length payload \<and> take 8 payload = png_signature
      then be32 payload 16 = width \<and> be32 payload 20 = height
      else if length payload < 40 \<or> le32 payload 0 \<noteq> 40 then False
      else le32 payload 4 = width \<and> le32 payload 8 = height * 2 \<and> byte_at payload 12 = 1 \<and> byte_at payload 13 = 0)"

text \<open>A width or height of 0 stands for 256.\<close>

definition ico_side :: "int \<Rightarrow> int" where
  "ico_side b = (if b = 0 then 256 else b)"

text \<open>One directory entry: its dimensions if its payload lies in the file and is an image of that size.\<close>

definition ico_entry :: "string \<Rightarrow> nat \<Rightarrow> nat \<Rightarrow> (int \<times> int) option" where
  "ico_entry s count i =
     (let p = 6 + 16 * i; width = ico_side (byte_at s p); height = ico_side (byte_at s (p + 1));
          size = le32 s (p + 8); offset = le32 s (p + 12) in
      if size = 0 \<or> offset < int (6 + 16 * count) \<or> offset > int (length s) \<or> size > int (length s) - offset then None
      else if \<not> validICOImagePayload (take (nat size) (drop (nat offset) s)) width height then None
      else Some (width, height))"

fun ico_entries :: "string \<Rightarrow> nat \<Rightarrow> nat list \<Rightarrow> int \<Rightarrow> int \<Rightarrow> (int \<times> int) option" where
  "ico_entries s count [] w h = Some (w, h)"
| "ico_entries s count (i # is) w h =
     (case ico_entry s count i of
        None \<Rightarrow> None
      | Some (width, height) \<Rightarrow>
          ico_entries s count is (if width > w then width else w) (if height > h then height else h))"

definition icoDimensions :: "string \<Rightarrow> (int \<times> int) option" where
  "icoDimensions s =
     (if length s < 6 \<or> byte_at s 0 \<noteq> 0 \<or> byte_at s 1 \<noteq> 0 \<or> byte_at s 2 \<noteq> 1 \<or> byte_at s 3 \<noteq> 0 then None
      else
        (let count = nat (byte_at s 4 + 256 * byte_at s 5) in
         if count < 1 then None
         else if length s < 6 + 16 * count then None
         else ico_entries s count [0..<count] 0 0))"

text \<open>The content types of the formats; \<open>extensionForFormat\<close> is the identity.\<close>

definition extensionForFormat :: "string \<Rightarrow> string" where
  "extensionForFormat ext = (if ext = ''jpeg'' then ''jpeg'' else ext)"

definition mime_of :: "string \<Rightarrow> string option" where
  "mime_of format =
     (if format = ''png'' then Some ''image/png'' else if format = ''jpeg'' then Some ''image/jpeg''
      else if format = ''gif'' then Some ''image/gif'' else None)"

definition validateImage ::
    "(string \<Rightarrow> (string \<times> int \<times> int) option) \<Rightarrow> bool \<Rightarrow> string \<Rightarrow> string \<Rightarrow> int \<Rightarrow> (int \<times> int \<times> string) option" where
  "validateImage decode_config open_fails content ext maxPixels =
     (if open_fails then None
      else if ext = ''ico'' then
        (case icoDimensions content of
           None \<Rightarrow> None
         | Some (w, h) \<Rightarrow> if w * h > maxPixels then None else Some (w, h, ''image/x-icon''))
      else
        (case decode_config content of
           None \<Rightarrow> None
         | Some (format, w, h) \<Rightarrow>
             (case mime_of format of
                None \<Rightarrow> None
              | Some mime \<Rightarrow>
                  if extensionForFormat ext \<noteq> format then None
                  else if w \<le> 0 \<or> h \<le> 0 \<or> wrap64 (w * h) \<le> 0 \<or> wrap64 (w * h) > maxPixels then None
                  else Some (w, h, mime))))"

section \<open>The store\<close>

record put_faults =
  pf_dir :: bool
  pf_temp :: bool
  pf_copy :: bool
  pf_close :: bool
  pf_reopen :: bool
  pf_random :: bool
  pf_rename :: bool
  pf_chmod :: bool

text \<open>A source delivers bytes and then ends or fails; a limited reader stops after \<open>n\<close> bytes.\<close>

definition limited :: "int \<Rightarrow> string \<times> bool \<Rightarrow> string \<times> bool" where
  "limited n src = (if n \<le> int (length (fst src)) then (take (nat n) (fst src), False) else src)"

definition asset_key :: "string \<Rightarrow> string \<Rightarrow> string" where
  "asset_key random ext = ''site/'' @ hex_encode random @ ''.'' @ ext"

text \<open>
  The temporary file is gone when \<open>Put\<close> returns.  An error of \<open>validateImage\<close>, also one of
  opening the file again, is an \<open>ErrInvalidAsset\<close> (\<open>Invalid\<close>).
\<close>

definition store_Put ::
    "(string \<Rightarrow> (string \<times> int \<times> int) option) \<Rightarrow> put_faults \<Rightarrow> string \<Rightarrow> string \<Rightarrow> string \<times> bool \<Rightarrow> asset_store
     \<Rightarrow> asset_store \<times> (err + asset)" where
  "store_Put decode_config F random filename src s =
     (case safeExtension filename of
        None \<Rightarrow> (s, Inl Invalid)
      | Some ext \<Rightarrow>
          if pf_dir F \<or> pf_temp F then (s, Inl IoError)
          else
            (case limited (wrap64 (ax_MaxBytes s + 1)) src of
               (content, failed) \<Rightarrow>
                 if failed \<or> pf_copy F then (s, Inl IoError)
                 else if int (length content) > ax_MaxBytes s then (s, Inl Invalid)
                 else if pf_close F then (s, Inl IoError)
                 else
                   (case validateImage decode_config (pf_reopen F) content ext (ax_MaxPixels s) of
                      None \<Rightarrow> (s, Inl Invalid)
                    | Some (w, h, mime) \<Rightarrow>
                        if pf_random F \<or> pf_rename F then (s, Inl IoError)
                        else
                          (let key = asset_key random ext;
                               s1 = s\<lparr>ax_files := (ax_files s)(key \<mapsto> content)\<rparr> in
                           if pf_chmod F then (s1, Inl IoError)
                           else (s1, Inr \<lparr>as_Key = key, as_ContentType = mime, as_Size = int (length content),
                                          as_Width = w, as_Height = h\<rparr>)))))"

definition open_asset :: "bool \<Rightarrow> string \<Rightarrow> asset_store \<Rightarrow> err + string" where
  "open_asset flt key s =
     (if \<not> validKey key then Inl Invalid
      else if flt then Inl IoError
      else (case ax_files s key of None \<Rightarrow> Inl NotExist | Some c \<Rightarrow> Inr c))"

definition remove_asset :: "bool \<Rightarrow> string \<Rightarrow> asset_store \<Rightarrow> asset_store \<times> (err + unit)" where
  "remove_asset flt key s =
     (if \<not> validKey key then (s, Inl Invalid)
      else if flt then (s, Inl IoError)
      else (s\<lparr>ax_files := (ax_files s)(key := None)\<rparr>, Inr ()))"

section \<open>Keys stay in the directory\<close>

lemma safeExtension_in: "safeExtension name = Some ext \<Longrightarrow> ext \<in> {''png'', ''jpeg'', ''gif'', ''ico''}"
  by (auto simp: safeExtension_def Let_def split: if_splits)

lemma path_ext_plain: "CHR ''/'' \<notin> set (w @ CHR ''.'' # e) \<Longrightarrow> CHR ''.'' \<notin> set e \<Longrightarrow> path_ext (w @ CHR ''.'' # e) = CHR ''.'' # e"
  by (simp add: path_ext_def split_on_word split_on_append_sep Let_def)

lemma trim_suffix_append [simp]: "trim_suffix (w @ e) e = w"
  by (simp add: trim_suffix_def suffix_def)

lemma has_dots_append: "has_dots (w @ CHR ''.'' # e) \<longleftrightarrow> has_dots w \<or> (w \<noteq> [] \<and> last w = CHR ''.'') \<or> (e \<noteq> [] \<and> hd e = CHR ''.'') \<or> has_dots e"
  by (induction w rule: has_dots.induct) (cases e; auto)+

lemma has_dots_free: "CHR ''.'' \<notin> set w \<Longrightarrow> \<not> has_dots w"
  by (induction w rule: has_dots.induct) auto

lemma hex_free: "list_all is_lower_hex_char w \<Longrightarrow> CHR ''/'' \<notin> set w \<and> CHR ''.'' \<notin> set w \<and> CHR 0x5C \<notin> set w"
proof -
  assume w: "list_all is_lower_hex_char w"
  have "\<not> is_lower_hex_char (CHR ''/'')" "\<not> is_lower_hex_char (CHR ''.'')" "\<not> is_lower_hex_char (CHR 0x5C)"
    by code_simp+
  with w show ?thesis unfolding list_all_iff by blast
qed

lemma to_lower_ext: "ext \<in> {''png'', ''jpeg'', ''gif'', ''ico''} \<Longrightarrow> to_lower (CHR ''.'' # ext) = CHR ''.'' # ext"
  by (elim insertE emptyE; hypsubst; code_simp)

text \<open>The keys that \<open>Put\<close> makes are valid, and a valid key is one name in the directory.\<close>

lemma safeExtension_plain:
  assumes w: "CHR ''/'' \<notin> set w \<and> CHR ''.'' \<notin> set w \<and> CHR 0x5C \<notin> set w"
    and "ext \<in> {''png'', ''jpeg'', ''gif'', ''ico''}"
  shows "safeExtension (w @ CHR ''.'' # ext) = Some ext" "path_ext (w @ CHR ''.'' # ext) = CHR ''.'' # ext"
proof -
  have e: "CHR ''/'' \<notin> set ext" "CHR ''.'' \<notin> set ext" "CHR 0x5C \<notin> set ext" "ext \<noteq> ''jpg''" "ext \<noteq> []" using assms(2) by auto
  show p: "path_ext (w @ CHR ''.'' # ext) = CHR ''.'' # ext" by (rule path_ext_plain) (use w e in simp_all)
  have "\<not> has_dots (w @ CHR ''.'' # ext)"
    using w e has_dots_free [of w] has_dots_free [of ext]
    by (auto simp: has_dots_append dest: last_in_set hd_in_set)
  with w e p to_lower_ext [OF assms(2)] assms(2) show "safeExtension (w @ CHR ''.'' # ext) = Some ext"
    by (auto simp: safeExtension_def is_base_def trim_prefix_def Let_def)
qed

lemmas safeExtension_key = safeExtension_plain [OF hex_free]

lemma asset_key_valid:
  assumes "length random = 32" "ext \<in> {''png'', ''jpeg'', ''gif'', ''ico''}"
  shows "validKey (asset_key random ext)"
proof -
  let ?w = "hex_encode random"
  have w: "list_all is_lower_hex_char ?w" using hex_encode_lower by (auto simp: list_all_iff)
  have "CHR ''/'' \<notin> set (?w @ CHR ''.'' # ext)" using hex_free [OF w] assms(2) by auto
  then have "split_on (CHR ''/'') (asset_key random ext) = [''site'', ?w @ CHR ''.'' # ext]"
    using split_on_append [of "CHR ''/''" "''site''"] by (simp add: asset_key_def split_on_word)
  then show ?thesis
    using safeExtension_key [OF w assms(2)] w assms(1) trim_suffix_append [of ?w "CHR ''.'' # ext"]
    by (simp add: validKey_def Let_def del: trim_suffix_append)
qed

lemma validKey_plain:
  assumes "validKey key"
  shows "\<exists>name. key = ''site/'' @ name \<and> CHR ''/'' \<notin> set name \<and> \<not> has_dots name \<and> name \<noteq> []"
proof -
  from assms obtain name where split: "split_on (CHR ''/'') key = [''site'', name]" and "safeExtension name \<noteq> None"
    by (auto simp: validKey_def Let_def split: list.splits)
  then have "name \<noteq> [] \<and> \<not> has_dots name" by (auto simp: safeExtension_def split: if_splits)
  moreover have "CHR ''/'' \<notin> set name" by (rule split_on_free [of _ _ key]) (simp add: split)
  moreover have "key = ''site/'' @ name" using join_split_on [of "CHR ''/''" key] split by simp
  ultimately show ?thesis by blast
qed

section \<open>What is accepted\<close>

lemma byte_at_range: "0 \<le> byte_at s i \<and> byte_at s i < 256"
  by (simp add: byte_at_def)

lemma ico_side_range: "0 \<le> b \<Longrightarrow> b < 256 \<Longrightarrow> 1 \<le> ico_side b \<and> ico_side b \<le> 256"
  by (simp add: ico_side_def)

text \<open>An accepted entry points to bytes of the file after the directory.\<close>

lemma ico_entry_Some:
  assumes "ico_entry s count i = Some (w, h)"
  shows "1 \<le> w \<and> w \<le> 256 \<and> 1 \<le> h \<and> h \<le> 256"
    "int (6 + 16 * count) \<le> le32 s (6 + 16 * i + 12)"
    "le32 s (6 + 16 * i + 12) + le32 s (6 + 16 * i + 8) \<le> int (length s)" "le32 s (6 + 16 * i + 8) \<noteq> 0"
  using assms ico_side_range byte_at_range
  by (auto simp: ico_entry_def Let_def split: if_splits)

lemma ico_entries_range:
  "ico_entries s count is w h = Some (w', h') \<Longrightarrow> w \<le> 256 \<Longrightarrow> h \<le> 256 \<Longrightarrow>
    w \<le> w' \<and> w' \<le> 256 \<and> h \<le> h' \<and> h' \<le> 256 \<and> (is \<noteq> [] \<longrightarrow> 1 \<le> w' \<and> 1 \<le> h')"
proof (induction "is" arbitrary: w h)
  case (Cons i "is")
  then obtain x y where e: "ico_entry s count i = Some (x, y)" by (auto split: option.splits)
  with Cons.prems Cons.IH [of "if x > w then x else w" "if y > h then y else h"] ico_entry_Some(1) [OF e]
  show ?case by (auto split: if_splits)
qed simp

lemma icoDimensions_range: "icoDimensions s = Some (w, h) \<Longrightarrow> 1 \<le> w \<and> w \<le> 256 \<and> 1 \<le> h \<and> h \<le> 256"
  using ico_entries_range [of s _ _ 0 0 w h] by (fastforce simp: icoDimensions_def Let_def split: if_splits)

text \<open>The decoders read sides of at most 31 bits (PNG) or 16 bits (JPEG, GIF).\<close>

definition sides_fit :: "(string \<Rightarrow> (string \<times> int \<times> int) option) \<Rightarrow> bool" where
  "sides_fit decode_config \<longleftrightarrow>
     (\<forall>c f x y. decode_config c = Some (f, x, y) \<longrightarrow> x < 2 ^ 31 \<and> y < 2 ^ 31)"

lemma validateImage_Some:
  assumes "validateImage decode_config flt content ext maxPixels = Some (w, h, mime)"
    and "sides_fit decode_config"
  shows "0 < w \<and> 0 < h \<and> w * h \<le> maxPixels \<and> mime \<noteq> []"
proof (cases "ext = ''ico''")
  case True
  with assms(1) icoDimensions_range [of content w h] show ?thesis
    by (auto simp: validateImage_def split: if_splits option.splits)
next
  case False
  with assms(1) obtain f where f: "decode_config content = Some (f, w, h)" "mime_of f = Some mime" "0 < w" "0 < h"
    "wrap64 (w * h) \<le> maxPixels"
    by (auto simp: validateImage_def split: if_splits option.splits)
  have "w * h < 2 ^ 31 * 2 ^ 31" by (rule mult_strict_mono) (use assms(2) f(1,3,4) in \<open>auto simp: sides_fit_def\<close>)
  moreover have "0 < w * h" using f(3,4) by simp
  ultimately have "int64 (w * h)" by (simp add: int64_def)
  with f show ?thesis by (auto simp: mime_of_def split: if_splits)
qed

text \<open>What \<open>Put\<close> stored is what the source delivered, within the limits.\<close>

lemma store_Put_Inr:
  assumes op: "store_Put decode_config F random filename src s = (s', Inr a)"
    and dims: "sides_fit decode_config"
    and max: "0 < ax_MaxBytes s" "ax_MaxBytes s < max_int64" and random: "length random = 32"
  shows "s' = s\<lparr>ax_files := (ax_files s)(as_Key a \<mapsto> fst src)\<rparr>" "as_Size a = int (length (fst src))"
    "int (length (fst src)) \<le> ax_MaxBytes s" "\<not> snd src" "validKey (as_Key a)"
    "\<exists>ext. safeExtension filename = Some ext \<and> as_Key a = asset_key random ext"
    "0 < as_Width a" "0 < as_Height a" "as_Width a * as_Height a \<le> ax_MaxPixels s" "as_ContentType a \<noteq> []"
proof -
  have w: "wrap64 (ax_MaxBytes s + 1) = ax_MaxBytes s + 1"
    using max by (intro wrap64_id) (simp add: int64_def max_int64_def)
  obtain ext content w h mime where e: "safeExtension filename = Some ext"
    and l: "limited (ax_MaxBytes s + 1) src = (content, False)" and sz: "int (length content) \<le> ax_MaxBytes s"
    and v: "validateImage decode_config (pf_reopen F) content ext (ax_MaxPixels s) = Some (w, h, mime)"
    and s': "s' = s\<lparr>ax_files := (ax_files s)(asset_key random ext \<mapsto> content)\<rparr>"
    and a: "a = \<lparr>as_Key = asset_key random ext, as_ContentType = mime, as_Size = int (length content), as_Width = w, as_Height = h\<rparr>"
    using op by (auto simp: store_Put_def w Let_def split: option.splits if_splits prod.splits)
  have src: "content = fst src" "\<not> snd src"
    using l sz max(1) by (auto simp: limited_def split: if_splits)
  show "s' = s\<lparr>ax_files := (ax_files s)(as_Key a \<mapsto> fst src)\<rparr>" "as_Size a = int (length (fst src))"
    "int (length (fst src)) \<le> ax_MaxBytes s" "\<not> snd src"
    "\<exists>ext. safeExtension filename = Some ext \<and> as_Key a = asset_key random ext"
    using s' a src sz e by simp_all
  show "validKey (as_Key a)" using asset_key_valid [OF random safeExtension_in [OF e]] a by simp
  show "0 < as_Width a" "0 < as_Height a" "as_Width a * as_Height a \<le> ax_MaxPixels s" "as_ContentType a \<noteq> []"
    using validateImage_Some [OF v dims] a by auto
qed

lemma store_Put_Inl:
  "store_Put decode_config F random filename src s = (s', Inl e) \<Longrightarrow> \<not> pf_chmod F \<Longrightarrow> s' = s"
  by (auto simp: store_Put_def Let_def split: option.splits if_splits prod.splits)

end
