(* ===== verification/SiteApi.thy ===== *)
theory SiteApi
  imports Http AssetStore DbSite
begin

text \<open>
  The endpoints of the site settings and the branding images (\<open>internal/httpapi/site_settings.go\<close>)
  and the removal of queued files (\<open>internal/siteassets/recovery.go\<close>).  The state is the database
  and the asset store; \<open>mid\<close> is what the rest of the system does between two calls of a handler.
\<close>

record branding =
  br_db :: db
  br_assets :: asset_store

definition on_db :: "(db \<Rightarrow> db \<times> 'a) \<Rightarrow> branding \<Rightarrow> branding \<times> 'a" where
  "on_db f b = (case f (br_db b) of (d, r) \<Rightarrow> (b\<lparr>br_db := d\<rparr>, r))"

definition on_assets :: "(asset_store \<Rightarrow> asset_store \<times> 'a) \<Rightarrow> branding \<Rightarrow> branding \<times> 'a" where
  "on_assets f b = (case f (br_assets b) of (s, r) \<Rightarrow> (b\<lparr>br_assets := s\<rparr>, r))"

section \<open>Removing queued files\<close>

text \<open>For every key: whether the context is cancelled, the removal or its record fails.\<close>

record recover_faults =
  rf_list :: bool
  rf_ctx :: "string \<Rightarrow> bool"
  rf_remove :: "string \<Rightarrow> bool"
  rf_complete :: "string \<Rightarrow> bool"

fun recover_keys :: "recover_faults \<Rightarrow> string list \<Rightarrow> nat \<Rightarrow> branding \<Rightarrow> branding \<times> nat \<times> err option" where
  "recover_keys F [] n b = (b, n, None)"
| "recover_keys F (k # ks) n b =
     (if rf_ctx F k then (b, n, Some Cancelled)
      else
        (case on_assets (remove_asset (rf_remove F k) k) b of
           (b1, Inl e) \<Rightarrow> recover_keys F ks n b1
         | (b1, Inr ()) \<Rightarrow>
             (case on_db (\<lambda>d. CompleteSiteAssetCleanup (rf_complete F k) d k) b1 of
                (b2, Inl e) \<Rightarrow> (b2, n, Some e)
              | (b2, Inr ()) \<Rightarrow> recover_keys F ks (Suc n) b2)))"

definition RecoverCleanup :: "recover_faults \<Rightarrow> int \<Rightarrow> branding \<Rightarrow> branding \<times> nat \<times> err option" where
  "RecoverCleanup F limit b =
     (if limit \<le> 0 then (b, 0, None)
      else
        (case SiteAssetCleanupKeys (rf_list F) (br_db b) limit of
           Inl e \<Rightarrow> (b, 0, Some e)
         | Inr ks \<Rightarrow> recover_keys F ks 0 b))"

definition cleanupSiteAssets :: "recover_faults \<Rightarrow> branding \<Rightarrow> branding" where
  "cleanupSiteAssets F b = fst (RecoverCleanup F 16 b)"

section \<open>Settings\<close>

definition siteAssetURL :: "int \<Rightarrow> string" where
  "siteAssetURL i = ''/assets/site/'' @ itoa i"

definition siteSettingsPublic :: "site_settings \<Rightarrow> site_public" where
  "siteSettingsPublic s =
     \<lparr>sp_SiteName = ss_SiteName s, sp_PrimaryColor = ss_PrimaryColor s, sp_FilingEnabled = ss_FilingEnabled s,
      sp_FilingText = (if ss_FilingEnabled s then ss_FilingText s else []), sp_MD5Enabled = ss_MD5Enabled s,
      sp_LoginLogoURL = (if ss_LoginLogo s > 0 then siteAssetURL (ss_LoginLogo s) else []),
      sp_NavLogoURL = (if ss_NavLogo s > 0 then siteAssetURL (ss_NavLogo s) else []),
      sp_FaviconURL = (if ss_Favicon s > 0 then siteAssetURL (ss_Favicon s) else [])\<rparr>"

definition json_utf8 :: "string \<times> string" where
  "json_utf8 = (''Content-Type'', ''application/json; charset=utf-8'')"

definition getPublicSiteSettings :: "bool \<Rightarrow> db \<Rightarrow> response" where
  "getPublicSiteSettings flt d =
     (case SiteSettings flt d of
        Inl e \<Rightarrow> http_error ''site settings unavailable'' 500
      | Inr s \<Rightarrow> with_headers [json_utf8] (reply 200 (SiteInfo (siteSettingsPublic s))))"

record site_settings_request =
  sr_SiteName :: string
  sr_PrimaryColor :: string
  sr_FilingEnabled :: bool
  sr_FilingText :: string
  sr_MD5Enabled :: bool

definition admin_event :: "int \<Rightarrow> string \<Rightarrow> string \<Rightarrow> audit_event" where
  "admin_event actor action path =
     \<lparr>ae_ID = 0, ae_UserID = actor, ae_RootID = 0, ae_Action = action, ae_LogicalPath = path,
      ae_Detail = ''target_user_id=0'', ae_Status = 0, ae_CreatedAt = zero_time\<rparr>"

text \<open>The logos are taken from the settings as read before the update.\<close>

definition requested_settings :: "site_settings_request \<Rightarrow> site_settings \<Rightarrow> site_settings" where
  "requested_settings r old =
     \<lparr>ss_SiteName = trim_space (sr_SiteName r), ss_PrimaryColor = sr_PrimaryColor r,
      ss_FilingText = trim_space (sr_FilingText r), ss_FilingEnabled = sr_FilingEnabled r,
      ss_MD5Enabled = sr_MD5Enabled r, ss_LoginLogo = ss_LoginLogo old, ss_NavLogo = ss_NavLogo old,
      ss_Favicon = ss_Favicon old, ss_CreatedAt = zero_time, ss_UpdatedAt = zero_time\<rparr>"

definition putAdminSiteSettings ::
    "bool \<Rightarrow> bool \<Rightarrow> bool \<Rightarrow> int \<Rightarrow> (branding \<Rightarrow> branding) \<Rightarrow> site_settings_request option \<Rightarrow> int
     \<Rightarrow> branding \<Rightarrow> branding \<times> response" where
  "putAdminSiteSettings rflt flt afail now mid req actor b =
     (case req of
        None \<Rightarrow> (b, http_error ''invalid site settings'' 400)
      | Some r \<Rightarrow>
          (case SiteSettings rflt (br_db b) of
             Inl e \<Rightarrow> (b, http_error ''site settings unavailable'' 500)
           | Inr old \<Rightarrow>
               (case on_db (\<lambda>d. UpdateSiteSettingsWithAudit flt afail now d (requested_settings r old)
                        (admin_event actor ''admin.site_settings.update'' ''/'')) (mid b) of
                  (b', Inl e) \<Rightarrow>
                    (b', if e = Invalid then http_error ''invalid site settings'' 400
                         else http_error ''site settings unavailable'' 500)
                | (b', Inr ()) \<Rightarrow> (b', reply 204 NoContent))))"

section \<open>Images\<close>

definition validSiteAssetKind :: "string \<Rightarrow> bool" where
  "validSiteAssetKind kind \<longleftrightarrow> kind = ''login_logo'' \<or> kind = ''nav_logo'' \<or> kind = ''favicon''"

definition extension_of_type :: "string \<Rightarrow> string" where
  "extension_of_type ct =
     (if ct = ''image/png'' then ''png'' else if ct = ''image/jpeg'' then ''jpeg''
      else if ct = ''image/gif'' then ''gif''
      else if ct = ''image/x-icon'' \<or> ct = ''image/vnd.microsoft.icon'' then ''ico'' else [])"

definition assetFilename :: "string \<Rightarrow> string \<Rightarrow> string option" where
  "assetFilename kind contentType =
     (let ext = extension_of_type (to_lower (trim_space (hd (split_on (CHR '';'') contentType)))) in
      if \<not> validSiteAssetKind kind then None
      else if ext = [] then None
      else if kind = ''favicon'' \<and> ext \<noteq> ''ico'' \<and> ext \<noteq> ''png'' then None
      else Some (kind @ ''.'' @ ext))"

definition max_asset_body :: int where
  "max_asset_body = 8388608"

text \<open>\<open>http.MaxBytesReader\<close>: a longer body fails after the limit.\<close>

definition max_bytes_reader :: "int \<Rightarrow> string \<times> bool \<Rightarrow> string \<times> bool" where
  "max_bytes_reader limit body =
     (if int (length (fst body)) > limit then (take (nat limit) (fst body), True) else body)"

definition candidate_of :: "asset \<Rightarrow> asset_row" where
  "candidate_of a =
     \<lparr>asset_ID = 0, asset_Kind = [], asset_OpaqueKey = as_Key a, asset_ContentType = as_ContentType a,
      asset_Size = as_Size a, asset_Width = as_Width a, asset_Height = as_Height a,
      asset_CreatedAt = zero_time, asset_UpdatedAt = zero_time\<rparr>"

record site_faults =
  sf_put :: put_faults
  sf_replace :: bool
  sf_audit :: bool
  sf_remove :: bool
  sf_recover :: recover_faults

definition uploadSiteAsset ::
    "(string \<Rightarrow> (string \<times> int \<times> int) option) \<Rightarrow> site_faults \<Rightarrow> int \<Rightarrow> string \<Rightarrow> (branding \<Rightarrow> branding)
     \<Rightarrow> string \<Rightarrow> string \<Rightarrow> string \<times> bool \<Rightarrow> int \<Rightarrow> branding \<Rightarrow> branding \<times> response" where
  "uploadSiteAsset decode_config F now random mid kind contentType body actor b =
     (case assetFilename kind contentType of
        None \<Rightarrow> (b, http_error ''invalid site asset'' 400)
      | Some filename \<Rightarrow>
          (case on_assets (store_Put decode_config (sf_put F) random filename (max_bytes_reader max_asset_body body)) b of
             (b1, Inl e) \<Rightarrow>
               (b1, if e = Invalid then http_error ''invalid site asset'' 400
                    else http_error ''store site asset'' 500)
           | (b1, Inr a) \<Rightarrow>
               (case on_db (\<lambda>d. ReplaceSiteAssetWithAudit (sf_replace F) (sf_audit F) now d kind (candidate_of a)
                        (admin_event actor ''admin.site_asset.upload'' (''/'' @ kind))) (mid b1) of
                  (b2, Inl e) \<Rightarrow>
                    (fst (on_assets (remove_asset (sf_remove F) (as_Key a)) b2), http_error ''save site asset'' 500)
                | (b2, Inr saved) \<Rightarrow>
                    (cleanupSiteAssets (sf_recover F) b2,
                     with_headers [json_utf8]
                       (reply 201 (AssetInfo (asset_ID saved) (siteAssetURL (asset_ID saved)) (asset_ContentType saved)
                          (asset_Size saved) (asset_Width saved) (asset_Height saved)))))))"

definition resetSiteAsset ::
    "bool \<Rightarrow> bool \<Rightarrow> recover_faults \<Rightarrow> int \<Rightarrow> string \<Rightarrow> int \<Rightarrow> branding \<Rightarrow> branding \<times> response" where
  "resetSiteAsset flt afail F now kind actor b =
     (if \<not> validSiteAssetKind kind then (b, http_error ''invalid site asset'' 400)
      else
        (case on_db (\<lambda>d. ResetSiteAssetWithAudit flt afail now d kind
                 (admin_event actor ''admin.site_asset.reset'' (''/'' @ kind))) b of
           (b1, Inl e) \<Rightarrow> (b1, http_error ''reset site asset'' 500)
         | (b1, Inr ()) \<Rightarrow> (cleanupSiteAssets F b1, reply 204 NoContent)))"

definition serveSiteAssetID :: "bool \<Rightarrow> bool \<Rightarrow> (branding \<Rightarrow> branding) \<Rightarrow> bool \<Rightarrow> bool \<Rightarrow> int \<Rightarrow> branding \<Rightarrow> response" where
  "serveSiteAssetID flt oflt mid favicon head i b =
     (case PublicSiteAssetByID flt (br_db b) i of
        Inl e \<Rightarrow> not_found
      | Inr a \<Rightarrow>
          (case open_asset oflt (asset_OpaqueKey a) (br_assets (mid b)) of
             Inl e \<Rightarrow> not_found
           | Inr c \<Rightarrow>
               with_headers
                 [(''Content-Type'', asset_ContentType a),
                  (''Cache-Control'', if favicon then ''no-cache'' else ''public, max-age=31536000, immutable''),
                  (''X-Content-Type-Options'', ''nosniff''), (''Content-Length'', itoa (asset_Size a))]
                 (reply 200 (if head then NoContent else Data c))))"

definition serveSiteAsset :: "bool \<Rightarrow> bool \<Rightarrow> (branding \<Rightarrow> branding) \<Rightarrow> bool \<Rightarrow> string \<Rightarrow> branding \<Rightarrow> response" where
  "serveSiteAsset flt oflt mid head assetID b =
     (case parse_int64 assetID of
        None \<Rightarrow> not_found
      | Some i \<Rightarrow> if i \<le> 0 then not_found else serveSiteAssetID flt oflt mid False head i b)"

definition serveFavicon :: "bool \<Rightarrow> bool \<Rightarrow> bool \<Rightarrow> (branding \<Rightarrow> branding) \<Rightarrow> (branding \<Rightarrow> branding) \<Rightarrow> bool \<Rightarrow> branding \<Rightarrow> response" where
  "serveFavicon sflt flt oflt mid mid2 head b =
     (case SiteSettings sflt (br_db b) of
        Inl e \<Rightarrow> not_found
      | Inr s \<Rightarrow> if ss_Favicon s \<le> 0 then not_found else serveSiteAssetID flt oflt mid2 True head (ss_Favicon s) (mid b))"

section \<open>Every image in use has its file\<close>

text \<open>
  The keys of the table are valid, their files are there with the recorded size, and no file of the
  table is queued (\<open>assets_inv\<close>).
\<close>

definition branding_inv :: "branding \<Rightarrow> bool" where
  "branding_inv b \<longleftrightarrow> assets_inv (br_db b)
     \<and> (\<forall>a \<in> set (db_assets (br_db b)). validKey (asset_OpaqueKey a) \<and> 0 < asset_ID a
          \<and> (\<exists>c. ax_files (br_assets b) (asset_OpaqueKey a) = Some c \<and> asset_Size a = int (length c)))"

text \<open>A stored file that is not yet in the table.\<close>

definition fresh_asset :: "string \<Rightarrow> string \<Rightarrow> branding \<Rightarrow> bool" where
  "fresh_asset key c b \<longleftrightarrow> ax_files (br_assets b) key = Some c
     \<and> key \<notin> asset_OpaqueKey ` set (db_assets (br_db b)) \<and> key \<notin> fst ` set (db_asset_cleanup (br_db b))"

lemma on_simps [simp]:
  "br_assets (fst (on_db f b)) = br_assets b" "br_db (fst (on_assets g b)) = br_db b"
  "br_db (fst (on_db f b)) = fst (f (br_db b))" "br_assets (fst (on_assets g b)) = fst (g (br_assets b))"
  "snd (on_db f b) = snd (f (br_db b))" "snd (on_assets g b) = snd (g (br_assets b))"
  by (simp_all add: on_db_def on_assets_def split: prod.splits)

lemma retire_rows:
  assumes "retire_asset now old d = Some d'"
  shows "set (db_assets d') = {a \<in> set (db_assets d). old \<noteq> Some (asset_ID a)}"
    "logo_of k (db_settings d') = (if old \<noteq> None \<and> logo_of k (db_settings d) = old then None else logo_of k (db_settings d))"
proof -
  have del: "set (db_assets (delete_asset i e)) = {a \<in> set (db_assets e). asset_ID a \<noteq> i}"
    "logo_of k (db_settings (delete_asset i e)) = (if logo_of k (db_settings e) = Some i then None else logo_of k (db_settings e))"
    if "asset_exists e i" for i e
    using that by (auto simp: delete_asset_def logo_of_def forget_def)
  have q: "db_assets (queue_key key n e) = db_assets e" "db_settings (queue_key key n e) = db_settings e" for key n e
    by (simp_all add: queue_key_def)
  consider "old = None" "d' = d"
    | i key where "old = Some i" "asset_exists d i" "d' = queue_key key now (delete_asset i d)"
    using assms by (fastforce simp: retire_asset_def asset_exists_def list_ex_iff dest!: find_SomeD split: option.splits)
  then show "set (db_assets d') = {a \<in> set (db_assets d). old \<noteq> Some (asset_ID a)}"
    "logo_of k (db_settings d') = (if old \<noteq> None \<and> logo_of k (db_settings d) = old then None else logo_of k (db_settings d))"
    by (cases; auto simp: del q)+
qed

lemma createAuditEventTx_tables:
  "createAuditEventTx flt now d e = Inr d' \<Longrightarrow> db_assets d' = db_assets d \<and> db_settings d' = db_settings d
     \<and> db_asset_cleanup d' = db_asset_cleanup d"
  by (auto elim!: createAuditEventTx_Inr)

definition new_asset :: "int \<Rightarrow> string \<Rightarrow> asset_row \<Rightarrow> db \<Rightarrow> asset_row" where
  "new_asset now kind a d =
     a\<lparr>asset_ID := next_id (map asset_ID (db_assets d)), asset_Kind := kind, asset_CreatedAt := now, asset_UpdatedAt := now\<rparr>"

lemma replace_rows:
  assumes "ReplaceSiteAssetWithAudit flt afail now d kind a e = (d', r)"
  shows "set (db_assets d') \<subseteq> insert (new_asset now kind a d) (set (db_assets d))"
    "r = Inr a' \<Longrightarrow> assets_inv d \<Longrightarrow> a' = new_asset now kind a d \<and> a' \<in> set (db_assets d')
       \<and> logo_of kind (db_settings d') = Some (asset_ID a')
       \<and> set (db_assets d') = {x \<in> insert (new_asset now kind a d) (set (db_assets d)). logo_of kind (db_settings d) \<noteq> Some (asset_ID x)}"
proof -
  let ?a = "new_asset now kind a d" and ?old = "logo_of kind (db_settings d)"
  let ?d1 = "d\<lparr>db_assets := db_assets d @ [?a], db_settings := set_logo kind (Some (asset_ID ?a)) now (db_settings d)\<rparr>"
  have case1: "(d' = d \<and> (\<forall>x. r \<noteq> Inr x)) \<or> (\<exists>d2. retire_asset now ?old ?d1 = Some d2 \<and> createAuditEventTx afail now d2 e = Inr d' \<and> r = Inr ?a
      \<and> validAssetKind kind)"
    using assms unfolding ReplaceSiteAssetWithAudit_def replaceSiteAsset_def Let_def new_asset_def
    by (auto split: if_splits option.splits sum.splits)
  show "set (db_assets d') \<subseteq> insert ?a (set (db_assets d))"
    using case1 retire_rows(1) [of now ?old ?d1] createAuditEventTx_tables by fastforce
  assume r: "r = Inr a'" and inv: "assets_inv d"
  with case1 obtain d2 where d2: "retire_asset now ?old ?d1 = Some d2" "createAuditEventTx afail now d2 e = Inr d'" "a' = ?a"
    "validAssetKind kind" by auto
  note t = createAuditEventTx_tables [OF d2(2)]
  show "a' = ?a \<and> a' \<in> set (db_assets d') \<and> logo_of kind (db_settings d') = Some (asset_ID a')
       \<and> set (db_assets d') = {x \<in> insert (?a) (set (db_assets d)). logo_of kind (db_settings d) \<noteq> Some (asset_ID x)}"
  proof -
    have "asset_ID ?a \<notin> asset_ID ` set (db_assets d)"
      using next_id_fresh [of "map asset_ID (db_assets d)"] by (simp add: new_asset_def)
    moreover have "i \<in> asset_ID ` set (db_assets d)" if "?old = Some i" for i
      using logo_in [OF that] inv unfolding assets_inv_def by blast
    ultimately have ne: "?old \<noteq> Some (asset_ID ?a)" by blast
    moreover have "logo_of kind (db_settings ?d1) = Some (asset_ID ?a)" by (simp add: logo_of_def set_logo_def)
    ultimately show ?thesis
      using retire_rows [OF d2(1)] t d2(3) by auto
  qed
qed

lemma reset_rows:
  assumes "ResetSiteAssetWithAudit flt afail now d kind e = (d', r)"
  shows "set (db_assets d') \<subseteq> set (db_assets d)"
proof -
  let ?d1 = "d\<lparr>db_settings := set_logo kind None now (db_settings d)\<rparr>"
  have "d' = d \<or> (\<exists>d2. retire_asset now (logo_of kind (db_settings d)) ?d1 = Some d2 \<and> createAuditEventTx afail now d2 e = Inr d')"
    using assms unfolding ResetSiteAssetWithAudit_def Let_def by (auto split: if_splits option.splits sum.splits)
  then show ?thesis
    using retire_rows(1) [of now "logo_of kind (db_settings d)" ?d1] createAuditEventTx_tables by fastforce
qed

lemma update_rows:
  assumes "UpdateSiteSettingsWithAudit flt afail now d s e = (d', r)"
  shows "db_assets d' = db_assets d"
proof -
  have "db_assets d1 = db_assets d" if "put_settings now d s = Inr d1" for d1
    using that by (auto simp: put_settings_def Let_def split: if_splits)
  then show ?thesis
    using assms createAuditEventTx_tables by (auto simp: UpdateSiteSettingsWithAudit_def split: if_splits sum.splits)
qed

section \<open>The steps\<close>

text \<open>
  The steps of the handlers and of the cleanup; the random part of a key is new.  A file is removed
  only when it is not in the table: queued, or put by an upload that then failed.
\<close>

inductive site_step :: "branding \<Rightarrow> branding \<Rightarrow> bool" where
  st_put: "on_assets (store_Put decode_config F random filename src) b = (b', r) \<Longrightarrow>
    (\<And>ext. asset_key random ext \<notin> asset_OpaqueKey ` set (db_assets (br_db b))) \<Longrightarrow> site_step b b'"
| st_replace: "on_db (\<lambda>d. ReplaceSiteAssetWithAudit flt afail now d kind (candidate_of a) e) b = (b', r) \<Longrightarrow>
    validKey (as_Key a) \<Longrightarrow> ax_files (br_assets b) (as_Key a) = Some c \<Longrightarrow> as_Size a = int (length c) \<Longrightarrow>
    as_Key a \<notin> fst ` set (db_asset_cleanup (br_db b)) \<Longrightarrow> site_step b b'"
| st_reset: "on_db (\<lambda>d. ResetSiteAssetWithAudit flt afail now d kind e) b = (b', r) \<Longrightarrow> site_step b b'"
| st_update: "on_db (\<lambda>d. UpdateSiteSettingsWithAudit flt afail now d s e) b = (b', r) \<Longrightarrow> site_step b b'"
| st_remove: "on_assets (remove_asset flt key) b = (b', r) \<Longrightarrow>
    key \<notin> asset_OpaqueKey ` set (db_assets (br_db b)) \<Longrightarrow> site_step b b'"
| st_complete: "on_db (\<lambda>d. CompleteSiteAssetCleanup flt d key) b = (b', r) \<Longrightarrow> site_step b b'"
| st_other: "db_assets d = db_assets (br_db b) \<Longrightarrow> db_settings d = db_settings (br_db b) \<Longrightarrow>
    db_asset_cleanup d = db_asset_cleanup (br_db b) \<Longrightarrow> site_step b (b\<lparr>br_db := d\<rparr>)"

lemma on_db_eq: "on_db f b = (b', r) \<longleftrightarrow> (\<exists>d. f (br_db b) = (d, r) \<and> b' = b\<lparr>br_db := d\<rparr>)"
  by (auto simp: on_db_def split: prod.splits)

lemma on_assets_eq: "on_assets f b = (b', r) \<longleftrightarrow> (\<exists>s. f (br_assets b) = (s, r) \<and> b' = b\<lparr>br_assets := s\<rparr>)"
  by (auto simp: on_assets_def split: prod.splits)

lemma put_files:
  assumes "store_Put decode_config F random filename src s = (s', r)"
  shows "ax_files s' k = ax_files s k \<or> (\<exists>ext. k = asset_key random ext)"
  using assms by (auto simp: store_Put_def Let_def split: option.splits if_splits prod.splits)

lemma remove_files: "remove_asset flt key s = (s', r) \<Longrightarrow> ax_files s' = ax_files s \<or> ax_files s' = (ax_files s)(key := None)"
  by (auto simp: remove_asset_def split: if_splits)

lemma branding_same_db:
  assumes "branding_inv b" and "br_db b' = br_db b"
    and "\<And>a. a \<in> set (db_assets (br_db b)) \<Longrightarrow> ax_files (br_assets b') (asset_OpaqueKey a) = ax_files (br_assets b) (asset_OpaqueKey a)"
  shows "branding_inv b'"
  using assms by (simp add: branding_inv_def)

lemma branding_rows:
  assumes "branding_inv b" and "assets_inv d" and "set (db_assets d) \<subseteq> set (db_assets (br_db b))"
  shows "branding_inv (b\<lparr>br_db := d\<rparr>)"
  using assms by (auto simp: branding_inv_def)

lemma site_step_inv: "site_step b b' \<Longrightarrow> branding_inv b \<Longrightarrow> branding_inv b'"
proof (induction rule: site_step.induct)
  case (st_put decode_config F random filename src b b' r)
  then obtain s where s: "store_Put decode_config F random filename src (br_assets b) = (s, r)" "b' = b\<lparr>br_assets := s\<rparr>"
    by (auto simp: on_assets_eq)
  show ?case
  proof (rule branding_same_db [OF st_put.prems])
    show "ax_files (br_assets b') (asset_OpaqueKey a) = ax_files (br_assets b) (asset_OpaqueKey a)"
      if "a \<in> set (db_assets (br_db b))" for a
    proof -
      have "asset_OpaqueKey a \<noteq> asset_key random ext" for ext using st_put.hyps(2) [of ext] that by force
      with put_files [OF s(1), of "asset_OpaqueKey a"] s(2) show ?thesis by auto
    qed
  qed (simp add: s(2))
next
  case (st_replace flt afail now kind a e b b' r c)
  then obtain d where d: "ReplaceSiteAssetWithAudit flt afail now (br_db b) kind (candidate_of a) e = (d, r)" "b' = b\<lparr>br_db := d\<rparr>"
    by (auto simp: on_db_eq)
  have "assets_inv d"
    using assets_inv_replace [OF _ d(1) [unfolded ReplaceSiteAssetWithAudit_def]] st_replace
    by (simp add: branding_inv_def candidate_of_def)
  moreover have "validKey (asset_OpaqueKey x) \<and> 0 < asset_ID x
      \<and> (\<exists>c. ax_files (br_assets b) (asset_OpaqueKey x) = Some c \<and> asset_Size x = int (length c))"
    if x: "x \<in> set (db_assets d)" for x
  proof (cases "x = new_asset now kind (candidate_of a) (br_db b)")
    case True
    with st_replace.hyps show ?thesis by (simp add: new_asset_def candidate_of_def next_id_pos)
  next
    case False
    with replace_rows(1) [OF d(1)] x have "x \<in> set (db_assets (br_db b))" by blast
    with st_replace.prems show ?thesis unfolding branding_inv_def by blast
  qed
  ultimately show ?case unfolding branding_inv_def by (simp add: d(2))
next
  case (st_reset flt afail now kind e b b' r)
  then obtain d where d: "ResetSiteAssetWithAudit flt afail now (br_db b) kind e = (d, r)" "b' = b\<lparr>br_db := d\<rparr>"
    by (auto simp: on_db_eq)
  with st_reset assets_inv_reset [OF _ d(1)] reset_rows [OF d(1)] show ?case
    by (auto intro: branding_rows simp: branding_inv_def)
next
  case (st_update flt afail now s e b b' r)
  then obtain d where d: "UpdateSiteSettingsWithAudit flt afail now (br_db b) s e = (d, r)" "b' = b\<lparr>br_db := d\<rparr>"
    by (auto simp: on_db_eq)
  with st_update assets_inv_update [OF _ d(1)] update_rows [OF d(1)] show ?case
    by (auto intro: branding_rows simp: branding_inv_def)
next
  case (st_remove flt key b b' r)
  then obtain s where s: "remove_asset flt key (br_assets b) = (s, r)" "b' = b\<lparr>br_assets := s\<rparr>"
    by (auto simp: on_assets_eq)
  show ?case
  proof (rule branding_same_db [OF st_remove.prems])
    show "ax_files (br_assets b') (asset_OpaqueKey a) = ax_files (br_assets b) (asset_OpaqueKey a)"
      if "a \<in> set (db_assets (br_db b))" for a
      using remove_files [OF s(1)] st_remove.hyps(2) that s(2) by (auto simp: image_iff)
  qed (simp add: s(2))
next
  case (st_complete flt key b b' r)
  then show ?case
    by (auto simp: on_db_eq CompleteSiteAssetCleanup_def branding_inv_def assets_inv_def split: if_splits)
next
  case (st_other d b)
  then show ?case by (auto simp: branding_inv_def assets_inv_def)
qed

interpretation site: invariant_system site_step branding_inv
  by unfold_locales (rule site_step_inv)

lemma site_step_limits: "site_step b b' \<Longrightarrow> ax_MaxBytes (br_assets b) = n \<Longrightarrow> ax_MaxBytes (br_assets b') = n"
  by (induction rule: site_step.induct)
    (auto simp: on_db_eq on_assets_eq store_Put_def remove_asset_def Let_def split: option.splits if_splits prod.splits)

interpretation site_limits: invariant_system site_step "\<lambda>b. ax_MaxBytes (br_assets b) = n" for n
  by unfold_locales (rule site_step_limits)

section \<open>What the handlers give\<close>

text \<open>Every image in use is served, with its recorded length.\<close>

lemma find_asset:
  assumes "assets_inv d" and "a \<in> set (db_assets d)"
  shows "PublicSiteAssetByID False d (asset_ID a) = Inr a"
proof -
  have "find (\<lambda>x. asset_ID x = asset_ID a) (db_assets d) = Some a"
  proof (cases "find (\<lambda>x. asset_ID x = asset_ID a) (db_assets d)")
    case None
    with assms(2) show ?thesis by (auto simp: find_None_iff)
  next
    case (Some x)
    with assms keys_unique [of asset_ID "db_assets d" x a] find_SomeD [OF Some] show ?thesis
      by (simp add: assets_inv_def)
  qed
  then show ?thesis by (simp add: PublicSiteAssetByID_def query_row_def)
qed

lemma serve_row:
  assumes "branding_inv b" and "a \<in> set (db_assets (br_db b))" and "ax_files (br_assets b) (asset_OpaqueKey a) = Some c"
  shows "serveSiteAssetID False False (\<lambda>k. k) favicon head (asset_ID a) b =
     with_headers
       [(''Content-Type'', asset_ContentType a),
        (''Cache-Control'', if favicon then ''no-cache'' else ''public, max-age=31536000, immutable''),
        (''X-Content-Type-Options'', ''nosniff''), (''Content-Length'', itoa (asset_Size a))]
       (reply 200 (if head then NoContent else Data c))"
  using assms find_asset [of "br_db b" a]
  by (auto simp: serveSiteAssetID_def open_asset_def branding_inv_def)

lemma logo_served:
  assumes inv: "branding_inv b" and logo: "logo_of kind (db_settings (br_db b)) = Some i"
  shows "\<exists>a c. a \<in> set (db_assets (br_db b)) \<and> asset_ID a = i
    \<and> res_status (serveSiteAssetID False False (\<lambda>k. k) favicon head i b) = 200
    \<and> res_body (serveSiteAssetID False False (\<lambda>k. k) favicon False i b) = Data c \<and> asset_Size a = int (length c)"
proof -
  have "i \<in> asset_ID ` set (db_assets (br_db b))"
    using logo_in [OF logo] inv unfolding branding_inv_def assets_inv_def by blast
  then obtain a where a: "a \<in> set (db_assets (br_db b))" "asset_ID a = i" by blast
  with inv obtain c where c: "ax_files (br_assets b) (asset_OpaqueKey a) = Some c" "asset_Size a = int (length c)"
    unfolding branding_inv_def by blast
  from serve_row [OF inv a(1) c(1)] a c show ?thesis by auto
qed

lemma run_first: "step s t \<Longrightarrow> run step t u \<Longrightarrow> run step s u"
  by (rule run_trans) (auto intro: run.intros)

text \<open>The cleanup is a run of steps that touches queued files only.\<close>

lemma on_assets_remove:
  assumes "on_assets (remove_asset flt k) b = (b1, r)"
  shows "br_db b1 = br_db b" "key \<noteq> k \<Longrightarrow> ax_files (br_assets b1) key = ax_files (br_assets b) key"
  using assms by (auto simp: on_assets_eq remove_asset_def split: if_splits)

lemma on_db_complete:
  assumes "on_db (\<lambda>d. CompleteSiteAssetCleanup flt d k) b = (b1, r)"
  shows "br_assets b1 = br_assets b" "db_assets (br_db b1) = db_assets (br_db b)"
    "db_settings (br_db b1) = db_settings (br_db b)"
  using assms by (auto simp: on_db_eq CompleteSiteAssetCleanup_def split: if_splits)

lemma recover_keys_run:
  assumes "set ks \<inter> asset_OpaqueKey ` set (db_assets (br_db b)) = {}" and "recover_keys F ks n b = (b', m, r)"
  shows "run site_step b b' \<and> db_assets (br_db b') = db_assets (br_db b)
    \<and> db_settings (br_db b') = db_settings (br_db b)
    \<and> (\<forall>key. key \<notin> set ks \<longrightarrow> ax_files (br_assets b') key = ax_files (br_assets b) key)"
  using assms
proof (induction ks arbitrary: n b)
  case (Cons k ks)
  show ?case
  proof (cases "rf_ctx F k")
    case True
    with Cons.prems show ?thesis by (auto intro: run.intros)
  next
    case False
    obtain b1 x where b1: "on_assets (remove_asset (rf_remove F k) k) b = (b1, x)" by fastforce
    note rem = on_assets_remove [OF b1]
    have s1: "site_step b b1" using Cons.prems(1) by (intro st_remove [OF b1]) auto
    show ?thesis
    proof (cases x)
      case (Inl e)
      with False b1 Cons.prems(2) have "recover_keys F ks n b1 = (b', m, r)" by simp
      from Cons.IH [OF _ this] Cons.prems(1) rem s1 show ?thesis by (auto intro: run_first)
    next
      case (Inr u)
      obtain b2 y where b2: "on_db (\<lambda>d. CompleteSiteAssetCleanup (rf_complete F k) d k) b1 = (b2, y)" by fastforce
      note cmp = on_db_complete [OF b2]
      have s2: "site_step b1 b2" by (rule st_complete [OF b2])
      show ?thesis
      proof (cases y)
        case (Inl e)
        with False b1 b2 Inr Cons.prems(2) have "b' = b2" by simp
        with run_first [of site_step, OF s1 run_first [of site_step, OF s2 run_refl]] rem cmp show ?thesis by auto
      next
        case y: (Inr v)
        with False b1 b2 Inr Cons.prems(2) have "recover_keys F ks (Suc n) b2 = (b', m, r)" by simp
        from Cons.IH [OF _ this] Cons.prems(1) rem cmp s1 s2 show ?thesis by (auto intro: run_first)
      qed
    qed
  qed
qed (auto intro: run.intros)

lemma cleanup_run:
  assumes "branding_inv b"
  shows "run site_step b (cleanupSiteAssets F b)" "db_assets (br_db (cleanupSiteAssets F b)) = db_assets (br_db b)"
    "db_settings (br_db (cleanupSiteAssets F b)) = db_settings (br_db b)"
    "a \<in> set (db_assets (br_db b)) \<Longrightarrow>
       ax_files (br_assets (cleanupSiteAssets F b)) (asset_OpaqueKey a) = ax_files (br_assets b) (asset_OpaqueKey a)"
proof -
  have "run site_step b (cleanupSiteAssets F b) \<and> db_assets (br_db (cleanupSiteAssets F b)) = db_assets (br_db b)
    \<and> db_settings (br_db (cleanupSiteAssets F b)) = db_settings (br_db b)
    \<and> (\<forall>a \<in> set (db_assets (br_db b)).
       ax_files (br_assets (cleanupSiteAssets F b)) (asset_OpaqueKey a) = ax_files (br_assets b) (asset_OpaqueKey a))"
  proof (cases "SiteAssetCleanupKeys (rf_list F) (br_db b) 16")
    case (Inl e)
    then show ?thesis by (auto simp: cleanupSiteAssets_def RecoverCleanup_def intro: run.intros)
  next
    case (Inr ks)
    then have "set ks \<subseteq> fst ` set (db_asset_cleanup (br_db b))"
      using set_take_subset by (fastforce simp: SiteAssetCleanupKeys_def sql_limit_def split: if_splits)
    with assms have disj: "set ks \<inter> asset_OpaqueKey ` set (db_assets (br_db b)) = {}"
      unfolding branding_inv_def assets_inv_def by blast
    obtain b' m r where rk: "recover_keys F ks 0 b = (b', m, r)" by (metis prod.collapse)
    then have "cleanupSiteAssets F b = b'" using Inr by (simp add: cleanupSiteAssets_def RecoverCleanup_def)
    with recover_keys_run [OF disj rk] disj show ?thesis by blast
  qed
  then show "run site_step b (cleanupSiteAssets F b)" "db_assets (br_db (cleanupSiteAssets F b)) = db_assets (br_db b)"
    "db_settings (br_db (cleanupSiteAssets F b)) = db_settings (br_db b)"
    "a \<in> set (db_assets (br_db b)) \<Longrightarrow>
       ax_files (br_assets (cleanupSiteAssets F b)) (asset_OpaqueKey a) = ax_files (br_assets b) (asset_OpaqueKey a)"
    by blast+
qed

text \<open>
  An accepted upload: its row is configured, its file is the body, and the handler's end state
  satisfies the invariant.  In between, the others leave the new file and its key alone.
\<close>

lemma upload_accepted:
  assumes op: "uploadSiteAsset decode_config F now random mid kind contentType body actor b = (b', resp)"
    and st: "res_status resp = 201" and inv: "branding_inv b"
    and dims: "sides_fit decode_config"
    and limits: "ax_MaxBytes (br_assets b) = max_asset_body" and random: "length random = 32"
    and new: "\<And>ext. asset_key random ext \<notin> asset_OpaqueKey ` set (db_assets (br_db b))"
      "\<And>ext. asset_key random ext \<notin> fst ` set (db_asset_cleanup (br_db b))"
    and mid: "\<And>k. run site_step k (mid k)" "\<And>k key c. fresh_asset key c k \<Longrightarrow> fresh_asset key c (mid k)"
  obtains a k where "branding_inv b'" "a \<in> set (db_assets (br_db b'))" "asset_Kind a = kind"
    "logo_of kind (db_settings (br_db b')) = Some (asset_ID a)"
    "ax_files (br_assets b') (asset_OpaqueKey a) = Some (fst body)" "asset_Size a = int (length (fst body))"
    "0 < asset_Width a" "0 < asset_Height a" "asset_Width a * asset_Height a \<le> ax_MaxPixels (br_assets b)"
    "resp = with_headers [json_utf8] (reply 201 (AssetInfo (asset_ID a) (siteAssetURL (asset_ID a)) (asset_ContentType a)
       (asset_Size a) (asset_Width a) (asset_Height a)))"
    "branding_inv k" "asset_ID a = next_id (map asset_ID (db_assets (br_db k)))"
    "set (db_assets (br_db b')) = {x \<in> insert a (set (db_assets (br_db k))). logo_of kind (db_settings (br_db k)) \<noteq> Some (asset_ID x)}"
    "run site_step b b'" "k = mid (fst (on_assets
       (store_Put decode_config (sf_put F) random (the (assetFilename kind contentType)) (max_bytes_reader max_asset_body body)) b))"
proof -
  let ?src = "max_bytes_reader max_asset_body body"
  let ?e = "admin_event actor ''admin.site_asset.upload'' (''/'' @ kind)"
  obtain filename where name: "assetFilename kind contentType = Some filename"
    using op st by (auto simp: uploadSiteAsset_def split: option.splits)
  obtain b1 x where b1: "on_assets (store_Put decode_config (sf_put F) random filename ?src) b = (b1, x)" by fastforce
  from op st name b1 obtain a where a: "x = Inr a" by (auto simp: uploadSiteAsset_def split: sum.splits if_splits)
  obtain s1 where s1: "store_Put decode_config (sf_put F) random filename ?src (br_assets b) = (s1, Inr a)"
    "b1 = b\<lparr>br_assets := s1\<rparr>" using b1 a by (auto simp: on_assets_eq)
  have max: "0 < ax_MaxBytes (br_assets b)" "ax_MaxBytes (br_assets b) < max_int64"
    using limits by (simp_all add: max_asset_body_def max_int64_def)
  note put = store_Put_Inr [OF s1(1) dims max random]
  have body: "?src = body" using put(4) by (auto simp: max_bytes_reader_def split: if_splits)
  have i1: "branding_inv b1" by (rule site_step_inv [OF st_put [OF b1 new(1)] inv])
  obtain ext where ext: "as_Key a = asset_key random ext" using put(6) by blast
  have "fresh_asset (as_Key a) (fst body) b1"
    using new [of ext] put(1) by (simp add: fresh_asset_def body ext s1(2))
  then have f2: "fresh_asset (as_Key a) (fst body) (mid b1)" by (rule mid(2))
  have i2: "branding_inv (mid b1)" by (rule site.run_inv [OF mid(1) i1])
  obtain d y where d: "ReplaceSiteAssetWithAudit (sf_replace F) (sf_audit F) now (br_db (mid b1)) kind (candidate_of a) ?e = (d, y)"
    by fastforce
  let ?b2 = "(mid b1)\<lparr>br_db := d\<rparr>"
  have on: "on_db (\<lambda>d. ReplaceSiteAssetWithAudit (sf_replace F) (sf_audit F) now d kind (candidate_of a) ?e) (mid b1) = (?b2, y)"
    using d by (simp add: on_db_def)
  from op st name b1 a on obtain row where y: "y = Inr row" and b': "b' = cleanupSiteAssets (sf_recover F) ?b2"
    and resp: "resp = with_headers [json_utf8] (reply 201 (AssetInfo (asset_ID row) (siteAssetURL (asset_ID row)) (asset_ContentType row)
       (asset_Size row) (asset_Width row) (asset_Height row)))"
    by (auto simp: uploadSiteAsset_def split: sum.splits)
  have inv2: "assets_inv (br_db (mid b1))" using i2 by (simp add: branding_inv_def)
  have row: "row = new_asset now kind (candidate_of a) (br_db (mid b1))" "row \<in> set (db_assets d)"
    "logo_of kind (db_settings d) = Some (asset_ID row)"
    "set (db_assets d) = {x \<in> insert row (set (db_assets (br_db (mid b1)))). logo_of kind (db_settings (br_db (mid b1))) \<noteq> Some (asset_ID x)}"
    using replace_rows(2) [OF d y inv2] by blast+
  have i3: "branding_inv ?b2"
    by (rule site_step_inv [OF st_replace [OF on put(5)] i2]) (use f2 put(2) in \<open>simp_all add: fresh_asset_def body\<close>)
  note cl = cleanup_run [where F = "sf_recover F", OF i3]
  have i4: "branding_inv b'" unfolding b' by (rule site.run_inv [OF cl(1) i3])
  have "site_step (mid b1) ?b2"
    by (rule st_replace [OF on put(5)]) (use f2 put(2) in \<open>simp_all add: fresh_asset_def body\<close>)
  from run_first [of site_step, OF this cl(1)] have "run site_step (mid b1) b'" unfolding b' .
  from run_trans [of site_step, OF this mid(1)] have "run site_step b1 b'" .
  from run_first [of site_step, OF st_put [OF b1 new(1)] this] have steps: "run site_step b b'" .
  have "ax_files (br_assets b') (asset_OpaqueKey row) = Some (fst body)"
    unfolding b' using cl(4) [where a = row] row(1,2) f2 by (simp add: fresh_asset_def new_asset_def candidate_of_def)
  then show thesis
    using row cl(2,3) put(2,7-9) resp i2 i4 b1 steps
    by (intro that [of row "mid b1"])
      (simp_all add: b' body name, simp_all add: new_asset_def candidate_of_def)
qed

text \<open>A body above the limit is a server error: the reader fails before the store counts the bytes.\<close>

lemma oversized_upload:
  assumes "uploadSiteAsset decode_config F now random mid kind contentType body actor b = (b', resp)"
    and "assetFilename kind contentType \<noteq> None" and "max_asset_body < int (length (fst body))"
    and "ax_MaxBytes (br_assets b) = max_asset_body"
  shows "resp = http_error ''store site asset'' 500 \<and> b' = b"
proof -
  have w: "wrap64 (max_asset_body + 1) = max_asset_body + 1"
    by (intro wrap64_id) (simp add: int64_def max_asset_body_def)
  have src: "limited (max_asset_body + 1) (max_bytes_reader max_asset_body body) = (take (nat max_asset_body) (fst body), True)"
    using assms(3) by (simp add: limited_def max_bytes_reader_def max_asset_body_def)
  obtain filename where name: "assetFilename kind contentType = Some filename" using assms(2) by auto
  obtain k e where "filename = k @ ''.'' @ e" "k \<in> set [''login_logo'', ''nav_logo'', ''favicon'']"
    "e \<in> set [''png'', ''jpeg'', ''gif'', ''ico'']"
    using name that by (auto simp: assetFilename_def Let_def validSiteAssetKind_def extension_of_type_def split: if_splits)
  then have "safeExtension filename \<noteq> None" using safeExtension_plain(1) [of k e] by auto
  then have "store_Put decode_config (sf_put F) random filename (max_bytes_reader max_asset_body body) (br_assets b)
      = (br_assets b, Inl IoError)"
    using src w by (auto simp: store_Put_def assms(4))
  with assms(1) name show ?thesis by (auto simp: uploadSiteAsset_def on_assets_def)
qed

text \<open>An update of the texts writes back the logos it read.\<close>

lemma put_settings_logos:
  assumes "putAdminSiteSettings rflt flt afail now mid req actor b = (b', resp)" and "res_status resp = 204"
    and "branding_inv b" and "validSiteAssetKind kind"
  shows "logo_of kind (db_settings (br_db b')) = logo_of kind (db_settings (br_db b))"
proof -
  obtain r old d where r: "req = Some r" "SiteSettings rflt (br_db b) = Inr old" "br_db b' = d"
    and u: "UpdateSiteSettingsWithAudit flt afail now (br_db (mid b)) (requested_settings r old)
       (admin_event actor ''admin.site_settings.update'' ''/'') = (d, Inr ())"
    using assms(1,2) by (auto simp: putAdminSiteSettings_def on_db_def split: option.splits sum.splits prod.splits if_splits)
  have nz: "nullableRootID (null_zero v) = v" if "\<And>i. v = Some i \<Longrightarrow> i \<in> logos (db_settings (br_db b))" for v
  proof (cases v)
    case (Some i)
    then have "i \<in> asset_ID ` set (db_assets (br_db b))"
      using that assms(3) unfolding branding_inv_def assets_inv_def by blast
    then have "0 < i" using assms(3) by (auto simp: branding_inv_def)
    with Some show ?thesis by (simp add: null_zero_def nullableRootID_def)
  qed (simp add: null_zero_def nullableRootID_def)
  obtain d1 where d1: "put_settings now (br_db (mid b)) (requested_settings r old) = Inr d1" "db_settings d = db_settings d1"
    using u createAuditEventTx_tables by (auto simp: UpdateSiteSettingsWithAudit_def split: if_splits sum.splits)
  let ?s = "db_settings (br_db b)"
  have "set_LoginLogo (db_settings d) = nullableRootID (null_zero (set_LoginLogo ?s))"
    "set_NavLogo (db_settings d) = nullableRootID (null_zero (set_NavLogo ?s))"
    "set_Favicon (db_settings d) = nullableRootID (null_zero (set_Favicon ?s))"
    using d1 r(2) by (auto simp: put_settings_def requested_settings_def SiteSettings_def Let_def split: if_splits)
  then show ?thesis using r(3) nz by (auto simp: logo_of_def logos_def)
qed

section \<open>The URL of an image is used again\<close>

text \<open>
  Asset ids are row ids without \<open>AUTOINCREMENT\<close>: when the newest image is reset, the next upload
  gets its id, and so its URL, which was served as immutable.
\<close>

lemma next_id_set: "set is = set js \<Longrightarrow> next_id is = next_id js"
proof -
  have "foldr max ks 0 = Max (insert 0 (set ks))" for ks :: "int list"
    by (induction ks) (simp_all add: insert_commute)
  moreover assume "set is = set js"
  ultimately show ?thesis by (simp add: next_id_def)
qed

lemma reset_drops:
  assumes "ResetSiteAssetWithAudit flt afail now d kind e = (d', Inr x)" and "logo_of kind (db_settings d) = Some i"
  shows "set (db_assets d') = {a \<in> set (db_assets d). asset_ID a \<noteq> i}"
    "logo_of kind (db_settings d') = None"
proof -
  let ?d1 = "d\<lparr>db_settings := set_logo kind None now (db_settings d)\<rparr>"
  obtain d2 where d2: "retire_asset now (Some i) ?d1 = Some d2" "createAuditEventTx afail now d2 e = Inr d'"
    using assms unfolding ResetSiteAssetWithAudit_def Let_def by (auto split: if_splits option.splits sum.splits)
  have "logo_of kind (db_settings ?d1) = None" by (simp add: logo_of_def set_logo_def)
  with retire_rows [OF d2(1)] createAuditEventTx_tables [OF d2(2)]
  show "set (db_assets d') = {a \<in> set (db_assets d). asset_ID a \<noteq> i}" "logo_of kind (db_settings d') = None"
    by auto
qed

lemma url_reused:
  assumes inv: "branding_inv b" and none: "logo_of kind (db_settings (br_db b)) = None" and ok: "sides_fit decode_config"
    and limits: "ax_MaxBytes (br_assets b) = max_asset_body"
    and up1: "uploadSiteAsset decode_config F1 now1 random1 (\<lambda>k. k) kind type1 body1 actor1 b = (b1, resp1)" "res_status resp1 = 201"
    and reset: "resetSiteAsset flt afail F2 now2 kind actor2 b1 = (b2, resp2)" "res_status resp2 = 204"
    and up3: "uploadSiteAsset decode_config F3 now3 random3 (\<lambda>k. k) kind type3 body3 actor3 b2 = (b3, resp3)" "res_status resp3 = 201"
    and random: "length random1 = 32" "length random3 = 32"
    and new1: "\<And>ext. asset_key random1 ext \<notin> asset_OpaqueKey ` set (db_assets (br_db b)) \<union> fst ` set (db_asset_cleanup (br_db b))"
    and new3: "\<And>ext. asset_key random3 ext \<notin> asset_OpaqueKey ` set (db_assets (br_db b2)) \<union> fst ` set (db_asset_cleanup (br_db b2))"
  shows "\<exists>i. logo_of kind (db_settings (br_db b1)) = Some i \<and> logo_of kind (db_settings (br_db b3)) = Some i
    \<and> res_body (serveSiteAssetID False False (\<lambda>k. k) False False i b1) = Data (fst body1)
    \<and> header_of ''Cache-Control'' (serveSiteAssetID False False (\<lambda>k. k) False False i b1) = Some ''public, max-age=31536000, immutable''
    \<and> res_body (serveSiteAssetID False False (\<lambda>k. k) False False i b3) = Data (fst body3)"
proof -
  have mid: "run site_step k k" "fresh_asset key c k \<Longrightarrow> fresh_asset key c k" for k key c
    by (auto intro: run.intros)
  obtain a where a: "branding_inv b1" "a \<in> set (db_assets (br_db b1))" "logo_of kind (db_settings (br_db b1)) = Some (asset_ID a)"
    "ax_files (br_assets b1) (asset_OpaqueKey a) = Some (fst body1)"
    "asset_ID a = next_id (map asset_ID (db_assets (br_db b)))"
    "set (db_assets (br_db b1)) = insert a (set (db_assets (br_db b)))" "run site_step b b1"
    by (rule upload_accepted [OF up1 inv ok limits random(1) _ _ mid]) (use new1 none in auto)
  have valid: "validSiteAssetKind kind"
    using reset by (auto simp: resetSiteAsset_def split: if_splits)
  let ?e = "admin_event actor2 ''admin.site_asset.reset'' (''/'' @ kind)"
  obtain d y where d: "ResetSiteAssetWithAudit flt afail now2 (br_db b1) kind ?e = (d, y)" by fastforce
  have on: "on_db (\<lambda>d. ResetSiteAssetWithAudit flt afail now2 d kind ?e) b1 = (b1\<lparr>br_db := d\<rparr>, y)"
    using d by (simp add: on_db_def)
  from reset valid on obtain u where y: "y = Inr u" and b2: "b2 = cleanupSiteAssets F2 (b1\<lparr>br_db := d\<rparr>)"
    by (auto simp: resetSiteAsset_def split: sum.splits)
  have i2: "branding_inv (b1\<lparr>br_db := d\<rparr>)" by (rule site_step_inv [OF st_reset [OF on] a(1)])
  note cl = cleanup_run [where F = F2, OF i2]
  have inv2: "branding_inv b2" unfolding b2 by (rule site.run_inv [OF cl(1) i2])
  note drop = reset_drops [OF d [unfolded y] a(3)]
  have fresh: "asset_ID x \<noteq> asset_ID a" if "x \<in> set (db_assets (br_db b))" for x
    using next_id_fresh [of "map asset_ID (db_assets (br_db b))"] a(5) that by force
  have rows: "set (db_assets (br_db b2)) = set (db_assets (br_db b))"
    unfolding b2 cl(2) using drop(1) a(6) fresh by auto
  have none2: "logo_of kind (db_settings (br_db b2)) = None" using drop(2) cl(3) by (simp add: b2)
  have "run site_step b1 b2" unfolding b2 by (rule run_first [of site_step, OF st_reset [OF on] cl(1)])
  from run_trans [of site_step, OF this a(7)] have "run site_step b b2" .
  then have lim2: "ax_MaxBytes (br_assets b2) = max_asset_body" using limits by (rule site_limits.run_inv)
  obtain c where c: "branding_inv b3" "c \<in> set (db_assets (br_db b3))" "logo_of kind (db_settings (br_db b3)) = Some (asset_ID c)"
    "ax_files (br_assets b3) (asset_OpaqueKey c) = Some (fst body3)"
    "asset_ID c = next_id (map asset_ID (db_assets (br_db b2)))"
    by (rule upload_accepted [OF up3 inv2 ok lim2 random(2) _ _ mid]) (use new3 none2 in auto)
  have "asset_ID c = asset_ID a" using c(5) a(5) rows next_id_set [of "map asset_ID (db_assets (br_db b2))"] by simp
  with a c serve_row [OF a(1,2,4), of False False] serve_row [OF c(1,2,4), of False False] show ?thesis
    by (intro exI [of _ "asset_ID a"]) (simp add: header_of_def)
qed

end
