(* ===== verification/Bootstrap.thy ===== *)
theory Bootstrap
  imports Sessions Config
begin

text \<open>
  What the command does to the database before it serves (\<open>cmd/safefilehub/bootstrap.go\<close> and
  \<open>main.go\<close>): the first administrator, the one storage root, and the administrator's
  permissions.  \<open>F s\<close> says that the step \<open>s\<close> fails; the random bytes are arguments.
\<close>

datatype start_site = LoadBootstrap | LoadLegacy | AdoptLegacy | DrawName | DrawPassword | DrawSalt
  | WriteAdmin | CheckRoot | MakeRoot | LoadAdmin | LoadPermissions | MakePermission string

type_synonym start_faults = "start_site \<Rightarrow> bool"

record initial_admin =
  ia_Username :: string
  ia_Password :: string
  ia_Created :: bool

definition no_admin :: initial_admin where
  "no_admin = \<lparr>ia_Username = [], ia_Password = [], ia_Created = False\<rparr>"

record start_random =
  rnd_name :: string
  rnd_password :: string
  rnd_salt :: string

section \<open>The first administrator\<close>

definition credential :: "bool \<Rightarrow> string \<Rightarrow> err + string" where
  "credential flt random = (if flt then Inl IoError else Inr (b64_encode True random))"

definition isLegacyBootstrapUsername :: "string \<Rightarrow> bool" where
  "isLegacyBootstrapUsername name \<longleftrightarrow>
     has_prefix name ''sfh-''
     \<and> (case b64_decode True (trim_prefix name ''sfh-'') of None \<Rightarrow> False | Some b \<Rightarrow> length b = 24)"

definition createInitial ::
    "kdf \<Rightarrow> start_faults \<Rightarrow> start_random \<Rightarrow> int \<Rightarrow> bool \<Rightarrow> db \<Rightarrow> db \<times> (err + initial_admin)" where
  "createInitial argon2 F rnd now create d =
     (case credential (F DrawName) (rnd_name rnd) of
        Inl e \<Rightarrow> (d, Inl e)
      | Inr name \<Rightarrow>
          (case credential (F DrawPassword) (rnd_password rnd) of
             Inl e \<Rightarrow> (d, Inl e)
           | Inr pass \<Rightarrow>
               (case HashPassword argon2 (F DrawSalt) (rnd_salt rnd) pass of
                  Inl e \<Rightarrow> (d, Inl e)
                | Inr hash \<Rightarrow>
                    if create then
                      (case CreateBootstrapAdmin (F WriteAdmin) now d
                              \<lparr>user_ID = 0, user_Username = ''sfh-'' @ name, user_PasswordHash = hash,
                               user_Disabled = False, user_CreatedAt = zero_time, user_UpdatedAt = zero_time\<rparr> of
                         (d', Inl e) \<Rightarrow> (d', Inl e)
                       | (d', Inr u) \<Rightarrow>
                           (d', Inr \<lparr>ia_Username = user_Username u, ia_Password = pass, ia_Created = True\<rparr>))
                    else
                      (case ResetInitialAdmin (F WriteAdmin) now d (''sfh-'' @ name) hash of
                         (d', Inl e) \<Rightarrow> (d', Inl e)
                       | (d', Inr ()) \<Rightarrow>
                           (d', Inr \<lparr>ia_Username = ''sfh-'' @ name, ia_Password = pass, ia_Created = False\<rparr>)))))"

definition bootstrapInitialAdmin ::
    "kdf \<Rightarrow> start_faults \<Rightarrow> start_random \<Rightarrow> int \<Rightarrow> db \<Rightarrow> db \<times> (err + initial_admin)" where
  "bootstrapInitialAdmin argon2 F rnd now d =
     (case BootstrapAdmin (F LoadBootstrap) d of
        Inr u \<Rightarrow> (d, Inr no_admin)
      | Inl e \<Rightarrow>
          if e \<noteq> DbNotFound then (d, Inl e)
          else
            (case UserByID (F LoadLegacy) d 1 of
               Inl x \<Rightarrow> createInitial argon2 F rnd now True d
             | Inr legacy \<Rightarrow>
                 if isLegacyBootstrapUsername (user_Username legacy) then
                   (case AdoptLegacyBootstrapAdmin (F AdoptLegacy) d (user_ID legacy) of
                      (d', Inl x) \<Rightarrow> (d', Inl x)
                    | (d', Inr ()) \<Rightarrow> (d', Inr no_admin))
                 else createInitial argon2 F rnd now True d))"

definition resetInitialAdmin ::
    "kdf \<Rightarrow> start_faults \<Rightarrow> start_random \<Rightarrow> int \<Rightarrow> db \<Rightarrow> db \<times> (err + initial_admin)" where
  "resetInitialAdmin argon2 F rnd now d =
     (case BootstrapAdmin (F LoadBootstrap) d of
        Inl e \<Rightarrow> (d, Inl e)
      | Inr u \<Rightarrow> createInitial argon2 F rnd now False d)"

section \<open>The root and the permissions of the administrator\<close>

definition ensurePrimaryStorageRoot :: "start_faults \<Rightarrow> int \<Rightarrow> string \<Rightarrow> db \<Rightarrow> db \<times> (err + unit)" where
  "ensurePrimaryStorageRoot F now path d =
     (case StorageRootByID (F CheckRoot) d 1 of
        Inr r \<Rightarrow> (d, Inr ())
      | Inl e \<Rightarrow>
          if e \<noteq> DbNotFound then (d, Inl e)
          else
            (case CreateStorageRoot (F MakeRoot) now d
                    \<lparr>root_ID = 0, root_Name = ''primary'', root_Path = path,
                     root_CreatedAt = zero_time, root_UpdatedAt = zero_time\<rparr> of
               (d', Inl x) \<Rightarrow> (d', Inl x)
             | (d', Inr r) \<Rightarrow> (d', Inr ())))"

fun add_permissions ::
    "start_faults \<Rightarrow> int \<Rightarrow> int \<Rightarrow> int \<Rightarrow> string list \<Rightarrow> string list \<Rightarrow> db \<Rightarrow> db \<times> (err + unit)" where
  "add_permissions F now uid rid existing [] d = (d, Inr ())"
| "add_permissions F now uid rid existing (action # actions) d =
     (if ''/'' @ CHR 0x00 # action \<in> set existing then add_permissions F now uid rid existing actions d
      else
        (case CreatePermission (F (MakePermission action)) now d
                \<lparr>perm_ID = 0, perm_UserID = uid, perm_RootID = rid, perm_PathPrefix = ''/'',
                 perm_Action = action, perm_Allow = True, perm_CreatedAt = zero_time,
                 perm_UpdatedAt = zero_time\<rparr> of
           (d', Inl e) \<Rightarrow> (d', Inl e)
         | (d', Inr p) \<Rightarrow> add_permissions F now uid rid existing actions d'))"

definition all_actions :: "string list" where
  "all_actions = [''read'', ''write'', ''delete'', ''archive'']"

definition ensureBootstrapRootPermissions ::
    "start_faults \<Rightarrow> int \<Rightarrow> int \<Rightarrow> int \<Rightarrow> db \<Rightarrow> db \<times> (err + unit)" where
  "ensureBootstrapRootPermissions F now uid rid d =
     (case PermissionsForUserAndRoot (F LoadPermissions) d uid rid of
        Inl e \<Rightarrow> (d, Inl e)
      | Inr perms \<Rightarrow>
          add_permissions F now uid rid (map (\<lambda>p. perm_PathPrefix p @ CHR 0x00 # perm_Action p) perms)
            all_actions d)"

text \<open>The part of \<open>runWithLifecycle\<close> between opening the database and the session manager.\<close>

definition start_database ::
    "kdf \<Rightarrow> start_faults \<Rightarrow> start_random \<Rightarrow> int \<Rightarrow> string \<Rightarrow> db \<Rightarrow> db \<times> (err + initial_admin)" where
  "start_database argon2 F rnd now path d =
     (case bootstrapInitialAdmin argon2 F rnd now d of
        (d1, Inl e) \<Rightarrow> (d1, Inl e)
      | (d1, Inr creds) \<Rightarrow>
          (case ensurePrimaryStorageRoot F now path d1 of
             (d2, Inl e) \<Rightarrow> (d2, Inl e)
           | (d2, Inr ()) \<Rightarrow>
               (case BootstrapAdmin (F LoadAdmin) d2 of
                  Inl e \<Rightarrow> (d2, Inl e)
                | Inr b \<Rightarrow>
                    (case ensureBootstrapRootPermissions F now (user_ID b) 1 d2 of
                       (d3, Inl e) \<Rightarrow> (d3, Inl e)
                     | (d3, Inr ()) \<Rightarrow> (d3, Inr creds)))))"

section \<open>What starting leaves\<close>

text \<open>The place of an administrator's row is taken, whether it allows or denies.\<close>

definition occupied :: "db \<Rightarrow> int \<Rightarrow> string \<Rightarrow> bool" where
  "occupied d uid a \<longleftrightarrow>
     list_ex (\<lambda>p. perm_UserID p = uid \<and> perm_RootID p = 1 \<and> perm_PathPrefix p = ''/'' \<and> perm_Action p = a)
       (db_perms d)"

lemma action_facts:
  assumes "a \<in> set all_actions"
  shows "normalizeAction a = a" "a \<noteq> []" "CHR 0x00 \<notin> set a"
proof -
  have "normalizeAction ''read'' = ''read''" "normalizeAction ''write'' = ''write''"
    "normalizeAction ''delete'' = ''delete''" "normalizeAction ''archive'' = ''archive''"
    by code_simp+
  with assms show "normalizeAction a = a" "a \<noteq> []" "CHR 0x00 \<notin> set a"
    by (auto simp: all_actions_def)
qed

lemma key_occupied:
  assumes "a \<in> set all_actions" and "PermissionsForUserAndRoot flt d uid 1 = Inr perms"
  shows "''/'' @ CHR 0x00 # a \<in> set (map (\<lambda>p. perm_PathPrefix p @ CHR 0x00 # perm_Action p) perms) \<longleftrightarrow> occupied d uid a"
proof -
  have "''/'' @ CHR 0x00 # a = q @ CHR 0x00 # b \<longleftrightarrow> q = ''/'' \<and> b = a" for q b
    using append_Cons_eq_iff [of "CHR 0x00" "''/''" a q b] action_facts(3) [OF assms(1)] by auto
  then have "''/'' @ CHR 0x00 # a \<in> set (map (\<lambda>p. perm_PathPrefix p @ CHR 0x00 # perm_Action p) perms)
      \<longleftrightarrow> (\<exists>p \<in> set perms. perm_PathPrefix p = ''/'' \<and> perm_Action p = a)"
    by (simp add: image_iff)
  then show ?thesis
    using assms(2) by (auto simp: PermissionsForUserAndRoot_def occupied_def list_ex_iff split: if_splits)
qed

lemma CreatePermission_Inr:
  assumes "CreatePermission flt now d p = (d', Inr q)" and "perm_Action p \<in> set all_actions"
  shows "d' = d\<lparr>db_perms := db_perms d @ [q]\<rparr>" "perm_UserID q = perm_UserID p" "perm_RootID q = perm_RootID p"
    "perm_PathPrefix q = perm_PathPrefix p" "perm_Action q = perm_Action p" "perm_Allow q = perm_Allow p"
    "user_exists d (perm_UserID p)" "root_exists d (perm_RootID p)"
  using assms action_facts(1) [OF assms(2)] by (auto simp: CreatePermission_def Let_def split: if_splits)

lemma CreatePermission_Inl: "CreatePermission flt now d p = (d', Inl e) \<Longrightarrow> d' = d"
  by (auto simp: CreatePermission_def Let_def split: if_splits)

definition granted_rows :: "int \<Rightarrow> int \<Rightarrow> string list \<Rightarrow> string list \<Rightarrow> permission list \<Rightarrow> bool" where
  "granted_rows uid rid existing actions ps \<longleftrightarrow>
     (\<forall>p \<in> set ps. perm_UserID p = uid \<and> perm_RootID p = rid \<and> perm_PathPrefix p = ''/'' \<and> perm_Allow p
        \<and> perm_Action p \<in> set actions \<and> ''/'' @ CHR 0x00 # perm_Action p \<notin> set existing)"

lemma add_permissions_rows:
  assumes "add_permissions F now uid rid existing as d = (d', r)" and "set as \<subseteq> set all_actions"
  shows "\<exists>ps. d' = d\<lparr>db_perms := db_perms d @ ps\<rparr> \<and> granted_rows uid rid existing as ps
    \<and> (r = Inr () \<longrightarrow> (\<forall>a \<in> set as. ''/'' @ CHR 0x00 # a \<in> set existing \<or> a \<in> perm_Action ` set ps))
    \<and> (ps \<noteq> [] \<longrightarrow> root_exists d rid)"
  using assms
proof (induction as arbitrary: d)
  case Nil
  then show ?case by (auto intro!: exI [of _ "[]"] simp: granted_rows_def)
next
  case (Cons a as)
  let ?p = "\<lparr>perm_ID = 0, perm_UserID = uid, perm_RootID = rid, perm_PathPrefix = ''/'',
    perm_Action = a, perm_Allow = True, perm_CreatedAt = zero_time, perm_UpdatedAt = zero_time\<rparr>"
  have a: "perm_Action ?p \<in> set all_actions" and as: "set as \<subseteq> set all_actions" using Cons.prems(2) by auto
  show ?case
  proof (cases "''/'' @ CHR 0x00 # a \<in> set existing")
    case True
    with Cons.prems(1) have "add_permissions F now uid rid existing as d = (d', r)" by simp
    from Cons.IH [OF this as] obtain ps where
      ps: "d' = d\<lparr>db_perms := db_perms d @ ps\<rparr>" "granted_rows uid rid existing as ps"
        "r = Inr () \<longrightarrow> (\<forall>a \<in> set as. ''/'' @ CHR 0x00 # a \<in> set existing \<or> a \<in> perm_Action ` set ps)"
        "ps \<noteq> [] \<longrightarrow> root_exists d rid" by blast
    from ps(2) have "granted_rows uid rid existing (a # as) ps" by (simp add: granted_rows_def)
    with ps(1,3,4) True show ?thesis by (metis set_ConsD)
  next
    case False
    obtain d1 x where c: "CreatePermission (F (MakePermission a)) now d ?p = (d1, x)" by fastforce
    show ?thesis
    proof (cases x)
      case (Inl e)
      with c False Cons.prems(1) have "d' = d1" "r = Inl e" by auto
      with CreatePermission_Inl c Inl show ?thesis
        by (auto intro!: exI [of _ "[]"] simp: granted_rows_def)
    next
      case (Inr q)
      note q = CreatePermission_Inr [OF c [unfolded Inr] a]
      have "add_permissions F now uid rid existing as d1 = (d', r)" using c Inr False Cons.prems(1) by simp
      from Cons.IH [OF this as] obtain ps where
        ps: "d' = d1\<lparr>db_perms := db_perms d1 @ ps\<rparr>" "granted_rows uid rid existing as ps"
          "r = Inr () \<longrightarrow> (\<forall>a \<in> set as. ''/'' @ CHR 0x00 # a \<in> set existing \<or> a \<in> perm_Action ` set ps)" by blast
      have "granted_rows uid rid existing (a # as) (q # ps)"
        using ps(2) q False by (simp add: granted_rows_def)
      moreover have "d' = d\<lparr>db_perms := db_perms d @ q # ps\<rparr>" using ps(1) q(1) by simp
      moreover have "r = Inr () \<longrightarrow> (\<forall>b \<in> set (a # as). ''/'' @ CHR 0x00 # b \<in> set existing \<or> b \<in> perm_Action ` set (q # ps))"
        using ps(3) q(5) by auto
      moreover have "root_exists d rid" using q(8) by simp
      ultimately show ?thesis by blast
    qed
  qed
qed

text \<open>When every place is taken, nothing is added.\<close>

lemma add_permissions_none:
  "\<forall>a \<in> set as. ''/'' @ CHR 0x00 # a \<in> set existing \<Longrightarrow> add_permissions F now uid rid existing as d = (d, Inr ())"
  by (induction as) simp_all

text \<open>A created administrator: a new enabled user whose stored hash is that of the printed password.\<close>

definition created_admin :: "kdf \<Rightarrow> start_random \<Rightarrow> db \<Rightarrow> initial_admin \<Rightarrow> user_row \<Rightarrow> bool" where
  "created_admin argon2 rnd d c u \<longleftrightarrow>
     ia_Created c \<and> user_Username u = ia_Username c \<and> \<not> user_Disabled u
     \<and> user_ID u \<notin> user_ID ` set (db_users d) \<and> user_Username u \<notin> user_Username ` set (db_users d)
     \<and> HashPassword argon2 False (rnd_salt rnd) (ia_Password c) = Inr (user_PasswordHash u)"

lemma HashPassword_flt: "HashPassword argon2 flt salt p = Inr h \<Longrightarrow> HashPassword argon2 False salt p = Inr h"
  by (auto simp: HashPassword_def split: if_splits)

lemma insert_user_fields:
  assumes "insert_user now d u = Inr (u', d')"
  shows "user_PasswordHash u' = user_PasswordHash u" "user_Disabled u' = user_Disabled u"
  using assms by (auto simp: insert_user_def Let_def split: if_splits)

lemma CreateBootstrapAdmin_Inr:
  assumes "CreateBootstrapAdmin flt now d u = (d', Inr u')"
  shows "\<exists>d1. insert_user now d u = Inr (u', d1)" "db_bootstrap d = None"
    "d' = d\<lparr>db_users := db_users d @ [u'], db_bootstrap := Some (user_ID u')\<rparr>"
proof -
  obtain d1 where i: "insert_user now d u = Inr (u', d1)" "insert_bootstrap d1 (user_ID u') = Inr d'"
    using assms by (auto simp: CreateBootstrapAdmin_def split: if_splits sum.splits)
  then show "\<exists>d1. insert_user now d u = Inr (u', d1)" by blast
  note d1 = insert_user_Inr(1) [OF i(1)]
  from i(2) show "db_bootstrap d = None" by (simp add: insert_bootstrap_Inr d1)
  from i(2) show "d' = d\<lparr>db_users := db_users d @ [u'], db_bootstrap := Some (user_ID u')\<rparr>"
    by (simp add: insert_bootstrap_Inr d1)
qed

lemma createInitial_Inr:
  assumes "createInitial argon2 F rnd now True d = (d', Inr c)"
  shows "\<exists>u. d' = d\<lparr>db_users := db_users d @ [u], db_bootstrap := Some (user_ID u)\<rparr> \<and> db_bootstrap d = None
    \<and> created_admin argon2 rnd d c u"
proof -
  obtain name hash u where
    h: "HashPassword argon2 (F DrawSalt) (rnd_salt rnd) (ia_Password c) = Inr hash" "ia_Created c" "ia_Username c = user_Username u"
    and b: "CreateBootstrapAdmin (F WriteAdmin) now d
       \<lparr>user_ID = 0, user_Username = ''sfh-'' @ name, user_PasswordHash = hash,
        user_Disabled = False, user_CreatedAt = zero_time, user_UpdatedAt = zero_time\<rparr> = (d', Inr u)"
    using assms by (auto simp: createInitial_def split: sum.splits prod.splits)
  note c = CreateBootstrapAdmin_Inr [OF b]
  from c(1) obtain d1 where i: "insert_user now d \<lparr>user_ID = 0, user_Username = ''sfh-'' @ name, user_PasswordHash = hash,
        user_Disabled = False, user_CreatedAt = zero_time, user_UpdatedAt = zero_time\<rparr> = Inr (u, d1)" by blast
  have "created_admin argon2 rnd d c u"
    using insert_user_fields [OF i] insert_user_Inr(2-4) [OF i] HashPassword_flt [OF h(1)] h(2,3)
    by (simp add: created_admin_def)
  with c(2,3) show ?thesis by blast
qed

lemma bootstrap_first:
  assumes "bootstrapInitialAdmin argon2 F rnd now d = (d', Inr c)"
  shows "(c = no_admin \<and> (d' = d \<and> db_bootstrap d \<noteq> None \<or> db_bootstrap d = None \<and> user_exists d 1 \<and> d' = d\<lparr>db_bootstrap := Some 1\<rparr>))
    \<or> (\<exists>u. d' = d\<lparr>db_users := db_users d @ [u], db_bootstrap := Some (user_ID u)\<rparr> \<and> db_bootstrap d = None
         \<and> created_admin argon2 rnd d c u)"
proof -
  have legacy: thesis if k: "createInitial argon2 F rnd now True d = (d', Inr c) \<Longrightarrow> thesis"
    "\<And>l. UserByID (F LoadLegacy) d 1 = Inr l \<Longrightarrow>
       AdoptLegacyBootstrapAdmin (F AdoptLegacy) d (user_ID l) = (d', Inr ()) \<Longrightarrow> c = no_admin \<Longrightarrow> thesis"
    and e: "BootstrapAdmin (F LoadBootstrap) d = Inl e" for thesis e
  proof (cases "UserByID (F LoadLegacy) d 1")
    case (Inl x)
    with assms e show ?thesis
      by (intro k(1)) (simp add: bootstrapInitialAdmin_def split: if_splits)
  next
    case (Inr l)
    obtain d1 x where a: "AdoptLegacyBootstrapAdmin (F AdoptLegacy) d (user_ID l) = (d1, x)" by fastforce
    show ?thesis
    proof (cases "isLegacyBootstrapUsername (user_Username l)")
      case True
      with assms e Inr a have "x = Inr () \<and> d1 = d' \<and> c = no_admin"
        by (cases x) (simp_all add: bootstrapInitialAdmin_def split: if_splits)
      with a show ?thesis by (intro k(2) [OF Inr]) simp_all
    next
      case False
      with assms e Inr show ?thesis
        by (intro k(1)) (simp add: bootstrapInitialAdmin_def split: if_splits)
    qed
  qed
  consider u where "BootstrapAdmin (F LoadBootstrap) d = Inr u" "d' = d" "c = no_admin"
    | l where "UserByID (F LoadLegacy) d 1 = Inr l"
        "AdoptLegacyBootstrapAdmin (F AdoptLegacy) d (user_ID l) = (d', Inr ())" "c = no_admin"
    | "createInitial argon2 F rnd now True d = (d', Inr c)"
  proof (cases "BootstrapAdmin (F LoadBootstrap) d")
    case (Inl e)
    from legacy [OF _ _ this] that(2,3) show ?thesis by blast
  next
    case (Inr u)
    with assms show ?thesis by (intro that(1)) (simp_all add: bootstrapInitialAdmin_def)
  qed
  then show ?thesis
  proof cases
    case 1
    then have "db_bootstrap d \<noteq> None"
      by (auto simp: BootstrapAdmin_def query_row_def find_Some_iff split: if_splits option.splits)
    with 1 show ?thesis by blast
  next
    case 2
    have "user_ID l = 1"
      using 2(1) by (auto simp: UserByID_def query_row_def find_Some_iff split: if_splits option.splits)
    with 2(2) have "db_bootstrap d = None" "user_exists d 1" "d' = d\<lparr>db_bootstrap := Some 1\<rparr>"
      by (auto simp: AdoptLegacyBootstrapAdmin_def SetBootstrapAdmin_def insert_bootstrap_Inr split: if_splits sum.splits)
    with 2(3) show ?thesis by blast
  next
    case 3
    from createInitial_Inr [OF this] show ?thesis by blast
  qed
qed

lemma primary_root:
  assumes "ensurePrimaryStorageRoot F now path d = (d', Inr ())"
  shows "\<exists>rs. d' = d\<lparr>db_roots := db_roots d @ rs\<rparr> \<and> (root_exists d 1 \<longrightarrow> rs = [])"
    and "db_roots d = [] \<or> root_exists d 1 \<Longrightarrow> root_exists d' 1"
proof -
  have at: "StorageRootByID flt d 1 = Inr r \<Longrightarrow> root_exists d 1" for flt r
    by (auto simp: StorageRootByID_def query_row_def find_Some_iff root_exists_def list_ex_iff split: if_splits option.splits)
  have nf: "StorageRootByID flt d 1 = Inl DbNotFound \<Longrightarrow> \<not> root_exists d 1" for flt
    by (auto simp: StorageRootByID_def query_row_def find_None_iff root_exists_def list_ex_iff split: if_splits option.splits)
  consider r where "StorageRootByID (F CheckRoot) d 1 = Inr r" "d' = d"
    | r where "StorageRootByID (F CheckRoot) d 1 = Inl DbNotFound" "d' = d\<lparr>db_roots := db_roots d @ [r]\<rparr>"
        "root_ID r = next_id (map root_ID (db_roots d))"
    using assms
    by (auto simp: ensurePrimaryStorageRoot_def CreateStorageRoot_def Let_def split: sum.splits if_splits prod.splits)
  then have "(\<exists>rs. d' = d\<lparr>db_roots := db_roots d @ rs\<rparr> \<and> (root_exists d 1 \<longrightarrow> rs = []))
    \<and> (db_roots d = [] \<or> root_exists d 1 \<longrightarrow> root_exists d' 1)"
  proof cases
    case 1
    with at [OF 1(1)] show ?thesis by (auto intro!: exI [of _ "[]"])
  next
    case 2
    with nf [OF 2(1)] show ?thesis by (auto simp: root_exists_def next_id_def)
  qed
  then show "\<exists>rs. d' = d\<lparr>db_roots := db_roots d @ rs\<rparr> \<and> (root_exists d 1 \<longrightarrow> rs = [])"
    and "db_roots d = [] \<or> root_exists d 1 \<Longrightarrow> root_exists d' 1" by blast+
qed

text \<open>Only rows are added, and the rows of permissions allow in places that were free.\<close>

definition starts_from :: "db \<Rightarrow> db \<Rightarrow> bool" where
  "starts_from d d' \<longleftrightarrow>
     (\<exists>us rs ps b. d' = d\<lparr>db_users := db_users d @ us, db_bootstrap := b, db_roots := db_roots d @ rs,
                           db_perms := db_perms d @ ps\<rparr>
        \<and> (db_bootstrap d \<noteq> None \<longrightarrow> b = db_bootstrap d \<and> us = []) \<and> (root_exists d 1 \<longrightarrow> rs = [])
        \<and> (\<forall>p \<in> set ps. perm_Allow p \<and> Some (perm_UserID p) = b \<and> \<not> occupied d (perm_UserID p) (perm_Action p)))"

definition perms_ok :: "db \<Rightarrow> bool" where
  "perms_ok d \<longleftrightarrow> (\<forall>p \<in> set (db_perms d). root_exists d (perm_RootID p))"

lemma admin_permissions:
  assumes "ensureBootstrapRootPermissions F now uid 1 d = (d', Inr ())" and "perms_ok d"
  shows "\<exists>ps. d' = d\<lparr>db_perms := db_perms d @ ps\<rparr>
      \<and> (\<forall>p \<in> set ps. perm_Allow p \<and> perm_UserID p = uid \<and> \<not> occupied d uid (perm_Action p))"
    and "root_exists d' 1" and "\<forall>a \<in> set all_actions. occupied d' uid a"
proof -
  obtain perms where l: "PermissionsForUserAndRoot (F LoadPermissions) d uid 1 = Inr perms"
    and add: "add_permissions F now uid 1 (map (\<lambda>p. perm_PathPrefix p @ CHR 0x00 # perm_Action p) perms)
      all_actions d = (d', Inr ())"
    using assms(1) by (auto simp: ensureBootstrapRootPermissions_def split: sum.splits)
  note key = key_occupied [OF _ l]
  from add_permissions_rows [OF add subset_refl] obtain ps where
    ps: "d' = d\<lparr>db_perms := db_perms d @ ps\<rparr>"
      "granted_rows uid 1 (map (\<lambda>p. perm_PathPrefix p @ CHR 0x00 # perm_Action p) perms) all_actions ps"
      "\<forall>a \<in> set all_actions. occupied d uid a \<or> a \<in> perm_Action ` set ps" "ps \<noteq> [] \<longrightarrow> root_exists d 1"
    using key by blast
  have g: "\<forall>p \<in> set ps. perm_Allow p \<and> perm_UserID p = uid \<and> perm_RootID p = 1 \<and> perm_PathPrefix p = ''/''
      \<and> \<not> occupied d uid (perm_Action p)"
  proof
    fix p assume "p \<in> set ps"
    with ps(2) have p: "perm_Allow p" "perm_UserID p = uid" "perm_RootID p = 1" "perm_PathPrefix p = ''/''"
      "perm_Action p \<in> set all_actions" "''/'' @ CHR 0x00 # perm_Action p
        \<notin> set (map (\<lambda>p. perm_PathPrefix p @ CHR 0x00 # perm_Action p) perms)"
      unfolding granted_rows_def by blast+
    with key [OF p(5)] show "perm_Allow p \<and> perm_UserID p = uid \<and> perm_RootID p = 1 \<and> perm_PathPrefix p = ''/''
        \<and> \<not> occupied d uid (perm_Action p)" by blast
  qed
  with ps(1) show "\<exists>ps. d' = d\<lparr>db_perms := db_perms d @ ps\<rparr>
      \<and> (\<forall>p \<in> set ps. perm_Allow p \<and> perm_UserID p = uid \<and> \<not> occupied d uid (perm_Action p))" by blast
  show all: "\<forall>a \<in> set all_actions. occupied d' uid a"
  proof
    fix a assume "a \<in> set all_actions"
    with ps(3) consider "occupied d uid a" | "a \<in> perm_Action ` set ps" by blast
    then show "occupied d' uid a"
    proof cases
      case 1
      then show ?thesis by (simp add: occupied_def ps(1))
    next
      case 2
      then obtain p where "p \<in> set ps" "perm_Action p = a" by blast
      with g have "list_ex (\<lambda>p. perm_UserID p = uid \<and> perm_RootID p = 1 \<and> perm_PathPrefix p = ''/'' \<and> perm_Action p = a) ps"
        by (auto simp: list_ex_iff)
      then show ?thesis by (simp add: occupied_def ps(1))
    qed
  qed
  have "root_exists d 1"
  proof (cases "ps = []")
    case True
    with all have "occupied d uid ''read''" by (simp add: ps(1) all_actions_def)
    then obtain p where "p \<in> set (db_perms d)" "perm_RootID p = 1" by (auto simp: occupied_def list_ex_iff)
    with assms(2) show ?thesis by (metis perms_ok_def)
  qed (use ps(4) in blast)
  then show "root_exists d' 1" by (simp add: ps(1) root_exists_def)
qed

lemma find_key:
  assumes "distinct (map g rows)" and "r \<in> set rows"
  shows "find (\<lambda>x. g r = g x) rows = Some r" "find (\<lambda>x. g x = g r) rows = Some r"
  using row_at_eq [OF assms(1), of "g r" r] assms(2) by (simp_all add: row_at_def eq_commute)

lemma bootstrap_user:
  assumes "accounts_inv d" and "u \<in> set (db_users d)" and "db_bootstrap d = Some (user_ID u)"
  shows "BootstrapAdmin False d = Inr u"
  using find_key(1) [OF _ assms(2), of user_ID] assms(1,3) by (simp add: BootstrapAdmin_def query_row_def accounts_inv_def)

text \<open>A second start finds everything in place.\<close>

lemma start_again:
  assumes "BootstrapAdmin False d = Inr u" and "root_exists d 1" and "\<forall>a \<in> set all_actions. occupied d (user_ID u) a"
  shows "start_database argon2 (\<lambda>_. False) rnd now path d = (d, Inr no_admin)"
proof -
  have "\<exists>r. StorageRootByID False d 1 = Inr r"
    using assms(2) by (auto simp: StorageRootByID_def query_row_def root_exists_def list_ex_iff find_None_iff split: option.splits)
  then obtain r where r: "StorageRootByID False d 1 = Inr r" ..
  obtain perms where l: "PermissionsForUserAndRoot False d (user_ID u) 1 = Inr perms"
    by (simp add: PermissionsForUserAndRoot_def)
  have "\<forall>a \<in> set all_actions.
      ''/'' @ CHR 0x00 # a \<in> set (map (\<lambda>p. perm_PathPrefix p @ CHR 0x00 # perm_Action p) perms)"
    using assms(3) key_occupied [OF _ l] by blast
  from add_permissions_none [OF this] r l assms(1) show ?thesis
    by (simp add: start_database_def bootstrapInitialAdmin_def ensurePrimaryStorageRoot_def
        ensureBootstrapRootPermissions_def)
qed

lemma bootstrap_accounts:
  assumes "bootstrapInitialAdmin argon2 F rnd now d = (d', Inr c)" and "accounts_inv d"
  shows "accounts_inv d'"
  using assms(2) bootstrap_first [OF assms(1)]
  by (elim disjE exE conjE) (auto simp: accounts_inv_def user_exists_def list_ex_iff created_admin_def)

lemma start_database_Inr:
  assumes "start_database argon2 F rnd now path d = (d', Inr c)"
  shows "\<exists>d1 d2 b. bootstrapInitialAdmin argon2 F rnd now d = (d1, Inr c)
    \<and> ensurePrimaryStorageRoot F now path d1 = (d2, Inr ()) \<and> BootstrapAdmin (F LoadAdmin) d2 = Inr b
    \<and> ensureBootstrapRootPermissions F now (user_ID b) 1 d2 = (d', Inr ())"
  using assms unfolding start_database_def by (simp split: sum.splits prod.splits)

text \<open>The whole of it.\<close>

lemma start_database_leaves:
  assumes start: "start_database argon2 F rnd now path d = (d', Inr c)"
    and inv: "accounts_inv d" "perms_ok d"
  shows "\<exists>u \<in> set (db_users d'). db_bootstrap d' = Some (user_ID u) \<and> accounts_inv d' \<and> root_exists d' 1
      \<and> (\<forall>a \<in> set all_actions. occupied d' (user_ID u) a) \<and> starts_from d d'
      \<and> (ia_Created c \<longrightarrow> created_admin argon2 rnd d c u)"
proof -
  from start_database_Inr [OF start] obtain d1 d2 b where
    s: "bootstrapInitialAdmin argon2 F rnd now d = (d1, Inr c)" "ensurePrimaryStorageRoot F now path d1 = (d2, Inr ())"
      "BootstrapAdmin (F LoadAdmin) d2 = Inr b" "ensureBootstrapRootPermissions F now (user_ID b) 1 d2 = (d', Inr ())"
    by blast
  from primary_root(1) [OF s(2)] obtain rs where
    d2: "d2 = d1\<lparr>db_roots := db_roots d1 @ rs\<rparr>" "root_exists d1 1 \<longrightarrow> rs = []" by blast
  have b: "b \<in> set (db_users d2)" "db_bootstrap d2 = Some (user_ID b)"
    using s(3) by (auto simp: BootstrapAdmin_def query_row_def find_Some_iff split: if_splits option.splits)
  from bootstrap_first [OF s(1)] obtain us bo where
    d1: "d1 = d\<lparr>db_users := db_users d @ us, db_bootstrap := bo\<rparr>" "db_bootstrap d \<noteq> None \<longrightarrow> bo = db_bootstrap d \<and> us = []"
    and c: "ia_Created c \<longrightarrow> (\<exists>u. us = [u] \<and> bo = Some (user_ID u) \<and> created_admin argon2 rnd d c u)"
  proof (elim disjE exE conjE)
    assume "d1 = d" "db_bootstrap d \<noteq> None" "c = no_admin"
    then show thesis by (intro that [of "db_bootstrap d" "[]"]) (simp_all add: no_admin_def)
  next
    assume "db_bootstrap d = None" "d1 = d\<lparr>db_bootstrap := Some 1\<rparr>" "c = no_admin"
    then show thesis by (intro that [of "Some 1" "[]"]) (simp_all add: no_admin_def)
  next
    fix u assume "d1 = d\<lparr>db_users := db_users d @ [u], db_bootstrap := Some (user_ID u)\<rparr>" "db_bootstrap d = None"
      "created_admin argon2 rnd d c u"
    then show thesis by (intro that [of "Some (user_ID u)" "[u]"]) simp_all
  qed
  have po: "perms_ok d2" using inv(2) by (auto simp: perms_ok_def d2(1) d1(1) root_exists_def)
  note ap = admin_permissions [OF s(4) po]
  from ap(1) obtain ps where
    d': "d' = d2\<lparr>db_perms := db_perms d2 @ ps\<rparr>"
      "\<forall>p \<in> set ps. perm_Allow p \<and> perm_UserID p = user_ID b \<and> \<not> occupied d2 (user_ID b) (perm_Action p)" by blast
  have sf: "starts_from d d'"
    unfolding starts_from_def using d1(2) d2(2) d'(2) b(2)
    by (intro exI [of _ us] exI [of _ rs] exI [of _ ps] exI [of _ bo])
      (auto simp: d'(1) d2(1) d1(1) root_exists_def occupied_def)
  have acc: "accounts_inv d'"
    using bootstrap_accounts [OF s(1) inv(1)] by (simp add: accounts_inv_def d'(1) d2(1) user_exists_def)
  have cr: "created_admin argon2 rnd d c b" if cc: "ia_Created c"
  proof -
    from c cc obtain u where u: "us = [u]" "bo = Some (user_ID u)" "created_admin argon2 rnd d c u" by blast
    have "u = b"
      using acc b u(1,2) by (auto simp: accounts_inv_def d'(1) d2(1) d1(1) image_iff)
    with u(3) show ?thesis by simp
  qed
  have "b \<in> set (db_users d')" "db_bootstrap d' = Some (user_ID b)" using b by (simp_all add: d'(1))
  with ap(2,3) sf acc cr show ?thesis by blast
qed

text \<open>The printed credentials log in.\<close>

lemma printed_credentials:
  assumes "created_admin argon2 rnd d c u" and "u \<in> set (db_users d')" and "accounts_inv d'"
    and "length (rnd_salt rnd) = 16" and "\<forall>q. length (argon2 q (rnd_salt rnd) 3 65536 1 32) = 32"
  shows "Authenticate argon2 False d' (ia_Username c) (ia_Password c) = Inr u"
proof -
  have "UserByUsername False d' (ia_Username c) = Inr u"
    using find_key(2) [of user_Username, OF _ assms(2)] assms(1,3)
    by (simp add: UserByUsername_def query_row_def accounts_inv_def created_admin_def)
  moreover have "HashPassword argon2 False (rnd_salt rnd) (ia_Password c) = Inr (user_PasswordHash u)"
    using assms(1) by (simp add: created_admin_def)
  from verify_hash [OF this assms(4) assms(5) [rule_format], of "ia_Password c"]
  have "VerifyPassword argon2 (user_PasswordHash u) (ia_Password c)" by simp
  ultimately show ?thesis using assms(1) by (simp add: Authenticate_def created_admin_def)
qed

end
