(* ===== verification/Logger.thy ===== *)
theory Logger
  imports Db
begin

text \<open>
  The application log (\<open>internal/observability/logger.go\<close>): an event, the redaction of its extra
  fields, and the line a logger writes.  \<open>json.Marshal\<close> of a map, \<open>strconv.Quote\<close> (the verb
  \<open>%q\<close>) and the RFC 3339 form of a time are parameters.
\<close>

record log_event =
  ev_Time :: int
  ev_Level :: string
  ev_ClientIP :: string
  ev_PeerIP :: string
  ev_UserID :: int
  ev_RequestID :: string
  ev_SessionAuditID :: string
  ev_TransferID :: string
  ev_Operation :: string
  ev_Route :: string
  ev_Success :: bool
  ev_Status :: int
  ev_ErrorCode :: string
  ev_Bytes :: int
  ev_DurationMS :: int
  ev_Fields :: "(string \<times> string) list"

datatype log_value = LogString string | LogInt int | LogBool bool

record log_syntax =
  sy_json :: "(string \<times> log_value) list \<Rightarrow> string"
  sy_quote :: "string \<Rightarrow> string"
  sy_time :: "int \<Rightarrow> string"

definition newline :: char where
  "newline = CHR 0x0A"

definition NewLogger :: "string \<Rightarrow> string" where
  "NewLogger format = (if format \<noteq> ''text'' then ''json'' else format)"

fun contains_text :: "string \<Rightarrow> string \<Rightarrow> bool" where
  "contains_text [] t \<longleftrightarrow> t = []"
| "contains_text (c # s) t \<longleftrightarrow> prefix t (c # s) \<or> contains_text s t"

definition secret_words :: "string list" where
  "secret_words = [''password'', ''cookie'', ''authorization'', ''token'', ''content'', ''query'']"

definition redact :: "(string \<times> string) list \<Rightarrow> (string \<times> string) list" where
  "redact fs = filter (\<lambda>f. \<not> list_ex (contains_text (to_lower (fst f))) secret_words) fs"

text \<open>Of two entries with one key the map holds the first: an extra field replaces a standard one.\<close>

definition json_fields :: "log_syntax \<Rightarrow> log_event \<Rightarrow> (string \<times> log_value) list" where
  "json_fields sy e =
     map (\<lambda>f. (fst f, LogString (snd f))) (ev_Fields e)
     @ (if ev_UserID e > 0 then [(''user_id'', LogInt (ev_UserID e))] else [])
     @ [(''time'', LogString (sy_time sy (ev_Time e))), (''level'', LogString (ev_Level e)),
        (''client_ip'', LogString (ev_ClientIP e)), (''peer_ip'', LogString (ev_PeerIP e)),
        (''request_id'', LogString (ev_RequestID e)),
        (''session_audit_id'', LogString (ev_SessionAuditID e)),
        (''transfer_id'', LogString (ev_TransferID e)), (''operation'', LogString (ev_Operation e)),
        (''route'', LogString (ev_Route e)), (''success'', LogBool (ev_Success e)),
        (''status'', LogInt (ev_Status e)), (''error_code'', LogString (ev_ErrorCode e)),
        (''bytes'', LogInt (ev_Bytes e)), (''duration_ms'', LogInt (ev_DurationMS e))]"

definition bool_text :: "bool \<Rightarrow> string" where
  "bool_text b = (if b then ''true'' else ''false'')"

definition text_parts :: "log_syntax \<Rightarrow> log_event \<Rightarrow> string list" where
  "text_parts sy e =
     [''time='' @ sy_quote sy (sy_time sy (ev_Time e)), ''level='' @ ev_Level e,
      ''operation='' @ ev_Operation e, ''route='' @ ev_Route e,
      ''status='' @ itoa (ev_Status e) @ '' success='' @ bool_text (ev_Success e),
      ''request_id='' @ ev_RequestID e, ''client_ip='' @ ev_ClientIP e, ''peer_ip='' @ ev_PeerIP e]
     @ map (\<lambda>k. k @ ''='' @ sy_quote sy (case map_of (ev_Fields e) k of None \<Rightarrow> ''<nil>'' | Some v \<Rightarrow> v))
         (sort (map fst (ev_Fields e)))"

text \<open>The bytes one call of \<open>Log\<close> writes.\<close>

definition log_Log :: "log_syntax \<Rightarrow> string \<Rightarrow> int \<Rightarrow> log_event \<Rightarrow> string" where
  "log_Log sy format now e0 =
     (let e = e0\<lparr>ev_Time := utcOrNow now (ev_Time e0), ev_Fields := redact (ev_Fields e0)\<rparr> in
      (if format = ''json'' then sy_json sy (json_fields sy e) else join (CHR '' '') (text_parts sy e)) @ [newline])"

text \<open>A multiple logger: one line for every sink that is there.\<close>

definition multi_Log :: "log_syntax \<Rightarrow> string option list \<Rightarrow> int \<Rightarrow> log_event \<Rightarrow> string list" where
  "multi_Log sy sinks now e =
     map (\<lambda>s. case s of None \<Rightarrow> [] | Some format \<Rightarrow> log_Log sy format now e) sinks"

section \<open>Redaction and forgery\<close>

lemma contains_text_iff: "contains_text s t \<longleftrightarrow> (\<exists>a b. s = a @ t @ b)"
proof (induction s)
  case (Cons c s)
  have "(\<exists>a b. c # s = a @ t @ b) \<longleftrightarrow> (\<exists>b. c # s = t @ b) \<or> (\<exists>a b. s = a @ t @ b)"
    by (metis append_Cons append_Nil append_eq_Cons_conv)
  with Cons.IH show ?case by (simp add: prefix_def)
qed auto

text \<open>A field whose name contains a secret word is in no line, whatever the format.\<close>

lemma redact_drops:
  "f \<in> set (redact fs) \<longleftrightarrow> f \<in> set fs \<and> (\<forall>w \<in> set secret_words. \<nexists>a b. to_lower (fst f) = a @ w @ b)"
  by (auto simp: redact_def list_ex_iff contains_text_iff)

text \<open>
  A text line is not quoted: the route of one request can be chosen so that its event is
  written as the lines of any two events.
\<close>

lemma text_log_forged:
  fixes e1 e2 :: log_event
  assumes t: "ev_Time e1 \<noteq> zero_time" "ev_Time e2 \<noteq> zero_time"
  shows "\<exists>route. log_Log sy ''text'' now (e2\<lparr>ev_Time := ev_Time e1, ev_Level := ev_Level e1,
      ev_Operation := ev_Operation e1, ev_Route := route\<rparr>)
    = log_Log sy ''text'' now e1 @ log_Log sy ''text'' now e2"
proof -
  let ?cut = "\<lambda>e. e\<lparr>ev_Time := utcOrNow now (ev_Time e), ev_Fields := redact (ev_Fields e)\<rparr>"
  let ?tail = "\<lambda>e. join (CHR '' '') (drop 4 (text_parts sy (?cut e)))"
  let ?head = "\<lambda>e. join (CHR '' '') (take 3 (text_parts sy (?cut e))) @ '' route=''"
  have line: "log_Log sy ''text'' now e = ?head e @ ev_Route e @ '' '' @ ?tail e @ [newline]" for e
    by (simp add: log_Log_def Let_def text_parts_def)
  let ?route = "ev_Route e1 @ '' '' @ ?tail e1 @ [newline] @ ?head e2 @ ev_Route e2"
  let ?e = "e2\<lparr>ev_Time := ev_Time e1, ev_Level := ev_Level e1, ev_Operation := ev_Operation e1, ev_Route := ?route\<rparr>"
  have "?head ?e = ?head e1" "?tail ?e = ?tail e2"
    using t by (simp_all add: text_parts_def utcOrNow_def)
  then have "log_Log sy ''text'' now ?e = log_Log sy ''text'' now e1 @ log_Log sy ''text'' now e2"
    unfolding line [of ?e] line [of e1] line [of e2] by simp
  then show ?thesis by blast
qed

end
