(* ===== verification/RequestLog.thy ===== *)
theory RequestLog
  imports Http Password Logger
begin

text \<open>
  Correlation and logging of requests (\<open>internal/httpapi/requestlog.go\<close> and \<open>observability.go\<close>):
  whose address a request counts for, its correlation ids, and the events of one request.  The
  IP syntax and the networks of package \<open>net\<close> are parameters; \<open>SHA-256\<close> and the status texts too.
\<close>

record ('i, 'n) net_ops =
  no_ParseIP :: "string \<Rightarrow> 'i option"
  no_String :: "'i \<Rightarrow> string"
  no_ParseCIDR :: "string \<Rightarrow> 'n option"
  no_Contains :: "'n \<Rightarrow> 'i \<Rightarrow> bool"

text \<open>The parts of a request the logs use; a header is the list of its lines.\<close>

record http_request =
  hr_Method :: string
  hr_Path :: string
  hr_RemoteAddr :: string
  hr_XFF :: "string list"
  hr_RealIP :: "string list"
  hr_PathValue :: "string \<Rightarrow> string"

definition header_get :: "string list \<Rightarrow> string" where
  "header_get ls = (case ls of [] \<Rightarrow> [] | l # _ \<Rightarrow> l)"

section \<open>Addresses\<close>

text \<open>\<open>net.SplitHostPort\<close>: the last colon, unless it is inside the brackets.\<close>

definition last_colon :: "string \<Rightarrow> nat option" where
  "last_colon s = find (\<lambda>i. s ! i = CHR '':'') (rev [0..<length s])"

definition SplitHostPort :: "string \<Rightarrow> (string \<times> string) option" where
  "SplitHostPort s =
     (case last_colon s of
        None \<Rightarrow> None
      | Some i \<Rightarrow>
          if s ! 0 = CHR ''['' then
            (case find (\<lambda>j. s ! j = CHR '']'') [0..<length s] of
               None \<Rightarrow> None
             | Some close' \<Rightarrow>
                 if close' + 1 \<noteq> i then None
                 else if CHR ''['' \<in> set (drop 1 s) \<or> CHR '']'' \<in> set (drop (close' + 1) s) then None
                 else Some (take (close' - 1) (drop 1 s), drop (i + 1) s))
          else if CHR '':'' \<in> set (take i s) then None
          else if CHR ''['' \<in> set s \<or> CHR '']'' \<in> set s then None
          else Some (take i s, drop (i + 1) s))"

definition trim_brackets :: "string \<Rightarrow> string" where
  "trim_brackets s =
     (let b = (\<lambda>c. c \<in> {CHR ''['', CHR '']''}) in rev (dropWhile b (rev (dropWhile b s))))"

definition host_of :: "string \<Rightarrow> string" where
  "host_of v = (case SplitHostPort v of Some (h, _) \<Rightarrow> h | None \<Rightarrow> trim_brackets v)"

definition parseCIDRs :: "('i, 'n) net_ops \<Rightarrow> string list \<Rightarrow> 'n list" where
  "parseCIDRs N values = List.map_filter (no_ParseCIDR N) values"

definition trustedPeer :: "('i, 'n) net_ops \<Rightarrow> string \<Rightarrow> 'n list \<Rightarrow> bool" where
  "trustedPeer N peer nets \<longleftrightarrow>
     (case no_ParseIP N peer of None \<Rightarrow> False | Some ip \<Rightarrow> list_ex (\<lambda>n. no_Contains N n ip) nets)"

text \<open>The hops from the last to the first: the first that is an address and not trusted.\<close>

fun first_untrusted :: "('i, 'n) net_ops \<Rightarrow> 'n list \<Rightarrow> string list \<Rightarrow> string" where
  "first_untrusted N nets [] = []"
| "first_untrusted N nets (p # ps) =
     (case no_ParseIP N (trim_space p) of
        None \<Rightarrow> first_untrusted N nets ps
      | Some ip \<Rightarrow>
          if \<not> trustedPeer N (no_String N ip) nets then no_String N ip else first_untrusted N nets ps)"

definition forwarded :: "('i, 'n) net_ops \<Rightarrow> http_request \<Rightarrow> 'n list \<Rightarrow> string" where
  "forwarded N r nets = first_untrusted N nets (rev (split_on (CHR '','') (header_get (hr_XFF r))))"

definition client_of :: "('i, 'n) net_ops \<Rightarrow> 'n list \<Rightarrow> http_request \<Rightarrow> string" where
  "client_of N trusted r =
     (let peer = host_of (hr_RemoteAddr r) in
      if trustedPeer N peer trusted then
        (let c1 = forwarded N r trusted;
             real = host_of (header_get (hr_RealIP r));
             c2 = (if c1 = [] \<and> no_ParseIP N real \<noteq> None then real else c1) in
         if c2 = [] then peer else c2)
      else peer)"

text \<open>The address the admission of uploads counts for: the socket's, never a header's.\<close>

definition clientIP :: "('i, 'n) net_ops \<Rightarrow> http_request \<Rightarrow> string option" where
  "clientIP N r =
     (case SplitHostPort (hr_RemoteAddr r) of
        None \<Rightarrow> None
      | Some (h, _) \<Rightarrow> map_option (no_String N) (no_ParseIP N h))"

section \<open>Correlation\<close>

record audit_state =
  au_userID :: int
  au_sessionAuditID :: string

text \<open>What \<open>requestContext\<close> puts into the context.\<close>

record correlation =
  cx_RequestID :: string
  cx_PeerIP :: string
  cx_ClientIP :: string
  cx_State :: audit_state

definition randomID :: "bool \<Rightarrow> string \<Rightarrow> string" where
  "randomID flt random = (if flt then ''unavailable'' else b64_encode True random)"

definition requestContext ::
    "('i, 'n) net_ops \<Rightarrow> string list \<Rightarrow> bool \<Rightarrow> string \<Rightarrow> http_request \<Rightarrow> correlation" where
  "requestContext N cidrs flt random r =
     \<lparr>cx_RequestID = randomID flt random, cx_PeerIP = host_of (hr_RemoteAddr r),
      cx_ClientIP = client_of N (parseCIDRs N cidrs) r,
      cx_State = \<lparr>au_userID = 0, au_sessionAuditID = []\<rparr>\<rparr>"

definition requestClientIP :: "('i, 'n) net_ops \<Rightarrow> correlation option \<Rightarrow> http_request \<Rightarrow> string" where
  "requestClientIP N c r =
     (let v = (case c of None \<Rightarrow> [] | Some x \<Rightarrow> cx_ClientIP x) in
      if v \<noteq> [] then v else (case clientIP N r of None \<Rightarrow> [] | Some ip \<Rightarrow> ip))"

definition sessionAuditToken :: "(string \<Rightarrow> string) \<Rightarrow> string \<Rightarrow> string" where
  "sessionAuditToken sha256 value = b64_encode True (take 12 (sha256 value))"

text \<open>The id in the request's own context, else the one the session check left in the shared state.\<close>

definition sessionAuditID :: "string \<Rightarrow> audit_state option \<Rightarrow> string" where
  "sessionAuditID own state =
     (if own \<noteq> [] then own else (case state of None \<Rightarrow> [] | Some s \<Rightarrow> au_sessionAuditID s))"

definition transferID :: "string \<Rightarrow> http_request \<Rightarrow> string" where
  "transferID own r =
     (if own \<noteq> [] then own
      else if hr_PathValue r ''id'' \<noteq> [] then hr_PathValue r ''id''
      else if hr_PathValue r ''fileID'' \<noteq> [] then ''file-'' @ hr_PathValue r ''fileID''
      else if hr_PathValue r ''jobID'' \<noteq> [] then ''archive-'' @ hr_PathValue r ''jobID''
      else [])"

section \<open>The events of a request\<close>

definition upload_action :: "string \<Rightarrow> string option" where
  "upload_action = [''PATCH'' \<mapsto> ''chunk'', ''DELETE'' \<mapsto> ''cancel'', ''HEAD'' \<mapsto> ''status'', ''POST'' \<mapsto> ''complete'']"

definition operationFor :: "http_request \<Rightarrow> string" where
  "operationFor r =
     (let m = hr_Method r; p = hr_Path r; v = hr_PathValue r in
      if m = ''POST'' \<and> p = ''/login'' then ''login''
      else if m = ''POST'' \<and> p = ''/logout'' then ''logout''
      else if v ''id'' \<noteq> [] \<and> has_prefix p ''/api/uploads/'' then
        (case upload_action m of Some a \<Rightarrow> ''upload.request.'' @ a | None \<Rightarrow> ''upload.request'')
      else if p = ''/api/uploads'' then ''upload.request''
      else if p = ''/api/files'' \<and> m = ''POST'' then ''file.create.request''
      else if v ''fileID'' \<noteq> [] then
        (if m = ''DELETE'' then ''file.delete.request'' else ''download.request'')
      else if p = ''/api/directories'' then ''directory.create.request''
      else if v ''directoryID'' \<noteq> [] then ''directory.delete.request''
      else if v ''jobID'' \<noteq> [] then ''archive.request''
      else if has_prefix p ''/api/admin/'' then ''admin''
      else if v ''rootID'' \<noteq> [] \<and> m = ''POST'' then ''archive.request''
      else if v ''rootID'' \<noteq> [] then ''file.list''
      else m @ '' '' @ p)"

definition statusErrorCode :: "(int \<Rightarrow> string) \<Rightarrow> int \<Rightarrow> string" where
  "statusErrorCode StatusText status = (if status \<ge> 400 then StatusText status else [])"

text \<open>The recorder: the status written, 200 when the handler wrote none, and the bytes of the body.\<close>

record audit_recorder =
  ar_status :: int
  ar_bytes :: int

definition recorded_status :: "audit_recorder \<Rightarrow> int" where
  "recorded_status w = (if ar_status w = 0 then 200 else ar_status w)"

definition applicationLog ::
    "('i, 'n) net_ops \<Rightarrow> (int \<Rightarrow> string) \<Rightarrow> correlation option \<Rightarrow> string \<Rightarrow> int option \<Rightarrow> http_request
     \<Rightarrow> audit_recorder \<Rightarrow> int \<Rightarrow> log_event" where
  "applicationLog N StatusText c auditID uid r w ms =
     (let status = recorded_status w;
          state = map_option cx_State c;
          u = (case uid of None \<Rightarrow> 0 | Some i \<Rightarrow> i) in
      \<lparr>ev_Time = zero_time, ev_Level = ''info'', ev_ClientIP = requestClientIP N c r,
       ev_PeerIP = (case c of None \<Rightarrow> [] | Some x \<Rightarrow> cx_PeerIP x),
       ev_UserID = (if u = 0 then (case state of None \<Rightarrow> 0 | Some s \<Rightarrow> au_userID s) else u),
       ev_RequestID = (case c of None \<Rightarrow> [] | Some x \<Rightarrow> cx_RequestID x),
       ev_SessionAuditID = sessionAuditID auditID state, ev_TransferID = transferID [] r,
       ev_Operation = operationFor r, ev_Route = hr_Path r, ev_Success = status < 400,
       ev_Status = status, ev_ErrorCode = statusErrorCode StatusText status,
       ev_Bytes = ar_bytes w, ev_DurationMS = ms, ev_Fields = []\<rparr>)"

text \<open>The two events of a transfer, before and after its handler.\<close>

definition logTransferLifecycle ::
    "('i, 'n) net_ops \<Rightarrow> (int \<Rightarrow> string) \<Rightarrow> string \<Rightarrow> correlation option \<Rightarrow> string \<Rightarrow> int option
     \<Rightarrow> http_request \<Rightarrow> audit_recorder \<Rightarrow> bool \<Rightarrow> int \<Rightarrow> log_event list" where
  "logTransferLifecycle N StatusText kind c auditID uid r w cancelled ms =
     (let base =
        \<lparr>ev_Time = zero_time, ev_Level = ''info'', ev_ClientIP = requestClientIP N c r,
         ev_PeerIP = (case c of None \<Rightarrow> [] | Some x \<Rightarrow> cx_PeerIP x),
         ev_UserID = (case uid of None \<Rightarrow> 0 | Some i \<Rightarrow> i),
         ev_RequestID = (case c of None \<Rightarrow> [] | Some x \<Rightarrow> cx_RequestID x),
         ev_SessionAuditID = sessionAuditID auditID (map_option cx_State c), ev_TransferID = transferID [] r,
         ev_Operation = kind @ ''.start'', ev_Route = hr_Path r, ev_Success = False,
         ev_Status = 0, ev_ErrorCode = [], ev_Bytes = 0, ev_DurationMS = 0, ev_Fields = []\<rparr>;
          status = recorded_status w in
      [base,
       base\<lparr>ev_Operation := kind @ ''.complete'', ev_Status := status, ev_Bytes := ar_bytes w,
            ev_DurationMS := ms, ev_Success := \<not> cancelled \<and> status < 400,
            ev_ErrorCode := (if cancelled then ''canceled'' else statusErrorCode StatusText status),
            ev_Fields := (if cancelled then [(''outcome'', ''canceled'')] else [])\<rparr>])"

section \<open>Whose address counts\<close>

lemma client_of_untrusted:
  "\<not> trustedPeer N (host_of (hr_RemoteAddr r)) trusted \<Longrightarrow> client_of N trusted r = host_of (hr_RemoteAddr r)"
  by (simp add: client_of_def)

text \<open>A hop that a trusted proxy appended: an address of one of the networks.\<close>

definition proxy_hop :: "('i, 'n) net_ops \<Rightarrow> 'n list \<Rightarrow> string \<Rightarrow> bool" where
  "proxy_hop N nets p \<longleftrightarrow>
     CHR '','' \<notin> set p
     \<and> (case no_ParseIP N (trim_space p) of None \<Rightarrow> False | Some i \<Rightarrow> trustedPeer N (no_String N i) nets)"

lemma first_untrusted_proxies:
  "\<forall>p \<in> set ps. proxy_hop N nets p \<Longrightarrow> first_untrusted N nets (ps @ qs) = first_untrusted N nets qs"
  by (induction ps) (auto simp: proxy_hop_def split: option.splits)

text \<open>
  Behind trusted proxies, the client is the hop before them, whatever stands to its left and in
  other lines of the header.
\<close>

lemma client_behind_proxies:
  assumes peer: "trustedPeer N (host_of (hr_RemoteAddr r)) trusted"
    and line: "hr_XFF r = (forged @ CHR '','' # join (CHR '','') (c # proxies)) # later"
    and c: "CHR '','' \<notin> set c" "no_ParseIP N (trim_space c) = Some ip" "no_String N ip \<noteq> []"
      "\<not> trustedPeer N (no_String N ip) trusted"
    and proxies: "\<forall>p \<in> set proxies. proxy_hop N trusted p"
  shows "client_of N trusted r = no_String N ip"
proof -
  have "split_on (CHR '','') (join (CHR '','') (c # proxies)) = c # proxies"
    by (rule split_on_join) (use c(1) proxies in \<open>auto simp: proxy_hop_def\<close>)
  then have "split_on (CHR '','') (header_get (hr_XFF r)) = split_on (CHR '','') forged @ c # proxies"
    by (simp only: line header_get_def list.case split_on_append_sep)
  then have "forwarded N r trusted = first_untrusted N trusted (rev proxies @ c # rev (split_on (CHR '','') forged))"
    by (simp add: forwarded_def)
  also have "\<dots> = no_String N ip"
    using c proxies by (subst first_untrusted_proxies) simp_all
  finally show ?thesis using peer c(3) by (simp add: client_of_def Let_def)
qed

text \<open>A hop that is no address (a proxy that appends address and port) is skipped, and what the
  client sent is believed.\<close>

lemma unparsed_hop_believes_client:
  assumes "trustedPeer N (host_of (hr_RemoteAddr r)) trusted"
    and "hr_XFF r = [forged @ CHR '','' # c]" and "CHR '','' \<notin> set c" "CHR '','' \<notin> set forged"
    and "no_ParseIP N (trim_space c) = None" and "no_ParseIP N (trim_space forged) = Some ip"
    and "no_String N ip \<noteq> []" and "\<not> trustedPeer N (no_String N ip) trusted"
  shows "client_of N trusted r = no_String N ip"
proof -
  have "split_on (CHR '','') (forged @ CHR '','' # c) = [forged, c]"
    using assms(3,4) by (simp add: split_on_append_sep split_on_word)
  with assms show ?thesis by (simp add: client_of_def forwarded_def header_get_def Let_def)
qed

text \<open>Only the first line of the header is read: a proxy that adds a line of its own is ignored.\<close>

lemma first_line_only:
  "hr_XFF r = l # later \<Longrightarrow> client_of N trusted r = client_of N trusted (r\<lparr>hr_XFF := [l]\<rparr>)"
  by (simp add: client_of_def forwarded_def header_get_def Let_def)

text \<open>The admission of uploads counts the proxy, whatever the configuration.\<close>

lemma admission_ignores_headers: "clientIP N (r\<lparr>hr_XFF := ls, hr_RealIP := ms\<rparr>) = clientIP N r"
  by (simp add: clientIP_def)

text \<open>Renaming a file is logged as a download.\<close>

lemma rename_is_logged_as_download:
  "hr_Method r = ''PATCH'' \<Longrightarrow> hr_PathValue r ''id'' = [] \<Longrightarrow> hr_PathValue r ''fileID'' \<noteq> []
    \<Longrightarrow> hr_Path r \<noteq> ''/api/uploads'' \<Longrightarrow> operationFor r = ''download.request''"
  by (simp add: operationFor_def Let_def)

text \<open>A cancelled transfer is never logged as a success, and the start never claims one.\<close>

lemma lifecycle_success:
  assumes "e \<in> set (logTransferLifecycle N StatusText kind c auditID uid r w cancelled ms)" and "ev_Success e"
  shows "\<not> cancelled" "recorded_status w < 400" "ev_ErrorCode e = []"
  using assms by (auto simp: logTransferLifecycle_def Let_def statusErrorCode_def split: if_splits)

end
