(* ===== verification/Server.thy ===== *)
theory Server
  imports Limits RequestLog Admin Storage
begin

text \<open>
  The middleware of \<open>internal/httpapi\<close> (\<open>middleware.go\<close>, \<open>server.go\<close>): admission of uploads,
  bounds of request bodies, the guard against stalled uploads, and the small handlers.
\<close>

section \<open>Admission\<close>

text \<open>\<open>Duration.Round\<close> to a second, half away from zero; an overflow gives the largest duration.\<close>

definition round_second :: "int \<Rightarrow> int" where
  "round_second d =
     (let r = d mod second in
      if 2 * r < second then d - r
      else (let d1 = wrap64 (d + second - r) in if d1 > d then d1 else max_int64))"

definition retry_after :: "int \<Rightarrow> string" where
  "retry_after d = itoa (round_second (if d < second then second else d) div second)"

definition LimitUpload ::
    "int \<Rightarrow> upload_key \<Rightarrow> (upload_limiter \<times> 's \<Rightarrow> (upload_limiter \<times> 's) \<times> response) \<Rightarrow> upload_limiter \<times> 's
     \<Rightarrow> (upload_limiter \<times> 's) \<times> response" where
  "LimitUpload retryAfter k next st =
     (case ul_TryAcquire (fst st) k of
        (l, Inl e) \<Rightarrow>
          ((l, snd st), with_headers [(''Retry-After'', retry_after retryAfter)]
                          (http_error ''upload capacity exceeded; retry later'' 429))
      | (l, Inr lease) \<Rightarrow>
          (case next (l, snd st) of ((l2, s2), resp) \<Rightarrow> ((fst (ul_Release l2 lease False), s2), resp)))"

definition newUploadLimiter :: "config \<Rightarrow> upload_limiter option list \<Rightarrow> err + upload_limiter" where
  "newUploadLimiter cfg supplied =
     (if length supplied > 1 then Inl Invalid
      else
        (case supplied of
           [Some l] \<Rightarrow> Inr l
         | _ \<Rightarrow> NewUploadLimiter (UploadConcurrency cfg) (PerUserUploadConcurrency cfg) (PerIPUploadConcurrency cfg)))"

text \<open>The user of the session and the address of the socket.\<close>

definition sessionUploadIdentity :: "('i, 'n) net_ops \<Rightarrow> int option \<Rightarrow> http_request \<Rightarrow> upload_key" where
  "sessionUploadIdentity N uid r =
     \<lparr>key_User = itoa (case uid of None \<Rightarrow> 0 | Some u \<Rightarrow> u),
      key_IP = (case clientIP N r of None \<Rightarrow> [] | Some ip \<Rightarrow> ip)\<rparr>"

section \<open>Bodies\<close>

text \<open>What reading a whole body yields, and how it ends.\<close>

datatype body_end = BodyEOF | BodyTooLarge | BodyFailed

record request_body =
  rb_bytes :: string
  rb_end :: body_end

definition MaxBytesReader :: "int \<Rightarrow> request_body \<Rightarrow> request_body" where
  "MaxBytesReader n b =
     (let m = nat n in
      if length (rb_bytes b) > m then \<lparr>rb_bytes = take m (rb_bytes b), rb_end = BodyTooLarge\<rparr> else b)"

text \<open>\<open>RequestLimits\<close>: the bound of the configuration, and a deadline when one is configured.\<close>

definition RequestLimits :: "config \<Rightarrow> int \<Rightarrow> request_body \<Rightarrow> int option \<times> request_body" where
  "RequestLimits cfg now b =
     (if RequestTimeout cfg > 0 then Some (now + RequestTimeout cfg) else None,
      MaxBytesReader (MaxRequestBodyBytes cfg) b)"

definition UploadBodyLimits :: "int \<Rightarrow> request_body \<Rightarrow> request_body" where
  "UploadBodyLimits maxBytes b = (if maxBytes > 0 then MaxBytesReader maxBytes b else b)"

definition uploadPlaceholder :: "request_body \<Rightarrow> response" where
  "uploadPlaceholder b =
     (case rb_end b of
        BodyTooLarge \<Rightarrow> http_error ''request body too large'' 413
      | BodyFailed \<Rightarrow> http_error ''read upload request'' 400
      | BodyEOF \<Rightarrow> reply 204 NoContent)"

section \<open>Stalled uploads\<close>

text \<open>
  \<open>uploadBody\<close>: \<open>ub_timer\<close> is when the timer fires, \<open>ub_deadline\<close> the read deadline of the
  connection (\<open>ub_conn\<close>: there is one), \<open>ub_watching\<close> the goroutine.  \<open>ub_progress\<close> is when the last
  bytes came and \<open>ub_interrupts\<close> the interruptions: when, the progress then, and whether by the
  context.
\<close>

record upload_body =
  ub_idle :: int
  ub_conn :: bool
  ub_timer :: "int option"
  ub_deadline :: "int option"
  ub_closed :: bool
  ub_watching :: bool
  ub_stopped :: bool
  ub_progress :: int
  ub_interrupts :: "(int \<times> int \<times> bool) list"

definition set_deadline :: "int option \<Rightarrow> upload_body \<Rightarrow> upload_body" where
  "set_deadline t p = (if ub_conn p then p\<lparr>ub_deadline := t\<rparr> else p)"

definition protectUploadBody :: "int \<Rightarrow> bool \<Rightarrow> int \<Rightarrow> upload_body" where
  "protectUploadBody now conn idle =
     (let p = \<lparr>ub_idle = idle, ub_conn = conn, ub_timer = None, ub_deadline = None, ub_closed = False,
               ub_watching = False, ub_stopped = False, ub_progress = now, ub_interrupts = []\<rparr> in
      if idle \<le> 0 then p
      else set_deadline (Some (now + idle)) (p\<lparr>ub_timer := Some (now + idle), ub_watching := True\<rparr>))"

definition ub_refresh :: "int \<Rightarrow> upload_body \<Rightarrow> upload_body" where
  "ub_refresh now p = set_deadline (Some (now + ub_idle p)) (p\<lparr>ub_timer := Some (now + ub_idle p)\<rparr>)"

definition ub_Read :: "int \<Rightarrow> nat \<Rightarrow> upload_body \<Rightarrow> upload_body" where
  "ub_Read now n p =
     (let p1 = (if n > 0 then p\<lparr>ub_progress := now\<rparr> else p) in
      if n > 0 \<and> ub_idle p > 0 then ub_refresh now p1 else p1)"

definition ub_interrupt :: "int \<Rightarrow> bool \<Rightarrow> upload_body \<Rightarrow> upload_body" where
  "ub_interrupt now ctx p =
     (let p1 = p\<lparr>ub_interrupts := (now, ub_progress p, ctx) # ub_interrupts p\<rparr> in
      if ub_conn p then p1\<lparr>ub_deadline := Some now\<rparr> else p1\<lparr>ub_closed := True\<rparr>)"

text \<open>The goroutine takes one case of its select, interrupts or not, and ends.\<close>

definition watch_timer :: "int \<Rightarrow> upload_body \<Rightarrow> upload_body" where
  "watch_timer now p =
     (case ub_timer p of
        None \<Rightarrow> p
      | Some t \<Rightarrow>
          if ub_watching p \<and> t \<le> now
          then (ub_interrupt now False p)\<lparr>ub_timer := None, ub_watching := False\<rparr> else p)"

definition watch_context :: "int \<Rightarrow> upload_body \<Rightarrow> upload_body" where
  "watch_context now p = (if ub_watching p then (ub_interrupt now True p)\<lparr>ub_watching := False\<rparr> else p)"

definition ub_stop :: "upload_body \<Rightarrow> upload_body" where
  "ub_stop p =
     (if ub_idle p \<le> 0 \<or> ub_stopped p then p
      else set_deadline None (p\<lparr>ub_timer := None, ub_watching := False, ub_stopped := True\<rparr>))"

definition ub_Close :: "upload_body \<Rightarrow> upload_body" where
  "ub_Close p = (ub_stop p)\<lparr>ub_closed := True\<rparr>"

inductive body_step :: "upload_body \<Rightarrow> upload_body \<Rightarrow> bool" where
  bs_read: "body_step p (ub_Read now n p)"
| bs_timer: "body_step p (watch_timer now p)"
| bs_context: "body_step p (watch_context now p)"
| bs_stop: "body_step p (ub_stop p)"
| bs_close: "body_step p (ub_Close p)"

definition body_inv :: "upload_body \<Rightarrow> bool" where
  "body_inv p \<longleftrightarrow>
     (ub_watching p \<longrightarrow> 0 < ub_idle p \<and> \<not> ub_stopped p \<and> ub_timer p = Some (ub_progress p + ub_idle p))
     \<and> (\<forall>(t, since, ctx) \<in> set (ub_interrupts p). ctx \<or> since + ub_idle p \<le> t)"

lemma set_deadline_simps [simp]:
  "ub_idle (set_deadline t p) = ub_idle p" "ub_timer (set_deadline t p) = ub_timer p"
  "ub_watching (set_deadline t p) = ub_watching p" "ub_stopped (set_deadline t p) = ub_stopped p"
  "ub_progress (set_deadline t p) = ub_progress p" "ub_interrupts (set_deadline t p) = ub_interrupts p"
  by (simp_all add: set_deadline_def)

lemma body_inv_start: "body_inv (protectUploadBody now conn idle)"
  by (simp add: body_inv_def protectUploadBody_def Let_def)

lemma ub_Read_inv: "body_inv p \<Longrightarrow> body_inv (ub_Read now n p)"
  by (cases "n > 0 \<and> ub_idle p > 0") (auto simp: body_inv_def ub_Read_def ub_refresh_def Let_def)

lemma ub_interrupt_simps [simp]:
  "ub_idle (ub_interrupt now ctx p) = ub_idle p" "ub_progress (ub_interrupt now ctx p) = ub_progress p"
  "ub_interrupts (ub_interrupt now ctx p) = (now, ub_progress p, ctx) # ub_interrupts p"
  by (simp_all add: ub_interrupt_def Let_def)

lemma watch_timer_inv: "body_inv p \<Longrightarrow> body_inv (watch_timer now p)"
  by (cases "ub_timer p") (auto simp: body_inv_def watch_timer_def)

lemma watch_context_inv: "body_inv p \<Longrightarrow> body_inv (watch_context now p)"
  by (simp add: body_inv_def watch_context_def)

lemma ub_stop_inv: "body_inv p \<Longrightarrow> body_inv (ub_stop p)"
  by (simp add: body_inv_def ub_stop_def)

lemma ub_Close_inv: "body_inv p \<Longrightarrow> body_inv (ub_Close p)"
  using ub_stop_inv [of p] by (simp add: body_inv_def ub_Close_def)

lemma body_step_inv: "body_step p q \<Longrightarrow> body_inv p \<Longrightarrow> body_inv q"
  by (induction rule: body_step.induct)
    (simp_all add: ub_Read_inv watch_timer_inv watch_context_inv ub_stop_inv ub_Close_inv)

interpretation upload_guard: invariant_system body_step body_inv
  by unfold_locales (rule body_step_inv)

text \<open>A body is interrupted by its own timer only after a whole idle period without a byte.\<close>

lemma only_stalled_bodies_are_interrupted:
  assumes "run body_step (protectUploadBody now conn idle) p" and "(t, since, False) \<in> set (ub_interrupts p)"
  shows "since + ub_idle p \<le> t"
  using upload_guard.run_inv [OF assms(1) body_inv_start] assms(2) by (auto simp: body_inv_def)

section \<open>Health\<close>

definition plain_text :: "string \<Rightarrow> response" where
  "plain_text s = with_headers [(''Content-Type'', ''text/plain; charset=utf-8'')] (reply 200 (Data (s @ [newline])))"

definition healthz :: response where "healthz = plain_text ''ok''"

definition sessionStatus :: response where "sessionStatus = plain_text ''authenticated''"

text \<open>A dependency that was not supplied fails its check, and so does a failing ping, root or path.\<close>

record readiness =
  rd_DB :: "bool option"
  rd_Store :: "object_store option"
  rd_Path :: string
  rd_stat :: bool

definition DatabaseCheck :: "readiness \<Rightarrow> bool" where
  "DatabaseCheck c \<longleftrightarrow> rd_DB c = Some True"

definition StorageCheck :: "io_fault \<Rightarrow> readiness \<Rightarrow> bool" where
  "StorageCheck f c \<longleftrightarrow> (case rd_Store c of None \<Rightarrow> False | Some s \<Rightarrow> is_ok (store_Check f s))"

definition DiskCheck :: "readiness \<Rightarrow> bool" where
  "DiskCheck c \<longleftrightarrow> rd_Path c \<noteq> [] \<and> rd_stat c"

definition readyz :: "io_fault \<Rightarrow> readiness \<Rightarrow> response" where
  "readyz f c =
     (if \<not> DatabaseCheck c \<or> \<not> StorageCheck f c \<or> \<not> DiskCheck c then http_error ''not ready'' 503
      else plain_text ''ready'')"

section \<open>What the middleware keeps\<close>

text \<open>The lease of a refused or finished upload is given back, so the counters are as before.\<close>

lemma drop_bump: "(\<forall>n. m k = Some n \<longrightarrow> 0 < n) \<Longrightarrow> drop_one (bump m k) k = m"
  by (auto simp: drop_one_def bump_def count_of_def Let_def fun_eq_iff split: option.splits)

lemma LimitUpload_returns_lease:
  assumes "LimitUpload retryAfter k next (l, s) = ((l', s'), resp)"
    and "\<And>l s l2 s2 r. next (l, s) = ((l2, s2), r) \<Longrightarrow> l2 = l"
    and "\<forall>u n. ul_users l u = Some n \<longrightarrow> 0 < n" "\<forall>u n. ul_ips l u = Some n \<longrightarrow> 0 < n"
  shows "l' = l"
proof -
  have rel: "fst (ul_Release l1 k False) = l" if "ul_TryAcquire l k = (l1, Inr k)" for l1
    using that assms(3,4)
    by (auto simp: ul_TryAcquire_def ul_Release_def take_slot_def scoped_check_def free_slot_def release_counts_def
        drop_bump split: if_splits)
  obtain l1 x where a: "ul_TryAcquire l k = (l1, x)" by fastforce
  show ?thesis
  proof (cases x)
    case (Inl e)
    then have "l1 = l" using a by (auto simp: ul_TryAcquire_def take_slot_def scoped_check_def split: if_splits)
    with Inl a assms(1) show ?thesis by (simp add: LimitUpload_def)
  next
    case (Inr k')
    then have k': "k' = k" using a by (auto simp: ul_TryAcquire_def split: sum.splits prod.splits bool.splits)
    obtain l2 s2 r where n: "next (l1, s) = ((l2, s2), r)" by (metis prod.collapse)
    with assms(2) have "l2 = l1" .
    with n assms(1) a Inr k' have "l' = fst (ul_Release l1 k False)" by (simp add: LimitUpload_def)
    with rel a Inr k' show ?thesis by simp
  qed
qed

lemma refused_upload:
  assumes "ul_TryAcquire l k = (l1, Inl e)"
  shows "LimitUpload retryAfter k next (l, s)
    = ((l1, s), with_headers [(''Retry-After'', retry_after retryAfter)]
        (http_error ''upload capacity exceeded; retry later'' 429))"
  using assms by (simp add: LimitUpload_def)

lemma body_within_bound: "length (rb_bytes (MaxBytesReader n b)) \<le> nat n"
  by (simp add: MaxBytesReader_def Let_def)

end
