(* ===== verification/Metrics.thy ===== *)
theory Metrics
  imports Prelude "HOL-Library.Multiset"
begin

text \<open>
  The service counters (\<open>internal/metrics/metrics.go\<close>), eight atomic 64-bit integers, and the
  wrappers of \<open>internal/httpapi/observability.go\<close> that raise and lower the gauges around a handler.
\<close>

record metrics =
  mt_uploads :: int
  mt_downloads :: int
  mt_archives :: int
  mt_leases :: int
  mt_tooMany :: int
  mt_unavailable :: int
  mt_cancellations :: int
  mt_cleanup :: int

definition NewMetrics :: metrics where
  "NewMetrics = \<lparr>mt_uploads = 0, mt_downloads = 0, mt_archives = 0, mt_leases = 0, mt_tooMany = 0,
                mt_unavailable = 0, mt_cancellations = 0, mt_cleanup = 0\<rparr>"

datatype gauge = GUploads | GDownloads | GArchives | GLeases

fun gauge_add :: "gauge \<Rightarrow> int \<Rightarrow> metrics \<Rightarrow> metrics" where
  "gauge_add GUploads n m = m\<lparr>mt_uploads := wrap64 (mt_uploads m + n)\<rparr>"
| "gauge_add GDownloads n m = m\<lparr>mt_downloads := wrap64 (mt_downloads m + n)\<rparr>"
| "gauge_add GArchives n m = m\<lparr>mt_archives := wrap64 (mt_archives m + n)\<rparr>"
| "gauge_add GLeases n m = m\<lparr>mt_leases := wrap64 (mt_leases m + n)\<rparr>"

fun gauge_value :: "gauge \<Rightarrow> metrics \<Rightarrow> int" where
  "gauge_value GUploads m = mt_uploads m"
| "gauge_value GDownloads m = mt_downloads m"
| "gauge_value GArchives m = mt_archives m"
| "gauge_value GLeases m = mt_leases m"

text \<open>\<open>UploadStarted\<close> and \<open>UploadFinished\<close>, and so on for the other gauges.\<close>

definition gauge_started :: "gauge \<Rightarrow> metrics \<Rightarrow> metrics" where
  "gauge_started g = gauge_add g 1"

definition gauge_finished :: "gauge \<Rightarrow> metrics \<Rightarrow> metrics" where
  "gauge_finished g = gauge_add g (-1)"

definition IncStatus :: "int \<Rightarrow> metrics \<Rightarrow> metrics" where
  "IncStatus status m =
     (if status = 429 then m\<lparr>mt_tooMany := wrap64 (mt_tooMany m + 1)\<rparr>
      else if status = 503 then m\<lparr>mt_unavailable := wrap64 (mt_unavailable m + 1)\<rparr>
      else m)"

definition IncCancellation :: "metrics \<Rightarrow> metrics" where
  "IncCancellation m = m\<lparr>mt_cancellations := wrap64 (mt_cancellations m + 1)\<rparr>"

definition IncCleanup :: "metrics \<Rightarrow> metrics" where
  "IncCleanup m = m\<lparr>mt_cleanup := wrap64 (mt_cleanup m + 1)\<rparr>"

definition metric_line :: "string \<Rightarrow> int \<Rightarrow> string" where
  "metric_line name n = name @ '' '' @ itoa n @ [CHR 0x0A]"

definition metric_type :: "string \<Rightarrow> string \<Rightarrow> string" where
  "metric_type name kind = ''# TYPE '' @ name @ '' '' @ kind @ [CHR 0x0A]"

definition Prometheus :: "metrics \<Rightarrow> string" where
  "Prometheus s =
     metric_type ''safefilehub_active_uploads'' ''gauge''
     @ metric_line ''safefilehub_active_uploads'' (mt_uploads s)
     @ metric_type ''safefilehub_active_downloads'' ''gauge''
     @ metric_line ''safefilehub_active_downloads'' (mt_downloads s)
     @ metric_type ''safefilehub_active_archives'' ''gauge''
     @ metric_line ''safefilehub_active_archives'' (mt_archives s)
     @ metric_type ''safefilehub_active_leases'' ''gauge''
     @ metric_line ''safefilehub_active_leases'' (mt_leases s)
     @ metric_type ''safefilehub_http_responses_total'' ''counter''
     @ metric_line (''safefilehub_http_responses_total{status='' @ CHR 0x22 # ''429'' @ [CHR 0x22] @ ''}'') (mt_tooMany s)
     @ metric_line (''safefilehub_http_responses_total{status='' @ CHR 0x22 # ''503'' @ [CHR 0x22] @ ''}'') (mt_unavailable s)
     @ metric_type ''safefilehub_cancellations_total'' ''counter''
     @ metric_line ''safefilehub_cancellations_total'' (mt_cancellations s)
     @ metric_type ''safefilehub_cleanup_total'' ''counter''
     @ metric_line ''safefilehub_cleanup_total'' (mt_cleanup s)"

section \<open>Wrappers\<close>

text \<open>
  \<open>observeActive\<close> and \<open>observeLease\<close> in two atomic steps: before the handler, and after it.  The
  deferred decrement runs when the handler panics too; the cancellation is counted only when it
  returns.
\<close>

datatype ending = Returned bool | Panicked

definition observeActive_end :: "gauge \<Rightarrow> ending \<Rightarrow> metrics \<Rightarrow> metrics" where
  "observeActive_end g e m =
     gauge_finished g (if e = Returned True then IncCancellation m else m)"

definition observeLease_end :: "metrics \<Rightarrow> metrics" where
  "observeLease_end m = gauge_finished GLeases m"

definition observeCancellation :: "ending \<Rightarrow> metrics \<Rightarrow> metrics" where
  "observeCancellation e m = (if e = Returned True then IncCancellation m else m)"

text \<open>\<open>metricResponses\<close>: a panicking handler is not counted; no status written means 200.\<close>

definition metricResponses :: "int option \<Rightarrow> metrics \<Rightarrow> metrics" where
  "metricResponses status m =
     (case status of None \<Rightarrow> m | Some s \<Rightarrow> IncStatus (if s = 0 then 200 else s) m)"

section \<open>The gauges count the requests in flight\<close>

record observed =
  ob_metrics :: metrics
  ob_flight :: "gauge multiset"

inductive observe_step :: "observed \<Rightarrow> observed \<Rightarrow> bool" where
  ob_start: "observe_step s (s\<lparr>ob_metrics := gauge_started g (ob_metrics s), ob_flight := add_mset g (ob_flight s)\<rparr>)"
| ob_end: "g \<in># ob_flight s \<Longrightarrow> g \<noteq> GLeases \<Longrightarrow>
    observe_step s (s\<lparr>ob_metrics := observeActive_end g e (ob_metrics s), ob_flight := ob_flight s - {#g#}\<rparr>)"
| ob_lease_end: "GLeases \<in># ob_flight s \<Longrightarrow>
    observe_step s (s\<lparr>ob_metrics := observeLease_end (ob_metrics s), ob_flight := ob_flight s - {#GLeases#}\<rparr>)"
| ob_cancel: "observe_step s (s\<lparr>ob_metrics := observeCancellation e (ob_metrics s)\<rparr>)"
| ob_response: "observe_step s (s\<lparr>ob_metrics := metricResponses r (ob_metrics s)\<rparr>)"
| ob_cleanup: "observe_step s (s\<lparr>ob_metrics := IncCleanup (ob_metrics s)\<rparr>)"

definition gauges_count :: "observed \<Rightarrow> bool" where
  "gauges_count s \<longleftrightarrow> (\<forall>g. gauge_value g (ob_metrics s) = wrap64 (int (count (ob_flight s) g)))"

lemma gauge_value_add: "gauge_value g (gauge_add h n m) = (if g = h then wrap64 (gauge_value g m + n) else gauge_value g m)"
  by (cases g; cases h) simp_all

lemma gauge_value_counters [simp]:
  "gauge_value g (IncCancellation m) = gauge_value g m" "gauge_value g (IncStatus k m) = gauge_value g m"
  "gauge_value g (IncCleanup m) = gauge_value g m"
  by (cases g; simp add: IncCancellation_def IncStatus_def IncCleanup_def)+

declare gauge_add.simps [simp del] gauge_value.simps [simp del]

lemma wrap64_add: "wrap64 (wrap64 x + y) = wrap64 (x + y)" "wrap64 (wrap64 x - y) = wrap64 (x - y)"
  "wrap64 (y + wrap64 x) = wrap64 (y + x)"
  by (simp_all add: wrap64_def mod_simps ac_simps algebra_simps)

lemma observe_step_inv: "observe_step s t \<Longrightarrow> gauges_count s \<Longrightarrow> gauges_count t"
  by (induction rule: observe_step.induct)
    (auto simp: gauges_count_def gauge_value_add gauge_started_def gauge_finished_def observeActive_end_def
      observeLease_end_def observeCancellation_def metricResponses_def wrap64_add of_nat_diff
      Suc_le_eq add.commute split: option.splits)

interpretation observation: invariant_system observe_step gauges_count
  by unfold_locales (rule observe_step_inv)

text \<open>When nothing is in flight every gauge is zero again.\<close>

lemma idle_gauges:
  assumes "run observe_step \<lparr>ob_metrics = NewMetrics, ob_flight = {#}\<rparr> s" and "int64 (int (count (ob_flight s) g))"
  shows "gauge_value g (ob_metrics s) = int (count (ob_flight s) g)"
proof -
  have "gauges_count \<lparr>ob_metrics = NewMetrics, ob_flight = {#}\<rparr>"
    unfolding gauges_count_def
  proof
    fix g show "gauge_value g (ob_metrics \<lparr>ob_metrics = NewMetrics, ob_flight = {#}\<rparr>)
        = wrap64 (int (count (ob_flight \<lparr>ob_metrics = NewMetrics, ob_flight = {#}\<rparr>) g))"
      by (cases g) (simp_all add: NewMetrics_def wrap64_id int64_def gauge_value.simps)
  qed
  from observation.run_inv [OF assms(1) this] assms(2) show ?thesis by (simp add: gauges_count_def)
qed

end
