(* ===== verification/Routes.thy ===== *)
theory Routes
  imports Server Metrics Transfers Archive
begin

text \<open>
  The composition of the server (\<open>internal/httpapi/production.go\<close>, \<open>server.go\<close>, \<open>static.go\<close>, the
  registrations of \<open>admin.go\<close> and \<open>site_settings.go\<close>): the route table, the matching of
  \<open>http.ServeMux\<close>, and the wrappers around each handler.  The handlers themselves are those of the
  other theories and come in as \<open>inner\<close>.
\<close>

section \<open>The embedded pages\<close>

definition transferUI :: "(string \<Rightarrow> string option) \<Rightarrow> string \<Rightarrow> response" where
  "transferUI assets p =
     (let clean = (if p = [] then ''.'' else path_clean p);
          page = (if clean \<in> {''/login'', ''/login.html''} then Some (''assets/login.html'', ''text/html; charset=utf-8'')
                  else if clean \<in> {''.'', ''/'', ''/index.html''} then Some (''assets/index.html'', ''text/html; charset=utf-8'')
                  else if clean = ''/app.js'' then Some (''assets/app.js'', ''text/javascript; charset=utf-8'')
                  else None) in
      case page of
        None \<Rightarrow> not_found
      | Some (asset, kind) \<Rightarrow>
          (case assets asset of
             None \<Rightarrow> not_found
           | Some body \<Rightarrow>
               with_headers ((''Content-Type'', kind) # (''X-Content-Type-Options'', ''nosniff'')
                             # (if prefix (rev ''.html'') (rev asset) then [(''Cache-Control'', ''no-cache'')] else []))
                 (reply 200 (Data body))))"

section \<open>Patterns\<close>

text \<open>A literal segment, a named segment, and the rest of the path.\<close>

datatype path_seg = Lit string | Wild string | Rest

definition path_seg_of :: "string \<Rightarrow> path_seg" where
  "path_seg_of s =
     (if s = [] then Rest else if hd s = CHR ''{'' then Wild (butlast (tl s)) else Lit s)"

definition parse_pattern :: "string \<Rightarrow> path_seg list" where
  "parse_pattern p = map path_seg_of (split_on (CHR ''/'') (tl p))"

text \<open>The escaped path of a request, segment by segment; a trailing slash is a segment of its own.\<close>

definition unescape_or_same :: "string \<Rightarrow> string" where
  "unescape_or_same s = (case pathUnescape s of None \<Rightarrow> s | Some t \<Rightarrow> t)"

definition request_segments :: "string \<Rightarrow> string list" where
  "request_segments p =
     (let ss = split_on (CHR ''/'') (tl p) in
      map unescape_or_same (butlast ss) @ [if last ss = [] then ''/'' else unescape_or_same (last ss)])"

fun after_literal :: "string \<Rightarrow> (path_seg list \<times> 'r) list \<Rightarrow> (path_seg list \<times> 'r) list" where
  "after_literal s [] = []"
| "after_literal s ((Lit l # ps, r) # cs) =
     (if l = s then (ps, r) # after_literal s cs else after_literal s cs)"
| "after_literal s (_ # cs) = after_literal s cs"

fun after_wild :: "(path_seg list \<times> 'r) list \<Rightarrow> (path_seg list \<times> 'r) list" where
  "after_wild [] = []"
| "after_wild ((Wild n # ps, r) # cs) = (ps, r) # after_wild cs"
| "after_wild (_ # cs) = after_wild cs"

text \<open>\<open>matchPath\<close>: a literal before a named segment before the rest.\<close>

fun match_path :: "string list \<Rightarrow> (path_seg list \<times> 'r) list \<Rightarrow> 'r option" where
  "match_path [] cs = map_option snd (find (\<lambda>c. fst c = []) cs)"
| "match_path (s # ss) cs =
     (if cs = [] then None
      else
        (case match_path ss (after_literal s cs) of
           Some r \<Rightarrow> Some r
         | None \<Rightarrow>
             (case (if s = ''/'' then None else match_path ss (after_wild cs)) of
                Some r \<Rightarrow> Some r
              | None \<Rightarrow> map_option snd (find (\<lambda>c. fst c = [Rest]) cs))))"

record 'e route =
  rt_Method :: string
  rt_Pattern :: string
  rt_Handler :: 'e

definition candidates :: "string \<Rightarrow> 'e route list \<Rightarrow> (path_seg list \<times> 'e route) list" where
  "candidates m rs = map (\<lambda>r. (parse_pattern (rt_Pattern r), r)) (filter (\<lambda>r. rt_Method r = m) rs)"

definition route_of :: "'e route list \<Rightarrow> string \<Rightarrow> string \<Rightarrow> 'e route option" where
  "route_of rs m p =
     (let ss = request_segments p in
      case match_path ss (candidates m rs) of
        Some r \<Rightarrow> Some r
      | None \<Rightarrow> if m = ''HEAD'' then match_path ss (candidates ''GET'' rs) else None)"

definition cleanPath :: "string \<Rightarrow> string" where
  "cleanPath p =
     (if p = [] then ''/''
      else
        (let q = (if hd p \<noteq> CHR ''/'' then CHR ''/'' # p else p); np = path_clean q in
         if last q = CHR ''/'' \<and> np \<noteq> ''/'' then np @ ''/'' else np))"

text \<open>
  The answer of the multiplexer: a redirection to the clean path, the route, or a refusal, with
  405 when another method would match.
\<close>

definition serve_mux :: "'e route list \<Rightarrow> string \<Rightarrow> string \<Rightarrow> response + 'e route" where
  "serve_mux rs m p =
     (if m \<noteq> ''CONNECT'' \<and> cleanPath p \<noteq> p then Inl (with_headers [(''Location'', cleanPath p)] (reply 301 NoContent))
      else
        (case route_of rs m p of
           Some r \<Rightarrow> Inr r
         | None \<Rightarrow>
             if list_ex (\<lambda>r. match_path (request_segments p) (candidates (rt_Method r) rs) \<noteq> None) rs
             then Inl (http_error ''Method Not Allowed'' 405) else Inl not_found))"

section \<open>The wrappers\<close>

datatype wrapper = Session | AdminOnly | Lifecycle string | LimitUploads | LimitDownloads
  | ObserveLease | Observe gauge | ObserveCancelled | BodyLimits

record 'r server =
  sv_site :: site
  sv_uploads :: upload_limiter
  sv_downloads :: download_limiter
  sv_metrics :: metrics
  sv_rest :: 'r

text \<open>What a request brings: its time, cookie, the address its uploads count for, and whether its
  context ends; and the faults of the administrator check.\<close>

record request_env =
  en_now :: int
  en_cookie :: "string option"
  en_key :: "int option \<Rightarrow> upload_key"
  en_cancelled :: bool
  en_admins :: "string list"
  en_userFault :: bool
  en_bootFault :: bool

definition on_metrics :: "(metrics \<Rightarrow> metrics) \<Rightarrow> 'r server \<Rightarrow> 'r server" where
  "on_metrics f st = st\<lparr>sv_metrics := f (sv_metrics st)\<rparr>"

definition how_ended :: "request_env \<Rightarrow> response \<Rightarrow> ending" where
  "how_ended en resp = (if res_status resp = 0 then Panicked else Returned (en_cancelled en))"

fun run_chain ::
    "request_env \<Rightarrow> (int option \<Rightarrow> 'r server \<Rightarrow> 'r server \<times> response) \<Rightarrow> wrapper list \<Rightarrow> int option
     \<Rightarrow> 'r server \<Rightarrow> 'r server \<times> response" where
  "run_chain en f [] uid st = f uid st"
| "run_chain en f (Session # ws) uid st =
     (case requireSession (en_now en) (en_cookie en) (sv_site st) of
        (s, Inl resp) \<Rightarrow> (st\<lparr>sv_site := s\<rparr>, resp)
      | (s, Inr i) \<Rightarrow> run_chain en f ws (Some i) (st\<lparr>sv_site := s\<rparr>))"
| "run_chain en f (AdminOnly # ws) uid st =
     (if requireAdmin (en_admins en) (en_userFault en) (en_bootFault en) (si_db (sv_site st))
           (case uid of None \<Rightarrow> 0 | Some i \<Rightarrow> i)
      then run_chain en f ws uid st else (st, http_error ''forbidden'' 403))"
| "run_chain en f (Lifecycle kind # ws) uid st = run_chain en f ws uid st"
| "run_chain en f (BodyLimits # ws) uid st = run_chain en f ws uid st"
| "run_chain en f (LimitUploads # ws) uid st =
     (case LimitUpload second (en_key en uid)
             (\<lambda>(l, s). case run_chain en f ws uid (s\<lparr>sv_uploads := l\<rparr>) of
                (s', resp) \<Rightarrow> ((sv_uploads s', s'), resp))
             (sv_uploads st, st) of
        ((l, s), resp) \<Rightarrow> (s\<lparr>sv_uploads := l\<rparr>, resp))"
| "run_chain en f (LimitDownloads # ws) uid st =
     (case dl_TryAcquire (sv_downloads st) of
        Inl e \<Rightarrow>
          (st, with_headers [(''Retry-After'', ''1'')] (http_error ''download capacity exceeded'' 429))
      | Inr l \<Rightarrow>
          (case run_chain en f ws uid (st\<lparr>sv_downloads := l\<rparr>) of
             (s, resp) \<Rightarrow> (s\<lparr>sv_downloads := fst (dl_Release (sv_downloads s) False)\<rparr>, resp)))"
| "run_chain en f (ObserveLease # ws) uid st =
     (case run_chain en f ws uid (on_metrics (gauge_started GLeases) st) of
        (s, resp) \<Rightarrow> (on_metrics observeLease_end s, resp))"
| "run_chain en f (Observe g # ws) uid st =
     (case run_chain en f ws uid (on_metrics (gauge_started g) st) of
        (s, resp) \<Rightarrow> (on_metrics (observeActive_end g (how_ended en resp)) s, resp))"
| "run_chain en f (ObserveCancelled # ws) uid st =
     (case run_chain en f ws uid st of
        (s, resp) \<Rightarrow> (on_metrics (observeCancellation (how_ended en resp)) s, resp))"

section \<open>The production table\<close>

datatype endpoint =
    Healthz | Readyz | PublicUI | LoginUI | Login | Logout | SessionStatus | ListFiles | CreateUpload
  | UploadHead | UploadDelete | PatchUpload | CompleteUploadE | DownloadGet | CreateDirectoryE | CreateFileE
  | RenameFileE | DeleteFileE | DeleteDirectoryE | DownloadHead | CreateArchive | DownloadArchive
  | CancelArchive | CreateUserE | DisableUser | ResetPassword | SetPermission | ListAudit
  | PublicSettings | ServeAsset | ServeFavicon | AdminSettings | PutSettings | UploadAsset | ResetAsset
  | MetricsPage | UploadPlaceholder

definition rt :: "string \<Rightarrow> string \<Rightarrow> wrapper list \<Rightarrow> endpoint \<Rightarrow> (wrapper list \<times> endpoint) route" where
  "rt m p ws e = \<lparr>rt_Method = m, rt_Pattern = p, rt_Handler = (ws, e)\<rparr>"

definition admin_routes :: "(wrapper list \<times> endpoint) route list" where
  "admin_routes =
     [rt ''POST'' ''/api/admin/users'' [Session, AdminOnly] CreateUserE,
      rt ''PUT'' ''/api/admin/users/{userID}/disabled'' [Session, AdminOnly] DisableUser,
      rt ''PUT'' ''/api/admin/users/{userID}/password'' [Session, AdminOnly] ResetPassword,
      rt ''PUT'' ''/api/admin/users/{userID}/permissions'' [Session, AdminOnly] SetPermission,
      rt ''GET'' ''/api/admin/audit'' [Session, AdminOnly] ListAudit]"

definition site_routes :: "(wrapper list \<times> endpoint) route list" where
  "site_routes =
     [rt ''GET'' ''/api/site-settings'' [] PublicSettings,
      rt ''GET'' ''/assets/site/{assetID}'' [] ServeAsset,
      rt ''GET'' ''/favicon.ico'' [] ServeFavicon,
      rt ''GET'' ''/api/admin/site-settings'' [Session, AdminOnly] AdminSettings,
      rt ''PUT'' ''/api/admin/site-settings'' [Session, AdminOnly] PutSettings,
      rt ''POST'' ''/api/admin/site-settings/assets/{kind}'' [Session, AdminOnly] UploadAsset,
      rt ''DELETE'' ''/api/admin/site-settings/assets/{kind}'' [Session, AdminOnly] ResetAsset]"

definition download_chain :: "wrapper list" where
  "download_chain = [Session, Lifecycle ''download'', LimitDownloads, ObserveLease, Observe GDownloads]"

definition transfer_routes :: "(wrapper list \<times> endpoint) route list" where
  "transfer_routes =
     [rt ''GET'' ''/healthz'' [] Healthz,
      rt ''GET'' ''/readyz'' [] Readyz,
      rt ''GET'' ''/'' [] PublicUI,
      rt ''GET'' ''/login'' [] LoginUI,
      rt ''POST'' ''/login'' [] Login,
      rt ''POST'' ''/logout'' [] Logout,
      rt ''GET'' ''/session'' [Session] SessionStatus,
      rt ''GET'' ''/roots/{rootID}/files'' [Session] ListFiles,
      rt ''POST'' ''/api/uploads'' [Session, Lifecycle ''upload''] CreateUpload,
      rt ''HEAD'' ''/api/uploads/{id}'' [Session] UploadHead,
      rt ''DELETE'' ''/api/uploads/{id}'' [Session] UploadDelete,
      rt ''PATCH'' ''/api/uploads/{id}''
        [Session, Lifecycle ''upload'', LimitUploads, ObserveLease, Observe GUploads, BodyLimits] PatchUpload,
      rt ''POST'' ''/api/uploads/{id}/complete'' [Session, Lifecycle ''upload''] CompleteUploadE,
      rt ''GET'' ''/api/files/{fileID}'' download_chain DownloadGet,
      rt ''POST'' ''/api/directories'' [Session, Lifecycle ''directory.create''] CreateDirectoryE,
      rt ''POST'' ''/api/files'' [Session, Lifecycle ''file.create''] CreateFileE,
      rt ''PATCH'' ''/api/files/{fileID}'' [Session, Lifecycle ''file.rename''] RenameFileE,
      rt ''DELETE'' ''/api/files/{fileID}'' [Session, Lifecycle ''file.delete''] DeleteFileE,
      rt ''DELETE'' ''/api/directories/{directoryID}'' [Session, Lifecycle ''directory.delete''] DeleteDirectoryE,
      rt ''HEAD'' ''/api/files/{fileID}'' download_chain DownloadHead,
      rt ''POST'' ''/api/roots/{rootID}/archives'' [Session, Observe GArchives] CreateArchive,
      rt ''GET'' ''/api/archives/{jobID}'' [Session, Lifecycle ''archive'', Observe GArchives] DownloadArchive,
      rt ''DELETE'' ''/api/archives/{jobID}'' [Session, ObserveCancelled] CancelArchive]"

text \<open>\<open>observedHandler\<close> adds the page of the counters.\<close>

definition observed_routes :: "(wrapper list \<times> endpoint) route list \<Rightarrow> (wrapper list \<times> endpoint) route list" where
  "observed_routes rs = rs @ [rt ''GET'' ''/metrics'' [] MetricsPage]"

definition production_routes :: "(wrapper list \<times> endpoint) route list" where
  "production_routes = observed_routes (transfer_routes @ admin_routes @ site_routes)"

section \<open>Compositions\<close>

text \<open>
  What a constructor returns: the routes; whether the handler is the bare multiplexer, one with
  \<open>RequestLimits\<close>, or \<open>observedHandler\<close>; and the limiters it made.
\<close>

datatype outer = Bare | Limits | Observed

record composition =
  cp_routes :: "(wrapper list \<times> endpoint) route list"
  cp_outer :: outer
  cp_uploads :: "upload_limiter option"
  cp_downloads :: "download_limiter option"

datatype compose_error = BadConfig string | MissingParts | BadPart err

definition composed ::
    "config \<Rightarrow> bool \<Rightarrow> (err + 'a) \<Rightarrow> compose_error + 'a" where
  "composed cfg deps x =
     (case Validate cfg of
        Some e \<Rightarrow> Inl (BadConfig e)
      | None \<Rightarrow> if \<not> deps then Inl MissingParts else (case x of Inl e \<Rightarrow> Inl (BadPart e) | Inr c \<Rightarrow> Inr c))"

definition only_routes :: "outer \<Rightarrow> (wrapper list \<times> endpoint) route list \<Rightarrow> composition" where
  "only_routes k rs = \<lparr>cp_routes = rs, cp_outer = k, cp_uploads = None, cp_downloads = None\<rparr>"

definition observed_or_limited :: "bool \<Rightarrow> (wrapper list \<times> endpoint) route list \<Rightarrow> composition" where
  "observed_or_limited observed rs =
     (if observed then only_routes Observed (observed_routes rs) else only_routes Limits rs)"

definition NewProductionServer ::
    "config \<Rightarrow> bool \<Rightarrow> (err + 'a) \<Rightarrow> compose_error + download_limiter \<times> 'a" where
  "NewProductionServer cfg deps assets =
     composed cfg deps
       (case NewDownloadLimiter (DownloadConcurrency cfg) of
          Inl e \<Rightarrow> Inl e
        | Inr l \<Rightarrow> (case assets of Inl e \<Rightarrow> Inl e | Inr a \<Rightarrow> Inr (l, a)))"

definition production :: composition where
  "production = only_routes Observed production_routes"

definition NewServer :: "config \<Rightarrow> compose_error + composition" where
  "NewServer cfg =
     composed cfg True (Inr (only_routes Limits [rt ''GET'' ''/healthz'' [] Healthz, rt ''GET'' ''/'' [] PublicUI]))"

definition NewServerWithObservability :: "config \<Rightarrow> bool \<Rightarrow> compose_error + composition" where
  "NewServerWithObservability cfg deps =
     composed cfg deps
       (Inr (only_routes Observed
               (observed_routes [rt ''GET'' ''/healthz'' [] Healthz, rt ''GET'' ''/readyz'' [] Readyz])))"

definition login_routes :: "(wrapper list \<times> endpoint) route list" where
  "login_routes =
     [rt ''GET'' ''/healthz'' [] Healthz, rt ''POST'' ''/login'' [] Login, rt ''POST'' ''/logout'' [] Logout]"

definition session_routes :: "(wrapper list \<times> endpoint) route list" where
  "session_routes = login_routes @ [rt ''GET'' ''/session'' [Session] SessionStatus]"

definition with_uploads :: "upload_limiter \<Rightarrow> composition \<Rightarrow> composition" where
  "with_uploads l c = c\<lparr>cp_uploads := Some l\<rparr>"

definition NewServerWithAuth :: "config \<Rightarrow> bool \<Rightarrow> upload_limiter option list \<Rightarrow> compose_error + composition" where
  "NewServerWithAuth cfg deps supplied =
     composed cfg deps
       (case newUploadLimiter cfg supplied of
          Inl e \<Rightarrow> Inl e
        | Inr l \<Rightarrow>
            Inr (with_uploads l (only_routes Limits
                   (session_routes @ [rt ''POST'' ''/api/uploads'' [Session, LimitUploads, BodyLimits] UploadPlaceholder]))))"

definition NewServerWithAuthAndObservability ::
    "config \<Rightarrow> bool \<Rightarrow> bool \<Rightarrow> upload_limiter option list \<Rightarrow> compose_error + composition" where
  "NewServerWithAuthAndObservability cfg metrics deps supplied =
     (if \<not> metrics then Inl MissingParts
      else
        composed cfg deps
          (case newUploadLimiter cfg supplied of
             Inl e \<Rightarrow> Inl e
           | Inr l \<Rightarrow>
               Inr (with_uploads l (only_routes Observed (observed_routes
                      (session_routes
                       @ [rt ''POST'' ''/api/uploads''
                            [Session, Observe GUploads, LimitUploads, ObserveLease, BodyLimits] UploadPlaceholder]))))))"

definition NewServerWithFiles :: "config \<Rightarrow> bool \<Rightarrow> compose_error + composition" where
  "NewServerWithFiles cfg deps =
     composed cfg deps
       (Inr (only_routes Bare (session_routes @ [rt ''GET'' ''/roots/{rootID}/files'' [Session] ListFiles])))"

definition NewServerWithAdmin :: "config \<Rightarrow> bool \<Rightarrow> compose_error + composition" where
  "NewServerWithAdmin cfg deps = composed cfg deps (Inr (only_routes Limits (session_routes @ admin_routes)))"

definition NewServerWithSiteSettings :: "config \<Rightarrow> bool \<Rightarrow> compose_error + composition" where
  "NewServerWithSiteSettings cfg deps = composed cfg deps (Inr (only_routes Limits (session_routes @ site_routes)))"

definition patch_chain :: "bool \<Rightarrow> wrapper list" where
  "patch_chain observed =
     [Session, Lifecycle ''upload'']
     @ (if observed then [LimitUploads, ObserveLease, Observe GUploads] else [LimitUploads]) @ [BodyLimits]"

definition newServerWithUploads ::
    "config \<Rightarrow> bool \<Rightarrow> bool \<Rightarrow> upload_limiter option list \<Rightarrow> compose_error + composition" where
  "newServerWithUploads cfg deps observed supplied =
     composed cfg deps
       (case newUploadLimiter cfg supplied of
          Inl e \<Rightarrow> Inl e
        | Inr l \<Rightarrow>
            Inr (with_uploads l (observed_or_limited observed
                  [rt ''GET'' ''/healthz'' [] Healthz,
                   rt ''GET'' ''/'' [] PublicUI,
                   rt ''POST'' ''/login'' [] Login,
                   rt ''POST'' ''/logout'' [] Logout,
                   rt ''GET'' ''/session'' [Session] SessionStatus,
                   rt ''GET'' ''/roots/{rootID}/files'' [Session] ListFiles,
                   rt ''POST'' ''/api/uploads'' [Session, Lifecycle ''upload''] CreateUpload,
                   rt ''HEAD'' ''/api/uploads/{id}'' [Session] UploadHead,
                   rt ''DELETE'' ''/api/uploads/{id}'' [Session] UploadDelete,
                   rt ''PATCH'' ''/api/uploads/{id}'' (patch_chain observed) PatchUpload,
                   rt ''POST'' ''/api/uploads/{id}/complete'' [Session, Lifecycle ''upload''] CompleteUploadE])))"

definition newServerWithDownloads :: "config \<Rightarrow> bool \<Rightarrow> bool \<Rightarrow> compose_error + composition" where
  "newServerWithDownloads cfg deps observed =
     composed cfg deps
       (case NewDownloadLimiter (DownloadConcurrency cfg) of
          Inl e \<Rightarrow> Inl e
        | Inr l \<Rightarrow>
            (let chain = (if observed then download_chain else [Session, Lifecycle ''download'', LimitDownloads]) in
             Inr ((observed_or_limited observed
                     (session_routes
                      @ [rt ''GET'' ''/api/files/{fileID}'' chain DownloadGet,
                         rt ''HEAD'' ''/api/files/{fileID}'' chain DownloadHead]))\<lparr>cp_downloads := Some l\<rparr>)))"

definition newServerWithArchives :: "config \<Rightarrow> bool \<Rightarrow> bool \<Rightarrow> compose_error + composition" where
  "newServerWithArchives cfg deps observed =
     (let seen = (if observed then [Observe GArchives] else []) in
      composed cfg deps
        (Inr (observed_or_limited observed
                (login_routes
                 @ [rt ''POST'' ''/api/roots/{rootID}/archives'' (Session # seen) CreateArchive,
                    rt ''GET'' ''/api/archives/{jobID}'' (Session # Lifecycle ''archive'' # seen) DownloadArchive,
                    rt ''DELETE'' ''/api/archives/{jobID}''
                      (Session # (if observed then [ObserveCancelled] else [])) CancelArchive]))))"

text \<open>The exported forms of the last three: with counters they must be given some.\<close>

definition with_counters :: "bool \<Rightarrow> (compose_error + composition) \<Rightarrow> compose_error + composition" where
  "with_counters metrics c = (if \<not> metrics then Inl MissingParts else c)"

definition built :: "composition \<Rightarrow> bool" where
  "built c \<longleftrightarrow> c = production \<or>
     (\<exists>cfg deps observed supplied.
        Inr c \<in> {NewServer cfg, NewServerWithObservability cfg deps, NewServerWithAuth cfg deps supplied,
                 NewServerWithAuthAndObservability cfg observed deps supplied, NewServerWithFiles cfg deps,
                 NewServerWithAdmin cfg deps, NewServerWithSiteSettings cfg deps,
                 newServerWithUploads cfg deps observed supplied, newServerWithDownloads cfg deps observed,
                 newServerWithArchives cfg deps observed})"

text \<open>One request: the multiplexer, the chain of its route, and the count of its status.\<close>

definition serve_request ::
    "request_env \<Rightarrow> (endpoint \<Rightarrow> int option \<Rightarrow> 'r server \<Rightarrow> 'r server \<times> response) \<Rightarrow> composition \<Rightarrow> string \<Rightarrow> string
     \<Rightarrow> 'r server \<Rightarrow> 'r server \<times> response" where
  "serve_request en inner c m p st =
     (case (case serve_mux (cp_routes c) m p of
              Inl resp \<Rightarrow> (st, resp)
            | Inr r \<Rightarrow> run_chain en (inner (snd (rt_Handler r))) (fst (rt_Handler r)) None st) of
        (s, resp) \<Rightarrow>
          (if cp_outer c = Observed
           then on_metrics (metricResponses (if res_status resp = 0 then None else Some (res_status resp))) s else s,
           resp))"

section \<open>Who reaches a handler\<close>

definition same_data :: "'r server \<Rightarrow> 'r server \<Rightarrow> bool" where
  "same_data a b \<longleftrightarrow> si_db (sv_site a) = si_db (sv_site b) \<and> sv_rest a = sv_rest b"

definition administrator :: "string list \<Rightarrow> db \<Rightarrow> int option \<Rightarrow> bool" where
  "administrator names d uid \<longleftrightarrow>
     (\<exists>u \<in> set (db_users d). uid = Some (user_ID u) \<and> (db_bootstrap d = uid \<or> user_Username u \<in> set names))"

text \<open>The handler ran, for this user, on the same data, and the answer and the data are its own.\<close>

definition reached ::
    "(int option \<Rightarrow> 'r server \<Rightarrow> 'r server \<times> response) \<Rightarrow> int option \<Rightarrow> 'r server \<Rightarrow> 'r server \<Rightarrow> response \<Rightarrow> bool" where
  "reached f uid st st' resp \<longleftrightarrow>
     (\<exists>st1 st2. same_data st st1 \<and> f uid st1 = (st2, resp) \<and> same_data st2 st')"

lemma same_data_refl [simp]: "same_data a a"
  by (simp add: same_data_def)

lemma same_data_trans: "same_data a b \<Longrightarrow> same_data b c \<Longrightarrow> same_data a c"
  by (simp add: same_data_def)

lemma same_data_updates [simp]:
  "same_data (on_metrics g a) b = same_data a b" "same_data a (on_metrics g b) = same_data a b"
  "same_data (a\<lparr>sv_uploads := l\<rparr>) b = same_data a b" "same_data a (b\<lparr>sv_uploads := l\<rparr>) = same_data a b"
  "same_data (a\<lparr>sv_downloads := k\<rparr>) b = same_data a b" "same_data a (b\<lparr>sv_downloads := k\<rparr>) = same_data a b"
  by (simp_all add: same_data_def on_metrics_def)

lemma reached_before: "same_data a b \<Longrightarrow> reached f uid b c resp \<Longrightarrow> reached f uid a c resp"
  by (auto simp: reached_def intro: same_data_trans)

lemma reached_after: "reached f uid a b resp \<Longrightarrow> same_data b c \<Longrightarrow> reached f uid a c resp"
  by (auto simp: reached_def intro: same_data_trans)

definition passed :: "request_env \<Rightarrow> wrapper list \<Rightarrow> (int option \<Rightarrow> 'r server \<Rightarrow> 'r server \<times> response) \<Rightarrow> int option
    \<Rightarrow> 'r server \<Rightarrow> 'r server \<Rightarrow> response \<Rightarrow> bool" where
  "passed en ws f uid st st' resp \<longleftrightarrow>
     same_data st st' \<and> res_status resp \<in> {403, 429}
     \<or> reached f uid st st' resp
       \<and> (AdminOnly \<in> set ws \<and> uid \<noteq> None \<longrightarrow> administrator (en_admins en) (si_db (sv_site st)) uid)"

lemma passed_cong:
  assumes "passed en ws f uid b c resp" and "same_data a b" and "same_data c e"
  shows "passed en ws f uid a e resp"
  using assms same_data_trans reached_before reached_after unfolding passed_def by (metis same_data_def)

lemma passed_Cons: "w \<noteq> AdminOnly \<Longrightarrow> passed en (w # ws) f uid a b resp = passed en ws f uid a b resp"
  by (auto simp: passed_def)

lemma chain_passed:
  assumes "run_chain en f ws uid st = (st', resp)" and "Session \<notin> set ws"
  shows "passed en ws f uid st st' resp"
  using assms
proof (induction ws arbitrary: st st' resp)
  case Nil
  then have "f uid st = (st', resp)" by simp
  then have "reached f uid st st' resp"
    unfolding reached_def by (intro exI [of _ st] exI [of _ st']) simp
  then show ?case by (simp add: passed_def)
next
  case (Cons w ws)
  then have ns: "Session \<notin> set ws" by simp
  show ?case
  proof (cases w)
    case AdminOnly
    show ?thesis
    proof (cases "requireAdmin (en_admins en) (en_userFault en) (en_bootFault en) (si_db (sv_site st))
        (case uid of None \<Rightarrow> 0 | Some i \<Rightarrow> i)")
      case True
      with Cons.prems(1) AdminOnly have "run_chain en f ws uid st = (st', resp)" by simp
      from Cons.IH [OF this ns] have "passed en ws f uid st st' resp" .
      moreover have "administrator (en_admins en) (si_db (sv_site st)) uid" if "uid \<noteq> None"
        using requireAdmin_iff [OF True] that by (auto simp: administrator_def)
      ultimately show ?thesis by (auto simp: passed_def)
    next
      case False
      with Cons.prems(1) AdminOnly show ?thesis by (auto simp: passed_def)
    qed
  next
    case LimitUploads
    obtain l x where a: "ul_TryAcquire (sv_uploads st) (en_key en uid) = (l, x)" by fastforce
    show ?thesis
    proof (cases x)
      case (Inl e)
      with a Cons.prems(1) LimitUploads show ?thesis by (auto simp: LimitUpload_def passed_def)
    next
      case (Inr k)
      obtain s r where n: "run_chain en f ws uid (st\<lparr>sv_uploads := l\<rparr>) = (s, r)"
        by fastforce
      note p = Cons.IH [OF n ns]
      have "r = resp" "same_data s st'" using a Inr n Cons.prems(1) LimitUploads by (auto simp: LimitUpload_def)
      with p show ?thesis unfolding LimitUploads by (subst passed_Cons) (auto intro: passed_cong)
    qed
  next
    case LimitDownloads
    show ?thesis
    proof (cases "dl_TryAcquire (sv_downloads st)")
      case (Inl e)
      with Cons.prems(1) LimitDownloads show ?thesis by (auto simp: passed_def)
    next
      case (Inr l)
      obtain s r where n: "run_chain en f ws uid (st\<lparr>sv_downloads := l\<rparr>) = (s, r)"
        by fastforce
      note p = Cons.IH [OF n ns]
      have "r = resp" "same_data s st'" using Inr n Cons.prems(1) LimitDownloads by auto
      with p show ?thesis unfolding LimitDownloads by (subst passed_Cons) (auto intro: passed_cong)
    qed
  next
    case ObserveLease
    obtain s r where n: "run_chain en f ws uid (on_metrics (gauge_started GLeases) st) = (s, r)" by fastforce
    note p = Cons.IH [OF n ns]
    have "r = resp" "same_data s st'" using n Cons.prems(1) ObserveLease by auto
    with p show ?thesis unfolding ObserveLease by (subst passed_Cons) (auto intro: passed_cong)
  next
    case (Observe g)
    obtain s r where n: "run_chain en f ws uid (on_metrics (gauge_started g) st) = (s, r)" by fastforce
    note p = Cons.IH [OF n ns]
    have "r = resp" "same_data s st'" using n Cons.prems(1) Observe by auto
    with p show ?thesis unfolding Observe by (subst passed_Cons) (auto intro: passed_cong)
  next
    case ObserveCancelled
    obtain s r where n: "run_chain en f ws uid st = (s, r)" by fastforce
    note p = Cons.IH [OF n ns]
    have "r = resp" "same_data s st'" using n Cons.prems(1) ObserveCancelled by auto
    with p show ?thesis unfolding ObserveCancelled by (subst passed_Cons) (auto intro: passed_cong)
  qed (use Cons in \<open>auto simp: passed_def\<close>)
qed

definition live_session :: "request_env \<Rightarrow> site \<Rightarrow> int \<Rightarrow> bool" where
  "live_session en s i \<longleftrightarrow>
     0 < i \<and> (\<exists>v x. en_cookie en = Some v \<and> sm_store (si_sessions s) v = Some x \<and> as_UserID x = i
               \<and> en_now en < as_ExpiresAt x)"

definition public_endpoints :: "endpoint list" where
  "public_endpoints =
     [Healthz, Readyz, PublicUI, LoginUI, Login, Logout, PublicSettings, ServeAsset, ServeFavicon, MetricsPage]"

definition admin_endpoints :: "endpoint list" where
  "admin_endpoints =
     [CreateUserE, DisableUser, ResetPassword, SetPermission, ListAudit, AdminSettings, PutSettings,
      UploadAsset, ResetAsset]"

text \<open>The shape of every chain of the table.\<close>

definition chain_ok :: "wrapper list \<Rightarrow> endpoint \<Rightarrow> bool" where
  "chain_ok ws e \<longleftrightarrow>
     (if e \<in> set public_endpoints then ws = [] else ws \<noteq> [] \<and> hd ws = Session)
     \<and> Session \<notin> set (tl ws) \<and> (e \<in> set admin_endpoints \<longrightarrow> AdminOnly \<in> set (tl ws))"

definition chains_ok :: "(wrapper list \<times> endpoint) route list \<Rightarrow> bool" where
  "chains_ok rs \<longleftrightarrow> list_all (\<lambda>r. chain_ok (fst (rt_Handler r)) (snd (rt_Handler r))) rs"

lemmas route_tables = production_routes_def observed_routes_def transfer_routes_def admin_routes_def site_routes_def
  login_routes_def session_routes_def download_chain_def patch_chain_def rt_def
  chains_ok_def chain_ok_def public_endpoints_def admin_endpoints_def

lemma composed_Inr: "composed cfg deps x = Inr c \<Longrightarrow> x = Inr c \<and> deps \<and> Validate cfg = None"
  by (auto simp: composed_def split: option.splits if_splits sum.splits)

lemma observed_chains: "chains_ok rs \<Longrightarrow> chains_ok (observed_routes rs)"
  by (simp add: chains_ok_def observed_routes_def rt_def chain_ok_def public_endpoints_def admin_endpoints_def)

lemma built_chains:
  assumes "built c"
  shows "chains_ok (cp_routes c)"
proof -
  consider "c = production" | cfg where "NewServer cfg = Inr c" | cfg deps where "NewServerWithObservability cfg deps = Inr c"
    | cfg deps supplied where "NewServerWithAuth cfg deps supplied = Inr c"
    | cfg m deps supplied where "NewServerWithAuthAndObservability cfg m deps supplied = Inr c"
    | cfg deps where "NewServerWithFiles cfg deps = Inr c" | cfg deps where "NewServerWithAdmin cfg deps = Inr c"
    | cfg deps where "NewServerWithSiteSettings cfg deps = Inr c"
    | cfg deps m supplied where "newServerWithUploads cfg deps m supplied = Inr c"
    | cfg deps m where "newServerWithDownloads cfg deps m = Inr c"
    | cfg deps m where "newServerWithArchives cfg deps m = Inr c"
    using assms unfolding built_def by auto
  then show ?thesis
  proof cases
    case 1
    then show ?thesis by (simp add: production_def only_routes_def route_tables)
  next
    case 2
    then show ?thesis by (auto simp: NewServer_def only_routes_def route_tables dest!: composed_Inr)
  next
    case 3
    then show ?thesis by (auto simp: NewServerWithObservability_def only_routes_def route_tables dest!: composed_Inr)
  next
    case 4
    then show ?thesis
      by (auto simp: NewServerWithAuth_def only_routes_def with_uploads_def route_tables dest!: composed_Inr split: sum.splits)
  next
    case 5
    then show ?thesis
      by (auto simp: NewServerWithAuthAndObservability_def only_routes_def with_uploads_def route_tables
          dest!: composed_Inr split: sum.splits if_splits)
  next
    case 6
    then show ?thesis by (auto simp: NewServerWithFiles_def only_routes_def route_tables dest!: composed_Inr)
  next
    case 7
    then show ?thesis by (auto simp: NewServerWithAdmin_def only_routes_def route_tables dest!: composed_Inr)
  next
    case 8
    then show ?thesis by (auto simp: NewServerWithSiteSettings_def only_routes_def route_tables dest!: composed_Inr)
  next
    case 9
    then show ?thesis
      by (auto simp: newServerWithUploads_def only_routes_def with_uploads_def observed_or_limited_def route_tables
          dest!: composed_Inr split: sum.splits if_splits)
  next
    case 10
    then show ?thesis
      by (auto simp: newServerWithDownloads_def only_routes_def Let_def observed_or_limited_def route_tables
          dest!: composed_Inr split: sum.splits if_splits)
  next
    case 11
    then show ?thesis
      by (auto simp: newServerWithArchives_def only_routes_def Let_def observed_or_limited_def route_tables
          dest!: composed_Inr split: if_splits)
  qed
qed

lemma after_literal_mem: "(ps, r) \<in> set (after_literal s cs) \<Longrightarrow> r \<in> snd ` set cs"
  by (induction s cs rule: after_literal.induct) (auto split: if_splits)

lemma after_wild_mem: "(ps, r) \<in> set (after_wild cs) \<Longrightarrow> r \<in> snd ` set cs"
  by (induction cs rule: after_wild.induct) auto

lemma match_path_mem: "match_path ss cs = Some r \<Longrightarrow> r \<in> snd ` set cs"
proof (induction ss arbitrary: cs)
  case Nil
  then show ?case by (force dest: find_SomeD)
next
  case (Cons s ss)
  from Cons.prems consider "match_path ss (after_literal s cs) = Some r" | "match_path ss (after_wild cs) = Some r"
    | c where "find (\<lambda>c. fst c = [Rest]) cs = Some c" "snd c = r"
    by (auto split: if_splits option.splits)
  then show ?case
  proof cases
    case 1
    then show ?thesis using Cons.IH after_literal_mem by fastforce
  next
    case 2
    then show ?thesis using Cons.IH after_wild_mem by fastforce
  next
    case 3
    then show ?thesis by (auto dest: find_SomeD)
  qed
qed

lemma serve_mux_mem:
  assumes "serve_mux rs m p = Inr r"
  shows "r \<in> set rs"
proof -
  have "route_of rs m p = Some r"
    using assms by (auto simp: serve_mux_def split: if_splits option.splits)
  then obtain k where "match_path (request_segments p) (candidates k rs) = Some r"
    by (auto simp: route_of_def Let_def split: option.splits if_splits)
  then have "r \<in> snd ` set (candidates k rs)" by (rule match_path_mem)
  then show ?thesis by (auto simp: candidates_def)
qed

text \<open>Who may reach an endpoint: anybody, a logged-in user, an administrator.\<close>

definition may_reach :: "request_env \<Rightarrow> 'r server \<Rightarrow> endpoint \<Rightarrow> int option \<Rightarrow> bool" where
  "may_reach en st e uid \<longleftrightarrow>
     (if e \<in> set public_endpoints then uid = None else \<exists>i. uid = Some i \<and> live_session en (sv_site st) i)
     \<and> (e \<in> set admin_endpoints \<longrightarrow> administrator (en_admins en) (si_db (sv_site st)) uid)"

lemma serve_request_guarded:
  assumes "serve_request en inner c m p st = (st', resp)" and c: "chains_ok (cp_routes c)"
  shows "same_data st st' \<and> res_status resp \<in> {301, 401, 403, 404, 405, 429}
    \<or> (\<exists>r uid. serve_mux (cp_routes c) m p = Inr r \<and> may_reach en st (snd (rt_Handler r)) uid
         \<and> reached (inner (snd (rt_Handler r))) uid st st' resp)"
proof (cases "serve_mux (cp_routes c) m p")
  case (Inl x)
  with assms(1) have "same_data st st'" "resp = x" by (auto simp: serve_request_def split: if_splits)
  with Inl show ?thesis by (auto simp: serve_mux_def split: if_splits option.splits)
next
  case mux: (Inr r)
  obtain ws e where h: "rt_Handler r = (ws, e)" by fastforce
  with serve_mux_mem [OF mux] c have ok: "chain_ok ws e" by (auto simp: chains_ok_def list_all_iff)
  obtain s q where n: "run_chain en (inner e) ws None st = (s, q)" by fastforce
  with assms(1) mux h have q: "q = resp" "same_data s st'" by (auto simp: serve_request_def split: if_splits)
  show ?thesis
  proof (cases "e \<in> set public_endpoints")
    case True
    with ok n q have i: "inner e None st = (s, resp)" by (simp add: chain_ok_def)
    from i have "reached (inner e) None st st' resp"
      unfolding reached_def using q(2) by (intro exI [of _ st] exI [of _ s]) simp
    moreover have "e \<notin> set admin_endpoints" using True by (auto simp: public_endpoints_def admin_endpoints_def)
    ultimately have "may_reach en st e None \<and> reached (inner e) None st st' resp" using True by (simp add: may_reach_def)
    with mux h show ?thesis by auto
  next
    case False
    with ok obtain ws' where ws: "ws = Session # ws'" "Session \<notin> set ws'" "e \<in> set admin_endpoints \<longrightarrow> AdminOnly \<in> set ws'"
      by (cases ws) (auto simp: chain_ok_def)
    obtain t x where se: "requireSession (en_now en) (en_cookie en) (sv_site st) = (t, x)" by fastforce
    show ?thesis
    proof (cases x)
      case (Inl y)
      with se n ws q have "resp = y" "same_data st st'" using requireSession_Inl
        by (auto simp: same_data_def on_metrics_def)
      with requireSession_Inl [OF se [unfolded Inl]] show ?thesis by auto
    next
      case (Inr i)
      note ri = requireSession_Inr [OF se [unfolded Inr]]
      have live: "live_session en (sv_site st) i" using ri(2,3) by (simp add: live_session_def)
      have "run_chain en (inner e) ws' (Some i) st = (s, resp)" using se Inr n ws(1) q(1) ri(1) by simp
      from passed_cong [OF chain_passed [OF this ws(2)] same_data_refl q(2)] live ws(3) False
      have "same_data st st' \<and> res_status resp \<in> {403, 429}
          \<or> may_reach en st e (Some i) \<and> reached (inner e) (Some i) st st' resp"
        by (auto simp: passed_def may_reach_def)
      with mux h show ?thesis by auto
    qed
  qed
qed

end
