(* ===== verification/Rotation.thy ===== *)
theory Rotation
  imports GoText "HOL-Library.AList"
begin

text \<open>
  The rotating log file (\<open>internal/observability/rotating.go\<close>): the writer's own fields and the
  directory of the log, an association list from base names to files.  \<open>F s\<close> says that the step
  \<open>s\<close> fails.  The path holds no pattern characters, so \<open>filepath.Glob(path + ".*")\<close> finds the
  names that begin with the base name and a dot; files of equal age keep their directory order.
\<close>

record log_file =
  lf_Content :: string
  lf_Mod :: int
  lf_IsDir :: bool

type_synonym log_dir = "(string \<times> log_file) list"

datatype log_handle = Opened | HandleClosed | NoHandle

record rotating =
  rw_base :: string
  rw_maxBytes :: int
  rw_retentionDays :: int
  rw_backups :: int
  rw_handle :: log_handle
  rw_size :: int

datatype log_site = LogMkdir | LogOpen | LogStat | LogClose | LogRename | LogGlob | LogRemove string

type_synonym log_faults = "log_site \<Rightarrow> bool"

definition log_day :: int where
  "log_day = 24 * 60 * 60 * 1000000000"

section \<open>Retention\<close>

definition rotated_entries :: "string \<Rightarrow> log_dir \<Rightarrow> log_dir" where
  "rotated_entries base d = filter (\<lambda>e. has_prefix (fst e) (base @ ''.'') \<and> \<not> lf_IsDir (snd e)) d"

definition newest_first :: "log_dir \<Rightarrow> log_dir" where
  "newest_first es = sort_key (\<lambda>e. - lf_Mod (snd e)) es"

definition retired :: "rotating \<Rightarrow> int \<Rightarrow> nat \<Rightarrow> log_file \<Rightarrow> bool" where
  "retired w now i f \<longleftrightarrow>
     rw_retentionDays w > 0 \<and> lf_Mod f < now - rw_retentionDays w * log_day
     \<or> rw_backups w > 0 \<and> int i \<ge> rw_backups w"

fun remove_retired :: "log_faults \<Rightarrow> rotating \<Rightarrow> int \<Rightarrow> nat \<Rightarrow> log_dir \<Rightarrow> log_dir \<Rightarrow> log_dir \<times> err option" where
  "remove_retired F w now i [] d = (d, None)"
| "remove_retired F w now i (e # es) d =
     (if retired w now i (snd e) then
        (if F (LogRemove (fst e)) then (d, Some IoError)
         else remove_retired F w now (Suc i) es (AList.delete (fst e) d))
      else remove_retired F w now (Suc i) es d)"

definition log_cleanup :: "log_faults \<Rightarrow> rotating \<Rightarrow> int \<Rightarrow> log_dir \<Rightarrow> log_dir \<times> err option" where
  "log_cleanup F w now d =
     (if F LogGlob then (d, Some IoError)
      else remove_retired F w now 0 (newest_first (rotated_entries (rw_base w) d)) d)"

section \<open>The writer\<close>

definition log_open :: "log_faults \<Rightarrow> int \<Rightarrow> rotating \<Rightarrow> log_dir \<Rightarrow> rotating \<times> log_dir \<times> err option" where
  "log_open F now w d =
     (case map_of d (rw_base w) of
        None \<Rightarrow>
          if F LogOpen then (w, d, Some IoError)
          else
            (let d' = AList.update (rw_base w) \<lparr>lf_Content = [], lf_Mod = now, lf_IsDir = False\<rparr> d in
             if F LogStat then (w, d', Some IoError)
             else (w\<lparr>rw_handle := Opened, rw_size := 0\<rparr>, d', None))
      | Some f \<Rightarrow>
          if F LogOpen \<or> lf_IsDir f then (w, d, Some IoError)
          else if F LogStat then (w, d, Some IoError)
          else (w\<lparr>rw_handle := Opened, rw_size := int (length (lf_Content f))\<rparr>, d, None))"

definition NewRotatingWriter ::
    "log_faults \<Rightarrow> int \<Rightarrow> int \<Rightarrow> string \<Rightarrow> int \<Rightarrow> int \<Rightarrow> int \<Rightarrow> log_dir \<Rightarrow> log_dir \<times> (err + rotating)" where
  "NewRotatingWriter F now now' base maxBytes retentionDays backups d =
     (if base = [] then (d, Inl Invalid)
      else if maxBytes < 0 \<or> retentionDays < 0 \<or> backups < 0 then (d, Inl Invalid)
      else if F LogMkdir then (d, Inl IoError)
      else
        (case log_open F now \<lparr>rw_base = base, rw_maxBytes = maxBytes, rw_retentionDays = retentionDays,
                rw_backups = backups, rw_handle = NoHandle, rw_size = 0\<rparr> d of
           (w, d1, Some e) \<Rightarrow> (d1, Inl e)
         | (w, d1, None) \<Rightarrow>
             (case log_cleanup F w now' d1 of
                (d2, Some e) \<Rightarrow> (d2, Inl e)
              | (d2, None) \<Rightarrow> (d2, Inr w))))"

text \<open>\<open>stamp\<close> is the formatted time; closing fails when the file is closed already.\<close>

definition log_rotate ::
    "log_faults \<Rightarrow> string \<Rightarrow> int \<Rightarrow> int \<Rightarrow> rotating \<Rightarrow> log_dir \<Rightarrow> rotating \<times> log_dir \<times> err option" where
  "log_rotate F stamp now now' w d =
     (if rw_handle w \<noteq> Opened then (w, d, Some Closed)
      else
        (let w1 = w\<lparr>rw_handle := HandleClosed\<rparr> in
         if F LogClose then (w1, d, Some IoError)
         else
           (case map_of d (rw_base w) of
              None \<Rightarrow> (w1, d, Some NotExist)
            | Some f \<Rightarrow>
                if F LogRename then (w1, d, Some IoError)
                else
                  (case log_open F now w1
                          (AList.update (rw_base w @ ''.'' @ stamp) f (AList.delete (rw_base w) d)) of
                     (w2, d2, Some e) \<Rightarrow> (w2, d2, Some e)
                   | (w2, d2, None) \<Rightarrow> (case log_cleanup F w2 now' d2 of (d3, e) \<Rightarrow> (w2, d3, e))))))"

text \<open>The bytes the disk accepts, when fewer: \<open>room\<close>.\<close>

definition log_append ::
    "nat option \<Rightarrow> int \<Rightarrow> string \<Rightarrow> rotating \<Rightarrow> log_dir \<Rightarrow> rotating \<times> log_dir \<times> nat \<times> err option" where
  "log_append room now p w d =
     (if rw_handle w \<noteq> Opened then (w, d, 0, Some Closed)
      else
        (let n = (case room of None \<Rightarrow> length p | Some k \<Rightarrow> min k (length p)) in
         (w\<lparr>rw_size := wrap64 (rw_size w + int n)\<rparr>,
          (case map_of d (rw_base w) of
             None \<Rightarrow> d
           | Some f \<Rightarrow> AList.update (rw_base w) (f\<lparr>lf_Content := lf_Content f @ take n p, lf_Mod := now\<rparr>) d),
          n, if n < length p then Some IoError else None)))"

definition log_Write ::
    "log_faults \<Rightarrow> nat option \<Rightarrow> string \<Rightarrow> int \<Rightarrow> int \<Rightarrow> string \<Rightarrow> rotating \<Rightarrow> log_dir
     \<Rightarrow> rotating \<times> log_dir \<times> nat \<times> err option" where
  "log_Write F room stamp now now' p w d =
     (if rw_maxBytes w > 0 \<and> rw_size w > 0 \<and> wrap64 (rw_size w + int (length p)) > rw_maxBytes w then
        (case log_rotate F stamp now now' w d of
           (w1, d1, Some e) \<Rightarrow> (w1, d1, 0, Some e)
         | (w1, d1, None) \<Rightarrow> log_append room now' p w1 d1)
      else log_append room now' p w d)"

definition log_Close :: "log_faults \<Rightarrow> rotating \<Rightarrow> rotating \<times> err option" where
  "log_Close F w =
     (case rw_handle w of
        NoHandle \<Rightarrow> (w, None)
      | HandleClosed \<Rightarrow> (w\<lparr>rw_handle := NoHandle\<rparr>, Some Closed)
      | Opened \<Rightarrow> (w\<lparr>rw_handle := NoHandle\<rparr>, if F LogClose then Some IoError else None))"

section \<open>What retention removes\<close>

lemma newest_first_set [simp]: "set (newest_first es) = set es"
  by (simp add: newest_first_def)

lemma rotated_subset: "set (rotated_entries base d) \<subseteq> set d"
  by (auto simp: rotated_entries_def)

lemma remove_retired_map:
  assumes "remove_retired F w now i es d = (d', None)"
  shows "map_of d' k = (if \<exists>j < length es. fst (es ! j) = k \<and> retired w now (i + j) (snd (es ! j)) then None else map_of d k)"
  using assms
proof (induction es arbitrary: i d)
  case (Cons e es)
  have split: "(\<exists>j < length (e # es). fst ((e # es) ! j) = k \<and> retired w now (i + j) (snd ((e # es) ! j)))
      \<longleftrightarrow> fst e = k \<and> retired w now i (snd e)
        \<or> (\<exists>j < length es. fst (es ! j) = k \<and> retired w now (Suc i + j) (snd (es ! j)))"
    unfolding list.size(4) add_Suc_right add_0_right Ex_less_Suc2 by simp
  show ?case
  proof (cases "retired w now i (snd e)")
    case True
    with Cons.prems have "remove_retired F w now (Suc i) es (AList.delete (fst e) d) = (d', None)"
      by (simp split: if_splits)
    from Cons.IH [OF this] True show ?thesis unfolding split by (auto simp: delete_conv')
  next
    case False
    with Cons.prems have "remove_retired F w now (Suc i) es d = (d', None)" by simp
    from Cons.IH [OF this] False show ?thesis unfolding split by auto
  qed
qed simp

lemma remove_retired_subset:
  "remove_retired F w now i es d = (d', e) \<Longrightarrow> set d' \<subseteq> set d \<and> (distinct (map fst d) \<longrightarrow> distinct (map fst d'))"
proof (induction es arbitrary: i d)
  case (Cons x es)
  show ?case
  proof (cases "retired w now i (snd x) \<and> \<not> F (LogRemove (fst x))")
    case True
    with Cons.prems have r: "remove_retired F w now (Suc i) es (AList.delete (fst x) d) = (d', e)" by simp
    have "set (AList.delete (fst x) d) \<subseteq> set d" by (auto simp: AList.delete_eq)
    with Cons.IH [OF r] distinct_delete [of d "fst x"] show ?thesis by blast
  next
    case False
    with Cons.prems Cons.IH [of "Suc i" d] show ?thesis by (auto split: if_splits)
  qed
qed simp

lemma log_cleanup_map:
  assumes "log_cleanup F w now d = (d', None)" and "distinct (map fst d)"
  shows "map_of d' k = map_of d k \<or> map_of d' k = None \<and> has_prefix k (rw_base w @ ''.'')
      \<and> (\<exists>i f. map_of d k = Some f \<and> \<not> lf_IsDir f \<and> retired w now i f)"
    and "\<not> has_prefix k (rw_base w @ ''.'') \<Longrightarrow> map_of d' k = map_of d k"
proof -
  let ?es = "newest_first (rotated_entries (rw_base w) d)"
  have m: "map_of d' k = (if \<exists>j < length ?es. fst (?es ! j) = k \<and> retired w now (0 + j) (snd (?es ! j)) then None else map_of d k)"
    using assms(1) by (intro remove_retired_map) (simp add: log_cleanup_def split: if_splits)
  have at: "has_prefix k (rw_base w @ ''.'') \<and> map_of d k = Some (snd (?es ! j)) \<and> \<not> lf_IsDir (snd (?es ! j))"
    if "j < length ?es" "fst (?es ! j) = k" for j
  proof -
    have "?es ! j \<in> set (rotated_entries (rw_base w) d)" using nth_mem [OF that(1)] by simp
    then have "?es ! j \<in> set d" "has_prefix (fst (?es ! j)) (rw_base w @ ''.'')" "\<not> lf_IsDir (snd (?es ! j))"
      by (simp_all add: rotated_entries_def)
    moreover from this(1) have "map_of d (fst (?es ! j)) = Some (snd (?es ! j))"
      using assms(2) by (metis map_of_eq_Some_iff prod.collapse)
    ultimately show ?thesis using that(2) by simp
  qed
  show "map_of d' k = map_of d k \<or> map_of d' k = None \<and> has_prefix k (rw_base w @ ''.'')
      \<and> (\<exists>i f. map_of d k = Some f \<and> \<not> lf_IsDir f \<and> retired w now i f)"
  proof (cases "\<exists>j < length ?es. fst (?es ! j) = k \<and> retired w now (0 + j) (snd (?es ! j))")
    case True
    then obtain j where j: "j < length ?es" "fst (?es ! j) = k" "retired w now j (snd (?es ! j))" by auto
    with at [OF j(1,2)] m True show ?thesis by metis
  next
    case False
    show ?thesis using m unfolding if_not_P [OF False] by (rule disjI1)
  qed
  show "map_of d' k = map_of d k" if "\<not> has_prefix k (rw_base w @ ''.'')"
    using m at that by metis
qed

lemma log_cleanup_bound:
  assumes "log_cleanup F w now d = (d', None)" and "distinct (map fst d)" and "rw_backups w > 0"
  shows "int (length (rotated_entries (rw_base w) d')) \<le> rw_backups w"
proof -
  let ?es = "newest_first (rotated_entries (rw_base w) d)"
  let ?b = "nat (rw_backups w)"
  have r: "remove_retired F w now 0 ?es d = (d', None)"
    using assms(1) by (simp add: log_cleanup_def split: if_splits)
  have sub: "set d' \<subseteq> set d" and dist: "distinct (map fst d')"
    using remove_retired_subset [OF r] assms(2) by auto
  have "set (rotated_entries (rw_base w) d') \<subseteq> set (take ?b ?es)"
  proof
    fix e assume e: "e \<in> set (rotated_entries (rw_base w) d')"
    with sub have "e \<in> set ?es" by (auto simp: rotated_entries_def)
    then obtain j where j: "j < length ?es" "?es ! j = e" by (metis in_set_conv_nth)
    have "map_of d' (fst e) = Some (snd e)"
      using e dist rotated_subset by (metis map_of_eq_Some_iff prod.collapse subsetD)
    with remove_retired_map [OF r, of "fst e"] j have "\<not> retired w now j (snd e)" by (auto split: if_splits)
    with assms(3) have "j < ?b" by (auto simp: retired_def)
    with j show "e \<in> set (take ?b ?es)" by (metis in_set_conv_nth length_take min_less_iff_conj nth_take)
  qed
  moreover have "distinct (rotated_entries (rw_base w) d')"
    using dist by (auto simp: rotated_entries_def distinct_map)
  ultimately have "length (rotated_entries (rw_base w) d') \<le> length (take ?b ?es)"
    by (metis card_length card_mono distinct_card finite_set order_trans)
  also have "\<dots> \<le> ?b" by simp
  finally show ?thesis using assms(3) by linarith
qed

section \<open>What a write does\<close>

text \<open>An open writer knows the size of its file.\<close>

definition log_inv :: "rotating \<Rightarrow> log_dir \<Rightarrow> bool" where
  "log_inv w d \<longleftrightarrow> distinct (map fst d)
     \<and> (rw_handle w = Opened \<longrightarrow>
          (\<exists>f. map_of d (rw_base w) = Some f \<and> \<not> lf_IsDir f \<and> rw_size w = int (length (lf_Content f))))"

definition same_settings :: "rotating \<Rightarrow> rotating \<Rightarrow> bool" where
  "same_settings w w' \<longleftrightarrow> (\<exists>h n. w' = w\<lparr>rw_handle := h, rw_size := n\<rparr>)"

lemma retired_same: "same_settings w w' \<Longrightarrow> retired w' = retired w"
  by (auto simp: same_settings_def retired_def fun_eq_iff)

lemma same_settings_simps:
  assumes "same_settings w w'"
  shows "rw_base w' = rw_base w" "rw_maxBytes w' = rw_maxBytes w" "rw_backups w' = rw_backups w"
  using assms by (auto simp: same_settings_def)

lemma same_settings_trans: "same_settings w w1 \<Longrightarrow> same_settings w1 w2 \<Longrightarrow> same_settings w w2"
  by (auto simp: same_settings_def) blast

text \<open>The disjuncts of \<open>log_appended\<close> and \<open>log_rotated\<close>: the same file, or a new one.\<close>

definition log_appended :: "rotating \<Rightarrow> string \<Rightarrow> log_file \<Rightarrow> log_dir \<Rightarrow> log_dir \<Rightarrow> bool" where
  "log_appended w p f d d' \<longleftrightarrow>
     (\<exists>f'. map_of d' (rw_base w) = Some f' \<and> lf_Content f' = lf_Content f @ p
        \<and> (rw_maxBytes w > 0 \<longrightarrow> lf_Content f = [] \<or> int (length (lf_Content f')) \<le> rw_maxBytes w))
     \<and> (\<forall>k. k \<noteq> rw_base w \<longrightarrow> map_of d' k = map_of d k)"

definition kept_or_retired :: "rotating \<Rightarrow> int \<Rightarrow> log_dir \<Rightarrow> log_dir \<Rightarrow> string \<Rightarrow> bool" where
  "kept_or_retired w now d d' k \<longleftrightarrow>
     map_of d' k = map_of d k
     \<or> map_of d' k = None \<and> has_prefix k (rw_base w @ ''.'')
       \<and> (\<exists>i f. map_of d k = Some f \<and> \<not> lf_IsDir f \<and> retired w now i f)"

definition log_rotated :: "rotating \<Rightarrow> string \<Rightarrow> int \<Rightarrow> string \<Rightarrow> log_file \<Rightarrow> log_dir \<Rightarrow> log_dir \<Rightarrow> bool" where
  "log_rotated w stamp now p f d d' \<longleftrightarrow>
     (let old = rw_base w @ ''.'' @ stamp in
      0 < rw_maxBytes w \<and> rw_maxBytes w < int (length (lf_Content f)) + int (length p)
      \<and> (\<exists>f'. map_of d' (rw_base w) = Some f' \<and> lf_Content f' = p)
      \<and> (map_of d' old = Some f \<or> map_of d' old = None \<and> (\<exists>i. retired w now i f))
      \<and> (\<forall>k. k \<noteq> rw_base w \<longrightarrow> k \<noteq> old \<longrightarrow> kept_or_retired w now d d' k)
      \<and> (rw_backups w > 0 \<longrightarrow> int (length (rotated_entries (rw_base w) d')) \<le> rw_backups w))"

lemma log_append_None:
  assumes "log_append room now p w d = (w', d', n, None)" and "log_inv w d"
    and "map_of d (rw_base w) = Some f" and "int (length (lf_Content f)) + int (length p) < 2 ^ 63"
  shows "n = length p" "log_inv w' d'" "same_settings w w'" "rw_handle w = Opened"
    "d' = AList.update (rw_base w) (f\<lparr>lf_Content := lf_Content f @ p, lf_Mod := now\<rparr>) d"
proof -
  have o: "rw_handle w = Opened" using assms(1) by (auto simp: log_append_def split: if_splits)
  with assms(2,3) have sz: "rw_size w = int (length (lf_Content f))" "\<not> lf_IsDir f" "distinct (map fst d)"
    by (auto simp: log_inv_def)
  have n: "n = length p" using assms(1) o by (auto simp: log_append_def Let_def split: if_splits option.splits)
  with assms(1,3) o have w': "w' = w\<lparr>rw_size := wrap64 (rw_size w + int (length p))\<rparr>"
    and d': "d' = AList.update (rw_base w) (f\<lparr>lf_Content := lf_Content f @ p, lf_Mod := now\<rparr>) d"
    by (auto simp: log_append_def Let_def split: if_splits option.splits)
  have "wrap64 (rw_size w + int (length p)) = rw_size w + int (length p)"
    using assms(4) sz(1) by (intro wrap64_id) (simp add: int64_def)
  then have "log_inv w' d'"
    using sz o by (simp add: log_inv_def w' d' update_conv' distinct_update)
  moreover have "same_settings w w'" unfolding same_settings_def w' by (intro exI [of _ "rw_handle w"] exI) simp
  ultimately show "n = length p" "log_inv w' d'" "same_settings w w'" "rw_handle w = Opened"
    "d' = AList.update (rw_base w) (f\<lparr>lf_Content := lf_Content f @ p, lf_Mod := now\<rparr>) d"
    using n o d' by simp_all
qed

lemma log_rotate_None:
  assumes "log_rotate F stamp now now' w d = (w', d', None)" and "log_inv w d"
    and "map_of d (rw_base w) = Some f"
  shows "log_inv w' d'" "same_settings w w'"
    "map_of d' (rw_base w) = Some \<lparr>lf_Content = [], lf_Mod = now, lf_IsDir = False\<rparr>"
    "\<forall>k. k \<noteq> rw_base w \<longrightarrow> kept_or_retired w now'
       (AList.update (rw_base w @ ''.'' @ stamp) f (AList.delete (rw_base w) d)) d' k"
    "rw_backups w > 0 \<longrightarrow> int (length (rotated_entries (rw_base w) d')) \<le> rw_backups w"
proof -
  let ?new = "\<lparr>lf_Content = [], lf_Mod = now, lf_IsDir = False\<rparr>"
  let ?d1 = "AList.update (rw_base w @ ''.'' @ stamp) f (AList.delete (rw_base w) d)"
  let ?d2 = "AList.update (rw_base w) ?new ?d1"
  let ?w2 = "w\<lparr>rw_handle := Opened, rw_size := 0\<rparr>"
  have none: "map_of ?d1 (rw_base w) = None" by (simp add: update_conv' delete_conv')
  have w': "w' = ?w2" and c: "log_cleanup F ?w2 now' ?d2 = (d', None)"
    using assms(1,3) none
    by (auto simp: log_rotate_def log_open_def Let_def split: if_splits option.splits prod.splits)
  have dist: "distinct (map fst ?d2)"
    using assms(2) by (simp add: log_inv_def distinct_update distinct_delete)
  have np: "\<not> has_prefix (rw_base w) (rw_base w @ ''.'')" by (simp add: has_prefix_def prefix_def)
  note m = log_cleanup_map [OF c dist]
  show "same_settings w w'" unfolding same_settings_def w' by blast
  show b: "map_of d' (rw_base w) = Some ?new" using m(2) [of "rw_base w"] np by (simp add: update_conv')
  have "distinct (map fst d')"
    using c dist remove_retired_subset by (fastforce simp: log_cleanup_def split: if_splits)
  with b show "log_inv w' d'" by (simp add: log_inv_def w')
  have r: "retired ?w2 = retired w" by (simp add: retired_def fun_eq_iff)
  show "\<forall>k. k \<noteq> rw_base w \<longrightarrow> kept_or_retired w now' ?d1 d' k"
  proof (intro allI impI)
    fix k assume "k \<noteq> rw_base w"
    then have "map_of ?d2 k = map_of ?d1 k" by (simp add: update_conv')
    with m(1) [of k] show "kept_or_retired w now' ?d1 d' k" unfolding kept_or_retired_def r by simp
  qed
  show "rw_backups w > 0 \<longrightarrow> int (length (rotated_entries (rw_base w) d')) \<le> rw_backups w"
    using log_cleanup_bound [OF c dist] by simp
qed

lemma log_Write_effect:
  assumes w: "log_Write F room stamp now now' p w d = (w', d', n, None)" and inv: "log_inv w d"
    and f: "map_of d (rw_base w) = Some f" and fits: "int (length (lf_Content f)) + int (length p) < 2 ^ 63"
  shows "n = length p \<and> log_inv w' d' \<and> same_settings w w'
    \<and> (log_appended w p f d d' \<or> log_rotated w stamp now' p f d d')"
proof (cases "rw_handle w = Opened")
  case False
  then have "log_append room now' p w d = (w, d, 0, Some Closed)"
    "log_rotate F stamp now now' w d = (w, d, Some Closed)" by (simp_all add: log_append_def log_rotate_def)
  with w show ?thesis by (simp add: log_Write_def split: if_splits)
next
  case open': True
  with inv f have sz: "rw_size w = int (length (lf_Content f))" by (auto simp: log_inv_def)
  have "int64 (rw_size w + int (length p))" using fits sz by (simp add: int64_def)
  then have wr: "wrap64 (rw_size w + int (length p)) = rw_size w + int (length p)" by (rule wrap64_id)
  let ?c = "rw_maxBytes w > 0 \<and> rw_size w > 0 \<and> rw_size w + int (length p) > rw_maxBytes w"
  show ?thesis
  proof (cases ?c)
    case False
    with w wr have a: "log_append room now' p w d = (w', d', n, None)" by (simp add: log_Write_def)
    note r = log_append_None [OF a inv f fits]
    have "log_appended w p f d d'"
      using False sz by (auto simp: log_appended_def r(5) update_conv')
    with r show ?thesis by simp
  next
    case True
    obtain w1 d1 where ro: "log_rotate F stamp now now' w d = (w1, d1, None)"
      and a: "log_append room now' p w1 d1 = (w', d', n, None)"
      using w True wr by (auto simp: log_Write_def split: prod.splits option.splits)
    note r = log_rotate_None [OF ro inv f]
    note b = same_settings_simps [OF r(2)]
    have "int (length (lf_Content \<lparr>lf_Content = [], lf_Mod = now, lf_IsDir = False\<rparr>)) + int (length p) < 2 ^ 63"
      using fits by simp
    from log_append_None [OF a r(1) _ this] r(3) b(1)
    have q: "n = length p" "log_inv w' d'" "same_settings w1 w'"
      "d' = AList.update (rw_base w) \<lparr>lf_Content = p, lf_Mod = now', lf_IsDir = False\<rparr> d1" by simp_all
    have k: "kept_or_retired w now' (AList.update (rw_base w @ ''.'' @ stamp) f (AList.delete (rw_base w) d)) d' x"
      if "x \<noteq> rw_base w" for x using r(4) that by (simp add: kept_or_retired_def q(4) update_conv')
    have old: "map_of d' (rw_base w @ ''.'' @ stamp) = Some f
        \<or> map_of d' (rw_base w @ ''.'' @ stamp) = None \<and> (\<exists>i. retired w now' i f)"
      using k [of "rw_base w @ ''.'' @ stamp"] by (auto simp: kept_or_retired_def update_conv')
    have others: "kept_or_retired w now' d d' x" if "x \<noteq> rw_base w" "x \<noteq> rw_base w @ ''.'' @ stamp" for x
      using k [OF that(1)] that by (simp add: kept_or_retired_def update_conv' delete_conv')
    have "rotated_entries (rw_base w) d' = rotated_entries (rw_base w) d1"
    proof -
      have "\<not> has_prefix (rw_base w) (rw_base w @ ''.'')" by (simp add: has_prefix_def prefix_def)
      then show ?thesis unfolding q(4) rotated_entries_def
        by (induction d1) auto
    qed
    with r(5) True sz old others q(4) have "log_rotated w stamp now' p f d d'"
      by (simp add: log_rotated_def Let_def update_conv')
    with q r(2) show ?thesis using same_settings_trans by blast
  qed
qed

text \<open>
  After a rotation that could not rename, the file is closed and no later write succeeds: the
  rotation before it fails on the closed file.
\<close>

lemma failed_rename_closes:
  "log_rotate F stamp now now' w d = (w', d', e) \<Longrightarrow> F LogRename \<Longrightarrow> rw_handle w' \<noteq> Opened \<and> e \<noteq> None"
  by (auto simp: log_rotate_def Let_def split: if_splits option.splits)

lemma closed_log_stays_silent:
  assumes "rw_handle w \<noteq> Opened" and "log_Write F room stamp now now' p w d = (w', d', n, e)"
  shows "w' = w" "d' = d" "n = 0" "e \<noteq> None"
  using assms by (auto simp: log_Write_def log_rotate_def log_append_def split: if_splits)

text \<open>Retention removes whatever bears a name that begins like a rotated file's.\<close>

lemma retention_removes_foreign:
  assumes "log_cleanup F w now d = (d', None)" and "distinct (map fst d)"
    and "map_of d (rw_base w @ ''.'' @ any) = Some f" and "\<not> lf_IsDir f"
    and "rw_retentionDays w > 0" and "lf_Mod f < now - rw_retentionDays w * log_day"
  shows "map_of d' (rw_base w @ ''.'' @ any) = None"
proof -
  let ?k = "rw_base w @ ''.'' @ any"
  let ?es = "newest_first (rotated_entries (rw_base w) d)"
  have r: "remove_retired F w now 0 ?es d = (d', None)"
    using assms(1) by (simp add: log_cleanup_def split: if_splits)
  have "has_prefix ?k (rw_base w @ ''.'')" by (simp add: has_prefix_def)
  with assms(3,4) have "(?k, f) \<in> set ?es" by (simp add: rotated_entries_def map_of_SomeD)
  then obtain j where "j < length ?es" "?es ! j = (?k, f)" by (metis in_set_conv_nth)
  moreover have "retired w now j f" for j using assms(5,6) by (simp add: retired_def)
  ultimately show ?thesis unfolding remove_retired_map [OF r, of ?k] by (metis add_0 fst_conv snd_conv)
qed

end
