(* ===== verification/Command.thy ===== *)
theory Command
  imports Bootstrap Routes SiteApi PublishedRecover ArchiveApi Rotation
begin

text \<open>
  The command (\<open>cmd/safefilehub/main.go\<close>): its flags, the recovery passes before it serves, and
  the order in which a start builds the service.
\<close>

section \<open>Package flag\<close>

definition parse_bool :: "string \<Rightarrow> bool option" where
  "parse_bool s =
     (if s \<in> set [''1'', ''t'', ''T'', ''TRUE'', ''true'', ''True''] then Some True
      else if s \<in> set [''0'', ''f'', ''F'', ''FALSE'', ''false'', ''False''] then Some False
      else None)"

text \<open>\<open>strconv.ParseInt(s, 0, 64)\<close>: a sign, a base prefix, digits, and underscores between digits.\<close>

definition lower_ascii :: "char \<Rightarrow> char" where
  "lower_ascii c =
     (if c \<in> set ''ABCDEFGHIJKLMNOPQRSTUVWXYZ'' then char_of ((of_char c :: nat) + 32) else c)"

definition any_digit :: "char \<Rightarrow> nat option" where
  "any_digit c = index_of (lower_ascii c) ''0123456789abcdefghijklmnopqrstuvwxyz''"

fun base_digits :: "nat \<Rightarrow> nat \<Rightarrow> string \<Rightarrow> nat option" where
  "base_digits base acc [] = Some acc"
| "base_digits base acc (c # s) =
     (if c = CHR ''_'' then base_digits base acc s
      else
        (case any_digit c of
           None \<Rightarrow> None
         | Some d \<Rightarrow> if d \<ge> base then None else base_digits base (acc * base + d) s))"

definition split_base :: "string \<Rightarrow> nat \<times> string" where
  "split_base s =
     (if s = [] \<or> hd s \<noteq> CHR ''0'' then (10, s)
      else if length s \<ge> 3 \<and> lower_ascii (s ! 1) = CHR ''b'' then (2, drop 2 s)
      else if length s \<ge> 3 \<and> lower_ascii (s ! 1) = CHR ''o'' then (8, drop 2 s)
      else if length s \<ge> 3 \<and> lower_ascii (s ! 1) = CHR ''x'' then (16, drop 2 s)
      else (8, tl s))"

text \<open>\<open>underscoreOK\<close>: the last class seen is \<open>^\<close> (nothing), \<open>0\<close> (a digit), \<open>_\<close> or \<open>!\<close>.\<close>

fun underscores :: "bool \<Rightarrow> char \<Rightarrow> string \<Rightarrow> bool" where
  "underscores hex saw [] \<longleftrightarrow> saw \<noteq> CHR ''_''"
| "underscores hex saw (c # s) \<longleftrightarrow>
     (if is_digit c \<or> hex \<and> lower_ascii c \<in> set ''abcdef'' then underscores hex (CHR ''0'') s
      else if c = CHR ''_'' then saw = CHR ''0'' \<and> underscores hex (CHR ''_'') s
      else saw \<noteq> CHR ''_'' \<and> underscores hex (CHR ''!'') s)"

definition underscoreOK :: "string \<Rightarrow> bool" where
  "underscoreOK s \<longleftrightarrow>
     (if length s \<ge> 2 \<and> hd s = CHR ''0'' \<and> lower_ascii (s ! 1) \<in> set ''box''
      then underscores (lower_ascii (s ! 1) = CHR ''x'') (CHR ''0'') (drop 2 s)
      else underscores False (CHR ''^'') s)"

definition parse_int_flag :: "string \<Rightarrow> int option" where
  "parse_int_flag s =
     (let neg = (s \<noteq> [] \<and> hd s = CHR ''-'');
          u = (if s \<noteq> [] \<and> hd s \<in> set ''+-'' then tl s else s) in
      if u = [] then None
      else
        (case split_base u of
           (base, ds) \<Rightarrow>
             (case base_digits base 0 ds of
                None \<Rightarrow> None
              | Some n \<Rightarrow>
                  if CHR ''_'' \<in> set ds \<and> \<not> underscoreOK u then None
                  else if neg then (if n \<le> 2 ^ 63 then Some (- int n) else None)
                  else (if n < 2 ^ 63 then Some (int n) else None))))"

section \<open>The flags\<close>

record maintenance_options =
  mo_recoverOnStart :: bool
  mo_recoverOnly :: bool
  mo_resetInitialAdmin :: bool
  mo_dryRun :: bool
  mo_limit :: int
  mo_logPath :: string
  mo_logFormat :: string
  mo_logRetentionDays :: int
  mo_logMaxBytes :: int
  mo_logBackups :: int
  mo_trustedProxyCIDRs :: "string list"

definition default_options :: "config \<Rightarrow> maintenance_options" where
  "default_options cfg =
     \<lparr>mo_recoverOnStart = True, mo_recoverOnly = False, mo_resetInitialAdmin = False, mo_dryRun = False,
      mo_limit = UploadRecoveryLimit cfg, mo_logPath = LogPath cfg, mo_logFormat = LogFormat cfg,
      mo_logRetentionDays = LogRetentionDays cfg, mo_logMaxBytes = 100 * 2 ^ 20, mo_logBackups = 10,
      mo_trustedProxyCIDRs = []\<rparr>"

definition bool_flags :: "string list" where
  "bool_flags = [''recover-on-start'', ''recover-only'', ''reset-initial-admin'', ''recover-dry-run'']"

definition value_flags :: "string list" where
  "value_flags =
     [''recover-limit'', ''log-path'', ''log-format'', ''log-retention-days'', ''log-max-bytes'',
      ''log-backups'', ''trusted-proxy-cidr'']"

definition set_bool :: "string \<Rightarrow> bool \<Rightarrow> maintenance_options \<Rightarrow> maintenance_options" where
  "set_bool name b o1 =
     (if name = ''recover-on-start'' then o1\<lparr>mo_recoverOnStart := b\<rparr>
      else if name = ''recover-only'' then o1\<lparr>mo_recoverOnly := b\<rparr>
      else if name = ''reset-initial-admin'' then o1\<lparr>mo_resetInitialAdmin := b\<rparr>
      else o1\<lparr>mo_dryRun := b\<rparr>)"

definition cidrList_Set :: "string list \<Rightarrow> string \<Rightarrow> string list option" where
  "cidrList_Set c v = (if v = [] then None else Some (c @ [v]))"

definition set_value :: "string \<Rightarrow> string \<Rightarrow> maintenance_options \<Rightarrow> maintenance_options option" where
  "set_value name v o1 =
     (if name = ''log-path'' then Some (o1\<lparr>mo_logPath := v\<rparr>)
      else if name = ''log-format'' then Some (o1\<lparr>mo_logFormat := v\<rparr>)
      else if name = ''trusted-proxy-cidr'' then
        map_option (\<lambda>c. o1\<lparr>mo_trustedProxyCIDRs := c\<rparr>) (cidrList_Set (mo_trustedProxyCIDRs o1) v)
      else
        map_option
          (\<lambda>n. if name = ''recover-limit'' then o1\<lparr>mo_limit := n\<rparr>
               else if name = ''log-retention-days'' then o1\<lparr>mo_logRetentionDays := n\<rparr>
               else if name = ''log-max-bytes'' then o1\<lparr>mo_logMaxBytes := n\<rparr>
               else o1\<lparr>mo_logBackups := n\<rparr>)
          (parse_int_flag v))"

text \<open>The name and, after an equals sign, the value of a flag argument.\<close>

definition flag_parts :: "string \<Rightarrow> string \<times> string option" where
  "flag_parts name =
     (case find (\<lambda>i. name ! i = CHR ''='') [1..<length name] of
        None \<Rightarrow> (name, None)
      | Some i \<Rightarrow> (take i name, Some (drop (Suc i) name)))"

text \<open>\<open>FlagSet.Parse\<close>: the options and the arguments that are left, or an error.\<close>

fun parse_args :: "string list \<Rightarrow> maintenance_options \<Rightarrow> (maintenance_options \<times> string list) option" where
  "parse_args [] o1 = Some (o1, [])"
| "parse_args (a # rest) o1 =
     (if length a < 2 \<or> hd a \<noteq> CHR ''-'' then Some (o1, a # rest)
      else if a = ''--'' then Some (o1, rest)
      else
        (let name = (if a ! 1 = CHR ''-'' then drop 2 a else drop 1 a) in
         if name = [] \<or> hd name \<in> set ''-='' then None
         else
           (case flag_parts name of
              (n, v) \<Rightarrow>
                if n \<in> set bool_flags then
                  (case (case v of None \<Rightarrow> Some True | Some t \<Rightarrow> parse_bool t) of
                     None \<Rightarrow> None
                   | Some b \<Rightarrow> parse_args rest (set_bool n b o1))
                else if n \<in> set value_flags then
                  (case v of
                     Some t \<Rightarrow> (case set_value n t o1 of None \<Rightarrow> None | Some o2 \<Rightarrow> parse_args rest o2)
                   | None \<Rightarrow>
                       (case rest of
                          [] \<Rightarrow> None
                        | t # rest' \<Rightarrow> (case set_value n t o1 of None \<Rightarrow> None | Some o2 \<Rightarrow> parse_args rest' o2)))
                else None)))"

definition parseMaintenanceOptions :: "string list \<Rightarrow> config \<Rightarrow> maintenance_options option" where
  "parseMaintenanceOptions args cfg =
     (case parse_args args (default_options cfg) of
        None \<Rightarrow> None
      | Some (o1, left) \<Rightarrow>
          if left \<noteq> [] then None
          else if mo_recoverOnly o1 \<and> \<not> mo_recoverOnStart o1 then None
          else if mo_limit o1 \<le> 0 \<or> mo_limit o1 > 64 then None
          else if mo_logFormat o1 \<noteq> [] \<and> mo_logFormat o1 \<noteq> ''json'' \<and> mo_logFormat o1 \<noteq> ''text'' then None
          else if mo_logRetentionDays o1 < 0 \<or> mo_logMaxBytes o1 < 0 \<or> mo_logBackups o1 < 0 then None
          else Some o1)"

definition configured :: "config \<Rightarrow> maintenance_options \<Rightarrow> config" where
  "configured cfg o1 =
     cfg\<lparr>LogPath := mo_logPath o1, LogFormat := mo_logFormat o1, LogRetentionDays := mo_logRetentionDays o1,
         TrustedProxyCIDRs := (if mo_trustedProxyCIDRs o1 \<noteq> [] then mo_trustedProxyCIDRs o1
                               else TrustedProxyCIDRs cfg)\<rparr>"

definition exitCode :: "err option \<Rightarrow> int" where
  "exitCode e = (if e \<noteq> None then 1 else 0)"

section \<open>Recovery\<close>

text \<open>The data of the process: the database with the object store, the image store, the counters.\<close>

record process_state =
  ps_hub :: hub
  ps_assets :: asset_store
  ps_metrics :: metrics

record start_env =
  se_cancelled :: bool
  se_logFault :: bool
  se_openFault :: bool
  se_db :: start_faults
  se_random :: start_random
  se_now :: int
  se_storeFault :: bool
  se_recover :: faults
  se_recoverAt :: "string \<Rightarrow> faults"
  se_assetsFault :: bool
  se_assetFaults :: recover_faults
  se_jobsFault :: bool
  se_tombstonesFault :: bool
  se_jobFaults :: "string \<Rightarrow> item_faults"
  se_tombstoneFaults :: "string \<Rightarrow> item_faults"
  se_archiveFault :: bool

text \<open>The pass over uploads: what the start does next, and the counted cleanups.\<close>

datatype next_step = StopQuietly | StopWith err | Continue

definition recover_uploads :: "start_env \<Rightarrow> maintenance_options \<Rightarrow> process_state \<Rightarrow> process_state \<times> next_step" where
  "recover_uploads E o1 p =
     (case Recover (se_recover E) (se_recoverAt E) (se_now E) (mo_limit o1) (mo_dryRun o1) (ps_hub p) of
        (h, rep, Some e) \<Rightarrow>
          (p\<lparr>ps_hub := h\<rparr>,
           if e = Cancelled then StopQuietly else if mo_recoverOnly o1 then StopWith e else Continue)
      | (h, rep, None) \<Rightarrow>
          (p\<lparr>ps_hub := h,
             ps_metrics := (if mo_dryRun o1 then ps_metrics p
                            else (IncCleanup ^^ (CancelledCount rep + Orphans rep)) (ps_metrics p))\<rparr>,
           Continue))"

definition recover_assets :: "start_env \<Rightarrow> maintenance_options \<Rightarrow> process_state \<Rightarrow> process_state" where
  "recover_assets E o1 p =
     (if se_assetsFault E then p
      else
        (case RecoverCleanup (se_assetFaults E) (mo_limit o1)
                \<lparr>br_db = hub_db (ps_hub p), br_assets = ps_assets p\<rparr> of
           (b, n, e) \<Rightarrow> p\<lparr>ps_hub := (ps_hub p)\<lparr>hub_db := br_db b\<rparr>, ps_assets := br_assets b\<rparr>))"

definition recover_published :: "start_env \<Rightarrow> maintenance_options \<Rightarrow> process_state \<Rightarrow> process_state" where
  "recover_published E o1 p =
     (case published_Recover (se_jobsFault E) (se_tombstonesFault E) (se_jobFaults E) (se_tombstoneFaults E)
             (mo_limit o1) (ps_hub p) of
        (h, rep, e) \<Rightarrow> p\<lparr>ps_hub := h\<rparr>)"

definition recovery_passes :: "start_env \<Rightarrow> maintenance_options \<Rightarrow> process_state \<Rightarrow> process_state \<times> next_step" where
  "recovery_passes E o1 p =
     (if \<not> mo_recoverOnStart o1 then (p, Continue)
      else
        (case recover_uploads E o1 p of
           (p1, Continue) \<Rightarrow> (recover_published E o1 (recover_assets E o1 p1), Continue)
         | (p1, stop) \<Rightarrow> (p1, stop)))"

section \<open>A start\<close>

datatype outcome =
    Exited "err option"
  | PrintedReset initial_admin
  | Serving initial_admin upload_limiter download_limiter archive_manager

definition open_hub :: "process_state \<Rightarrow> process_state" where
  "open_hub p = p\<lparr>ps_hub := (ps_hub p)\<lparr>hub_store := (hub_store (ps_hub p))\<lparr>st_open := True\<rparr>\<rparr>\<rparr>"

definition build_service :: "start_env \<Rightarrow> config \<Rightarrow> initial_admin \<Rightarrow> upload_limiter \<Rightarrow> process_state \<Rightarrow> process_state \<times> outcome" where
  "build_service E cfg creds limiter p =
     (case NewArchiveManager (se_archiveFault E)
             \<lparr>op_Workers = 2, op_MaxFiles = 1000, op_MaxBytes = 2 ^ 30, op_TTL = hour,
              op_TempDir = StorageRoot cfg @ ''/archives''\<rparr> of
        Inl e \<Rightarrow> (p, Exited (Some e))
      | Inr am \<Rightarrow>
          (case NewProductionServer cfg True
                  (case NewAssetStore (se_assetsFault E) (8 * 2 ^ 20) 20000000 of Inl e \<Rightarrow> Inl e | Inr a \<Rightarrow> Inr (ps_assets p)) of
             Inl msg \<Rightarrow> (p, Exited (Some Invalid))
           | Inr (dl, a) \<Rightarrow> (p, Serving creds limiter dl am)))"

definition start_service ::
    "start_env \<Rightarrow> maintenance_options \<Rightarrow> config \<Rightarrow> initial_admin \<Rightarrow> process_state \<Rightarrow> process_state \<times> outcome" where
  "start_service E o1 cfg creds p =
     (case NewUploadLimiter (UploadConcurrency cfg) (PerUserUploadConcurrency cfg) (PerIPUploadConcurrency cfg) of
        Inl e \<Rightarrow> (p, Exited (Some e))
      | Inr limiter \<Rightarrow>
          if se_storeFault E then (p, Exited (Some IoError))
          else
            (case recovery_passes E o1 (open_hub p) of
               (p1, StopQuietly) \<Rightarrow> (p1, Exited None)
             | (p1, StopWith e) \<Rightarrow> (p1, Exited (Some e))
             | (p1, Continue) \<Rightarrow>
                 if mo_recoverOnly o1 then (p1, Exited None) else build_service E cfg creds limiter p1))"

definition runWithLifecycle ::
    "kdf \<Rightarrow> start_env \<Rightarrow> string list \<Rightarrow> config \<Rightarrow> process_state \<Rightarrow> process_state \<times> outcome" where
  "runWithLifecycle argon2 E args cfg0 p =
     (case parseMaintenanceOptions args cfg0 of
        None \<Rightarrow> (p, Exited (Some Invalid))
      | Some o1 \<Rightarrow>
          (let cfg = configured cfg0 o1; d = hub_db (ps_hub p) in
           if LogPath cfg \<noteq> [] \<and> se_logFault E then (p, Exited (Some IoError))
           else if se_cancelled E then (p, Exited None)
           else if se_openFault E then (p, Exited (Some DbOther))
           else if mo_resetInitialAdmin o1 then
             (case resetInitialAdmin argon2 (se_db E) (se_random E) (se_now E) d of
                (d1, Inl e) \<Rightarrow> (p\<lparr>ps_hub := (ps_hub p)\<lparr>hub_db := d1\<rparr>\<rparr>, Exited (Some e))
              | (d1, Inr creds) \<Rightarrow> (p\<lparr>ps_hub := (ps_hub p)\<lparr>hub_db := d1\<rparr>\<rparr>, PrintedReset creds))
           else
             (case start_database argon2 (se_db E) (se_random E) (se_now E) (StorageRoot cfg) d of
                (d1, Inl e) \<Rightarrow> (p\<lparr>ps_hub := (ps_hub p)\<lparr>hub_db := d1\<rparr>\<rparr>, Exited (Some e))
              | (d1, Inr creds) \<Rightarrow>
                  start_service E o1 cfg creds (p\<lparr>ps_hub := (ps_hub p)\<lparr>hub_db := d1\<rparr>\<rparr>))))"

section \<open>What the flags can do\<close>

lemma parse_options_bounds:
  assumes "parseMaintenanceOptions args cfg = Some o1"
  shows "1 \<le> mo_limit o1" "mo_limit o1 \<le> 64" "0 \<le> mo_logRetentionDays o1"
    "mo_logFormat o1 \<in> {[], ''json'', ''text''}" "mo_recoverOnly o1 \<Longrightarrow> mo_recoverOnStart o1"
  using assms by (auto simp: parseMaintenanceOptions_def split: option.splits if_splits)

text \<open>The flags cannot turn a valid configuration into an invalid one.\<close>

lemma flags_keep_config_valid:
  assumes "parseMaintenanceOptions args cfg = Some o1" and "Validate cfg = None"
  shows "Validate (configured cfg o1) = None"
  using assms(2) parse_options_bounds(3,4) [OF assms(1)]
  by (auto simp: Validate_def configured_def split: if_splits)

text \<open>
  The dry run concerns the uploads only: the passes over images and published files are the same
  with it and without it.
\<close>

lemma dry_run_same_passes:
  "recover_assets E (o1\<lparr>mo_dryRun := b\<rparr>) p = recover_assets E o1 p"
  "recover_published E (o1\<lparr>mo_dryRun := b\<rparr>) p = recover_published E o1 p"
  by (simp_all add: recover_assets_def recover_published_def)

lemma passes_published:
  assumes "recovery_passes E o1 p = (p', Continue)" and "mo_recoverOnStart o1"
  shows "\<exists>p1. recover_uploads E o1 p = (p1, Continue) \<and> p' = recover_published E o1 (recover_assets E o1 p1)"
  using assms by (auto simp: recovery_passes_def split: prod.splits next_step.splits)

end
