(* ===== verification/Startup.thy ===== *)
theory Startup
  imports Command System
begin

text \<open>
  A whole start: what the database, the object store and the accounts are once the service serves.
\<close>

section \<open>What the passes leave alone\<close>

definition accounts_kept :: "db \<Rightarrow> db \<Rightarrow> bool" where
  "accounts_kept d d' \<longleftrightarrow>
     db_users d' = db_users d \<and> db_bootstrap d' = db_bootstrap d \<and> db_roots d' = db_roots d
     \<and> db_perms d' = db_perms d"

lemma accounts_kept_refl [simp]: "accounts_kept d d"
  by (simp add: accounts_kept_def)

lemma accounts_kept_trans: "accounts_kept a b \<Longrightarrow> accounts_kept b c \<Longrightarrow> accounts_kept a c"
  by (simp add: accounts_kept_def)

definition content_kept :: "hub \<Rightarrow> hub \<Rightarrow> bool" where
  "content_kept h h' \<longleftrightarrow>
     db_files (hub_db h') = db_files (hub_db h) \<and> db_cleanup (hub_db h') = db_cleanup (hub_db h)
     \<and> uploads_kept h h' \<and> st_objects (hub_store h') = st_objects (hub_store h)"

lemma system_inv_kept:
  assumes "system_inv h" and "content_kept h h'"
  shows "system_inv h'"
proof -
  have f: "files_ok h'" using assms by (simp add: system_inv_def upload_inv_def files_ok_def content_kept_def)
  have "upload_inv h'"
    using upload_inv_kept [OF _ _ f, of h] assms by (simp add: system_inv_def content_kept_def)
  moreover have "objects_inv h'"
    using assms f by (simp add: system_inv_def objects_inv_def content_kept_def job_keys_def)
  ultimately show ?thesis by (simp add: system_inv_def)
qed

section \<open>The three passes\<close>

lemma Recover_system:
  assumes "Recover F Fs now limit dry h = (h', rep, r)" and inv: "system_inv h"
  shows "system_inv h'" "accounts_kept (hub_db h) (hub_db h')"
proof -
  from inv have up: "upload_inv h" by (simp add: system_inv_def)
  note out = Recover_outside [OF up assms(1)]
  have "avoids_jobs h h'" using out by (auto simp: avoids_jobs_def outside_same_def)
  with system_step_inv [OF upload_step [OF step_recover [OF assms(1)]]] inv show "system_inv h'" by blast
  from out show "accounts_kept (hub_db h) (hub_db h')"
    by (auto simp: outside_same_def uploads_only_def accounts_kept_def)
qed

lemma recover_keys_tables:
  "recover_keys F ks n b = (b', m, e) \<Longrightarrow> \<exists>rows. br_db b' = (br_db b)\<lparr>db_asset_cleanup := rows\<rparr>"
proof (induction ks arbitrary: n b)
  case Nil
  then show ?case by (auto intro!: exI [of _ "db_asset_cleanup (br_db b)"])
next
  case (Cons k ks)
  obtain b1 x where a: "on_assets (remove_asset (rf_remove F k) k) b = (b1, x)" by fastforce
  obtain b2 y where c: "on_db (\<lambda>d. CompleteSiteAssetCleanup (rf_complete F k) d k) b1 = (b2, y)" by fastforce
  have 1: "br_db b1 = br_db b" using a by (auto simp: on_assets_eq)
  have 2: "\<exists>rows. br_db b2 = (br_db b)\<lparr>db_asset_cleanup := rows\<rparr>"
    using c 1 by (auto simp: on_db_eq CompleteSiteAssetCleanup_def split: if_splits intro: exI [of _ "db_asset_cleanup (br_db b)"])
  have IH: "recover_keys F ks n' q = (b', m, e) \<Longrightarrow> \<exists>rows. br_db q = (br_db b)\<lparr>db_asset_cleanup := rows\<rparr>
      \<Longrightarrow> \<exists>rows. br_db b' = (br_db b)\<lparr>db_asset_cleanup := rows\<rparr>" for n' q
    using Cons.IH by fastforce
  have same: "\<exists>rows. br_db b = (br_db b)\<lparr>db_asset_cleanup := rows\<rparr>" by (rule exI [of _ "db_asset_cleanup (br_db b)"]) simp
  show ?case
  proof (cases "rf_ctx F k")
    case True
    with Cons.prems same show ?thesis by simp
  next
    case False
    show ?thesis
    proof (cases x)
      case (Inl z)
      with a False Cons.prems have "recover_keys F ks n b1 = (b', m, e)" by simp
      from IH [OF this] same 1 show ?thesis by simp
    next
      case (Inr z)
      show ?thesis
      proof (cases y)
        case (Inl w)
        with a Inr c False Cons.prems 2 show ?thesis by simp
      next
        case (Inr w)
        with a \<open>x = Inr z\<close> c False Cons.prems have "recover_keys F ks (Suc n) b2 = (b', m, e)" by simp
        from IH [OF this 2] show ?thesis .
      qed
    qed
  qed
qed

lemma recover_assets_kept:
  assumes "recover_assets E o1 p = p'"
  shows "content_kept (ps_hub p) (ps_hub p')" "accounts_kept (hub_db (ps_hub p)) (hub_db (ps_hub p'))"
proof -
  let ?b = "\<lparr>br_db = hub_db (ps_hub p), br_assets = ps_assets p\<rparr>"
  obtain b n e where r: "RecoverCleanup (se_assetFaults E) (mo_limit o1) ?b = (b, n, e)" by (metis prod_cases3)
  have "\<exists>rows. br_db b = (hub_db (ps_hub p))\<lparr>db_asset_cleanup := rows\<rparr>"
    using r recover_keys_tables [of "se_assetFaults E" _ 0 ?b b n e]
    by (auto simp: RecoverCleanup_def split: if_splits sum.splits intro: exI [of _ "db_asset_cleanup (hub_db (ps_hub p))"])
  then obtain rows where "br_db b = (hub_db (ps_hub p))\<lparr>db_asset_cleanup := rows\<rparr>" ..
  with r assms have "p' = p \<or> ps_hub p' = (ps_hub p)\<lparr>hub_db := (hub_db (ps_hub p))\<lparr>db_asset_cleanup := rows\<rparr>\<rparr>"
    by (auto simp: recover_assets_def)
  then show "content_kept (ps_hub p) (ps_hub p')" "accounts_kept (hub_db (ps_hub p)) (hub_db (ps_hub p'))"
    by (auto simp: content_kept_def uploads_kept_def accounts_kept_def)
qed

lemma recover_jobs_accounts:
  "recover_jobs G js out h = (h', out', r) \<Longrightarrow> accounts_kept (hub_db h) (hub_db h')"
proof (induction js arbitrary: out h)
  case (Cons j js)
  obtain s x where rm: "store_Remove (it_remove (G (job_ObjectKey j))) (job_ObjectKey j) (hub_store h) = (s, x)"
    by fastforce
  obtain d y where cd: "CompleteObjectCleanup (it_db (G (job_ObjectKey j))) (hub_db h) (job_ObjectKey j) = (d, y)"
    by fastforce
  have d: "accounts_kept (hub_db h) d" using cd by (auto simp: CompleteObjectCleanup_def accounts_kept_def split: if_splits)
  have IH: "recover_jobs G js o' k = (h', out', r) \<Longrightarrow> accounts_kept (hub_db h) (hub_db k)
      \<Longrightarrow> accounts_kept (hub_db h) (hub_db h')" for o' k
    using Cons.IH accounts_kept_trans by blast
  show ?case
    using Cons.prems rm cd d IH by (auto simp: Let_def split: if_splits sum.splits)
qed simp

lemma recover_tombstones_accounts:
  "recover_tombstones G fs out h = (h', out', r) \<Longrightarrow> accounts_kept (hub_db h) (hub_db h')"
proof (induction fs arbitrary: out h)
  case (Cons f fs)
  obtain s x where rm: "store_Remove (it_remove (G (file_ObjectKey f))) (file_ObjectKey f) (hub_store h) = (s, x)"
    by fastforce
  obtain d y where fd: "FinalizeFileDelete (it_db (G (file_ObjectKey f))) (hub_db h) (file_ID f) (file_ObjectKey f) = (d, y)"
    by fastforce
  have d: "accounts_kept (hub_db h) d"
    using fd by (rule FinalizeFileDelete_cases) (simp_all add: delete_files_def accounts_kept_def)
  have IH: "recover_tombstones G fs o' k = (h', out', r) \<Longrightarrow> accounts_kept (hub_db h) (hub_db k)
      \<Longrightarrow> accounts_kept (hub_db h) (hub_db h')" for o' k
    using Cons.IH accounts_kept_trans by blast
  show ?case
    using Cons.prems rm fd d IH by (auto simp: Let_def split: if_splits sum.splits)
qed simp

lemma recover_published_kept:
  assumes "recover_published E o1 p = p'"
  shows "system_inv (ps_hub p) \<Longrightarrow> system_inv (ps_hub p')"
    and "accounts_kept (hub_db (ps_hub p)) (hub_db (ps_hub p'))"
proof -
  obtain h rep e where r: "published_Recover (se_jobsFault E) (se_tombstonesFault E) (se_jobFaults E)
      (se_tombstoneFaults E) (mo_limit o1) (ps_hub p) = (h, rep, e)" by (metis prod_cases3)
  with assms have p': "ps_hub p' = h" by (auto simp: recover_published_def)
  have "published_step (ps_hub p) h" using r by (rule published_step.intros)
  with p' show "system_inv (ps_hub p) \<Longrightarrow> system_inv (ps_hub p')"
    using system_step_inv [OF request_step] by simp
  show "accounts_kept (hub_db (ps_hub p)) (hub_db (ps_hub p'))"
    using r unfolding p' published_Recover_def
    by (auto simp: Let_def split: sum.splits prod.splits option.splits
        dest!: recover_jobs_accounts recover_tombstones_accounts intro: accounts_kept_trans)
qed

section \<open>The whole start\<close>

lemma recover_uploads_kept:
  assumes "recover_uploads E o1 p = (p', n)" and "system_inv (ps_hub p)"
  shows "system_inv (ps_hub p')" "accounts_kept (hub_db (ps_hub p)) (hub_db (ps_hub p'))"
proof -
  obtain h rep e where r: "Recover (se_recover E) (se_recoverAt E) (se_now E) (mo_limit o1) (mo_dryRun o1) (ps_hub p)
      = (h, rep, e)" by (metis prod_cases3)
  with assms(1) have "ps_hub p' = h" by (cases e) (auto simp: recover_uploads_def)
  with Recover_system [OF r assms(2)] show "system_inv (ps_hub p')"
    "accounts_kept (hub_db (ps_hub p)) (hub_db (ps_hub p'))" by simp_all
qed

lemma recovery_passes_kept:
  assumes "recovery_passes E o1 p = (p', n)" and inv: "system_inv (ps_hub p)"
  shows "system_inv (ps_hub p')" "accounts_kept (hub_db (ps_hub p)) (hub_db (ps_hub p'))"
proof -
  obtain p1 k where u: "recover_uploads E o1 p = (p1, k)" by fastforce
  note 1 = recover_uploads_kept [OF u inv]
  let ?p2 = "recover_assets E o1 p1"
  note 2 = recover_assets_kept [OF refl, of p1 E o1]
  note 3 = recover_published_kept [OF refl, of ?p2 E o1]
  have "p' = p \<or> p' = p1 \<or> p' = recover_published E o1 ?p2"
    using assms(1) u by (auto simp: recovery_passes_def split: if_splits next_step.splits)
  moreover have "system_inv (ps_hub ?p2)" by (rule system_inv_kept [OF 1(1) 2(1)])
  ultimately show "system_inv (ps_hub p')" "accounts_kept (hub_db (ps_hub p)) (hub_db (ps_hub p'))"
    using inv 1 2(2) 3 accounts_kept_trans accounts_kept_refl by metis+
qed

text \<open>Only rows were added, and permissions only in places that were free.\<close>

definition accounts_grow :: "db \<Rightarrow> db \<Rightarrow> bool" where
  "accounts_grow d d' \<longleftrightarrow>
     (\<exists>us rs ps. db_users d' = db_users d @ us \<and> db_roots d' = db_roots d @ rs \<and> db_perms d' = db_perms d @ ps
        \<and> (\<forall>p \<in> set ps. perm_Allow p \<and> \<not> occupied d (perm_UserID p) (perm_Action p)))"

lemma starts_from_system:
  assumes "starts_from d d'" and "system_inv h" and "hub_db h = d"
  shows "system_inv (h\<lparr>hub_db := d'\<rparr>)" "accounts_grow d d'"
proof -
  have "content_kept h (h\<lparr>hub_db := d'\<rparr>)"
    using assms(1,3) by (auto simp: starts_from_def content_kept_def uploads_kept_def)
  then show "system_inv (h\<lparr>hub_db := d'\<rparr>)" by (rule system_inv_kept [OF assms(2)])
  from assms(1) obtain us rs ps b where s: "d' = d\<lparr>db_users := db_users d @ us, db_bootstrap := b, db_roots := db_roots d @ rs,
      db_perms := db_perms d @ ps\<rparr>"
      "\<forall>p \<in> set ps. perm_Allow p \<and> Some (perm_UserID p) = b \<and> \<not> occupied d (perm_UserID p) (perm_Action p)"
    unfolding starts_from_def by blast
  then show "accounts_grow d d'"
    unfolding accounts_grow_def by (intro exI [of _ us] exI [of _ rs] exI [of _ ps]) simp
qed

lemma start_service_Serving:
  assumes "start_service E o1 cfg creds p = (p', Serving c ul dl am)"
  shows "c = creds" "\<exists>n. recovery_passes E o1 (open_hub p) = (p', n)" "Validate cfg = None"
    "NewUploadLimiter (UploadConcurrency cfg) (PerUserUploadConcurrency cfg) (PerIPUploadConcurrency cfg) = Inr ul"
proof -
  obtain l p1 n where l: "NewUploadLimiter (UploadConcurrency cfg) (PerUserUploadConcurrency cfg) (PerIPUploadConcurrency cfg) = Inr l"
    and r: "recovery_passes E o1 (open_hub p) = (p1, n)" and b: "build_service E cfg creds l p1 = (p', Serving c ul dl am)"
    using assms by (auto simp: start_service_def split: sum.splits if_splits prod.splits next_step.splits)
  from b have "c = creds" "p' = p1" "l = ul" "Validate cfg = None"
    by (auto simp: build_service_def NewProductionServer_def composed_def split: sum.splits prod.splits option.splits if_splits)
  with l r show "c = creds" "\<exists>n. recovery_passes E o1 (open_hub p) = (p', n)" "Validate cfg = None"
    "NewUploadLimiter (UploadConcurrency cfg) (PerUserUploadConcurrency cfg) (PerIPUploadConcurrency cfg) = Inr ul" by auto
qed

lemma runWithLifecycle_Serving:
  assumes "runWithLifecycle argon2 E args cfg0 p = (p', Serving c ul dl am)"
  shows "\<exists>o1 d1. parseMaintenanceOptions args cfg0 = Some o1
    \<and> start_database argon2 (se_db E) (se_random E) (se_now E) (StorageRoot (configured cfg0 o1)) (hub_db (ps_hub p)) = (d1, Inr c)
    \<and> start_service E o1 (configured cfg0 o1) c (p\<lparr>ps_hub := (ps_hub p)\<lparr>hub_db := d1\<rparr>\<rparr>) = (p', Serving c ul dl am)"
proof -
  obtain o1 where o1: "parseMaintenanceOptions args cfg0 = Some o1"
    using assms by (auto simp: runWithLifecycle_def split: option.splits)
  obtain d1 x where s: "start_database argon2 (se_db E) (se_random E) (se_now E) (StorageRoot (configured cfg0 o1))
      (hub_db (ps_hub p)) = (d1, x)" by fastforce
  have nr: "\<not> mo_resetInitialAdmin o1"
    using assms o1 by (auto simp: runWithLifecycle_def Let_def split: if_splits sum.splits prod.splits)
  obtain creds where c: "x = Inr creds"
    "start_service E o1 (configured cfg0 o1) creds (p\<lparr>ps_hub := (ps_hub p)\<lparr>hub_db := d1\<rparr>\<rparr>) = (p', Serving c ul dl am)"
    using assms o1 s nr by (cases x) (simp_all add: runWithLifecycle_def Let_def split: if_splits)
  from start_service_Serving(1) [OF c(2)] c s o1 show ?thesis by blast
qed

lemma serving_ready:
  assumes run: "runWithLifecycle argon2 E args cfg0 p = (p', Serving c ul dl am)"
    and inv: "system_inv (ps_hub p)" "accounts_inv (hub_db (ps_hub p))" "perms_ok (hub_db (ps_hub p))"
  shows "system_inv (ps_hub p') \<and> accounts_grow (hub_db (ps_hub p)) (hub_db (ps_hub p'))
    \<and> (\<exists>u \<in> set (db_users (hub_db (ps_hub p'))). db_bootstrap (hub_db (ps_hub p')) = Some (user_ID u)
        \<and> accounts_inv (hub_db (ps_hub p')) \<and> root_exists (hub_db (ps_hub p')) 1
        \<and> (\<forall>a \<in> set all_actions. occupied (hub_db (ps_hub p')) (user_ID u) a)
        \<and> (ia_Created c \<longrightarrow> created_admin argon2 (se_random E) (hub_db (ps_hub p)) c u))"
proof -
  from runWithLifecycle_Serving [OF run] obtain o1 d1 where
    s: "start_database argon2 (se_db E) (se_random E) (se_now E) (StorageRoot (configured cfg0 o1)) (hub_db (ps_hub p)) = (d1, Inr c)"
       "start_service E o1 (configured cfg0 o1) c (p\<lparr>ps_hub := (ps_hub p)\<lparr>hub_db := d1\<rparr>\<rparr>) = (p', Serving c ul dl am)"
    by blast
  from start_database_leaves [OF s(1) inv(2,3)] obtain u where
    u: "u \<in> set (db_users d1)" "db_bootstrap d1 = Some (user_ID u)" "accounts_inv d1" "root_exists d1 1"
      "\<forall>a \<in> set all_actions. occupied d1 (user_ID u) a" "starts_from (hub_db (ps_hub p)) d1"
      "ia_Created c \<longrightarrow> created_admin argon2 (se_random E) (hub_db (ps_hub p)) c u" by blast
  note sys = starts_from_system [OF u(6) inv(1) refl]
  let ?q = "open_hub (p\<lparr>ps_hub := (ps_hub p)\<lparr>hub_db := d1\<rparr>\<rparr>)"
  have "content_kept ((ps_hub p)\<lparr>hub_db := d1\<rparr>) (ps_hub ?q)"
    by (simp add: content_kept_def uploads_kept_def open_hub_def entries_def)
  then have q: "system_inv (ps_hub ?q)" by (rule system_inv_kept [OF sys(1)])
  from start_service_Serving(2) [OF s(2)] obtain n where r: "recovery_passes E o1 ?q = (p', n)" by blast
  note k = recovery_passes_kept [OF r q]
  have "hub_db (ps_hub ?q) = d1" by (simp add: open_hub_def)
  with k(2) have a: "accounts_kept d1 (hub_db (ps_hub p'))" by simp
  have "accounts_inv (hub_db (ps_hub p'))" "root_exists (hub_db (ps_hub p')) 1"
    "\<forall>a \<in> set all_actions. occupied (hub_db (ps_hub p')) (user_ID u) a"
    using a u(3-5) by (simp_all add: accounts_kept_def accounts_inv_def user_exists_def root_exists_def occupied_def)
  moreover have "accounts_grow (hub_db (ps_hub p)) (hub_db (ps_hub p'))"
    using sys(2) a by (simp add: accounts_grow_def accounts_kept_def)
  ultimately show ?thesis using k(1) a u(1,2,7) by (auto simp: accounts_kept_def)
qed

end
