(* ===== verification/Lifetime.thy ===== *)
theory Lifetime
  imports Command
begin

text \<open>
  The goroutines of the process (\<open>cmd/safefilehub/main.go\<close>, from line 241 on): the HTTP server and the
  goroutine that shuts it down (\<open>serveWithLifecycle\<close>), the checksum worker (\<open>startMD5Worker\<close>), and the
  deferred calls that close what the process opened, in the order in which Go runs them.
\<close>

section \<open>State\<close>

datatype serving = Listening | ServeEnded "err option" | Returned_with "err option"

datatype watcher = WaitingForEnd | ShuttingDown | WatcherGone

datatype worker_state = WorkerRuns | WorkerGone

datatype deferred_call = CloseArchives | StopWorker | CloseStore | CloseSessions | CloseRepo | CloseLog

text \<open>
  \<open>pr_cancelled\<close>: the lifecycle is over; \<open>pr_stopping\<close>: the worker's own context is cancelled;
  \<open>pr_pending\<close>: the deferred calls still to make.
\<close>

record process_run =
  pr_cancelled :: bool
  pr_serving :: serving
  pr_watcher :: watcher
  pr_worker :: worker_state
  pr_stopping :: bool
  pr_pending :: "deferred_call list"

definition deferred_calls :: "deferred_call list" where
  "deferred_calls = [CloseArchives, StopWorker, CloseStore, CloseSessions, CloseRepo, CloseLog]"

definition served_process :: process_run where
  "served_process =
     \<lparr>pr_cancelled = False, pr_serving = Listening, pr_watcher = WaitingForEnd, pr_worker = WorkerRuns,
      pr_stopping = False, pr_pending = deferred_calls\<rparr>"

section \<open>Steps\<close>

text \<open>The serving call: \<open>e\<close> is its error, none for \<open>http.ErrServerClosed\<close>, which only a shutdown gives.\<close>

definition serve_ends :: "err option \<Rightarrow> process_run \<Rightarrow> process_run option" where
  "serve_ends e p =
     (if pr_serving p = Listening \<and> (e \<noteq> None \<or> pr_watcher p \<noteq> WaitingForEnd)
      then Some (p\<lparr>pr_serving := ServeEnded e\<rparr>) else None)"

text \<open>The watcher takes one case of its select; a shutdown ends by itself or with its timeout.\<close>

definition watcher_steps :: "process_run \<Rightarrow> process_run option" where
  "watcher_steps p =
     (case pr_watcher p of
        WaitingForEnd \<Rightarrow>
          if pr_cancelled p then Some (p\<lparr>pr_watcher := ShuttingDown\<rparr>) else None
      | ShuttingDown \<Rightarrow> Some (p\<lparr>pr_watcher := WatcherGone\<rparr>)
      | WatcherGone \<Rightarrow> None)"

text \<open>\<open>serveDone\<close> is closed when the serving call has ended.\<close>

definition released :: "process_run \<Rightarrow> process_run option" where
  "released p =
     (if pr_watcher p = WaitingForEnd \<and> pr_serving p \<noteq> Listening
      then Some (p\<lparr>pr_watcher := WatcherGone\<rparr>) else None)"

definition serve_returns :: "process_run \<Rightarrow> process_run option" where
  "serve_returns p =
     (case pr_serving p of
        ServeEnded e \<Rightarrow> if pr_watcher p = WatcherGone then Some (p\<lparr>pr_serving := Returned_with e\<rparr>) else None
      | _ \<Rightarrow> None)"

text \<open>The worker's goroutine ends with an error of its own, or because its context is over.\<close>

definition worker_ends :: "bool \<Rightarrow> process_run \<Rightarrow> process_run option" where
  "worker_ends failed p =
     (if pr_worker p = WorkerRuns \<and> (failed \<or> pr_cancelled p \<or> pr_stopping p)
      then Some (p\<lparr>pr_worker := WorkerGone\<rparr>) else None)"

text \<open>One deferred call; the stop function cancels the worker and then waits for it.\<close>

definition close_next :: "process_run \<Rightarrow> process_run option" where
  "close_next p =
     (case (pr_serving p, pr_pending p) of
        (Returned_with e, StopWorker # cs) \<Rightarrow>
          if \<not> pr_stopping p then Some (p\<lparr>pr_stopping := True\<rparr>)
          else if pr_worker p = WorkerGone then Some (p\<lparr>pr_pending := cs\<rparr>) else None
      | (Returned_with e, c # cs) \<Rightarrow> Some (p\<lparr>pr_pending := cs\<rparr>)
      | _ \<Rightarrow> None)"

inductive process_step :: "process_run \<Rightarrow> process_run \<Rightarrow> bool" where
  signal: "\<not> pr_cancelled p \<Longrightarrow> process_step p (p\<lparr>pr_cancelled := True\<rparr>)"
| ends: "serve_ends e p = Some p' \<Longrightarrow> process_step p p'"
| watches: "watcher_steps p = Some p' \<Longrightarrow> process_step p p'"
| releases: "released p = Some p' \<Longrightarrow> process_step p p'"
| returns: "serve_returns p = Some p' \<Longrightarrow> process_step p p'"
| works: "worker_ends failed p = Some p' \<Longrightarrow> process_step p p'"
| closes: "close_next p = Some p' \<Longrightarrow> process_step p p'"

lemmas process_defs = serve_ends_def watcher_steps_def released_def serve_returns_def worker_ends_def close_next_def

section \<open>What holds at every moment\<close>

definition closed :: "deferred_call \<Rightarrow> process_run \<Rightarrow> bool" where
  "closed c p \<longleftrightarrow> c \<notin> set (pr_pending p)"

text \<open>
  The calls are made in their order and only after the server has returned, the watcher is gone by
  then, and the worker is gone before anything it uses is closed.
\<close>

definition process_inv :: "process_run \<Rightarrow> bool" where
  "process_inv p \<longleftrightarrow>
     (\<exists>made. deferred_calls = made @ pr_pending p)
     \<and> (pr_pending p \<noteq> deferred_calls \<or> pr_stopping p \<longrightarrow> (\<exists>e. pr_serving p = Returned_with e))
     \<and> ((\<exists>e. pr_serving p = Returned_with e) \<longrightarrow> pr_watcher p = WatcherGone)
     \<and> (closed StopWorker p \<longrightarrow> pr_worker p = WorkerGone)
     \<and> (pr_watcher p \<noteq> WaitingForEnd \<and> pr_serving p = Listening \<longrightarrow> pr_cancelled p)"

lemma process_inv_start: "process_inv served_process"
  by (simp add: process_inv_def served_process_def closed_def deferred_calls_def)

lemma close_next_inv:
  assumes inv: "process_inv p" and s: "close_next p = Some p'"
  shows "process_inv p'"
proof -
  obtain e c cs where p: "pr_serving p = Returned_with e" "pr_pending p = c # cs"
    using s by (auto simp: close_next_def split: serving.splits list.splits)
  from inv p obtain made where made: "deferred_calls = made @ c # cs" by (auto simp: process_inv_def)
  then have made': "\<exists>m. deferred_calls = m @ cs" by (intro exI [of _ "made @ [c]"]) simp
  show ?thesis
  proof (cases "c = StopWorker")
    case True
    with s p inv made made' show ?thesis
      by (auto simp: close_next_def process_inv_def closed_def split: if_splits)
  next
    case False
    with s p have p': "p' = p\<lparr>pr_pending := cs\<rparr>" by (cases c) (auto simp: close_next_def)
    have "StopWorker \<notin> set cs \<Longrightarrow> StopWorker \<notin> set (c # cs)" using False by auto
    with inv p p' made' show ?thesis by (auto simp: process_inv_def closed_def)
  qed
qed

lemma process_step_inv:
  assumes inv: "process_inv p" and s: "process_step p p'"
  shows "process_inv p'"
  using s
proof (cases rule: process_step.cases)
  case closes
  with inv show ?thesis by (rule close_next_inv)
qed (use inv in \<open>auto simp: process_inv_def closed_def serve_ends_def watcher_steps_def released_def serve_returns_def
      worker_ends_def split: if_splits watcher.splits serving.splits\<close>)

interpretation process_lifetime: invariant_system process_step process_inv
  by unfold_locales (rule process_step_inv)

lemma stopped_first:
  assumes "deferred_calls = made @ cs" and "CloseStore \<notin> set cs \<or> CloseRepo \<notin> set cs"
  shows "StopWorker \<notin> set cs"
proof -
  have "cs = drop (length made) deferred_calls" unfolding assms(1) by simp
  moreover have "length made \<le> 6" using arg_cong [OF assms(1), of length] by (simp add: deferred_calls_def)
  ultimately obtain n where n: "cs = drop n deferred_calls" "n \<le> 6" by blast
  then consider "n = 0" | "n = 1" | "n = 2" | "n = 3" | "n = 4" | "n = 5" | "n = 6" by linarith
  then show ?thesis using assms(2) unfolding n(1) by cases (simp_all add: deferred_calls_def)
qed

lemma inv_closed_in_order:
  assumes "process_inv p"
  shows "closed CloseStore p \<or> closed CloseRepo p \<Longrightarrow> pr_worker p = WorkerGone"
proof -
  from assms obtain made where "deferred_calls = made @ pr_pending p" by (auto simp: process_inv_def)
  then have "closed CloseStore p \<or> closed CloseRepo p \<Longrightarrow> closed StopWorker p"
    by (auto dest: stopped_first simp: closed_def)
  with assms show "closed CloseStore p \<or> closed CloseRepo p \<Longrightarrow> pr_worker p = WorkerGone"
    by (auto simp: process_inv_def)
qed

section \<open>The process ends\<close>

text \<open>Every step brings the process nearer to its end.\<close>

fun serving_rank :: "serving \<Rightarrow> nat" where
  "serving_rank Listening = 2"
| "serving_rank (ServeEnded e) = 1"
| "serving_rank (Returned_with e) = 0"

fun watcher_rank :: "watcher \<Rightarrow> nat" where
  "watcher_rank WaitingForEnd = 2"
| "watcher_rank ShuttingDown = 1"
| "watcher_rank WatcherGone = 0"

definition steps_left :: "process_run \<Rightarrow> nat" where
  "steps_left p =
     of_bool (\<not> pr_cancelled p) + serving_rank (pr_serving p) + watcher_rank (pr_watcher p)
     + of_bool (pr_worker p = WorkerRuns) + of_bool (\<not> pr_stopping p) + length (pr_pending p)"

lemma close_next_counts: "close_next p = Some p' \<Longrightarrow> steps_left p' < steps_left p"
proof -
  assume s: "close_next p = Some p'"
  then obtain c cs where p: "pr_pending p = c # cs"
    by (auto simp: close_next_def split: serving.splits list.splits)
  from s have "p' = p\<lparr>pr_pending := cs\<rparr> \<or> \<not> pr_stopping p \<and> p' = p\<lparr>pr_stopping := True\<rparr>"
    using p by (cases c) (auto simp: close_next_def split: serving.splits if_splits)
  with p show ?thesis by (auto simp: steps_left_def)
qed

lemma other_counts:
  "serve_ends e p = Some p' \<Longrightarrow> steps_left p' < steps_left p"
  "watcher_steps p = Some p' \<Longrightarrow> steps_left p' < steps_left p"
  "released p = Some p' \<Longrightarrow> steps_left p' < steps_left p"
  "serve_returns p = Some p' \<Longrightarrow> steps_left p' < steps_left p"
  "worker_ends failed p = Some p' \<Longrightarrow> steps_left p' < steps_left p"
proof -
  show "steps_left p' < steps_left p" if "serve_ends e p = Some p'"
    using that unfolding serve_ends_def steps_left_def by (clarsimp split: if_splits)
  show "steps_left p' < steps_left p" if "watcher_steps p = Some p'"
    using that unfolding watcher_steps_def steps_left_def by (clarsimp split: if_splits watcher.splits)
  show "steps_left p' < steps_left p" if "released p = Some p'"
    using that unfolding released_def steps_left_def by (clarsimp split: if_splits)
  show "steps_left p' < steps_left p" if "serve_returns p = Some p'"
    using that unfolding serve_returns_def steps_left_def by (clarsimp split: if_splits serving.splits)
  show "steps_left p' < steps_left p" if "worker_ends failed p = Some p'"
    using that unfolding worker_ends_def steps_left_def by (clarsimp split: if_splits)
qed

lemma step_counts: "process_step p p' \<Longrightarrow> steps_left p' < steps_left p"
  by (induction rule: process_step.induct)
    (simp add: steps_left_def, (erule other_counts close_next_counts)+)

text \<open>
  Once the server has ended or the lifecycle is over, the process does not get stuck before its last
  deferred call: the serving call, the watcher, the worker or the next call can go on.
\<close>

definition finished :: "process_run \<Rightarrow> bool" where
  "finished p \<longleftrightarrow> pr_pending p = [] \<and> pr_watcher p = WatcherGone \<and> pr_worker p = WorkerGone"

definition ending_now :: "process_run \<Rightarrow> bool" where
  "ending_now p \<longleftrightarrow> pr_cancelled p \<or> pr_serving p \<noteq> Listening"

lemma inv_finished:
  assumes "process_inv p" and "pr_pending p = []"
  shows "finished p"
  using assms by (auto simp: process_inv_def finished_def closed_def deferred_calls_def)

lemma never_stuck:
  assumes inv: "process_inv p" and e: "ending_now p" and n: "\<not> finished p"
  shows "\<exists>p'. process_step p p' \<and> ending_now p'"
proof (cases "pr_serving p")
  case Listening
  with e have c: "pr_cancelled p" by (simp add: ending_now_def)
  show ?thesis
  proof (cases "pr_watcher p")
    case WaitingForEnd
    with c have "watcher_steps p = Some (p\<lparr>pr_watcher := ShuttingDown\<rparr>)" by (simp add: watcher_steps_def)
    from watches [OF this] c show ?thesis by (auto simp: ending_now_def)
  next
    case ShuttingDown
    with Listening have "serve_ends None p = Some (p\<lparr>pr_serving := ServeEnded None\<rparr>)" by (simp add: serve_ends_def)
    from ends [OF this] show ?thesis by (auto simp: ending_now_def)
  next
    case WatcherGone
    with Listening have "serve_ends None p = Some (p\<lparr>pr_serving := ServeEnded None\<rparr>)" by (simp add: serve_ends_def)
    from ends [OF this] show ?thesis by (auto simp: ending_now_def)
  qed
next
  case (ServeEnded x)
  show ?thesis
  proof (cases "pr_watcher p")
    case WaitingForEnd
    with ServeEnded have "released p = Some (p\<lparr>pr_watcher := WatcherGone\<rparr>)" by (simp add: released_def)
    from releases [OF this] ServeEnded show ?thesis by (auto simp: ending_now_def)
  next
    case ShuttingDown
    then have "watcher_steps p = Some (p\<lparr>pr_watcher := WatcherGone\<rparr>)" by (simp add: watcher_steps_def)
    from watches [OF this] ServeEnded show ?thesis by (auto simp: ending_now_def)
  next
    case WatcherGone
    with ServeEnded have "serve_returns p = Some (p\<lparr>pr_serving := Returned_with x\<rparr>)" by (simp add: serve_returns_def)
    from returns [OF this] show ?thesis by (auto simp: ending_now_def)
  qed
next
  case (Returned_with x)
  then have end_kept: "ending_now (p\<lparr>pr_pending := cs\<rparr>)" "ending_now (p\<lparr>pr_stopping := True\<rparr>)"
    "ending_now (p\<lparr>pr_worker := WorkerGone\<rparr>)" for cs by (simp_all add: ending_now_def)
  obtain c cs where pend: "pr_pending p = c # cs" using n inv_finished [OF inv] by (cases "pr_pending p") auto
  show ?thesis
  proof (cases "c = StopWorker \<and> pr_stopping p \<and> pr_worker p \<noteq> WorkerGone")
    case True
    then have "pr_worker p = WorkerRuns" by (cases "pr_worker p") auto
    with True have "worker_ends False p = Some (p\<lparr>pr_worker := WorkerGone\<rparr>)" by (simp add: worker_ends_def)
    from works [OF this] end_kept show ?thesis by blast
  next
    case False
    then have "close_next p \<in> {Some (p\<lparr>pr_pending := cs\<rparr>), Some (p\<lparr>pr_stopping := True\<rparr>)}"
      using Returned_with pend by (cases c) (auto simp: close_next_def)
    then obtain p' where "close_next p = Some p'" "ending_now p'" using end_kept by auto
    with closes show ?thesis by blast
  qed
qed

lemma ending_leads_to_end:
  assumes "process_inv p" and "ending_now p"
  shows "\<exists>q. run process_step p q \<and> finished q"
  using assms
proof (induction "steps_left p" arbitrary: p rule: less_induct)
  case less
  show ?case
  proof (cases "finished p")
    case True
    with run_refl [of process_step p] show ?thesis by blast
  next
    case False
    from never_stuck [OF less.prems False] obtain p' where s: "process_step p p'" "ending_now p'" by blast
    from less.hyps [OF step_counts [OF s(1)] process_step_inv [OF less.prems(1) s(1)] s(2)] s(1)
    obtain q where q: "run process_step p' q" "finished q" by blast
    have "run process_step p p'" by (rule run_step [where step = process_step, OF run_refl s(1)])
    from run_trans [OF q(1) this] q(2) show ?thesis by blast
  qed
qed

text \<open>A schedule has at most \<open>steps_left\<close> steps, whoever takes them.\<close>

lemma no_endless_run: "wfp (\<lambda>q p. process_step p q)"
  by (rule wfp_if_convertible_to_nat [where f = steps_left]) (rule step_counts)

end
