(* ===== verification/Sites.thy ===== *)
theory Sites
  imports Requests Admin ArchiveApi SiteApi Startup Lifetime
begin

text \<open>
  Concrete accounts, archives, branding images, starts, requests and logs for the witnesses, and the
  guard of the administrative endpoints.
\<close>

section \<open>Accounts and sessions\<close>

text \<open>A key derivation that pads the password to 32 bytes.\<close>

definition sample_kdf :: kdf where
  "sample_kdf password salt t m p n = take 32 (password @ replicate 32 (CHR ''x''))"

definition sample_salt :: string where
  "sample_salt = replicate 16 (CHR ''s'')"

definition sample_hash :: string where
  "sample_hash = (case HashPassword sample_kdf False sample_salt ''pw'' of Inl e \<Rightarrow> [] | Inr h \<Rightarrow> h)"

text \<open>Ann is the bootstrap administrator and logged in as \<open>s\<close>; Bob has id 2 and the session \<open>t\<close>.\<close>

definition sample_session_of :: "string \<Rightarrow> int \<Rightarrow> int \<Rightarrow> auth_session" where
  "sample_session_of i uid expiry = \<lparr>as_ID = i, as_UserID = uid, as_ExpiresAt = expiry\<rparr>"

definition sample_config :: session_config where
  "sample_config = \<lparr>sc_CookieName = [], sc_TTL = 0, sc_InsecureCookie = False, sc_SameSite = 0,
     sc_GCDeleteTimeout = 0, sc_ShutdownWaitTimeout = 0\<rparr>"

definition bob :: user_row where
  "bob = sample_user\<lparr>user_ID := 2, user_Username := ''bob'', user_PasswordHash := sample_hash\<rparr>"

definition sample_site :: site where
  "sample_site = \<lparr>si_db = sample_db\<lparr>db_users := [sample_user, bob], db_bootstrap := Some 1\<rparr>,
     si_sessions = NewSessionManager (Map.empty(''s'' \<mapsto> sample_session_of ''s'' 1 100, ''t'' \<mapsto> sample_session_of ''t'' 2 100))
       sample_config\<rparr>"

definition no_admin_faults :: admin_faults where
  "no_admin_faults = \<lparr>am_load = False, am_root = False, am_random = False, am_update = False, am_audit = False\<rparr>"

definition bob_disabled :: "site \<times> response" where
  "bob_disabled = setUserDisabled no_admin_faults 5 (\<lambda>k. k) (\<lambda>k. k) ''2'' (Some True) 1 sample_site"

lemma bob_disabled_204: "res_status (snd bob_disabled) = 204" "adminTargetID ''2'' = Some 2"
  by code_simp+

lemma bob_disabled_eq:
  "setUserDisabled no_admin_faults 5 (\<lambda>k. k) (\<lambda>k. k) ''2'' (Some True) 1 sample_site = (fst bob_disabled, snd bob_disabled)"
  by (simp add: bob_disabled_def)

text \<open>A manager with an expired session, whose collector runs.\<close>

definition collecting :: session_manager where
  "collecting = scheduleGC 50 (NewSessionManager (Map.empty(''s'' \<mapsto> sample_session_of ''s'' 1 100,
     ''t'' \<mapsto> sample_session_of ''t'' 2 10)) sample_config)"

section \<open>Archives\<close>

definition archive_options_2 :: archive_options where
  "archive_options_2 = \<lparr>op_Workers = 2, op_MaxFiles = 1000, op_MaxBytes = 2 ^ 30, op_TTL = 3600, op_TempDir = ''archives''\<rparr>"

definition empty_archives :: archive_manager where
  "empty_archives = \<lparr>ar_options = archive_options_2, ar_sending = [], ar_tasks = [], ar_building = [], ar_jobs = [],
     ar_files = [], ar_closed = False\<rparr>"

lemma empty_archives_new: "NewArchiveManager False archive_options_2 = Inr empty_archives"
  by (simp add: NewArchiveManager_def empty_archives_def archive_options_2_def)

definition no_archive_faults :: archive_faults where
  "no_archive_faults = \<lparr>cf_root = False, cf_files = False, cf_auth = (\<lambda>_. False), cf_random = False\<rparr>"

definition whole_root :: "archive_request option" where
  "whole_root = Some \<lparr>aq_Path = [], aq_FileIDs = []\<rparr>"

definition sample_archived :: "archive_manager \<times> response" where
  "sample_archived = createArchive id sample_policy no_archive_faults 5 ''ab'' Sent (\<lambda>k. k) (\<lambda>_. hub_db stored_hub)
     sample_ctx ''1'' whole_root (hub_db stored_hub) empty_archives"

text \<open>The steps of the job: registered, queued, taken by a worker, built.\<close>

definition sample_entries :: "archive_entry list" where
  "sample_entries = [entry_of stored_file]"

definition sample_reads :: "string \<Rightarrow> string \<Rightarrow> bool" where
  "sample_reads k c \<longleftrightarrow> c = ''hi''"

definition sample_events :: "string \<Rightarrow> member_events" where
  "sample_events k = \<lparr>me_cancelled = False, me_create_fails = False, me_open = Inr ''hi'', me_copy_fails = False,
     me_close_fails = False\<rparr>"

definition sample_zip :: "(string \<times> string) list \<Rightarrow> string" where
  "sample_zip ms = concat (map (\<lambda>(n, c). n @ '':'' @ c) ms)"

definition sample_ok :: "int \<Rightarrow> string \<Rightarrow> bool" where
  "sample_ok uid p \<longleftrightarrow> uid = 1 \<and> p = ''/a''"

definition sample_allow :: "string \<Rightarrow> err + bool" where
  "sample_allow p = Inr (p = ''/a'')"

definition archive_1 :: archive_manager where
  "archive_1 = fst (register_job False 5 ''ab'' 1 ''/'' sample_entries sample_allow empty_archives)"

definition archive_2 :: archive_manager where
  "archive_2 = fst (send_task Sent (hex_encode ''ab'') archive_1)"

definition archive_3 :: archive_manager where
  "archive_3 = take_task (Some ''f'') archive_2"

definition archive_4 :: archive_manager where
  "archive_4 = finish_build sample_zip False False sample_events 0 archive_3"

lemma archive_run: "run (arch_step sample_ok sample_reads sample_zip) empty_archives archive_4"
proof -
  let ?S = "arch_step sample_ok sample_reads sample_zip"
  have 1: "?S empty_archives archive_1"
    unfolding archive_1_def
    by (rule as_register [OF surjective_pairing]) (simp_all add: empty_archives_def pending_def sample_allow_def sample_ok_def)
  have "can_send Sent archive_1" by code_simp
  then have 2: "?S archive_1 archive_2"
    unfolding archive_2_def by (rule as_send [OF _ surjective_pairing])
  have "int (length (ar_building archive_2)) < op_Workers (ar_options archive_2)" "ar_files archive_2 = []" by code_simp+
  then have 3: "?S archive_2 archive_3"
    unfolding archive_3_def by (intro as_take) auto
  have 4: "?S archive_3 archive_4"
    unfolding archive_4_def by (rule as_finish) (simp add: sample_events_def sample_reads_def)
  have "run ?S empty_archives archive_1" using 1 by (rule run_step [OF run_refl])
  then have "run ?S empty_archives archive_2" using 2 by (rule run_step)
  then have "run ?S empty_archives archive_3" using 3 by (rule run_step)
  then show ?thesis using 4 by (rule run_step)
qed

section \<open>Branding\<close>

definition sample_decode :: "string \<Rightarrow> (string \<times> int \<times> int) option" where
  "sample_decode c = Some (''png'', 2, 2)"

lemma sample_decode_fits: "sides_fit sample_decode"
  by (simp add: sides_fit_def sample_decode_def)

definition no_site_faults :: site_faults where
  "no_site_faults = \<lparr>sf_put = \<lparr>pf_dir = False, pf_temp = False, pf_copy = False, pf_close = False, pf_reopen = False,
       pf_random = False, pf_rename = False, pf_chmod = False\<rparr>,
     sf_replace = False, sf_audit = False, sf_remove = False,
     sf_recover = \<lparr>rf_list = False, rf_ctx = (\<lambda>_. False), rf_remove = (\<lambda>_. False), rf_complete = (\<lambda>_. False)\<rparr>\<rparr>"

definition sample_branding :: branding where
  "sample_branding = \<lparr>br_db = sample_db,
     br_assets = \<lparr>ax_MaxBytes = max_asset_body, ax_MaxPixels = 20000000, ax_files = Map.empty\<rparr>\<rparr>"

definition upload_logo :: "string \<Rightarrow> string \<Rightarrow> branding \<Rightarrow> branding \<times> response" where
  "upload_logo random body b =
     uploadSiteAsset sample_decode no_site_faults 5 random (\<lambda>k. k) ''nav_logo'' ''image/png'' (body, False) 1 b"

definition branding_1 :: branding where
  "branding_1 = fst (upload_logo sample_random ''old'' sample_branding)"

definition branding_2 :: branding where
  "branding_2 = fst (resetSiteAsset False False (sf_recover no_site_faults) 6 ''nav_logo'' 1 branding_1)"

definition branding_3 :: branding where
  "branding_3 = fst (upload_logo (replicate 32 (CHR ''a'')) ''new'' branding_2)"

lemma branding_inv_sample: "branding_inv sample_branding"
  by (simp add: branding_inv_def sample_branding_def assets_inv_def sample_db_def sample_settings_def logos_def)

lemma branding_answers:
  "res_status (snd (upload_logo sample_random ''old'' sample_branding)) = 201"
  "res_status (snd (resetSiteAsset False False (sf_recover no_site_faults) 6 ''nav_logo'' 1 branding_1)) = 204"
  "res_status (snd (upload_logo (replicate 32 (CHR ''a'')) ''new'' branding_2)) = 201"
  by code_simp+

lemma branding_tables:
  "db_assets sample_db = []" "db_asset_cleanup sample_db = []"
  "db_assets (br_db branding_2) = []" "db_asset_cleanup (br_db branding_2) = []"
  "set_NavLogo (db_settings sample_db) = None"
  by code_simp+

section \<open>A start, a request, a log\<close>

definition start_random_1 :: start_random where
  "start_random_1 = \<lparr>rnd_name = replicate 24 (CHR ''n''), rnd_password = replicate 24 (CHR ''p''), rnd_salt = sample_salt\<rparr>"

definition quiet_start :: start_env where
  "quiet_start = \<lparr>se_cancelled = False, se_logFault = False, se_openFault = False, se_db = (\<lambda>_. False),
     se_random = start_random_1, se_now = 5, se_storeFault = False, se_recover = no_faults,
     se_recoverAt = (\<lambda>_. no_faults), se_assetsFault = False, se_assetFaults = sf_recover no_site_faults,
     se_jobsFault = False, se_tombstonesFault = False, se_jobFaults = (\<lambda>_. quiet_item),
     se_tombstoneFaults = (\<lambda>_. quiet_item), se_archiveFault = False\<rparr>"

definition sample_process :: process_state where
  "sample_process = \<lparr>ps_hub = empty_hub, ps_assets = br_assets sample_branding, ps_metrics = NewMetrics\<rparr>"

definition first_start :: "process_state \<times> outcome" where
  "first_start = runWithLifecycle sample_kdf quiet_start [''-recover-limit=0x10'', ''--log-format'', ''text''] Default sample_process"

lemma first_start_serves:
  "case snd first_start of Serving c ul dl am \<Rightarrow> ia_Created c | _ \<Rightarrow> False"
  by code_simp

lemma sample_process_ok:
  "system_inv (ps_hub sample_process)" "accounts_inv (hub_db (ps_hub sample_process))"
  "perms_ok (hub_db (ps_hub sample_process))"
proof -
  show "system_inv (ps_hub sample_process)" by (simp add: sample_process_def system_inv_samples)
  have d: "db_users (hub_db (ps_hub sample_process)) = [sample_user]" "db_bootstrap (hub_db (ps_hub sample_process)) = None"
    "db_roots (hub_db (ps_hub sample_process)) = [sample_root]"
    "db_perms (hub_db (ps_hub sample_process)) = [grant 1 ''read'', grant 2 ''write'', grant 3 ''delete'', grant 4 ''archive'']"
    by (simp_all add: sample_process_def empty_hub_def granted_def sample_db_def)
  then show "accounts_inv (hub_db (ps_hub sample_process))" by (simp add: accounts_inv_def)
  from d show "perms_ok (hub_db (ps_hub sample_process))"
    by (simp add: perms_ok_def root_exists_def sample_root_def grant_def)
qed

text \<open>A dry run, and what it does to an object that a cleanup job names.\<close>

definition pending_process :: process_state where
  "pending_process = sample_process\<lparr>ps_hub := \<lparr>hub_db = (hub_db empty_hub)\<lparr>db_cleanup :=
       [\<lparr>job_ObjectKey = object_key sample_random, job_Reason = [], job_CreatedAt = 1, job_UpdatedAt = 1\<rparr>]\<rparr>,
     hub_store = (hub_store empty_hub)\<lparr>st_objects := Map.empty(object_key sample_random \<mapsto> Regular ''hi'')\<rparr>\<rparr>\<rparr>"

definition dry_options :: maintenance_options where
  "dry_options = (default_options Default)\<lparr>mo_dryRun := True, mo_recoverOnly := True\<rparr>"

definition dry_passes :: "process_state \<times> next_step" where
  "dry_passes = recovery_passes quiet_start dry_options pending_process"

lemma dry_options_flags:
  "parseMaintenanceOptions [''-recover-only'', ''-recover-dry-run''] Default = Some dry_options"
  by code_simp

lemma dry_run_removes_an_object:
  "st_objects (hub_store (ps_hub pending_process)) (object_key sample_random) = Some (Regular ''hi'')"
  "st_objects (hub_store (ps_hub (fst dry_passes))) (object_key sample_random) = None"
  "db_cleanup (hub_db (ps_hub (fst dry_passes))) = []"
  by code_simp+

text \<open>Bob, who is no administrator, asks to disable an account.\<close>

definition bob_request :: request_env where
  "bob_request = \<lparr>en_now = 5, en_cookie = Some ''t'', en_key = (\<lambda>_. \<lparr>key_User = ''2'', key_IP = ''1.1.1.1''\<rparr>),
     en_cancelled = False, en_admins = [], en_userFault = False, en_bootFault = False\<rparr>"

definition sample_server :: "nat server" where
  "sample_server = \<lparr>sv_site = sample_site,
     sv_uploads = \<lparr>ul_global = 0, ul_cap = 1, ul_perUser = 1, ul_perIP = 1, ul_users = Map.empty, ul_ips = Map.empty\<rparr>,
     sv_downloads = \<lparr>dl_slots = 0, dl_cap = 1\<rparr>, sv_metrics = NewMetrics, sv_rest = 0\<rparr>"

definition counting :: "endpoint \<Rightarrow> int option \<Rightarrow> nat server \<Rightarrow> nat server \<times> response" where
  "counting e uid st = (st\<lparr>sv_rest := Suc (sv_rest st)\<rparr>, reply 204 NoContent)"

text \<open>Addresses by their text, and the network of the proxies.\<close>

definition sample_net :: "(string, string) net_ops" where
  "sample_net = \<lparr>no_ParseIP = (\<lambda>s. if s \<in> set [''6.6.6.6'', ''1.1.1.1'', ''10.0.0.1'', ''10.0.0.2''] then Some s else None),
     no_String = (\<lambda>s. s), no_ParseCIDR = (\<lambda>s. if s = ''10.0.0.0/8'' then Some ''10.'' else None),
     no_Contains = (\<lambda>n i. has_prefix i n)\<rparr>"

definition forged_request :: http_request where
  "forged_request = \<lparr>hr_Method = ''GET'', hr_Path = ''/'', hr_RemoteAddr = ''10.0.0.1:80'',
     hr_XFF = [''6.6.6.6'' @ CHR '','' # join (CHR '','') [''1.1.1.1'', '' 10.0.0.2'']], hr_RealIP = [''6.6.6.6''],
     hr_PathValue = (\<lambda>_. [])\<rparr>"

text \<open>A log of three bytes that may hold four.\<close>

definition small_log :: rotating where
  "small_log = \<lparr>rw_base = ''log'', rw_maxBytes = 4, rw_retentionDays = 0, rw_backups = 1, rw_handle = Opened, rw_size = 3\<rparr>"

definition small_dir :: log_dir where
  "small_dir = [(''log'', \<lparr>lf_Content = ''abc'', lf_Mod = 1, lf_IsDir = False\<rparr>),
                (''log.0'', \<lparr>lf_Content = ''old'', lf_Mod = 0, lf_IsDir = False\<rparr>)]"

definition small_write :: "rotating \<times> log_dir \<times> nat \<times> err option" where
  "small_write = log_Write (\<lambda>_. False) None ''2'' 5 6 ''de'' small_log small_dir"

lemma small_log_inv: "log_inv small_log small_dir"
  by (simp add: log_inv_def small_log_def small_dir_def)

section \<open>The administrative guard\<close>

lemma admin_routes_are_guarded:
  assumes "guard_admin names flt bflt now cookie handler st = (st', resp)"
  shows "si_db st' = si_db st \<and> res_status resp \<in> {401, 403}
    \<or> (\<exists>v x u. cookie = Some v \<and> sm_store (si_sessions st) v = Some x \<and> now < as_ExpiresAt x
         \<and> u \<in> set (db_users (si_db st)) \<and> user_ID u = as_UserID x
         \<and> (db_bootstrap (si_db st) = Some (user_ID u) \<or> user_Username u \<in> set names)
         \<and> handler (user_ID u) st = (st', resp))"
  using assms
proof (cases rule: guard_admin_cases)
  case (ran v x u)
  then show ?thesis by blast
qed simp

section \<open>A process that was told to stop\<close>

text \<open>The lifecycle ends, the server is shut down and has returned; the worker still reads an object.\<close>

definition signalled_process :: process_run where
  "signalled_process =
     served_process\<lparr>pr_cancelled := True, pr_watcher := WatcherGone, pr_serving := Returned_with None\<rparr>"

lemma signalled_run: "run process_step served_process (the (close_next (the (close_next signalled_process))))"
proof -
  let ?p = served_process
  let ?p1 = "?p\<lparr>pr_cancelled := True\<rparr>"
  let ?p2 = "?p1\<lparr>pr_watcher := ShuttingDown\<rparr>"
  let ?p3 = "?p2\<lparr>pr_serving := ServeEnded None\<rparr>"
  let ?p4 = "?p3\<lparr>pr_watcher := WatcherGone\<rparr>"
  let ?p5 = "?p4\<lparr>pr_serving := Returned_with None\<rparr>"
  let ?p6 = "the (close_next ?p5)"
  have s1: "process_step ?p ?p1" by (rule process_step.signal) (simp add: served_process_def)
  have s2: "process_step ?p1 ?p2" by (rule watches) (simp add: watcher_steps_def served_process_def)
  have s3: "process_step ?p2 ?p3" by (rule ends [where e = None]) (simp add: serve_ends_def served_process_def)
  have s4: "process_step ?p3 ?p4" by (rule watches) (simp add: watcher_steps_def served_process_def)
  have s5: "process_step ?p4 ?p5" by (rule returns) (simp add: serve_returns_def served_process_def)
  have s6: "process_step ?p5 ?p6" by (rule closes) (simp add: close_next_def served_process_def deferred_calls_def)
  have s7: "process_step ?p6 (the (close_next ?p6))"
    by (rule closes) (simp add: close_next_def served_process_def deferred_calls_def)
  have e: "signalled_process = ?p5" by (simp add: signalled_process_def served_process_def)
  note r = run_refl [of process_step ?p]
  note r1 = run_step [where step = process_step, OF r s1]
  note r2 = run_step [where step = process_step, OF r1 s2]
  note r3 = run_step [where step = process_step, OF r2 s3]
  note r4 = run_step [where step = process_step, OF r3 s4]
  note r5 = run_step [where step = process_step, OF r4 s5]
  note r6 = run_step [where step = process_step, OF r5 s6]
  from run_step [where step = process_step, OF r6 s7] show ?thesis unfolding e .
qed

end
