(* ===== verification/Spec2Isabelle.thy ===== *)
theory Spec2Isabelle
  imports Sites
begin

text \<open>
  SafeFileHub: an HTTP service that stores files below one storage root, with resumable uploads,
  range downloads, ZIP archives, logical directories, per-path permissions, sessions and an
  administration of accounts and branding.  The program is the Go code below \<open>cmd/\<close> and \<open>internal/\<close>;
  this development is a model of it in HOL, one theory per component, and the theorems of this file
  are the properties of the program.

  The program and the theories.

  \<^item> Conventions.  \<open>Prelude\<close>: a string is its list of bytes, a fallible operation returns
    \<open>err + 'a\<close> or an optional error beside the new state, an \<open>int\<close> is kept at 64 bits by \<open>wrap64\<close>
    where it can overflow; the relation \<open>run\<close> of the reachable states of a step relation, and the
    locale \<open>invariant_system\<close> (a step relation and an invariant it keeps), which is interpreted for
    every transition system below.  \<open>GoText\<close>: decoding of UTF-8, trimming and folding.
  \<^item> Configuration (\<open>internal/config\<close>): \<open>Config\<close>.  Path policy (\<open>internal/pathpolicy\<close>): \<open>Pathpolicy\<close>.
    Permissions (\<open>internal/permission\<close>): \<open>Permission\<close>, with the specification that the most specific
    rule decides and a denial wins a tie.  Admission (\<open>internal/limits\<close>): \<open>Limits\<close>; the steps of
    \<open>TryAcquire\<close> and \<open>Release\<close> interleave, and the locale \<open>bounded_pool\<close> states what both limiters
    share.  Ranges (\<open>internal/download\<close>): \<open>Download\<close>.
  \<^item> The database (\<open>internal/db/repository.go\<close> and the migrations).  \<open>DbTypes\<close> has the rows, \<open>Db\<close> files
    and directories, \<open>DbUploads\<close> upload sessions, \<open>DbAdmin\<close> accounts, roots, permissions and audit
    events, \<open>DbSite\<close> settings and images, \<open>DbMd5\<close> the digest queue.  The database is one record of
    tables; constraints, foreign keys and triggers of the schema are guards of the operations, a
    transaction is one step, and a boolean argument says that the database fails.  \<open>Tables\<close> and \<open>DbInv\<close>
    have the lemmas on keyed tables and the invariant of the name space.
  \<^item> The object store (\<open>internal/storage/objects_unix.go\<close>): \<open>Storage\<close>, two directories as maps from
    names to what is there, and a fault for every system call.
  \<^item> Uploads (\<open>internal/upload/session.go\<close>): \<open>Upload\<close> has the operations, split where the code gives up
    its lock; \<open>UploadInv\<close> the invariant, \<open>UploadRun\<close> the interleavings, \<open>UploadSpec\<close> what the operations
    do.  \<open>UploadApi\<close> has the endpoints (\<open>httpapi/uploads.go\<close>).
  \<^item> Published files (\<open>httpapi/published.go\<close>, \<open>internal/publishedrecovery\<close>): \<open>Published\<close>,
    \<open>PublishedInv\<close>, \<open>PublishedRecover\<close>.  Listing (\<open>httpapi/files.go\<close>): \<open>Listing\<close>.  Downloads
    (\<open>httpapi/downloads.go\<close>): \<open>Transfers\<close>.  \<open>Http\<close> has what the handlers share.  \<open>System\<close> runs the
    upload manager, the handlers and the recovery over one database and store; \<open>Endpoints\<close> composes
    uploads with downloads.
  \<^item> Digests (\<open>internal/checksum\<close>): \<open>Checksum\<close>; the goroutines of a batch are an explicit schedule, and
    the locale \<open>task_runner\<close> says what a batch needs of its work.
  \<^item> Accounts (\<open>internal/auth\<close>, \<open>httpapi/server.go\<close>, \<open>httpapi/admin.go\<close>): \<open>Password\<close>, \<open>Sessions\<close>,
    \<open>Admin\<close>.
  \<^item> Archives (\<open>internal/archive\<close>, \<open>httpapi/archives.go\<close>): \<open>Archive\<close>, \<open>ArchiveInv\<close>, \<open>ArchiveApi\<close>.
  \<^item> Branding (\<open>internal/siteassets\<close>, \<open>httpapi/site_settings.go\<close>): \<open>AssetStore\<close>, \<open>SiteApi\<close>.
  \<^item> Around the handlers (\<open>httpapi/requestlog.go\<close>, \<open>observability.go\<close>, \<open>middleware.go\<close>, \<open>server.go\<close>,
    \<open>production.go\<close>, \<open>static.go\<close>, \<open>internal/metrics\<close>, \<open>internal/observability\<close>): \<open>RequestLog\<close> (who the
    client is, what is logged), \<open>Logger\<close>, \<open>Rotation\<close>, \<open>Metrics\<close>, \<open>Server\<close> (body limits, stalled uploads,
    readiness) and \<open>Routes\<close> (the route tables of all constructors, the matching of \<open>http.ServeMux\<close>, the
    chain of guards around every handler).
  \<^item> The command (\<open>cmd/safefilehub\<close>): \<open>Bootstrap\<close> (first administrator, root, permissions), \<open>Command\<close>
    (flags, recovery passes, start), \<open>Startup\<close> (what a start leaves) and \<open>Lifetime\<close> (the goroutines of
    the process and its shutdown).
  \<^item> \<open>Samples\<close>, \<open>Requests\<close> and \<open>Sites\<close> hold the concrete states on which the witnesses evaluate.

  What the theorems show.  Uploads: what is acknowledged is kept, what is completed is published
  whole and verified, failures can be resumed, and recovery leaves a consistent state.  Paths,
  permissions, ranges and admission: safety of accepted paths, refinement of the decision, the bounds
  of ranges and leases.  Files: the name space is kept by the database and by every
  interleaving in the system, creation is all or nothing, recovery finishes.  Handlers: listings,
  uploads, archives and administration are for those entitled to them.  Accounts, sessions, images,
  digests, audit: their invariants, and what a change leaves.  The service: a start leaves it ready,
  requests pass their guards, the log names the client and keeps its records, and the process shuts
  down.  Some theorems state what the code does where that is not what it means to do, and say so.

  Bounds and fuel.  Nothing here is cut off by fuel: loops recurse over the list they range over, and
  where the code loops until an event (the collector of sessions, the worker of
  digests) the recursion is over the events or decreases a measure.  Interleavings are runs of any
  length of step relations whose steps are the critical sections and system calls of the code.

  Parameters.  Code that is not in the repository is an argument: the Unicode normalisation
  \<open>norm.NFC\<close>, SHA-256, MD5 and Argon2id, random bytes, the decoders of PNG, JPEG and GIF, the ZIP
  format, the parsing of addresses and of HTTP dates, the quoting of JSON and of strings in logs, the
  texts of HTTP statuses.  Faults of the database, the file system and the network are arguments too,
  so that every theorem holds whatever fails, unless it says that nothing does.

  Not modelled.  The object store on Windows (\<open>objects_windows.go\<close>), a second implementation for
  development.  Opening the database and running the migrations (\<open>internal/db/db.go\<close>): the schema they
  leave is modelled, SQLite itself is not.  The load generator under \<open>bench/\<close>, the embedded pages, and
  the socket options of \<open>ServerTimeouts\<close>.  The decoding and encoding of JSON bodies and of cookies: a
  request is the decoded value or nothing, a response the value that is encoded.  What the standard
  logger prints at start.  Time is a number of nanoseconds that the caller supplies.
\<close>

section \<open>Uploads\<close>

text \<open>C1. Verified content is published.  When \<open>Complete\<close> returns without an error, however the
  rest of the system moved between its two critical sections (any run of steps that do not
  create this id again and do not fail to roll back a write), the published object
  holds exactly the bytes of the part as it was when \<open>Complete\<close> was called, one new active file
  row names that object with that size, the session and the part are gone, and a given checksum
  is the SHA-256 of those bytes.  The random key is not yet the key of an object.\<close>

theorem complete_publishes:
  assumes "upload_inv h"
    and "Complete sha256 F1 F2 olds1 olds2 now1 now2 txnow random env i expected h = (h', None)"
    and "\<forall>k. run (\<lambda>a b. \<exists>l. calm i l \<and> up_step l a b) k (env k)"
    and "fresh_key random h" and "\<forall>k. fresh_key random k \<longrightarrow> fresh_key random (env k)"
  shows "\<exists>s c row. sess h i = Some s \<and> part h i = Some (Regular c) \<and> up_Length s = int (length c)
    \<and> st_objects (hub_store h') (object_key random) = Some (Regular c)
    \<and> row \<in> set (db_files (hub_db h')) \<and> file_ObjectKey row = object_key random
    \<and> file_Size row = int (length c) \<and> file_DeleteState row = FileActive
    \<and> sess h' i = None \<and> part h' i = None
    \<and> (expected = [] \<or> hex_decode expected = Some (sha256 c))"
proof -
  have env: "sealed i c k \<Longrightarrow> sealed i c (env k)" for k c
    using calm_system.run_inv assms(3) by blast
  have fresh: "fresh_key random k \<Longrightarrow> fresh_key random (env k)" for k
    using assms(5) by simp
  show ?thesis
    by (rule Complete_publishes [OF assms(1,2) env assms(4) fresh]) blast+
qed

lemma complete_publishes_witness:
  "\<exists>s c row. sess (sample_hub ''abc'') sample_id = Some s
    \<and> part (sample_hub ''abc'') sample_id = Some (Regular c) \<and> up_Length s = int (length c)
    \<and> st_objects (hub_store (fst (Complete (\<lambda>_. sample_random) no_faults no_faults [] [] 5 6 7
         sample_random (\<lambda>k. k) sample_id (hex_encode sample_random) (sample_hub ''abc''))))
         (object_key sample_random) = Some (Regular c)"
proof -
  let ?r = "Complete (\<lambda>_. sample_random) no_faults no_faults [] [] 5 6 7
    sample_random (\<lambda>k. k) sample_id (hex_encode sample_random) (sample_hub ''abc'')"
  have ok: "snd ?r = None" by code_simp
  show ?thesis
    using complete_publishes [of "sample_hub ''abc''" "\<lambda>_. sample_random" no_faults no_faults "[]" "[]"
        5 6 7 sample_random "\<lambda>k. k" sample_id "hex_encode sample_random" "fst ?r"]
      upload_inv_sample [of "''abc''"] fresh_sample ok
    by (auto simp: prod_eq_iff run_refl)
qed

text \<open>C2. The invariant of the upload subsystem.  In every state that any interleaving of creations,
  reads, writes, cancellations, completions and recoveries reaches, with any faults, from a state
  where it holds: ids and staging paths are unique, an acknowledged offset lies between 0 and the
  declared length, an active session whose part exists has at least the acknowledged bytes in a
  regular file, and every active file row names an object that is there.\<close>

theorem uploads_stay_consistent:
  assumes "run (\<lambda>a b. \<exists>l. up_step l a b) h h'" and "upload_inv h"
  shows "upload_inv h'"
  using assms by (rule upload_system.run_inv)

lemma uploads_stay_consistent_witness:
  "upload_inv (fst (Cancel no_faults [] 5 sample_id (sample_hub ''abc'')))"
proof -
  have "up_step Other (sample_hub ''abc'') (fst (Cancel no_faults [] 5 sample_id (sample_hub ''abc'')))"
    unfolding Cancel_def by (rule step_cleanup) (rule surjective_pairing)
  then have "run (\<lambda>a b. \<exists>l. up_step l a b) (sample_hub ''abc'')
      (fst (Cancel no_faults [] 5 sample_id (sample_hub ''abc'')))"
    by (blast intro: run.intros)
  then show ?thesis
    by (rule uploads_stay_consistent) (rule upload_inv_sample, simp)
qed



text \<open>C4. Chunked transfer is concatenation.  Sending the pieces of a byte string one after the other,
  each at the offset the previous write returned, acknowledges their total length, leaves the part
  holding what it held followed by all pieces in order, and touches no other session, file or
  object.\<close>

theorem chunks_concatenate:
  assumes "ready h i" and "sess h i = Some s" and "live now s" and "part h i = Some (Regular c)"
    and "up_Offset s = int (length c)"
    and "up_Offset s + int (length (concat ds)) \<le> up_Length s" and "up_Length s < max_int64"
  shows "\<exists>h' t. write_chunks now i (up_Offset s) ds h = (h', up_Offset s + int (length (concat ds)), None)
    \<and> part h' i = Some (Regular (c @ concat ds)) \<and> sess h' i = Some t \<and> live now t
    \<and> up_Offset t = up_Offset s + int (length (concat ds)) \<and> up_Length t = up_Length s
    \<and> up_LogicalPath t = up_LogicalPath s \<and> up_RootID t = up_RootID s
    \<and> ready h' i \<and> outside_same h h' \<and> frame i h h'"
  using assms by (rule write_chunks_quiet)

lemma chunks_concatenate_witness:
  "\<exists>h'. write_chunks 5 sample_id 1 [''b'', ''c''] (sample_hub ''a'') = (h', 3, None)
     \<and> part h' sample_id = Some (Regular ''abc'')"
  using chunks_concatenate [of "sample_hub ''a''" sample_id "sample_session 1" 5 "''a''" "[''b'', ''c'']"]
    ready_sample [of "''a''"] part_sample [of "''a''"]
  by (fastforce simp: sess_sample live_def sample_session_def max_int64_def)



text \<open>C6. A completion that fails leaves the upload resumable.  When \<open>Complete\<close> returns an error, the
  database, the objects and the part are as they were (for a rename that either did not happen or
  was followed by a working fsync, a restore that works, and a lock that is released).\<close>

theorem failed_complete_is_resumable:
  assumes "upload_inv h" and "fresh_key random h"
    and "Complete sha256 F1 F2 olds1 olds2 now1 now2 txnow random (\<lambda>k. k) i expected h = (h', Some e)"
    and "F2 PublishSite \<noteq> FaultAfter" "F2 RestoreSite \<noteq> FaultBefore" "F2 UnlockSite = NoFault"
  shows "hub_db h' = hub_db h \<and> st_objects (hub_store h') = st_objects (hub_store h)
    \<and> (id_ok i \<longrightarrow> part h' i = part h i)"
  using assms by (rule Complete_failure)

lemma failed_complete_is_resumable_witness:
  "part (fst (Complete (\<lambda>_. sample_random) no_faults (no_faults(CommitSite := FaultBefore)) [] [] 5 6 7
      sample_random (\<lambda>k. k) sample_id [] (sample_hub ''abc''))) sample_id = Some (Regular ''abc'')"
proof -
  let ?r = "Complete (\<lambda>_. sample_random) no_faults (no_faults(CommitSite := FaultBefore)) [] [] 5 6 7
      sample_random (\<lambda>k. k) sample_id [] (sample_hub ''abc'')"
  have e: "snd ?r = Some DbOther" by code_simp
  then have r: "?r = (fst ?r, Some DbOther)" by (metis prod.collapse)
  show ?thesis
    using failed_complete_is_resumable [OF _ fresh_sample r] upload_inv_sample [of "''abc''"]
      part_sample [of "''abc''"] id_ok_sample by (simp add: no_faults_def)
qed

text \<open>C7. Cancelling works from every state a session can be in.  Whatever its status, and whether the
  part exists or not, \<open>Cancel\<close> without faults succeeds and removes the row and the part of that
  session only.\<close>

theorem cancel_cleans_up:
  assumes "ready h i" and "sess h i = Some s" and "part h i \<noteq> Some Directory"
  shows "\<exists>h'. Cancel no_faults [] now i h = (h', None) \<and> sess h' i = None \<and> part h' i = None
    \<and> frame i h h' \<and> outside_same h h'"
  using assms by (rule Cancel_quiet)

lemma cancel_cleans_up_witness:
  "\<exists>h'. Cancel no_faults [] 500 sample_id (sample_hub ''a'') = (h', None) \<and> sess h' sample_id = None"
  using cancel_cleans_up [of "sample_hub ''a''" sample_id "sample_session 1" 500]
    ready_sample [of "''a''"] part_sample [of "''a''"]
  by (auto simp: sess_sample)



section \<open>Paths and permissions\<close>

text \<open>C9. The decision rule of \<open>Authorize\<close>.  For a canonical path, a known action (after trimming and
  lower-casing) and a permission table whose prefixes for that action are canonical, the loop over
  the permissions decides: some permission for the action covers the path, and among those with the
  longest prefix none denies.\<close>

theorem authorize_most_specific_deny_wins:
  assumes "canonicalPath nfc logicalPath policy = Inr logicalPath"
    and "action = to_lower (trim_space action0)" "known_action action"
    and "fetch userID rootID = Inr ps" and "prefixes_canonical nfc policy action ps"
  shows "Authorize nfc policy fetch userID rootID logicalPath action0
    = Inr (decide (relevant logicalPath action ps))"
  using assms by (rule Authorize_decide)

lemma authorize_most_specific_deny_wins_witness:
  "Authorize id sample_policy (\<lambda>_ _. Inr [sample_perm ''/a'' True, sample_perm ''/a/b'' False]) 1 1 ''/a/b/c'' ''READ ''
     = Inr False"
proof -
  have "Authorize id sample_policy (\<lambda>_ _. Inr [sample_perm ''/a'' True, sample_perm ''/a/b'' False]) 1 1 ''/a/b/c'' ''READ ''
    = Inr (decide (relevant ''/a/b/c'' ''read'' [sample_perm ''/a'' True, sample_perm ''/a/b'' False]))"
  proof (rule authorize_most_specific_deny_wins)
    show "''read'' = to_lower (trim_space ''READ '')" "known_action ''read''" by code_simp+
  qed (simp_all add: path_eval prefixes_canonical_def sample_perm_def)
  also have "decide (relevant ''/a/b/c'' ''read'' [sample_perm ''/a'' True, sample_perm ''/a/b'' False]) = False"
    by code_simp
  finally show ?thesis .
qed

text \<open>C10. Parsed paths are safe.  Whatever the bytes of a decoded path, an accepted one has only
  segments without traversal, separators of any platform, control bytes, trailing dots or spaces,
  drive prefixes and device names, and is the segments joined below the root.\<close>

theorem parsed_path_is_safe:
  assumes "ParseDecodedPath nfc d policy = Inr p"
  shows "(\<forall>s \<in> set (Segments p). safe_segment policy s)
    \<and> Canonical p = CHR ''/'' # join (CHR ''/'') (Segments p)"
  using assms Canonical_join [OF assms]
  by (cases rule: ParseDecodedPath_cases) (simp_all add: parseDecodedPath_safe)

lemma parsed_path_is_safe_witness: "safe_segment sample_policy ''b''"
proof -
  have "ParseDecodedPath id ''a/b'' sample_policy = Inr \<lparr>Canonical = ''/a/b'', Segments = [''a'', ''b'']\<rparr>"
    by (simp add: path_eval)
  from parsed_path_is_safe [OF this] show ?thesis by simp
qed

text \<open>C11. Canonical paths are fixed points: parsing the canonical form of an accepted path without its
  slash gives the same path back, for a normalisation that is idempotent and keeps valid text.\<close>

theorem canonical_path_reparses:
  assumes "nfc_laws nfc" and "ParseDecodedPath nfc d policy = Inr p"
  shows "canonicalPath nfc (Canonical p) policy = Inr (Canonical p)"
  using assms by (rule canonicalPath_parsed)

lemma canonical_path_reparses_witness:
  "nfc_laws id \<and> canonicalPath id ''/a/b'' sample_policy = Inr ''/a/b''"
proof -
  have laws: "nfc_laws id" by (simp add: nfc_laws_def)
  have "ParseDecodedPath id ''a/b'' sample_policy = Inr \<lparr>Canonical = ''/a/b'', Segments = [''a'', ''b'']\<rparr>"
    by (simp add: path_eval)
  from canonical_path_reparses [OF laws this] laws show ?thesis by simp
qed

section \<open>Limits, ranges and configuration\<close>

text \<open>C12. Upload admission never exceeds its bounds.  Whatever the order in which concurrent requests
  take slots, pass or fail the scoped check and release, the requests that hold or are about to
  return a slot never number more than the global bound, no user and no address holds more leases
  than its bound, and the counters are exactly the leases.\<close>

theorem admission_is_bounded:
  assumes "NewUploadLimiter g u i = Inr l" and "run ul_step (ul_init l) s"
  shows "int (size (waiting s) + size (leased s) + freeing s) \<le> g
    \<and> (\<forall>x. int (count (image_mset key_User (leased s)) x) \<le> u)
    \<and> (\<forall>x. int (count (image_mset key_IP (leased s)) x) \<le> i)
    \<and> ul_global (lim s) = size (waiting s) + size (leased s) + freeing s"
  using upload_admission.run_inv [OF assms(2) ul_inv_init [OF assms(1)]] ul_run_bounds [OF assms]
  by (auto simp: ul_inv_def)

lemma admission_is_bounded_witness:
  "\<exists>l s. NewUploadLimiter 1 1 1 = Inr l \<and> run ul_step (ul_init l) s \<and> size (waiting s) = 1
     \<and> int (size (waiting s) + size (leased s) + freeing s) \<le> 1"
proof -
  obtain l where l: "NewUploadLimiter 1 1 1 = Inr l" "ul_cap l = 1" "ul_global l = 0"
    by (simp add: NewUploadLimiter_def)
  obtain l' where "take_slot l = Inr l'" using l by (simp add: take_slot_def)
  then have "ul_step (ul_init l) ((ul_init l)\<lparr>lim := l', waiting := add_mset sample_key (waiting (ul_init l))\<rparr>)"
    by (intro grab) (simp add: ul_init_def)
  then have r: "run ul_step (ul_init l) ((ul_init l)\<lparr>lim := l', waiting := {#sample_key#}\<rparr>)"
    by (intro run_step [OF run_refl]) (simp add: ul_init_def)
  show ?thesis
    by (rule exI [of _ l], rule exI [of _ "(ul_init l)\<lparr>lim := l', waiting := {#sample_key#}\<rparr>"])
      (use admission_is_bounded [OF l(1) r] l(1) r in simp)
qed



section \<open>The metadata store\<close>

text \<open>C14. The name spaces stay disjoint and keys unique under every operation on files and
  directories: creation, both phases of deletion, direct deletion, directory creation and removal,
  and a rename to a path that is not a directory's.\<close>

theorem file_operations_keep_names:
  assumes "names_inv d"
  shows "names_inv (fst (CreateFile flt now d f)) \<and> names_inv (fst (BeginFileDelete flt now d i key))
    \<and> names_inv (fst (FinalizeFileDelete flt d i key)) \<and> names_inv (fst (DeleteFile flt d i))
    \<and> names_inv (fst (CreateDirectory flt now d x)) \<and> names_inv (fst (DeleteDirectory flt d i))
    \<and> ((\<forall>f \<in> set (db_files d). file_ID f = i \<longrightarrow> (file_RootID f, new) \<notin> dir_place ` set (db_dirs d))
         \<longrightarrow> names_inv (fst (RenameFile flt now d i old new)))"
proof (intro conjI impI)
  assume "\<forall>f \<in> set (db_files d). file_ID f = i \<longrightarrow> (file_RootID f, new) \<notin> dir_place ` set (db_dirs d)"
  then show "names_inv (fst (RenameFile flt now d i old new))"
    by (intro names_inv_RenameFile [OF assms prod.collapse [symmetric]]) blast
qed (rule names_inv_CreateFile names_inv_BeginFileDelete names_inv_FinalizeFileDelete names_inv_DeleteFile
       names_inv_CreateDirectory names_inv_DeleteDirectory, rule assms, rule prod.collapse [symmetric])+

lemma file_operations_keep_names_witness:
  "names_inv (fst (CreateDirectory False 5 sample_db sample_dir))"
  using file_operations_keep_names [of sample_db False 5 _ _ _ sample_dir]
  by (simp add: names_inv_def sample_db_def)


section \<open>The whole system\<close>

text \<open>C16. Uploads and published files together.  From any consistent state, every run of the
  operations of the upload manager and of the published file handlers, in any order, with any
  faults and any recovery between them, keeps both invariants: sessions match their parts, every
  active row names an object that exists, ids and object keys are unique, and no cleanup job names
  the object of an active file.  A new key is assumed not to be in use.\<close>

theorem system_stays_consistent:
  assumes "system_inv h" and "run system_step h h'"
  shows "upload_inv h' \<and> objects_inv h'"
  using whole_system.run_inv [OF assms(2,1)] by (simp add: system_inv_def)

lemma system_stays_consistent_witness:
  "upload_inv (fst (deleteFile id sample_policy quiet_request 6 sample_ctx ''1'' (created_hub ''hi'')))
   \<and> objects_inv (fst (deleteFile id sample_policy quiet_request 6 sample_ctx ''1'' (created_hub ''hi'')))"
proof (rule system_stays_consistent)
  show "system_inv empty_hub" by (simp add: system_inv_samples)
  have "published_step empty_hub (created_hub ''hi'')"
    using sample_created_eq [of "''hi''", unfolded sample_created_def] new_key_samples(1) by (rule ps_create)
  moreover have "published_step (created_hub ''hi'')
      (fst (deleteFile id sample_policy quiet_request 6 sample_ctx ''1'' (created_hub ''hi'')))"
    by (rule ps_delete [OF surjective_pairing])
  ultimately show "run system_step empty_hub
      (fst (deleteFile id sample_policy quiet_request 6 sample_ctx ''1'' (created_hub ''hi'')))"
    by (blast intro: run.intros request_step)
qed



section \<open>Published files\<close>

text \<open>C18. Creating a file, success and failure.  An answer of 201 means that the
  request was allowed and that there is exactly one new row, at the requested path, whose fresh
  object holds exactly the content.  Any other answer leaves the files and directories as they were, and
  an object that was written and not removed again is named by a cleanup job, unless recording
  the job or taking back a partial write failed too.\<close>

theorem create_file_all_or_nothing:
  assumes "createFile nfc policy F partial random now wc c req h = (h', resp)" and "length random = 32"
  shows "if res_status resp = 201
    then \<exists>r q uid. req = Some r \<and> ParseDecodedPath nfc (fr_Path r) policy = Inr q \<and> Canonical q \<noteq> ''/''
      \<and> may nfc policy (hub_db h) c uid (fr_RootID r) (Canonical q) ''write''
      \<and> created h (fr_RootID r) (Canonical q) (object_key random) (fr_Content r) uid h'
    else not_created F h (object_key random) h'"
  using assms by (rule createFile_effect)

lemma create_file_all_or_nothing_witness:
  "st_objects (hub_store (created_hub ''hi'')) (object_key sample_random) = Some (Regular ''hi'')"
proof -
  have "length sample_random = 32" by (simp add: sample_random_def)
  from create_file_all_or_nothing [OF sample_created_eq [unfolded sample_created_def] this, of "''hi''"]
  show ?thesis
    using sample_created_201 by (auto simp: created_def create_request_def simp flip: sample_created_def [unfolded create_request_def])
qed

text \<open>C19. Content that is not downloadable.  The row of a created file records size zero whatever
  its content, and a download requires the size of the row to be that of the object: content given
  at creation can be stored but not downloaded again.\<close>

theorem created_content_is_not_served:
  assumes "createFile nfc policy F partial random now wc c (Some r) h = (h', resp)" and "length random = 32"
    and "res_status resp = 201" and "fr_Content r \<noteq> []" and "objects_inv h" and "new_key random h"
    and "f \<in> set (db_files (hub_db h'))" and "file_ObjectKey f = object_key random"
    and "parse_int64 fileID = Some (file_ID f)"
  shows "res_status (downloadFile nfc' policy' sha256 fmt prs G mtime c' q fileID h') \<notin> {200, 206}"
proof -
  have "objects_inv h'" using assms(1,5,6) by (blast intro: createFile_inv)
  then show ?thesis
    using createFile_effect [OF assms(1,2)] assms(3,4,7-9) created_not_downloadable by fastforce
qed

lemma created_content_is_not_served_witness:
  "res_status (downloadFile id sample_policy (\<lambda>_. sample_random) (\<lambda>_. ''d'') (\<lambda>_. None) no_download_faults 0
      sample_ctx full_request ''1'' (created_hub ''hi'')) \<notin> {200, 206}"
proof -
  have "map (\<lambda>f. (file_ID f, file_ObjectKey f)) (db_files (hub_db (created_hub ''hi''))) = [(1, object_key sample_random)]"
    by code_simp
  then obtain f where f: "f \<in> set (db_files (hub_db (created_hub ''hi'')))" "file_ID f = 1"
    "file_ObjectKey f = object_key sample_random" by auto
  have i: "parse_int64 ''1'' = Some 1" by code_simp
  have r: "length sample_random = 32" by (simp add: sample_random_def)
  show ?thesis
    by (rule created_content_is_not_served [OF sample_created_eq [unfolded sample_created_def create_request_def] r
          sample_created_201 [unfolded sample_created_def create_request_def] _ objects_inv_empty new_key_samples(1) f(1,3)])
      (simp_all add: f i)
qed



text \<open>C21. A tombstone without an object never goes.  Once the object of a tombstone is missing, no
  number of recovery passes removes the row, and its path stays taken: every later creation at that
  path is refused.\<close>

theorem lost_tombstone_blocks_path:
  assumes "stuck f h" and "run recovery_pass h k"
    and "createFile nfc policy F partial random now wc c (Some r) k = (k', resp)" and "length random = 32"
    and "ParseDecodedPath nfc (fr_Path r) policy = Inr q" and "file_place f = (fr_RootID r, Canonical q)"
  shows "f \<in> set (db_files (hub_db k)) \<and> res_status resp \<noteq> 201"
  using stuck_path_taken [OF stuck_passes.run_inv [OF assms(2,1)] assms(3-6)] stuck_passes.run_inv [OF assms(2,1)]
  by (simp add: stuck_def)

lemma lost_tombstone_blocks_path_witness:
  "res_status (snd (createFile id sample_policy quiet_request [] (replicate 32 (CHR ''a'')) 9 True sample_ctx
      (create_request ''a'' ''new'')
      (fst (published_Recover False False (\<lambda>_. quiet_item) (\<lambda>_. quiet_item) 10 (deleting_hub FaultAfter))))) \<noteq> 201"
  (is "res_status (snd ?create) \<noteq> 201")
proof -
  let ?h = "deleting_hub FaultAfter"
  let ?k = "fst (published_Recover False False (\<lambda>_. quiet_item) (\<lambda>_. quiet_item) 10 ?h)"
  have "map (\<lambda>f. (file_DeleteState f, file_ObjectKey f, file_place f)) (db_files (hub_db ?h))
      = [(FileDeleting, object_key sample_random, 1, ''/a'')]"
    "st_objects (hub_store ?h) (object_key sample_random) = None" by code_simp+
  then obtain f where f: "stuck f ?h" "file_place f = (1, ''/a'')" by (auto simp: stuck_def)
  have run: "run recovery_pass ?h ?k"
    using pass [OF split_triple] by (blast intro: run.intros)
  have a: "ParseDecodedPath id ''a'' sample_policy = Inr \<lparr>Canonical = ''/a'', Segments = [''a'']\<rparr>" by code_simp
  have "?create = (fst ?create, snd ?create)" by (rule surjective_pairing)
  then show ?thesis
    unfolding create_request_def
    by (rule lost_tombstone_blocks_path [where q = "\<lparr>Canonical = ''/a'', Segments = [''a'']\<rparr>", OF f(1) run, THEN conjunct2]) (simp_all add: a f)
qed

section \<open>Listings and upload requests\<close>

text \<open>C22. A listing shows only what its reader may read.  Every entry of a 200 answer lies directly
  below the listed directory, is the path of a file or directory of that root, and both the
  directory and the entry are readable for the user of the session.\<close>

theorem listing_shows_readable:
  assumes "listFiles nfc policy F c rootID path d = resp" and "res_status resp = 200"
    and "res_body resp = Listing dir es" and "e \<in> set es"
  shows "\<exists>rid uid. parse_int64 rootID = Some rid \<and> session_user c = Some uid
    \<and> readable nfc policy d uid rid dir \<and> readable nfc policy d uid rid (le_Path e)
    \<and> isDirectChild dir (le_Path e) \<and> le_Path e = child_prefix dir @ le_Name e
    \<and> (if le_IsDirectory e then (rid, le_Path e) \<in> dir_place ` set (db_dirs d)
       else (rid, le_Path e) \<in> file_place ` set (db_files d))"
  using assms by (rule listing_entries)

lemma listing_shows_readable_witness:
  "readable id sample_policy (hub_db stored_hub) 1 1 ''/a''"
proof -
  let ?r = "listFiles id sample_policy \<lparr>lf_auth = False, lf_root = False, lf_files = False, lf_dirs = False,
    lf_entry = (\<lambda>_. False)\<rparr> sample_ctx ''1'' ''/'' (hub_db stored_hub)"
  let ?e = "\<lparr>le_Name = ''a'', le_Path = ''/a'', le_Size = 2, le_MD5Status = ''disabled'', le_MD5Digest = [],
    le_IsDirectory = False, le_ID = 1, le_UpdatedAt = 0\<rparr>"
  have r: "res_status ?r = 200" "res_body ?r = Listing ''/'' [?e]" by code_simp+
  have i: "parse_int64 ''1'' = Some 1" "session_user sample_ctx = Some 1" by code_simp+
  from listing_shows_readable [OF refl r, of ?e] i show ?thesis by simp
qed

text \<open>C23. Upload requests need entitlement.  A request on an upload session that is answered with a
  success status came from the owner of the session or from a user with the permission for the
  operation (read to see it, delete to cancel it, write to send bytes or to complete it), and the
  session had not expired.\<close>

theorem upload_requests_are_entitled:
  "(uploadState nfc policy A F F' olds now now' now'' mid del c i h = (h1, resp1) \<and> res_status resp1 \<in> {200, 204} \<longrightarrow>
     (\<exists>s. sess h i = Some s \<and> live now s
       \<and> entitled nfc policy (hub_db h) c s (if del then ''delete'' else ''read'')))
   \<and> (patchUpload nfc policy msg A F F' olds now now' now'' mid c i ct offset b h = (h2, resp2)
       \<and> res_status resp2 \<in> {200, 204} \<longrightarrow>
     (\<exists>s. sess h i = Some s \<and> live now s \<and> entitled nfc policy (hub_db h) c s ''write''))
   \<and> (completeUpload nfc policy sha256 A F F1 F2 olds1 olds2 now now' now1 now2 txnow random mid env c i
        checksum h = (h3, resp3) \<and> res_status resp3 \<in> {200, 204} \<longrightarrow>
     (\<exists>s. sess h i = Some s \<and> live now s \<and> entitled nfc policy (hub_db h) c s ''write''))"
  by (intro conjI impI; elim conjE)
    (erule (1) uploadState_entitled, erule (1) patchUpload_entitled, erule (1) completeUpload_entitled)

lemma upload_requests_are_entitled_witness:
  "\<exists>s. sess shared_hub sample_id = Some s \<and> live 5 s \<and> entitled id sample_policy (hub_db shared_hub) sample_ctx s ''delete''"
proof -
  let ?r = "uploadState id sample_policy \<lparr>af_auth = False, af_root = False, af_dest = False, af_get = False\<rparr>
    no_faults no_faults [] 5 5 6 (\<lambda>h. h) True sample_ctx sample_id shared_hub"
  have "res_status (snd ?r) \<in> {200, 204}" by code_simp
  then show ?thesis
    using upload_requests_are_entitled [THEN conjunct1, rule_format, of id sample_policy] surjective_pairing [of ?r] by fastforce
qed

section \<open>Accounts, site settings and digests\<close>

text \<open>C24. The bootstrap administrator stays.  Once recorded, no run of account operations (creating
  users, changing credentials, resetting the initial administrator, recording or creating a
  bootstrap administrator) replaces or forgets it, and its account keeps existing; user ids and
  names stay unique.\<close>

theorem bootstrap_admin_stays:
  assumes "accounts_inv d" and "db_bootstrap d = Some i" and "run account_step d d'"
  shows "accounts_inv d' \<and> db_bootstrap d' = Some i \<and> i \<in> user_ID ` set (db_users d')"
  using bootstrap.run_inv [OF assms(3), of i] assms(1,2)
  by (auto simp: administered_def accounts_inv_def user_exists_iff)

lemma bootstrap_admin_stays_witness:
  "db_bootstrap (fst (SetBootstrapAdmin False
     (fst (CreateUser False 1 (sample_db\<lparr>db_bootstrap := Some 1\<rparr>) (sample_user\<lparr>user_Username := ''bob''\<rparr>))) 2)) = Some 1"
proof -
  let ?d = "sample_db\<lparr>db_bootstrap := Some 1\<rparr>"
  let ?d1 = "fst (CreateUser False 1 ?d (sample_user\<lparr>user_Username := ''bob''\<rparr>))"
  have "account_step ?d ?d1" by (rule step_user [OF surjective_pairing])
  moreover have "account_step ?d1 (fst (SetBootstrapAdmin False ?d1 2))" by (rule step_set [OF surjective_pairing])
  ultimately have "run account_step ?d (fst (SetBootstrapAdmin False ?d1 2))" by (blast intro: run.intros)
  moreover have "accounts_inv ?d" by (simp add: accounts_inv_def sample_db_def sample_user_def user_exists_def)
  ultimately show ?thesis using bootstrap_admin_stays [of ?d 1] by simp
qed


text \<open>C26. The digest queue and the files agree.  From any consistent state, every run of claims,
  completions, failures, requeues and file operations keeps at most one task per file, every task
  names a file, the attempts within their bounds, and the status of each file determined by its
  task, with a well-formed digest whenever it is ready.\<close>

theorem digest_queue_stays_consistent:
  assumes "md5_inv d" and "run md5_step d d'"
  shows "md5_inv d' \<and> distinct (map task_FileID (db_tasks d'))
    \<and> (\<forall>f \<in> set (db_files d'). file_MD5Status f \<in> {MD5Disabled, MD5Pending, MD5Ready, MD5Failed}
         \<and> (file_MD5Status f = MD5Ready \<longrightarrow> valid_digest (file_MD5Digest f)))"
proof -
  have "md5_inv d'" using md5_queue.run_inv assms by blast
  then show ?thesis using status_enum by (fastforce simp: md5_inv_def)
qed

lemma digest_queue_stays_consistent_witness:
  "distinct (map task_FileID (db_tasks (fst (ClaimMD5Task False 6 queued_db))))"
proof -
  have "md5_step queued_db (fst (ClaimMD5Task False 6 queued_db))"
    by (rule md5_claim [OF surjective_pairing])
  then have "run md5_step queued_db (fst (ClaimMD5Task False 6 queued_db))" by (blast intro: run.intros)
  from digest_queue_stays_consistent [OF md5_inv_queued this] show ?thesis by simp
qed

text \<open>C27. A claimed task ends with the digest of the file.  Without faults, processing the claimed
  task of an active file stores, in the row of that file, the hex digest of exactly the content of
  its object, and the queue stays consistent.\<close>

theorem digest_is_of_the_content:
  assumes "md5_inv d" and "task_of d i = Some t" and "task_Status t = TaskComputing"
    and "f \<in> set (db_files d)" and "file_ID f = i" and "file_DeleteState f = FileActive"
    and "store_Open NoFault (file_ObjectKey f) store = Inr content" and "\<forall>x. length (md5 x) = 16"
  shows "\<exists>d'. process md5 msg no_task_faults now (\<lambda>d. d) store i d = (d', None) \<and> md5_inv d'
    \<and> (\<forall>g \<in> set (db_files d'). file_ID g = i \<longrightarrow>
         file_MD5Status g = MD5Ready \<and> file_MD5Digest g = hex_encode (md5 content))"
  using process_ready [OF assms(1-7)] assms(8) by blast

lemma digest_is_of_the_content_witness:
  "\<exists>d'. process (\<lambda>_. replicate 16 (CHR ''a'')) (\<lambda>_. []) no_task_faults 7 (\<lambda>d. d) (hub_store stored_hub) 1
      (fst (ClaimMD5Task False 6 queued_db)) = (d', None)"
proof -
  let ?d = "fst (ClaimMD5Task False 6 queued_db)"
  have "md5_inv queued_db" by (rule md5_inv_queued)
  then have inv: "md5_inv ?d" by (blast intro: md5_queue.step_inv md5_claim surjective_pairing)
  have "map_option task_Status (task_of ?d 1) = Some TaskComputing" by code_simp
  then obtain t where t: "task_of ?d 1 = Some t" "task_Status t = TaskComputing" by auto
  have "map (\<lambda>f. (file_ID f, file_DeleteState f, file_ObjectKey f)) (db_files ?d)
      = [(1, FileActive, object_key sample_random)]" by code_simp
  then obtain f where f: "f \<in> set (db_files ?d)" "file_ID f = 1" "file_DeleteState f = FileActive"
    "file_ObjectKey f = object_key sample_random" by auto
  have "store_Open NoFault (object_key sample_random) (hub_store stored_hub) = Inr ''hi''" by code_simp
  with f(4) have "store_Open NoFault (file_ObjectKey f) (hub_store stored_hub) = Inr ''hi''" by simp
  from digest_is_of_the_content [OF inv t f(1-3) this, of "\<lambda>_. replicate 16 (CHR ''a'')" "\<lambda>_. []" 7]
  show ?thesis by auto
qed

section \<open>Accounts\<close>

text \<open>C28. A disabled account is shut out.  Once \<open>setUserDisabled\<close> has answered that the account
  is disabled, no run of whole requests by others (logins, logouts, session checks, the collector, other
  administrative requests, password resets included; only enabling it again is excluded) lets it back:
  no cookie is accepted as a session of that user, and no password authenticates it.\<close>

theorem disabled_account_is_shut_out:
  assumes "setUserDisabled F now mid (\<lambda>k. k) userID (Some True) actor st = (st1, resp)"
    and "res_status resp = 204" and "adminTargetID userID = Some i"
    and "run (account_use i) st1 st2"
  shows "snd (requireSession now' cookie st2) \<noteq> Inr i
    \<and> (case Authenticate argon2 flt (si_db st2) name pw of Inl e \<Rightarrow> True | Inr u \<Rightarrow> user_ID u \<noteq> i)"
proof -
  have out: "shut_out i st2"
    by (rule shut.run_inv [OF assms(4) setUserDisabled_shut_out [OF assms(1-3)]])
  then show ?thesis
    using shut_out_refused [OF out] by (auto simp: shut_out_def disabled_out_def dest: Authenticate_Inr split: sum.splits)
qed

lemma disabled_account_is_shut_out_witness:
  "snd (requireSession 6 (Some ''t'') (fst bob_disabled)) \<noteq> Inr 2
   \<and> snd (requireSession 4 (Some ''t'') sample_site) = Inr 2"
proof
  show "snd (requireSession 6 (Some ''t'') (fst bob_disabled)) \<noteq> Inr 2"
    by (rule disabled_account_is_shut_out [OF bob_disabled_eq bob_disabled_204 run_refl, THEN conjunct1])
  show "snd (requireSession 4 (Some ''t'') sample_site) = Inr 2" by code_simp
qed

text \<open>C29. A login can outlive the disabling of its account.  When the password was checked before the
  account is disabled and the session is stored after its sessions were revoked, the login is answered
  with success, its cookie is accepted as a session of the user, and the account is disabled.\<close>

theorem login_outlives_disabling:
  assumes "Authenticate argon2 False (si_db st) name pw = Inr u" and "0 < user_ID u"
    and "setUserDisabled F now (\<lambda>k. k) (\<lambda>k. k) userID (Some True) actor st = (st1, resp1)"
    and "res_status resp1 = 204" and "adminTargetID userID = Some (user_ID u)"
    and "login argon2 False False now random (\<lambda>_. st1) (Some \<lparr>lg_Username = name, lg_Password = pw\<rparr>) st = (st', resp, c)"
    and "random \<noteq> []" and "0 < sc_TTL (sm_config (si_sessions st1))"
  shows "res_status resp = 204 \<and> requireSession now (map_option ck_Value c) st' = (st', Inr (user_ID u))
    \<and> (\<forall>v \<in> {v \<in> set (db_users (si_db st')). user_ID v = user_ID u}. user_Disabled v)"
  using login_races_disable [OF assms] by blast

lemma login_outlives_disabling_witness:
  "res_status (fst (snd (login sample_kdf False False 5 sample_random (\<lambda>_. fst bob_disabled)
     (Some \<lparr>lg_Username = ''bob'', lg_Password = ''pw''\<rparr>) sample_site))) = 204
   \<and> map user_Disabled (filter (\<lambda>u. user_ID u = 2) (db_users (si_db (fst bob_disabled)))) = [True]"
  (is "res_status (fst (snd ?l)) = _ \<and> _")
proof
  have auth: "(case Authenticate sample_kdf False (si_db sample_site) ''bob'' ''pw'' of Inl e \<Rightarrow> None | Inr u \<Rightarrow> Some (user_ID u)) = Some 2"
    by code_simp
  then obtain u where u: "Authenticate sample_kdf False (si_db sample_site) ''bob'' ''pw'' = Inr u" "user_ID u = 2"
    by (auto split: sum.splits)
  have ttl: "0 < sc_TTL (sm_config (si_sessions (fst bob_disabled)))" by code_simp
  have target: "adminTargetID ''2'' = Some (user_ID u)" using bob_disabled_204(2) u(2) by simp
  have l: "?l = (fst ?l, fst (snd ?l), snd (snd ?l))" by simp
  show "res_status (fst (snd ?l)) = 204"
    by (rule login_outlives_disabling [OF u(1) _ bob_disabled_eq bob_disabled_204(1) target l _ ttl, THEN conjunct1])
      (use u(2) in \<open>simp_all add: sample_random_def\<close>)
  show "map user_Disabled (filter (\<lambda>u. user_ID u = 2) (db_users (si_db (fst bob_disabled)))) = [True]" by code_simp
qed

text \<open>C30. A stored password verifies, and only it.  The text \<open>HashPassword\<close> stores is accepted by
  \<open>VerifyPassword\<close> for exactly the passwords to which the key derivation gives the same key under the
  same salt; in particular for the password itself.\<close>

theorem stored_password_verifies:
  assumes "HashPassword argon2 flt salt password = Inr encoded" and "length salt = 16"
    and "\<forall>q. length (argon2 q salt 3 65536 1 32) = 32"
  shows "VerifyPassword argon2 encoded password
    \<and> VerifyPassword argon2 encoded q = (argon2 q salt 3 65536 1 32 = argon2 password salt 3 65536 1 32)"
  using verify_hash [OF assms(1,2)] assms(3) by simp

lemma stored_password_verifies_witness:
  "VerifyPassword sample_kdf sample_hash ''pw'' \<and> \<not> VerifyPassword sample_kdf sample_hash ''qw''"
proof -
  obtain h where h: "HashPassword sample_kdf False sample_salt ''pw'' = Inr h"
    by (simp add: HashPassword_def Let_def)
  then have e: "sample_hash = h" by (simp add: sample_hash_def)
  have "sample_kdf ''qw'' sample_salt 3 65536 1 32 \<noteq> sample_kdf ''pw'' sample_salt 3 65536 1 32" by code_simp
  moreover have "\<forall>q. length (sample_kdf q sample_salt 3 65536 1 32) = 32" by (simp add: sample_kdf_def min_def)
  ultimately show ?thesis
    using stored_password_verifies [OF h, of "''qw''"] by (simp add: e sample_salt_def)
qed

text \<open>C31. The session collector ends.  Whatever order its passes visit the sessions in and whatever
  the others do between them, as long as they add no session that had expired when it was started, it
  stops within as many passes as there are full batches of 64 expired sessions, plus one, and then no
  session that had expired is left.\<close>

theorem session_collector_ends:
  assumes "sm_gc m = Some now" and "finite (expired now (sm_store m))" and "gc_turns_ok now turns m"
    and "card (expired now (sm_store m)) < 64 * length turns"
  shows "\<exists>m'. runGC turns m = Some m' \<and> sm_gc m' = None \<and> expired now (sm_store m') = {}"
  using assms by (rule runGC_ends)

lemma session_collector_ends_witness:
  "\<exists>m'. runGC [([''s'', ''t''], \<lambda>k. k)] collecting = Some m' \<and> sm_store m' ''t'' = None"
proof -
  have gc: "sm_gc collecting = Some 50" by (simp add: collecting_def scheduleGC_def NewSessionManager_def)
  have store: "sm_store collecting = Map.empty(''s'' \<mapsto> sample_session_of ''s'' 1 100, ''t'' \<mapsto> sample_session_of ''t'' 2 10)"
    by (simp add: collecting_def scheduleGC_def NewSessionManager_def)
  have exp: "expired 50 (sm_store collecting) = {''t''}"
    by (auto simp: expired_def store sample_session_of_def split: if_splits)
  have "sm_gc (gc_pass [''s'', ''t''] collecting) = None" by code_simp
  then have ok: "gc_turns_ok 50 [([''s'', ''t''], \<lambda>k. k)] collecting"
    by (auto simp: visits_def store Let_def)
  from session_collector_ends [OF gc _ ok] exp obtain m' where
    "runGC [([''s'', ''t''], \<lambda>k. k)] collecting = Some m'" by auto
  moreover from this have "sm_store m' = sm_store (gc_pass [''s'', ''t''] collecting)" by (auto simp: Let_def split: if_splits)
  moreover have "sm_store (gc_pass [''s'', ''t''] collecting) ''t'' = None" by code_simp
  ultimately show ?thesis by simp
qed

section \<open>Archives\<close>

text \<open>C32. An accepted archive is authorized.  When \<open>createArchive\<close> answers 202, it has queued a task
  under the id of the answer whose members are rows of the requested root, each of which the permission
  table, as read at the check of its path, lets the user of the session archive; there are no more
  members than the configured number, and the sizes in their rows add up to no more than the configured
  bytes.\<close>

theorem archive_members_are_authorized:
  assumes "createArchive nfc policy F now random c mid dbs ctx rootID req d m = (m', resp)" and "res_status resp = 202"
    and "0 \<le> op_MaxBytes (ar_options m)" and "op_MaxBytes (ar_options m) < 2 ^ 63"
    and "hex_encode random \<notin> fst ` set (ar_sending m)"
    and "\<forall>k. map_of (ar_sending (mid k)) (hex_encode random) = map_of (ar_sending k) (hex_encode random)"
  shows "\<exists>rid uid i es. parse_int64 rootID = Some rid \<and> session_user ctx = Some uid
    \<and> res_body resp = JobInfo i \<and> (i, es) \<in> set (ar_tasks m') \<and> es \<noteq> []
    \<and> int (length es) \<le> op_MaxFiles (ar_options m) \<and> sum_list (map en_Size es) \<le> op_MaxBytes (ar_options m)
    \<and> (\<forall>e \<in> set es. authorized nfc policy False (dbs (en_LogicalPath e)) uid rid (en_LogicalPath e) ''archive'' = Inr True
         \<and> (\<exists>f \<in> set (db_files d). file_RootID f = rid \<and> entry_of f = e))"
  by (rule createArchive_authorized [OF assms(1-5)]) (use assms(6) in blast)

lemma archive_members_are_authorized_witness:
  "\<exists>es. (hex_encode ''ab'', es) \<in> set (ar_tasks (fst sample_archived)) \<and> es \<noteq> []"
proof -
  have s: "res_status (snd sample_archived) = 202" "res_body (snd sample_archived) = JobInfo (hex_encode ''ab'')" by code_simp+
  from archive_members_are_authorized [OF surjective_pairing [of sample_archived, unfolded sample_archived_def]]
  show ?thesis
    using s by (fastforce simp: sample_archived_def empty_archives_def archive_options_2_def)
qed



section \<open>Branding\<close>



text \<open>C35. The URL of an image is used again.  When an image of a kind that had none is uploaded, reset,
  and another is uploaded, both have the same id and so the same URL, although the first was served with
  a header that lets browsers keep it for a year without asking; after each upload the endpoint serves the
  uploaded bytes.\<close>

theorem image_url_is_reused:
  assumes "branding_inv b" and "logo_of kind (db_settings (br_db b)) = None" and "sides_fit decode_config"
    and "ax_MaxBytes (br_assets b) = max_asset_body"
    and "uploadSiteAsset decode_config F1 now1 random1 (\<lambda>k. k) kind type1 body1 actor1 b = (b1, resp1)" and "res_status resp1 = 201"
    and "resetSiteAsset flt afail F2 now2 kind actor2 b1 = (b2, resp2)" and "res_status resp2 = 204"
    and "uploadSiteAsset decode_config F3 now3 random3 (\<lambda>k. k) kind type3 body3 actor3 b2 = (b3, resp3)" and "res_status resp3 = 201"
    and "length random1 = 32" and "length random3 = 32"
    and "\<forall>ext. asset_key random1 ext \<notin> asset_OpaqueKey ` set (db_assets (br_db b)) \<union> fst ` set (db_asset_cleanup (br_db b))"
    and "\<forall>ext. asset_key random3 ext \<notin> asset_OpaqueKey ` set (db_assets (br_db b2)) \<union> fst ` set (db_asset_cleanup (br_db b2))"
  shows "\<exists>i. logo_of kind (db_settings (br_db b1)) = Some i \<and> logo_of kind (db_settings (br_db b3)) = Some i
    \<and> res_body (serveSiteAssetID False False (\<lambda>k. k) False False i b1) = Data (fst body1)
    \<and> header_of ''Cache-Control'' (serveSiteAssetID False False (\<lambda>k. k) False False i b1) = Some ''public, max-age=31536000, immutable''
    \<and> res_body (serveSiteAssetID False False (\<lambda>k. k) False False i b3) = Data (fst body3)"
  by (rule url_reused [OF assms(1-12)]) (use assms(13,14) in blast)+

lemma image_url_is_reused_witness:
  "\<exists>i. res_body (serveSiteAssetID False False (\<lambda>k. k) False False i branding_1) = Data ''old''
     \<and> res_body (serveSiteAssetID False False (\<lambda>k. k) False False i branding_3) = Data ''new''"
proof -
  have none: "logo_of ''nav_logo'' (db_settings (br_db sample_branding)) = None"
    by (simp add: logo_of_def sample_branding_def branding_tables)
  note up1 = surjective_pairing [of "upload_logo sample_random ''old'' sample_branding", folded branding_1_def,
      unfolded upload_logo_def]
  note reset = surjective_pairing [of "resetSiteAsset False False (sf_recover no_site_faults) 6 ''nav_logo'' 1 branding_1",
      folded branding_2_def]
  note up3 = surjective_pairing [of "upload_logo (replicate 32 (CHR ''a'')) ''new'' branding_2", folded branding_3_def,
      unfolded upload_logo_def]
  from image_url_is_reused [OF branding_inv_sample none sample_decode_fits _ up1 branding_answers(1) [unfolded upload_logo_def]
      reset branding_answers(2) up3 branding_answers(3) [unfolded upload_logo_def]]
  show ?thesis by (auto simp: sample_branding_def branding_tables sample_random_def)
qed

section \<open>The service\<close>

text \<open>C36. A service that starts is ready.  When the command gets to serving, whatever failed on the
  way and whatever its flags, from consistent data and accounts, the data are consistent after
  the recovery passes; one user is recorded as the bootstrap administrator, root 1 exists, and the
  administrator has a row for each of the four actions at the top of it.  To the accounts, roots
  and permissions rows were only added, and no place that was taken, by an allow or by a deny, got
  another permission.  If credentials were printed they log in as that administrator.\<close>

theorem start_leaves_service_ready:
  assumes "runWithLifecycle argon2 E args cfg p = (p', Serving c ul dl am)"
    and "system_inv (ps_hub p)" and "d = hub_db (ps_hub p)" and "d' = hub_db (ps_hub p')"
    and "accounts_inv d" and "perms_ok d"
    and "length (rnd_salt (se_random E)) = 16"
    and "\<forall>q. length (argon2 q (rnd_salt (se_random E)) 3 65536 1 32) = 32"
  shows "system_inv (ps_hub p') \<and> accounts_grow d d'
    \<and> (\<exists>u \<in> set (db_users d'). db_bootstrap d' = Some (user_ID u) \<and> root_exists d' 1
        \<and> list_all (occupied d' (user_ID u)) all_actions
        \<and> (ia_Created c \<longrightarrow> Authenticate argon2 False d' (ia_Username c) (ia_Password c) = Inr u))"
proof -
  from serving_ready [OF assms(1,2)] assms(3-6) obtain u where
    u: "u \<in> set (db_users d')" "db_bootstrap d' = Some (user_ID u)" "accounts_inv d'" "root_exists d' 1"
      "\<forall>a \<in> set all_actions. occupied d' (user_ID u) a" "ia_Created c \<longrightarrow> created_admin argon2 (se_random E) d c u"
    and s: "system_inv (ps_hub p')" "accounts_grow d d'" by blast
  have "Authenticate argon2 False d' (ia_Username c) (ia_Password c) = Inr u" if "ia_Created c"
    by (rule printed_credentials [where d = d and rnd = "se_random E"]) (use u(1,3,6) assms(7,8) that in blast)+
  with u(1,2,4,5) s show ?thesis by (auto simp: list_all_iff)
qed

lemma start_leaves_service_ready_witness:
  "\<exists>u c ul dl am. snd first_start = Serving c ul dl am \<and> system_inv (ps_hub (fst first_start))
    \<and> Authenticate sample_kdf False (hub_db (ps_hub (fst first_start))) (ia_Username c) (ia_Password c) = Inr u
    \<and> db_bootstrap (hub_db (ps_hub (fst first_start))) = Some (user_ID u)"
proof -
  obtain c ul dl am where c: "snd first_start = Serving c ul dl am" "ia_Created c"
    using first_start_serves by (cases "snd first_start") simp_all
  then have r: "runWithLifecycle sample_kdf quiet_start [''-recover-limit=0x10'', ''--log-format'', ''text''] Default sample_process
      = (fst first_start, Serving c ul dl am)" by (simp add: first_start_def prod_eq_iff)
  have k: "length (rnd_salt (se_random quiet_start)) = 16"
    "\<forall>q. length (sample_kdf q (rnd_salt (se_random quiet_start)) 3 65536 1 32) = 32"
    by (auto simp: quiet_start_def start_random_1_def sample_salt_def sample_kdf_def min_def)
  from start_leaves_service_ready [OF r sample_process_ok(1) refl refl sample_process_ok(2,3) k] c show ?thesis by blast
qed

text \<open>C37. Every request passes its guards.  In the production server and in every other server the
  constructors build, whatever the method and path of a request and whatever the handlers do, either it is answered by the multiplexer or a guard and the data are untouched,
  or it reached the handler of its route and was entitled to it: the route is public, or the
  cookie is that of a session that has not expired, whose user it acts for; and for the
  administrative routes that user is the bootstrap administrator or a configured one.\<close>

theorem requests_are_guarded:
  assumes "built c" and "serve_request en inner c m p st = (st', resp)"
  shows "same_data st st' \<and> res_status resp \<in> {301, 401, 403, 404, 405, 429}
    \<or> (\<exists>r uid. serve_mux (cp_routes c) m p = Inr r \<and> may_reach en st (snd (rt_Handler r)) uid
         \<and> reached (inner (snd (rt_Handler r))) uid st st' resp)"
  using assms(2) built_chains [OF assms(1)] by (rule serve_request_guarded)

lemma requests_are_guarded_witness:
  "same_data sample_server (fst (serve_request bob_request counting production ''PUT'' ''/api/admin/users/1/disabled'' sample_server))"
proof -
  have r: "map_option rt_Handler (case serve_mux (cp_routes production) ''PUT'' ''/api/admin/users/1/disabled'' of
      Inl x \<Rightarrow> None | Inr r \<Rightarrow> Some r) = Some ([Session, AdminOnly], DisableUser)" by code_simp
  have e: "\<not> may_reach bob_request sample_server DisableUser uid" for uid
    by (auto simp: may_reach_def live_session_def administrator_def public_endpoints_def admin_endpoints_def
        bob_request_def sample_server_def sample_site_def sample_session_of_def NewSessionManager_def bob_def sample_user_def)
  have b: "built production" by (simp add: built_def)
  from requests_are_guarded [OF b surjective_pairing, where en = bob_request and inner = counting and m = "''PUT''"
      and p = "''/api/admin/users/1/disabled''" and st = sample_server]
  show ?thesis using r e by auto
qed







end
